(* ===== verification/Prelude.thy ===== *)
theory Prelude
  imports Main
begin

text \<open>
  Shared vocabulary of the EnvVault development.

  Go values are represented directly: a Go \<open>string\<close> is a list of characters (bytes; the
  library functions \<open>strings.TrimSpace\<close> and \<open>strings.ToLower\<close> are modelled on ASCII), a function
  that returns \<open>(T, error)\<close> is a value of the sum \<open>'e + 'a\<close> (\<open>Inl\<close> the error), a loop that
  returns early on an error is \<open>mapE\<close>, \<open>filterE\<close> or \<open>foldE\<close>.  The collections \<open>result_simps\<close>
  and \<open>gostr\<close> hold the facts that the components' proofs share.
\<close>

named_theorems result_simps \<open>facts about results (sum values) and early-exit loops\<close>
named_theorems gostr \<open>facts about the Go string library functions\<close>

type_synonym str = string

section \<open>Results and early exits\<close>

definition bindE :: "'e + 'a \<Rightarrow> ('a \<Rightarrow> 'e + 'b) \<Rightarrow> 'e + 'b" where
  "bindE m f = (case m of Inl e \<Rightarrow> Inl e | Inr x \<Rightarrow> f x)"

lemma bindE_simps [simp]:
  "bindE (Inl e) f = Inl e"
  "bindE (Inr x) f = f x"
  by (simp_all add: bindE_def)

lemma bindE_Inr_iff [result_simps]:
  "bindE m f = Inr y \<longleftrightarrow> (\<exists>x. m = Inr x \<and> f x = Inr y)"
  by (cases m) auto

lemma bindE_Inl_iff [result_simps]:
  "bindE m f = Inl e \<longleftrightarrow> m = Inl e \<or> (\<exists>x. m = Inr x \<and> f x = Inl e)"
  by (cases m) auto

lemma bindE_InrE [elim]:
  assumes "bindE m f = Inr y"
  obtains x where "m = Inr x" "f x = Inr y"
  using assms by (cases m) auto

lemma bindE_cong [fundef_cong]:
  "m = m' \<Longrightarrow> (\<And>x. m' = Inr x \<Longrightarrow> f x = f' x) \<Longrightarrow> bindE m f = bindE m' f'"
  by (cases m') auto

definition checkE :: "bool \<Rightarrow> 'e \<Rightarrow> 'e + unit" where
  "checkE b e = (if b then Inr () else Inl e)"

lemma checkE_iff [result_simps]:
  "checkE b e = Inr u \<longleftrightarrow> b"
  "checkE b e = Inl e' \<longleftrightarrow> \<not> b \<and> e' = e"
  by (auto simp: checkE_def)

lemma checkE_simps [simp]: "checkE True e = Inr ()" "checkE False e = Inl e"
  by (simp_all add: checkE_def)

fun is_ok :: "'e + 'a \<Rightarrow> bool" where
  "is_ok (Inl e) = False"
| "is_ok (Inr x) = True"

lemma is_ok_iff: "is_ok r \<longleftrightarrow> (\<exists>x. r = Inr x)"
  by (cases r) auto

fun optE :: "'e \<Rightarrow> 'a option \<Rightarrow> 'e + 'a" where
  "optE e None = Inl e"
| "optE e (Some x) = Inr x"

lemma optE_iff [result_simps]:
  "optE e x = Inr y \<longleftrightarrow> x = Some y"
  "optE e x = Inl e' \<longleftrightarrow> x = None \<and> e' = e"
  by (cases x; auto)+

fun mapE :: "('a \<Rightarrow> 'e + 'b) \<Rightarrow> 'a list \<Rightarrow> 'e + 'b list" where
  "mapE f [] = Inr []"
| "mapE f (x # xs) = bindE (f x) (\<lambda>y. bindE (mapE f xs) (\<lambda>ys. Inr (y # ys)))"

lemma mapE_Inr_iff [result_simps]:
  "mapE f xs = Inr ys \<longleftrightarrow> list_all2 (\<lambda>x y. f x = Inr y) xs ys"
  by (induction xs arbitrary: ys)
    (auto simp: bindE_Inr_iff list_all2_Cons1)

lemma mapE_Inr_length: "mapE f xs = Inr ys \<Longrightarrow> length ys = length xs"
  by (simp add: mapE_Inr_iff list_all2_lengthD)

lemma mapE_Inr_all:
  "mapE f xs = Inr ys \<Longrightarrow> x \<in> set xs \<Longrightarrow> \<exists>y \<in> set ys. f x = Inr y"
  by (induction xs arbitrary: ys) (auto simp: bindE_Inr_iff)

lemma mapE_total: "(\<And>x. x \<in> set xs \<Longrightarrow> f x = Inr (g x)) \<Longrightarrow> mapE f xs = Inr (map g xs)"
  by (induction xs) auto

lemma mapE_cong [fundef_cong]:
  "xs = ys \<Longrightarrow> (\<And>x. x \<in> set ys \<Longrightarrow> f x = g x) \<Longrightarrow> mapE f xs = mapE g ys"
proof (induction ys arbitrary: xs)
  case Nil
  then show ?case by simp
next
  case (Cons y ys)
  then have "f y = g y" "mapE f ys = mapE g ys" by simp_all
  with Cons.prems(1) show ?case by simp
qed

fun filterE :: "('a \<Rightarrow> 'e + bool) \<Rightarrow> 'a list \<Rightarrow> 'e + 'a list" where
  "filterE p [] = Inr []"
| "filterE p (x # xs) = bindE (p x) (\<lambda>b. bindE (filterE p xs) (\<lambda>ys. Inr (if b then x # ys else ys)))"

lemma filterE_Inr_sound:
  "filterE p xs = Inr ys \<Longrightarrow> ys = filter (\<lambda>x. p x = Inr True) xs \<and> (\<forall>x \<in> set xs. is_ok (p x))"
  by (induction xs arbitrary: ys) (auto simp: bindE_Inr_iff is_ok_iff split: if_splits)

fun foldE :: "('a \<Rightarrow> 's \<Rightarrow> 'e + 's) \<Rightarrow> 'a list \<Rightarrow> 's \<Rightarrow> 'e + 's" where
  "foldE f [] s = Inr s"
| "foldE f (x # xs) s = bindE (f x s) (foldE f xs)"

lemma foldE_append: "foldE f (xs @ ys) s = bindE (foldE f xs s) (foldE f ys)"
  by (induction xs arbitrary: s) (auto simp: bindE_def split: sum.splits)

lemma foldE_invariant:
  assumes "foldE f xs s = Inr t" "P s"
    and step: "\<And>x s t. x \<in> set xs \<Longrightarrow> P s \<Longrightarrow> f x s = Inr t \<Longrightarrow> P t"
  shows "P t"
  using assms by (induction xs arbitrary: s) (auto simp: bindE_Inr_iff)

section \<open>Lists\<close>

text \<open>First occurrences, in order: the "seen map" loops of the services.\<close>

fun dedupeAcc :: "'a list \<Rightarrow> 'a list \<Rightarrow> 'a list" where
  "dedupeAcc seen [] = []"
| "dedupeAcc seen (x # xs) =
     (if x \<in> set seen then dedupeAcc seen xs else x # dedupeAcc (x # seen) xs)"

definition dedupe :: "'a list \<Rightarrow> 'a list" where
  "dedupe xs = dedupeAcc [] xs"

lemma set_dedupeAcc: "set (dedupeAcc seen xs) = set xs - set seen"
  by (induction seen xs rule: dedupeAcc.induct) auto

lemma distinct_dedupeAcc: "distinct (dedupeAcc seen xs)"
  by (induction seen xs rule: dedupeAcc.induct) (auto simp: set_dedupeAcc)

lemma set_dedupe [simp]: "set (dedupe xs) = set xs"
  by (simp add: dedupe_def set_dedupeAcc)

lemma distinct_dedupe [simp]: "distinct (dedupe xs)"
  by (simp add: dedupe_def distinct_dedupeAcc)

lemma dedupeAcc_distinct:
  "distinct xs \<Longrightarrow> set xs \<inter> set seen = {} \<Longrightarrow> dedupeAcc seen xs = xs"
proof (induction xs arbitrary: seen)
  case (Cons x xs)
  then have "dedupeAcc (x # seen) xs = xs" by auto
  with Cons.prems show ?case by auto
qed simp

lemma dedupe_distinct [simp]: "distinct xs \<Longrightarrow> dedupe xs = xs"
  by (simp add: dedupe_def dedupeAcc_distinct)

lemma length_dedupeAcc_le: "length (dedupeAcc seen xs) \<le> length xs"
  by (induction seen xs rule: dedupeAcc.induct) auto

lemma length_dedupe_le: "length (dedupe xs) \<le> length xs"
  by (simp add: dedupe_def length_dedupeAcc_le)

lemma dedupe_Nil [simp]: "dedupe [] = []" by (simp add: dedupe_def)

definition findFirst :: "('a \<Rightarrow> bool) \<Rightarrow> 'a list \<Rightarrow> 'a option" where
  "findFirst p xs = (case filter p xs of [] \<Rightarrow> None | x # _ \<Rightarrow> Some x)"

lemma findFirst_Some: "findFirst p xs = Some x \<Longrightarrow> x \<in> set xs \<and> p x"
proof -
  assume "findFirst p xs = Some x"
  then obtain ys where "filter p xs = x # ys"
    by (auto simp: findFirst_def split: list.splits)
  then have "x \<in> set (filter p xs)" by simp
  then show ?thesis by simp
qed

lemma findFirst_None [simp]: "findFirst p xs = None \<longleftrightarrow> (\<forall>x \<in> set xs. \<not> p x)"
proof -
  have "findFirst p xs = None \<longleftrightarrow> filter p xs = []"
    by (auto simp: findFirst_def split: list.splits)
  then show ?thesis by (simp add: filter_empty_conv)
qed

lemma findFirst_simps [simp]:
  "findFirst p [] = None"
  "findFirst p (x # xs) = (if p x then Some x else findFirst p xs)"
  by (auto simp: findFirst_def)

lemma set_map_filter_iff: "y \<in> set (List.map_filter f xs) \<longleftrightarrow> (\<exists>x \<in> set xs. f x = Some y)"
  by (induction xs) (auto simp: List.map_filter_simps split: option.splits)

definition sliceFrom :: "nat \<Rightarrow> nat \<Rightarrow> 'a list \<Rightarrow> 'a list" where
  "sliceFrom offset limit xs = take limit (drop offset xs)"

lemma length_sliceFrom: "length (sliceFrom off lim xs) \<le> lim"
  by (simp add: sliceFrom_def)

lemma set_sliceFrom: "set (sliceFrom off lim xs) \<subseteq> set xs"
  unfolding sliceFrom_def by (meson in_set_dropD in_set_takeD subsetI)

section \<open>Go strings\<close>

definition isSpace :: "char \<Rightarrow> bool" where
  "isSpace c = (c \<in> {CHR 0x09, CHR 0x0A, CHR 0x0B, CHR 0x0C, CHR 0x0D, CHR '' ''})"

definition trimSpace :: "str \<Rightarrow> str" where
  "trimSpace s = rev (dropWhile isSpace (rev (dropWhile isSpace s)))"

lemma trimSpace_Nil [simp]: "trimSpace [] = []" by (simp add: trimSpace_def)

lemma dropWhile_all_iff: "(\<forall>c \<in> set (dropWhile P s). P c) \<longleftrightarrow> (\<forall>c \<in> set s. P c)"
proof
  assume a: "\<forall>c \<in> set (dropWhile P s). P c"
  have "dropWhile P s = []"
  proof (rule ccontr)
    assume ne: "dropWhile P s \<noteq> []"
    then have "hd (dropWhile P s) \<in> set (dropWhile P s)" by simp
    with a hd_dropWhile [OF ne] show False by blast
  qed
  then show "\<forall>c \<in> set s. P c" by (simp add: dropWhile_eq_Nil_conv)
qed (auto dest: set_dropWhileD)

lemma trimSpace_empty_iff [gostr]: "trimSpace s = [] \<longleftrightarrow> (\<forall>c \<in> set s. isSpace c)"
proof -
  have "trimSpace s = [] \<longleftrightarrow> (\<forall>c \<in> set (dropWhile isSpace s). isSpace c)"
    by (simp add: trimSpace_def dropWhile_eq_Nil_conv)
  also have "\<dots> \<longleftrightarrow> (\<forall>c \<in> set s. isSpace c)"
    by (rule dropWhile_all_iff)
  finally show ?thesis .
qed

lemma trimSpace_id:
  assumes "s \<noteq> [] \<Longrightarrow> \<not> isSpace (hd s)" "s \<noteq> [] \<Longrightarrow> \<not> isSpace (last s)"
  shows "trimSpace s = s"
proof (cases "s = []")
  case False
  then have "dropWhile isSpace s = s" using assms(1) by (cases s) auto
  moreover have "dropWhile isSpace (rev s) = rev s"
    using assms(2) False by (cases "rev s") (auto simp: last_rev hd_rev[symmetric])
  ultimately show ?thesis by (simp add: trimSpace_def)
qed simp

lemma trimSpace_hd: "trimSpace s \<noteq> [] \<Longrightarrow> \<not> isSpace (hd (trimSpace s))"
proof -
  assume ne: "trimSpace s \<noteq> []"
  define t where "t = dropWhile isSpace s"
  have t: "t \<noteq> [] \<Longrightarrow> \<not> isSpace (hd t)" unfolding t_def using hd_dropWhile by blast
  have "t \<noteq> []"
  proof
    assume "t = []"
    with ne show False by (simp add: trimSpace_def t_def [symmetric])
  qed
  obtain ws where "rev t = ws @ dropWhile isSpace (rev t)"
    by (metis takeWhile_dropWhile_id)
  then have "t = rev (dropWhile isSpace (rev t)) @ rev ws"
    by (metis rev_append rev_rev_ident)
  then have "hd t = hd (trimSpace s)"
    using ne unfolding trimSpace_def t_def[symmetric] by (metis hd_append2)
  with t \<open>t \<noteq> []\<close> show ?thesis by simp
qed

lemma trimSpace_last: "trimSpace s \<noteq> [] \<Longrightarrow> \<not> isSpace (last (trimSpace s))"
  by (simp add: trimSpace_def last_rev hd_dropWhile)

lemma trimSpace_idem [simp]: "trimSpace (trimSpace s) = trimSpace s"
  by (rule trimSpace_id) (auto dest: trimSpace_hd trimSpace_last)

lemma trimSpace_nospace: "\<forall>c \<in> set s. \<not> isSpace c \<Longrightarrow> trimSpace s = s"
  by (rule trimSpace_id) auto

definition blank :: "str \<Rightarrow> bool" where
  "blank s = (trimSpace s = [])"

lemma blank_Nil [simp]: "blank []" by (simp add: blank_def)

definition hasPrefix :: "str \<Rightarrow> str \<Rightarrow> bool" where
  "hasPrefix p s = (take (length p) s = p)"

lemma hasPrefix_iff [gostr]: "hasPrefix p s \<longleftrightarrow> (\<exists>t. s = p @ t)"
  by (auto simp: hasPrefix_def) (metis append_take_drop_id)

fun containsSub :: "str \<Rightarrow> str \<Rightarrow> bool" where
  "containsSub p [] = (p = [])"
| "containsSub p (c # s) = (hasPrefix p (c # s) \<or> containsSub p s)"

lemma containsSub_iff [gostr]: "containsSub p s \<longleftrightarrow> (\<exists>a b. s = a @ p @ b)"
proof (induction s)
  case (Cons c s)
  show ?case
  proof
    assume "containsSub p (c # s)"
    then show "\<exists>a b. c # s = a @ p @ b"
      using Cons.IH by (metis append_Cons append_Nil containsSub.simps(2) hasPrefix_iff)
  next
    assume "\<exists>a b. c # s = a @ p @ b"
    then obtain a b where ab: "c # s = a @ p @ b" by blast
    show "containsSub p (c # s)"
    proof (cases a)
      case Nil
      then have "hasPrefix p (c # s)" using ab by (auto simp: hasPrefix_iff)
      then show ?thesis by simp
    next
      case (Cons x xs)
      then have "s = xs @ p @ b" using ab by simp
      then show ?thesis using Cons.IH by auto
    qed
  qed
qed simp

definition containsChar :: "char \<Rightarrow> str \<Rightarrow> bool" where
  "containsChar c s = (c \<in> set s)"

definition lowerChar :: "char \<Rightarrow> char" where
  "lowerChar c = (let n = (of_char c :: nat) in if 65 \<le> n \<and> n \<le> 90 then char_of (n + 32) else c)"

definition toLower :: "str \<Rightarrow> str" where
  "toLower s = map lowerChar s"

lemma lowerChar_idem [simp]: "lowerChar (lowerChar c) = lowerChar c"
proof -
  have "of_char (char_of (n + 32) :: char) = n + 32" if "n \<le> 90" for n :: nat
    using that by simp
  then show ?thesis by (auto simp: lowerChar_def Let_def)
qed

lemma toLower_idem [simp]: "toLower (toLower s) = toLower s"
  by (simp add: toLower_def)

lemma length_toLower [simp]: "length (toLower s) = length s" by (simp add: toLower_def)

fun splitOn :: "char \<Rightarrow> str \<Rightarrow> str list" where
  "splitOn c [] = [[]]"
| "splitOn c (x # xs) =
     (if x = c then [] # splitOn c xs
      else (case splitOn c xs of [] \<Rightarrow> [[x]] | y # ys \<Rightarrow> (x # y) # ys))"

fun joinWith :: "char \<Rightarrow> str list \<Rightarrow> str" where
  "joinWith c [] = []"
| "joinWith c [x] = x"
| "joinWith c (x # y # ys) = x @ c # joinWith c (y # ys)"

lemma splitOn_ne [simp]: "splitOn c s \<noteq> []"
  by (cases s) (auto split: list.splits)

lemma splitOn_no_sep: "x \<in> set (splitOn c s) \<Longrightarrow> c \<notin> set x"
proof (induction s arbitrary: x)
  case (Cons a s)
  obtain y ys where "splitOn c s = y # ys" using splitOn_ne by (metis list.exhaust)
  with Cons show ?case by (auto split: if_splits)
qed simp

lemma splitOn_append_sep: "c \<notin> set x \<Longrightarrow> splitOn c (x @ c # s) = x # splitOn c s"
  by (induction x) auto

lemma splitOn_single: "c \<notin> set x \<Longrightarrow> splitOn c x = [x]"
  by (induction x) auto

lemma splitOn_joinWith [gostr]:
  "xs \<noteq> [] \<Longrightarrow> \<forall>x \<in> set xs. c \<notin> set x \<Longrightarrow> splitOn c (joinWith c xs) = xs"
  by (induction c xs rule: joinWith.induct) (auto simp: splitOn_append_sep splitOn_single)

lemma joinWith_splitOn [gostr]: "joinWith c (splitOn c s) = s"
proof (induction s)
  case (Cons a s)
  obtain y ys where e: "splitOn c s = y # ys" using splitOn_ne by (metis list.exhaust)
  with Cons show ?case by (cases ys) auto
qed simp

lemma joinWith_inj:
  "xs \<noteq> [] \<Longrightarrow> ys \<noteq> [] \<Longrightarrow> \<forall>x \<in> set xs. c \<notin> set x \<Longrightarrow> \<forall>x \<in> set ys. c \<notin> set x \<Longrightarrow>
   joinWith c xs = joinWith c ys \<longleftrightarrow> xs = ys"
  by (metis splitOn_joinWith)

section \<open>Character classes of the validation patterns\<close>

definition isDigitC :: "char \<Rightarrow> bool" where
  "isDigitC c = (let n = (of_char c :: nat) in 48 \<le> n \<and> n \<le> 57)"

definition isLowerC :: "char \<Rightarrow> bool" where
  "isLowerC c = (let n = (of_char c :: nat) in 97 \<le> n \<and> n \<le> 122)"

definition isUpperC :: "char \<Rightarrow> bool" where
  "isUpperC c = (let n = (of_char c :: nat) in 65 \<le> n \<and> n \<le> 90)"

end
