(* ===== verification/Domain.thy ===== *)
theory Domain
  imports Prelude
begin

text \<open>
  The business values of \<open>internal/domain\<close>: the entities of the resource tree, secrets and their
  ciphertexts, audit records, role bindings, cascade scopes and the pagination rule every list
  endpoint shares.  Timestamps are natural numbers, a nullable timestamp is an option.

  Errors are identified the way the callers identify them, with \<open>errors.Is\<close>: a constructor per
  sentinel error.  Wrapping with \<open>fmt.Errorf ("...%w")\<close> keeps the sentinel, so the text of a wrapped
  error is not kept; an error without a sentinel is \<open>ErrMsg\<close>, a driver error is \<open>ErrPg\<close> with its
  SQLSTATE.
\<close>

datatype goErr =
    ErrNotFound | ErrConflict | ErrPermissionDenied | ErrRand | ErrCancelled
  | ErrPg str | ErrMsg str | ErrCrypto | ErrCache
  | ErrInvalidArgument | ErrEmailAlreadyExists | ErrBadCredentials | ErrRateLimited
  | ErrMissingBearerToken | ErrMissingPublicKey | ErrInvalidPublicKey | ErrMissingPrivateKey
  | ErrInvalidPrivateKey | ErrInvalidUserID | ErrTokenRevoked | ErrInvalidPAT

section \<open>Entities\<close>

record entity =
  e_id :: str
  e_parent :: str
  e_code :: str
  e_name :: str
  e_comment :: str
  e_sort :: int
  e_createdBy :: str
  e_createdByLabel :: str
  e_updatedBy :: str
  e_updatedByLabel :: str
  e_createdAt :: nat
  e_updatedAt :: nat

record envSpec =
  es_code :: str
  es_name :: str
  es_comment :: str
  es_sort :: int

record secretCiphertext =
  sc_algorithm :: str
  sc_nonce :: "nat list"
  sc_data :: "nat list"

text \<open>The read model of a secret.  \<open>Values\<close> is a map from environment codes; it is kept as an
  association list because it is built by insertions and serialised.\<close>

record secret =
  sec_id :: str
  sec_orgId :: str
  sec_orgCode :: str
  sec_projectId :: str
  sec_projectCode :: str
  sec_envId :: str
  sec_envCode :: str
  sec_folderId :: str
  sec_folderCode :: str
  sec_key :: str
  sec_path :: str
  sec_value :: str
  sec_values :: "(str \<times> str) list"
  sec_comment :: str
  sec_version :: int
  sec_sort :: int
  sec_createdBy :: str
  sec_createdByLabel :: str
  sec_updatedBy :: str
  sec_updatedByLabel :: str
  sec_createdAt :: nat
  sec_updatedAt :: nat

record secretCacheRecord =
  scr_secret :: secret
  scr_cipher :: secretCiphertext

record listFilter =
  lf_env :: str
  lf_folder :: str
  lf_project :: str
  lf_keyword :: str

record accessToken =
  at_id :: str
  at_userId :: str
  at_name :: str
  at_prefix :: str
  at_expiresAt :: "nat option"
  at_lastUsedAt :: "nat option"
  at_createdAt :: nat

section \<open>Wire shapes built from maps\<close>

text \<open>\<open>json.Marshal\<close> of a map: the value under each key, the last write of a key wins.\<close>

datatype 'v wire = WStr str | WVal 'v | WNull

definition marshalSecretGroup :: "str \<Rightarrow> (str \<times> 'v) list \<Rightarrow> str \<rightharpoonup> 'v wire" where
  "marshalSecretGroup key envs =
     foldl (\<lambda>out (envCode, v). out(envCode \<mapsto> WVal v)) [''key'' \<mapsto> WStr key] envs"

record envSecretValue =
  ev_folderId :: str
  ev_value :: str
  ev_version :: int
  ev_comment :: str
  ev_id :: str
  ev_sort :: int
  ev_updatedAt :: nat

record secretAcrossEnvs =
  sa_projectCode :: str
  sa_key :: str
  sa_comment :: str
  sa_envs :: "(str \<times> envSecretValue option) list"

definition marshalSecretAcrossEnvs :: "secretAcrossEnvs \<Rightarrow> str \<rightharpoonup> envSecretValue wire" where
  "marshalSecretAcrossEnvs s =
     foldl (\<lambda>out (envCode, v). out(envCode \<mapsto> (case v of None \<Rightarrow> WNull | Some x \<Rightarrow> WVal x)))
       ((if sa_comment s \<noteq> [] then (\<lambda>m. m(''comment'' \<mapsto> WStr (sa_comment s))) else id)
         [''projectCode'' \<mapsto> WStr (sa_projectCode s), ''key'' \<mapsto> WStr (sa_key s)])
       (sa_envs s)"

section \<open>Role bindings\<close>

record user =
  u_id :: str
  u_ext :: str
  u_name :: str
  u_email :: str
  u_source :: str
  u_disabled :: bool
  u_lastSeenAt :: "nat option"
  u_hash :: str
  u_algo :: str
  u_tva :: "nat option"

record roleBinding =
  rb_id :: str
  rb_user :: user
  rb_roleId :: str
  rb_roleCode :: str
  rb_scopeType :: str
  rb_scopeId :: str
  rb_grantedBy :: str
  rb_expiresAt :: "nat option"
  rb_createdAt :: nat

record roleGrant =
  rg_userId :: str
  rg_roleType :: str
  rg_resourceType :: str
  rg_resourceId :: str
  rg_expiresAt :: "nat option"
  rg_grantedBy :: str
  rg_grantedAt :: nat

definition toGrant :: "roleBinding \<Rightarrow> roleGrant" where
  "toGrant b = \<lparr> rg_userId = u_id (rb_user b), rg_roleType = rb_roleCode b,
     rg_resourceType = rb_scopeType b, rg_resourceId = rb_scopeId b,
     rg_expiresAt = rb_expiresAt b, rg_grantedBy = rb_grantedBy b, rg_grantedAt = rb_createdAt b \<rparr>"

section \<open>Cascade scopes\<close>

record cascadeScope =
  cs_org :: str
  cs_projects :: "str list"
  cs_envs :: "str list"
  cs_folders :: "str list"
  cs_secrets :: "str list"

definition emptyScope :: cascadeScope where
  "emptyScope = \<lparr> cs_org = [], cs_projects = [], cs_envs = [], cs_folders = [], cs_secrets = [] \<rparr>"

definition cascadeEmpty :: "cascadeScope \<Rightarrow> bool" where
  "cascadeEmpty c \<longleftrightarrow>
     length (cs_projects c) = 0 \<and> length (cs_envs c) = 0 \<and>
     length (cs_folders c) = 0 \<and> length (cs_secrets c) = 0"

section \<open>Trees\<close>

datatype treeNodeType = NodeOrganization | NodeProject | NodeEnvironment | NodeFolder

datatype treeNode = TreeNode (tn_id: str) (tn_type: treeNodeType) (tn_level: int) (tn_parent: str)
  (tn_code: str) (tn_name: str) (tn_comment: str) (tn_children: "treeNode list")

record treeStats =
  st_orgs :: nat
  st_projects :: nat
  st_envs :: nat
  st_folders :: nat
  st_dropped :: nat
  st_orphans :: nat

record resourceTree =
  rt_roots :: "treeNode list"
  rt_stats :: treeStats
  rt_generatedAt :: nat
  rt_source :: str

record treeRequest =
  tq_includeOrphans :: bool
  tq_maxDepth :: int

record folderTreeEntry =
  fe_entity :: entity
  fe_level :: int
  fe_env :: str
  fe_parent :: str
  fe_project :: str

record folderInProject =
  fp_id :: str
  fp_code :: str
  fp_name :: str
  fp_comment :: str
  fp_level :: int
  fp_env :: str
  fp_envCode :: str
  fp_parent :: str
  fp_project :: str

record envRef =
  er_id :: str
  er_code :: str
  er_folderId :: str

record subFolderGroup =
  sf_id :: str
  sf_code :: str
  sf_name :: str
  sf_comment :: str
  sf_envList :: "envRef list"

record folderGroup =
  fg_id :: str
  fg_code :: str
  fg_name :: str
  fg_comment :: str
  fg_envList :: "envRef list"
  fg_subFolders :: "subFolderGroup list"

section \<open>Pagination\<close>

record pagination =
  pageNum :: int
  pageSize :: int

record 'a paginated =
  pg_items :: "'a list"
  pg_total :: nat

definition defaultPageSize :: int where "defaultPageSize = 20"
definition maxPageSize :: int where "maxPageSize = 100"

definition normalize :: "pagination \<Rightarrow> pagination" where
  "normalize p =
     (let p1 = (if pageNum p < 1 then p\<lparr>pageNum := 1\<rparr> else p);
          p2 = (if pageSize p1 \<le> 0 then p1\<lparr>pageSize := defaultPageSize\<rparr> else p1);
          p3 = (if pageSize p2 > maxPageSize then p2\<lparr>pageSize := maxPageSize\<rparr> else p2)
      in p3)"

definition offsetOf :: "pagination \<Rightarrow> int" where
  "offsetOf p = (pageNum (normalize p) - 1) * pageSize (normalize p)"

definition limitOf :: "pagination \<Rightarrow> int" where
  "limitOf p = pageSize (normalize p)"

lemma normalize_bounds:
  "1 \<le> pageNum (normalize p)" "1 \<le> pageSize (normalize p)" "pageSize (normalize p) \<le> 100"
  by (auto simp: normalize_def Let_def defaultPageSize_def maxPageSize_def)

lemma normalize_idem [simp]: "normalize (normalize p) = normalize p"
  by (auto simp: normalize_def Let_def defaultPageSize_def maxPageSize_def)

lemma offsetOf_nonneg: "0 \<le> offsetOf p"
  using normalize_bounds [of p] by (simp add: offsetOf_def)

lemma limitOf_bounds: "1 \<le> limitOf p" "limitOf p \<le> 100"
  using normalize_bounds [of p] by (simp_all add: limitOf_def)

text \<open>\<open>limit L offset O\<close> of a query, over the rows it selects in order.\<close>

definition pageOf :: "pagination \<Rightarrow> 'a list \<Rightarrow> 'a list" where
  "pageOf p xs = sliceFrom (nat (offsetOf p)) (nat (limitOf p)) xs"

definition paginate :: "pagination \<Rightarrow> 'a list \<Rightarrow> 'a paginated" where
  "paginate p xs = \<lparr> pg_items = pageOf p xs, pg_total = length xs \<rparr>"

lemma pageOf_subset: "set (pageOf p xs) \<subseteq> set xs"
  by (simp add: pageOf_def set_sliceFrom)

lemma length_pageOf: "length (pageOf p xs) \<le> nat (limitOf p)"
  by (simp add: pageOf_def length_sliceFrom)

lemma nat_offsetOf:
  "nat (offsetOf p) = nat (pageNum (normalize p) - 1) * nat (pageSize (normalize p))"
  using normalize_bounds [of p] by (simp add: offsetOf_def nat_mult_distrib)

lemma take_concat_pages:
  assumes "0 < l"
  shows "concat (map (\<lambda>i. sliceFrom (i * l) l xs) [0..<n]) = take (n * l) xs"
proof (induction n)
  case (Suc n)
  have "take (n * l) xs @ take l (drop (n * l) xs) = take (n * l + l) xs"
    by (simp add: take_add)
  with Suc show ?case by (simp add: sliceFrom_def add.commute)
qed simp

text \<open>Pagination partitions a listing: for a legal page size, the pages 1 to n of
  \<open>Offset\<close>/\<open>Limit\<close> are consecutive slices, and together they are exactly the rows of the listing
  up to the last page, each row once and in order.\<close>

theorem pages_cover:
  assumes "1 \<le> sz" "sz \<le> 100"
  shows "concat (map (\<lambda>i. pageOf \<lparr>pageNum = int i + 1, pageSize = sz\<rparr> xs) [0..<n]) =
         take (n * nat sz) xs"
proof -
  have "pageOf \<lparr>pageNum = int i + 1, pageSize = sz\<rparr> xs = sliceFrom (i * nat sz) (nat sz) xs" for i
    using assms
    by (simp add: pageOf_def offsetOf_def limitOf_def normalize_def Let_def maxPageSize_def
        nat_mult_distrib)
  with assms show ?thesis by (simp add: take_concat_pages)
qed

theorem pages_cover_witness:
  "concat (map (\<lambda>i. pageOf \<lparr>pageNum = int i + 1, pageSize = 2\<rparr> [1, 2, 3, 4, 5::nat]) [0..<2]) =
   [1, 2, 3, 4]"
  using pages_cover [of 2 "[1, 2, 3, 4, 5::nat]" 2] by simp

end
