(* ===== verification/Store.thy ===== *)
theory Store
  imports Domain "HOL-Library.List_Lexorder" "HOL-Library.Char_ord"
begin

text \<open>
  The PostgreSQL store behind \<open>internal/store/postgres\<close>: the tables of \<open>configs/schema.sql\<close> as lists
  of rows in insertion order, the constraints of the schema that the Go code relies on (code patterns,
  folder levels, foreign keys, partial unique indexes over active rows) and transactions.

  The process-side \<open>UserCache\<close>, the database clock \<open>now()\<close> and the supply of identifiers that
  \<open>id.NewUUID\<close> draws from are part of the state, so that every operation is a function.  The supply is
  arbitrary: a drawn identifier may collide with an existing one, in which case the primary key refuses
  the row.  Identifiers are opaque: the \<open>::uuid\<close> cast of a malformed identifier is not modelled.
\<close>

section \<open>Rows\<close>

datatype tab = Organizations | Projects | Environments | EnvironmentTemplates | Folders

text \<open>The tables are finitely many, so stores can be compared and searched by the library.\<close>

instantiation tab :: enum
begin

definition enum_tab :: "tab list" where
  "enum_tab = [Organizations, Projects, Environments, EnvironmentTemplates, Folders]"

definition enum_all_tab :: "(tab \<Rightarrow> bool) \<Rightarrow> bool" where
  "enum_all_tab P \<longleftrightarrow> P Organizations \<and> P Projects \<and> P Environments \<and> P EnvironmentTemplates \<and> P Folders"

definition enum_ex_tab :: "(tab \<Rightarrow> bool) \<Rightarrow> bool" where
  "enum_ex_tab P \<longleftrightarrow> P Organizations \<or> P Projects \<or> P Environments \<or> P EnvironmentTemplates \<or> P Folders"

instance
proof
  have univ: "(UNIV :: tab set) = {Organizations, Projects, Environments, EnvironmentTemplates, Folders}"
    using tab.exhaust by blast
  show "(UNIV :: tab set) = set enum_class.enum" by (simp add: univ enum_tab_def)
  show "distinct (enum_class.enum :: tab list)" by (simp add: enum_tab_def)
  show "enum_class.enum_all P \<longleftrightarrow> Ball UNIV P" for P :: "tab \<Rightarrow> bool"
    by (simp add: univ enum_all_tab_def)
  show "enum_class.enum_ex P \<longleftrightarrow> Bex UNIV P" for P :: "tab \<Rightarrow> bool"
    by (simp add: univ enum_ex_tab_def)
qed

end

record row =
  r_id :: str
  r_parent :: str
  r_code :: str
  r_name :: str
  r_comment :: str
  r_sort :: int
  r_folder :: "str option"
  r_level :: int
  r_deleted :: bool
  r_deletedBy :: str
  r_deletedAt :: "nat option"
  r_createdBy :: str
  r_updatedBy :: str
  r_createdAt :: nat
  r_updatedAt :: nat

record secretRow =
  s_id :: str
  s_folder :: str
  s_key :: str
  s_cipher :: secretCiphertext
  s_comment :: str
  s_version :: int
  s_deleted :: bool
  s_deletedBy :: str
  s_deletedAt :: "nat option"
  s_createdBy :: str
  s_updatedBy :: str
  s_createdAt :: nat
  s_updatedAt :: nat

datatype payload =
    NoPayload
  | CipherPayload secretCiphertext
  | EntriesPayload "(str \<times> str \<times> str) list"
  | KeysPayload "str list"
  | RevealPayload str "str list" "str list" nat "(str \<times> str) list"
  | RowSnapshot row
  | SecretSnapshot secretRow

record auditRow =
  a_id :: str
  a_actor :: str
  a_type :: str
  a_resource :: str
  a_action :: str
  a_payload :: payload
  a_createdAt :: nat

record deletedRow =
  d_id :: str
  d_type :: str
  d_resource :: str
  d_key :: str
  d_snapshot :: payload
  d_by :: str
  d_at :: nat

record permissionRow =
  p_id :: str
  p_code :: str
  p_resourceType :: str
  p_action :: str
  p_description :: str

record roleRow =
  ro_id :: str
  ro_code :: str
  ro_name :: str
  ro_description :: str
  ro_scopeType :: str
  ro_org :: "str option"
  ro_project :: "str option"
  ro_system :: bool
  ro_deleted :: bool

record bindingRow =
  b_id :: str
  b_user :: str
  b_role :: str
  b_scopeType :: str
  b_scope :: "str option"
  b_grantedBy :: str
  b_expires :: "nat option"
  b_deleted :: bool
  b_createdAt :: nat

record bindingAuditRow =
  ba_actor :: str
  ba_action :: str
  ba_target :: str
  ba_role :: str
  ba_scopeType :: str
  ba_scope :: "str option"

record tokenRow =
  t_id :: str
  t_user :: str
  t_name :: str
  t_hash :: str
  t_prefix :: str
  t_expires :: "nat option"
  t_lastUsed :: "nat option"
  t_createdAt :: nat
  t_deletedAt :: "nat option"

record store =
  tbl :: "tab \<Rightarrow> row list"
  secretsT :: "secretRow list"
  auditT :: "auditRow list"
  deletedT :: "deletedRow list"
  usersT :: "user list"
  permsT :: "permissionRow list"
  rolesT :: "roleRow list"
  rolePermsT :: "(str \<times> str) list"
  bindingsT :: "bindingRow list"
  bindAuditT :: "bindingAuditRow list"
  tokensT :: "tokenRow list"
  labelsC :: "(str \<times> str) list"
  clock :: nat
  ids :: "str list"

definition emptyStore :: store where
  "emptyStore = \<lparr> tbl = (\<lambda>_. []), secretsT = [], auditT = [], deletedT = [], usersT = [],
     permsT = [], rolesT = [], rolePermsT = [], bindingsT = [], bindAuditT = [], tokensT = [],
     labelsC = [], clock = 0, ids = [] \<rparr>"

definition setTbl :: "tab \<Rightarrow> row list \<Rightarrow> store \<Rightarrow> store" where
  "setTbl t xs st = st\<lparr>tbl := (tbl st)(t := xs)\<rparr>"

lemma tbl_setTbl [simp]: "tbl (setTbl t xs st) t' = (if t' = t then xs else tbl st t')"
  by (simp add: setTbl_def)

lemma setTbl_other [simp]:
  "secretsT (setTbl t xs st) = secretsT st" "auditT (setTbl t xs st) = auditT st"
  "deletedT (setTbl t xs st) = deletedT st" "usersT (setTbl t xs st) = usersT st"
  "bindingsT (setTbl t xs st) = bindingsT st" "labelsC (setTbl t xs st) = labelsC st"
  "clock (setTbl t xs st) = clock st" "ids (setTbl t xs st) = ids st"
  "rolesT (setTbl t xs st) = rolesT st" "permsT (setTbl t xs st) = permsT st"
  "rolePermsT (setTbl t xs st) = rolePermsT st" "bindAuditT (setTbl t xs st) = bindAuditT st" "tokensT (setTbl t xs st) = tokensT st"
  by (simp_all add: setTbl_def)

section \<open>Statements and transactions\<close>

text \<open>A statement reads and writes the store of its transaction and may fail; \<open>runTx\<close> is
  \<open>BeginTx\<close>, the statements, \<open>Commit\<close>, with the deferred \<open>Rollback\<close> on the error paths.\<close>

type_synonym 'a tx = "store \<Rightarrow> goErr + 'a \<times> store"

definition retT :: "'a \<Rightarrow> 'a tx" where "retT x st = Inr (x, st)"
definition failT :: "goErr \<Rightarrow> 'a tx" where "failT e st = Inl e"
definition bindT :: "'a tx \<Rightarrow> ('a \<Rightarrow> 'b tx) \<Rightarrow> 'b tx" where
  "bindT m f st = bindE (m st) (\<lambda>(x, st'). f x st')"

definition runTx :: "'a tx \<Rightarrow> store \<Rightarrow> (goErr + 'a) \<times> store" where
  "runTx m st = (case m st of Inl e \<Rightarrow> (Inl e, st) | Inr (x, st') \<Rightarrow> (Inr x, st'))"

fun mapT :: "('a \<Rightarrow> 'b tx) \<Rightarrow> 'a list \<Rightarrow> 'b list tx" where
  "mapT f [] = retT []"
| "mapT f (x # xs) = bindT (f x) (\<lambda>y. bindT (mapT f xs) (\<lambda>ys. retT (y # ys)))"

lemma bindT_Inr_iff [result_simps]:
  "bindT m f st = Inr (y, st2) \<longleftrightarrow> (\<exists>x st1. m st = Inr (x, st1) \<and> f x st1 = Inr (y, st2))"
  by (cases "m st") (auto simp: bindT_def)

definition getT :: "store tx" where "getT st = Inr (st, st)"

lemma getT_simp [simp]: "getT st = Inr (st, st)" by (simp add: getT_def)

lemma tx_simps [simp]: "retT x st = Inr (x, st)" "failT e st = Inl e"
  by (simp_all add: retT_def failT_def)

lemma bindT_simps [simp]:
  "m st = Inl e \<Longrightarrow> bindT m f st = Inl e"
  "m st = Inr (x, st1) \<Longrightarrow> bindT m f st = f x st1"
  by (simp_all add: bindT_def)

lemma runTx_Inl: "runTx m st = (Inl e, st') \<Longrightarrow> st' = st \<and> m st = Inl e"
  by (auto simp: runTx_def split: sum.splits prod.splits)

lemma runTx_Inr: "runTx m st = (Inr x, st') \<longleftrightarrow> m st = Inr (x, st')"
  by (auto simp: runTx_def split: sum.splits prod.splits)

lemma mapT_invariant:
  assumes "mapT f xs st = Inr (ys, st')" "P st"
    and "\<And>x s y s'. x \<in> set xs \<Longrightarrow> P s \<Longrightarrow> f x s = Inr (y, s') \<Longrightarrow> P s'"
  shows "P st'"
  using assms
proof (induction xs arbitrary: st ys)
  case (Cons a xs)
  from Cons.prems(1) obtain y st1 zs
    where a: "f a st = Inr (y, st1)" and r: "mapT f xs st1 = Inr (zs, st')"
    by (auto simp: bindT_Inr_iff)
  have "P st1" using Cons.prems(3) [OF _ Cons.prems(2) a] by simp
  from Cons.IH [OF r this] Cons.prems(3) show ?case by auto
qed simp

lemma mapT_length: "mapT f xs st = Inr (ys, st') \<Longrightarrow> length ys = length xs"
  by (induction xs arbitrary: st ys) (auto simp: bindT_Inr_iff)

text \<open>A transaction that keeps a predicate of the store; the rules follow the shape of the program.\<close>

named_theorems preserving \<open>rules for invariants of transactions\<close>

definition preserves :: "(store \<Rightarrow> bool) \<Rightarrow> 'a tx \<Rightarrow> bool" where
  "preserves P m \<longleftrightarrow> (\<forall>st x st'. P st \<longrightarrow> m st = Inr (x, st') \<longrightarrow> P st')"

lemma preservesI: "(\<And>st x st'. P st \<Longrightarrow> m st = Inr (x, st') \<Longrightarrow> P st') \<Longrightarrow> preserves P m"
  by (auto simp: preserves_def)

lemma preservesD: "preserves P m \<Longrightarrow> P st \<Longrightarrow> m st = Inr (x, st') \<Longrightarrow> P st'"
  by (auto simp: preserves_def)

lemma preserves_retT [preserving]: "preserves P (retT x)" by (simp add: preserves_def)
lemma preserves_failT [preserving]: "preserves P (failT e)" by (simp add: preserves_def)
lemma preserves_getT [preserving]: "preserves P getT" by (simp add: preserves_def)

lemma preserves_bindT [preserving]:
  "preserves P m \<Longrightarrow> (\<And>x. preserves P (f x)) \<Longrightarrow> preserves P (bindT m f)"
  unfolding preserves_def bindT_Inr_iff by blast

lemma preserves_mapT [preserving]:
  "(\<And>x. x \<in> set xs \<Longrightarrow> preserves P (f x)) \<Longrightarrow> preserves P (mapT f xs)"
  by (rule preservesI) (blast intro: mapT_invariant dest: preservesD)

lemma preserves_if [preserving]:
  "preserves P m \<Longrightarrow> preserves P m' \<Longrightarrow> preserves P (if b then m else m')" by simp

lemma preserves_option [preserving]:
  "preserves P m \<Longrightarrow> (\<And>x. preserves P (f x)) \<Longrightarrow> preserves P (case v of None \<Rightarrow> m | Some x \<Rightarrow> f x)"
  by (cases v) simp_all

lemma preserves_prod [preserving]:
  "(\<And>x y. preserves P (f x y)) \<Longrightarrow> preserves P (case v of (x, y) \<Rightarrow> f x y)"
  by (cases v) simp

lemma preserves_runTx: "preserves P m \<Longrightarrow> P st \<Longrightarrow> runTx m st = (r, st') \<Longrightarrow> P st'"
  by (auto simp: runTx_def dest: preservesD split: sum.splits prod.splits)

definition newUUID :: "str tx" where
  "newUUID st = (case ids st of [] \<Rightarrow> Inl ErrRand | i # rest \<Rightarrow> Inr (i, st\<lparr>ids := rest\<rparr>))"

lemma newUUID_Inr:
  "newUUID st = Inr (i, st') \<longleftrightarrow> (\<exists>rest. ids st = i # rest \<and> st' = st\<lparr>ids := rest\<rparr>)"
  by (auto simp: newUUID_def split: list.splits)

section \<open>Errors of the driver\<close>

definition pgUnique :: goErr where "pgUnique = ErrPg ''23505''"
definition pgForeignKey :: goErr where "pgForeignKey = ErrPg ''23503''"
definition pgCheck :: goErr where "pgCheck = ErrPg ''23514''"

definition translatePgErr :: "goErr \<Rightarrow> goErr" where
  "translatePgErr e = (case e of ErrPg c \<Rightarrow> if c = ''23505'' then ErrConflict else e | _ \<Rightarrow> e)"

definition translated :: "'a tx \<Rightarrow> 'a tx" where
  "translated m st = (case m st of Inl e \<Rightarrow> Inl (translatePgErr e) | Inr r \<Rightarrow> Inr r)"

lemma translated_Inr [result_simps]: "translated m st = Inr r \<longleftrightarrow> m st = Inr r"
  by (auto simp: translated_def split: sum.splits)

lemma preserves_translated [preserving]: "preserves P m \<Longrightarrow> preserves P (translated m)"
  by (simp add: preserves_def translated_Inr)

lemma preserves_newUUID: "(\<And>st i. P st \<Longrightarrow> P (st\<lparr>ids := i\<rparr>)) \<Longrightarrow> preserves P newUUID"
  by (auto simp: preserves_def newUUID_Inr)

section \<open>Constraints\<close>

text \<open>The check constraint \<open>code ~ '^[a-z0-9]+(-[a-z0-9]+)*$'\<close>.\<close>

definition codePattern :: "str \<Rightarrow> bool" where
  "codePattern s \<longleftrightarrow> list_all (\<lambda>p. p \<noteq> [] \<and> list_all (\<lambda>c. isLowerC c \<or> isDigitC c) p) (splitOn CHR ''-'' s)"

text \<open>The check constraint \<open>key ~ '^[A-Z][A-Z0-9_]*$'\<close>.\<close>

definition keyPattern :: "str \<Rightarrow> bool" where
  "keyPattern s \<longleftrightarrow> (case s of [] \<Rightarrow> False
     | c # cs \<Rightarrow> isUpperC c \<and> list_all (\<lambda>x. isUpperC x \<or> isDigitC x \<or> x = CHR ''_'') cs)"

definition levelCheck :: "row \<Rightarrow> bool" where
  "levelCheck r \<longleftrightarrow> (r_level r = 1 \<and> r_folder r = None) \<or> (r_level r = 2 \<and> r_folder r \<noteq> None)"

definition checkOk :: "tab \<Rightarrow> row \<Rightarrow> bool" where
  "checkOk t r \<longleftrightarrow> codePattern (r_code r) \<and> (t = Folders \<longrightarrow> levelCheck r)"

text \<open>The columns of the active-only unique index of each table.\<close>

definition indexKey :: "row \<Rightarrow> str \<times> str \<times> str" where
  "indexKey r = (r_parent r, (case r_folder r of None \<Rightarrow> [] | Some p \<Rightarrow> p), r_code r)"

definition fkOk :: "tab \<Rightarrow> row \<Rightarrow> store \<Rightarrow> bool" where
  "fkOk t r st = (case t of
       Environments \<Rightarrow> r_parent r \<in> set (map r_id (tbl st Projects))
     | EnvironmentTemplates \<Rightarrow> r_parent r \<in> set (map r_id (tbl st Organizations))
     | Folders \<Rightarrow> (case r_folder r of None \<Rightarrow> True | Some p \<Rightarrow> p \<in> set (map r_id (tbl st Folders)))
     | _ \<Rightarrow> True)"

definition activeKeys :: "row list \<Rightarrow> (str \<times> str \<times> str) list" where
  "activeKeys rs = map indexKey (filter (\<lambda>r. \<not> r_deleted r) rs)"

definition secretIndexKey :: "secretRow \<Rightarrow> str \<times> str" where
  "secretIndexKey s = (s_folder s, s_key s)"

definition activeSecretKeys :: "secretRow list \<Rightarrow> (str \<times> str) list" where
  "activeSecretKeys ss = map secretIndexKey (filter (\<lambda>s. \<not> s_deleted s) ss)"

definition insertRow :: "tab \<Rightarrow> row \<Rightarrow> unit tx" where
  "insertRow t r st =
     (if \<not> checkOk t r then Inl pgCheck
      else if r_id r \<in> set (map r_id (tbl st t)) then Inl pgUnique
      else if \<not> r_deleted r \<and> indexKey r \<in> set (activeKeys (tbl st t)) then Inl pgUnique
      else if \<not> fkOk t r st then Inl pgForeignKey
      else Inr ((), setTbl t (tbl st t @ [r]) st))"

definition insertSecret :: "secretRow \<Rightarrow> unit tx" where
  "insertSecret r st =
     (if \<not> keyPattern (s_key r) then Inl pgCheck
      else if s_id r \<in> set (map s_id (secretsT st)) then Inl pgUnique
      else if \<not> s_deleted r \<and> secretIndexKey r \<in> set (activeSecretKeys (secretsT st)) then Inl pgUnique
      else Inr ((), st\<lparr>secretsT := secretsT st @ [r]\<rparr>))"

text \<open>\<open>update secrets set ... where id = $1 and is_deleted = false returning ...\<close>: the row after the
  update, \<open>None\<close> for \<open>sql.ErrNoRows\<close>; the new row has to satisfy the constraints.\<close>

definition findSecret :: "str \<Rightarrow> store \<Rightarrow> secretRow option" where
  "findSecret i st = findFirst (\<lambda>s. s_id s = i \<and> \<not> s_deleted s) (secretsT st)"

definition findRow :: "tab \<Rightarrow> str \<Rightarrow> store \<Rightarrow> row option" where
  "findRow t i st = findFirst (\<lambda>r. r_id r = i \<and> \<not> r_deleted r) (tbl st t)"

definition anyRow :: "tab \<Rightarrow> str \<Rightarrow> store \<Rightarrow> row option" where
  "anyRow t i st = findFirst (\<lambda>r. r_id r = i) (tbl st t)"

definition updateSecretRow :: "str \<Rightarrow> (secretRow \<Rightarrow> secretRow) \<Rightarrow> secretRow option tx" where
  "updateSecretRow i f st = (case findSecret i st of
       None \<Rightarrow> Inr (None, st)
     | Some s \<Rightarrow>
         let s' = f s in
         if \<not> keyPattern (s_key s') then Inl pgCheck
         else if secretIndexKey s' \<in> set (activeSecretKeys (filter (\<lambda>x. s_id x \<noteq> i) (secretsT st)))
         then Inl pgUnique
         else Inr (Some s', st\<lparr>secretsT := map (\<lambda>x. if s_id x = i \<and> \<not> s_deleted x then s' else x) (secretsT st)\<rparr>))"

end
