(* ===== verification/Authz.thy ===== *)
theory Authz
  imports Domain
begin

text \<open>
  The authorizer of \<open>internal/auth/rbac.go\<close>: the permission code a request needs, and the decision
  \<open>RBACAuthorizer.Allow\<close> over the \<open>PermissionStore\<close> interface.  The interface is the locale
  \<open>permission_store\<close>; its lemmas hold for every store that keeps the contract, and the PostgreSQL store
  is shown to keep it in theory \<open>RbacStore\<close>.
\<close>

record resource =
  res_type :: str
  res_id :: str

record scope =
  sc_type :: str
  sc_id :: str

record userInfo =
  ui_id :: str
  ui_name :: str
  ui_jwt :: str
  ui_cookie :: str

type_synonym scopesFn = "resource \<Rightarrow> goErr + scope list"
type_synonym permsFn = "str \<Rightarrow> scope list \<Rightarrow> goErr + str list"
type_synonym allowFn = "userInfo \<Rightarrow> str \<Rightarrow> resource \<Rightarrow> goErr + unit"

section \<open>Permission codes\<close>

definition permissionResourceType :: "str \<Rightarrow> str" where
  "permissionResourceType resourceType =
     (let t = trimSpace resourceType in
      if t = ''organization'' then ''org''
      else if t = ''environment'' then ''env''
      else t)"

definition permissionCode :: "str \<Rightarrow> str \<Rightarrow> str" where
  "permissionCode action0 resourceType0 =
     (let action = trimSpace action0 in
      if action = [] then []
      else if containsChar CHR '':'' action then action
      else let resourceType = trimSpace resourceType0 in
        if resourceType = [] then []
        else if resourceType = ''env_template'' \<and> action = ''read'' then ''env:template:read''
        else permissionResourceType resourceType @ '':'' @ action)"

section \<open>The decision\<close>

text \<open>\<open>ctxErr\<close> is \<open>ctx.Err()\<close> and \<open>store\<close> is \<open>None\<close> for a nil store.\<close>

definition allow :: "goErr option \<Rightarrow> (scopesFn \<times> permsFn) option \<Rightarrow> allowFn" where
  "allow ctxErr store u action res =
     (case ctxErr of Some e \<Rightarrow> Inl e | None \<Rightarrow>
      (case store of None \<Rightarrow> Inl ErrPermissionDenied | Some (resourceScopes, userPermissions) \<Rightarrow>
        if trimSpace (ui_id u) = [] then Inl ErrPermissionDenied
        else let permission = permissionCode action (res_type res) in
          if permission = [] then Inl ErrPermissionDenied
          else bindE (resourceScopes res) (\<lambda>scopes.
               bindE (userPermissions (ui_id u) scopes) (\<lambda>permissions.
               if permission \<in> set permissions then Inr () else Inl ErrPermissionDenied))))"

definition allowAll :: allowFn where
  "allowAll u action res = Inr ()"

lemma allow_iff:
  "allow c s u a r = Inr () \<longleftrightarrow>
     c = None \<and>
     (\<exists>sf pf scopes perms. s = Some (sf, pf) \<and> trimSpace (ui_id u) \<noteq> [] \<and>
        permissionCode a (res_type r) \<noteq> [] \<and> sf r = Inr scopes \<and>
        pf (ui_id u) scopes = Inr perms \<and> permissionCode a (res_type r) \<in> set perms)"
  by (auto simp: allow_def Let_def bindE_Inr_iff split: option.splits)

lemma permissionCode_colon:
  "trimSpace a \<noteq> [] \<Longrightarrow> CHR '':'' \<in> set (trimSpace a) \<Longrightarrow> permissionCode a t = trimSpace a"
  by (simp add: permissionCode_def Let_def containsChar_def)

section \<open>The permission store interface\<close>

text \<open>What the authorizer relies on: a user's permissions only grow with the scopes considered.\<close>

locale permission_store =
  fixes resourceScopes :: scopesFn
    and userPermissions :: permsFn
  assumes perms_mono:
    "set ss \<subseteq> set ss' \<Longrightarrow> userPermissions u ss = Inr ps \<Longrightarrow> userPermissions u ss' = Inr ps' \<Longrightarrow>
     set ps \<subseteq> set ps'"
    and perms_total: "\<exists>ps. userPermissions u ss = Inr ps"
begin

lemma allow_down:
  assumes "allow None (Some (resourceScopes, userPermissions)) u a r = Inr ()"
    and "resourceScopes r = Inr ss" "resourceScopes r' = Inr ss'" "set ss \<subseteq> set ss'"
    and "permissionCode a (res_type r) = permissionCode a' (res_type r')"
  shows "allow None (Some (resourceScopes, userPermissions)) u a' r' = Inr ()"
proof -
  obtain ps' where p': "userPermissions (ui_id u) ss' = Inr ps'" using perms_total by blast
  from assms(1,2) obtain ps where p: "userPermissions (ui_id u) ss = Inr ps"
    and m: "permissionCode a (res_type r) \<in> set ps" "permissionCode a (res_type r) \<noteq> []"
    "trimSpace (ui_id u) \<noteq> []"
    by (auto simp: allow_iff)
  from perms_mono [OF assms(4) p p'] m assms(3,5) p' show ?thesis
    by (auto simp: allow_iff)
qed

lemma allow_decides:
  assumes "resourceScopes r = Inr ss" "trimSpace (ui_id u) \<noteq> []"
  shows "allow None (Some (resourceScopes, userPermissions)) u a r \<in> {Inr (), Inl ErrPermissionDenied}"
proof -
  obtain ps where "userPermissions (ui_id u) ss = Inr ps" using perms_total by blast
  with assms show ?thesis by (auto simp: allow_def Let_def)
qed

end

end
