(* ===== verification/RbacStore.thy ===== *)
theory RbacStore
  imports Store Authz "HOL-Library.AList"
begin

text \<open>
  The RBAC half of the PostgreSQL store (\<open>internal/store/postgres/rbac.go\<close> and
  \<open>user_cache.go\<close>): the scope chain of a resource, the permissions of a user over scopes, roles,
  bindings, and the visibility queries.  Joins on a primary key are look-ups, \<open>order by\<close> is a stable
  sort (byte order, where the database uses its collation).
\<close>

section \<open>User labels\<close>

definition userLabelOf :: "str \<Rightarrow> str \<Rightarrow> str" where
  "userLabelOf userId name = (let n = trimSpace name in if n \<noteq> [] then n else userId)"

definition loadLabels :: "(str \<times> str) list \<Rightarrow> (str \<times> str) list" where
  "loadLabels rows = fold (\<lambda>(userId, name) labels.
      let u = trimSpace userId in if u = [] then labels else AList.update u (userLabelOf u name) labels) rows []"

definition cacheUserLabel :: "str \<Rightarrow> str \<Rightarrow> store \<Rightarrow> store" where
  "cacheUserLabel userId name st =
     (let u = trimSpace userId in
      if u = [] then st else st\<lparr>labelsC := AList.update u (userLabelOf u name) (labelsC st)\<rparr>)"

definition labelOf :: "store \<Rightarrow> str \<Rightarrow> str" where
  "labelOf st userId =
     (let u = trimSpace userId in
      if u = [] then []
      else case map_of (labelsC st) u of
        Some label \<Rightarrow> if trimSpace label \<noteq> [] then label else u
      | None \<Rightarrow> u)"

lemma labelOf_nonblank: "trimSpace u \<noteq> [] \<Longrightarrow> trimSpace (labelOf st u) \<noteq> []"
  by (auto simp: labelOf_def Let_def split: option.splits)

lemma labelOf_after_cache:
  "trimSpace u \<noteq> [] \<Longrightarrow> trimSpace n \<noteq> [] \<Longrightarrow> labelOf (cacheUserLabel u n st) u = trimSpace n"
  by (simp add: labelOf_def cacheUserLabel_def userLabelOf_def Let_def update_conv')

section \<open>Scope chains\<close>

definition normalizeScopeType :: "str \<Rightarrow> str" where
  "normalizeScopeType v =
     (let t = trimSpace v in
      if t \<in> set [''global'', ''organization'', ''project'', ''environment'', ''folder'', ''secret'']
      then t else [])"

definition normalizeResourceType :: "str \<Rightarrow> str" where
  "normalizeResourceType v =
     (let t = trimSpace v in
      if t = ''org'' then ''organization''
      else if t = ''env'' then ''environment''
      else if t = ''env_template'' then ''env_template''
      else normalizeScopeType v)"

definition mkScope :: "str \<Rightarrow> str \<Rightarrow> scope" where
  "mkScope t i = \<lparr> sc_type = t, sc_id = i \<rparr>"

definition globalScope :: scope where "globalScope = mkScope ''global'' []"

text \<open>The live ancestor chain of a row: the organization of a project, and so on.\<close>

definition liveOrg :: "store \<Rightarrow> str \<Rightarrow> row option" where
  "liveOrg st i = findRow Organizations i st"

definition liveProject :: "store \<Rightarrow> str \<Rightarrow> (row \<times> row) option" where
  "liveProject st i = (case findRow Projects i st of None \<Rightarrow> None
     | Some p \<Rightarrow> (case liveOrg st (r_parent p) of None \<Rightarrow> None | Some o' \<Rightarrow> Some (o', p)))"

definition liveEnv :: "store \<Rightarrow> str \<Rightarrow> (row \<times> row \<times> row) option" where
  "liveEnv st i = (case findRow Environments i st of None \<Rightarrow> None
     | Some e \<Rightarrow> (case liveProject st (r_parent e) of None \<Rightarrow> None | Some (o', p) \<Rightarrow> Some (o', p, e)))"

definition liveFolder :: "store \<Rightarrow> str \<Rightarrow> (row \<times> row \<times> row \<times> row) option" where
  "liveFolder st i = (case findRow Folders i st of None \<Rightarrow> None
     | Some f \<Rightarrow> (case liveEnv st (r_parent f) of None \<Rightarrow> None | Some (o', p, e) \<Rightarrow> Some (o', p, e, f)))"

definition organizationScopes :: "store \<Rightarrow> str \<Rightarrow> goErr + scope list" where
  "organizationScopes st i = (case liveOrg st i of None \<Rightarrow> Inl ErrNotFound
     | Some o' \<Rightarrow> Inr [globalScope, mkScope ''organization'' (r_id o')])"

definition projectScopes :: "store \<Rightarrow> str \<Rightarrow> goErr + scope list" where
  "projectScopes st i = (case liveProject st i of None \<Rightarrow> Inl ErrNotFound
     | Some (o', p) \<Rightarrow> Inr [globalScope, mkScope ''organization'' (r_id o'), mkScope ''project'' (r_id p)])"

definition environmentScopes :: "store \<Rightarrow> str \<Rightarrow> goErr + scope list" where
  "environmentScopes st i = (case liveEnv st i of None \<Rightarrow> Inl ErrNotFound
     | Some (o', p, e) \<Rightarrow> Inr [globalScope, mkScope ''organization'' (r_id o'),
         mkScope ''project'' (r_id p), mkScope ''environment'' (r_id e)])"

definition folderChain :: "row \<times> row \<times> row \<times> row \<Rightarrow> scope list" where
  "folderChain c = (case c of (o', p, e, f) \<Rightarrow>
     [globalScope, mkScope ''organization'' (r_id o'), mkScope ''project'' (r_id p),
      mkScope ''environment'' (r_id e)] @
     (case r_folder f of None \<Rightarrow> [] | Some pf \<Rightarrow> if pf = [] then [] else [mkScope ''folder'' pf]) @
     [mkScope ''folder'' (r_id f)])"

definition folderScopes :: "store \<Rightarrow> str \<Rightarrow> goErr + scope list" where
  "folderScopes st i = (case liveFolder st i of None \<Rightarrow> Inl ErrNotFound | Some c \<Rightarrow> Inr (folderChain c))"

definition secretScopes :: "store \<Rightarrow> str \<Rightarrow> goErr + scope list" where
  "secretScopes st i = (case findSecret i st of None \<Rightarrow> Inl ErrNotFound
     | Some s \<Rightarrow> (case liveFolder st (s_folder s) of None \<Rightarrow> Inl ErrNotFound
         | Some c \<Rightarrow> Inr (folderChain c)))"

definition envTemplateScopes :: "store \<Rightarrow> str \<Rightarrow> goErr + scope list" where
  "envTemplateScopes st i = (case findRow EnvironmentTemplates i st of None \<Rightarrow> Inl ErrNotFound
     | Some t \<Rightarrow> Inr [globalScope, mkScope ''organization'' (r_parent t)])"

definition resourceScopes :: "store \<Rightarrow> scopesFn" where
  "resourceScopes st res =
     (let t = normalizeResourceType (res_type res) in
      if t = ''global'' then Inr [globalScope]
      else if t = ''organization'' then organizationScopes st (res_id res)
      else if t = ''project'' then projectScopes st (res_id res)
      else if t = ''environment'' then environmentScopes st (res_id res)
      else if t = ''folder'' then folderScopes st (res_id res)
      else if t = ''secret'' then secretScopes st (res_id res)
      else if t = ''env_template'' then envTemplateScopes st (res_id res)
      else Inl (ErrMsg ''unsupported resource type''))"

section \<open>Permissions of a user\<close>

definition bindingActive :: "store \<Rightarrow> bindingRow \<Rightarrow> bool" where
  "bindingActive st b \<longleftrightarrow> \<not> b_deleted b \<and>
     (case b_expires b of None \<Rightarrow> True | Some t \<Rightarrow> clock st < t)"

definition userActive :: "store \<Rightarrow> str \<Rightarrow> bool" where
  "userActive st uid \<longleftrightarrow> list_ex (\<lambda>u. u_id u = uid \<and> \<not> u_disabled u) (usersT st)"

definition roleLive :: "store \<Rightarrow> str \<Rightarrow> bool" where
  "roleLive st rid \<longleftrightarrow> list_ex (\<lambda>r. ro_id r = rid \<and> \<not> ro_deleted r) (rolesT st)"

definition roleCodes :: "store \<Rightarrow> str \<Rightarrow> str list" where
  "roleCodes st rid =
     concat (map (\<lambda>(r, pid). if r = rid then map p_code (filter (\<lambda>p. p_id p = pid) (permsT st)) else [])
       (rolePermsT st))"

definition scopeCond :: "scope \<Rightarrow> bindingRow \<Rightarrow> bool" where
  "scopeCond s b =
     (let t = normalizeScopeType (sc_type s) in
      if t = [] then False
      else if t = ''global'' then b_scopeType b = t \<and> b_scope b = None
      else if trimSpace (sc_id s) = [] then False
      else b_scopeType b = t \<and> b_scope b = Some (sc_id s))"

text \<open>\<open>buildUserPermissionsQuery\<close>: no usable scope leaves the condition \<open>false\<close>.\<close>

definition userPermissionsQuery :: "store \<Rightarrow> str \<Rightarrow> scope list \<Rightarrow> str list" where
  "userPermissionsQuery st uid scopes =
     remdups (concat (map (\<lambda>b. roleCodes st (b_role b))
       (filter (\<lambda>b. b_user b = uid \<and> userActive st uid \<and> bindingActive st b \<and> roleLive st (b_role b) \<and>
          list_ex (\<lambda>s. scopeCond s b) scopes) (bindingsT st))))"

definition userPermissions :: "store \<Rightarrow> permsFn" where
  "userPermissions st uid scopes =
     (if trimSpace uid = [] \<or> length scopes = 0 then Inr []
      else Inr (userPermissionsQuery st uid scopes))"

definition storeAllow :: "store \<Rightarrow> allowFn" where
  "storeAllow st = allow None (Some (resourceScopes st, userPermissions st))"

text \<open>A binding that gives its user a permission code now.\<close>

definition grantsCode :: "store \<Rightarrow> str \<Rightarrow> str \<Rightarrow> bindingRow \<Rightarrow> bool" where
  "grantsCode st uid code b \<longleftrightarrow> b_user b = uid \<and> userActive st uid \<and> bindingActive st b \<and>
     roleLive st (b_role b) \<and> code \<in> set (roleCodes st (b_role b))"

lemma userPermissionsQuery_iff:
  "code \<in> set (userPermissionsQuery st uid scopes) \<longleftrightarrow>
     (\<exists>b \<in> set (bindingsT st). grantsCode st uid code b \<and> (\<exists>s \<in> set scopes. scopeCond s b))"
  by (auto simp: userPermissionsQuery_def grantsCode_def list_ex_iff)

lemma userPermissions_Inr:
  "trimSpace uid \<noteq> [] \<Longrightarrow> userPermissions st uid ss = Inr ps \<Longrightarrow>
   code \<in> set ps \<longleftrightarrow> (\<exists>b \<in> set (bindingsT st). grantsCode st uid code b \<and> (\<exists>s \<in> set ss. scopeCond s b))"
proof (cases "ss = []")
  case False
  assume "trimSpace uid \<noteq> []" "userPermissions st uid ss = Inr ps"
  with False have "ps = userPermissionsQuery st uid ss" by (simp add: userPermissions_def)
  then show ?thesis by (simp add: userPermissionsQuery_iff)
qed (simp add: userPermissions_def)

lemma userPermissions_total: "\<exists>ps. userPermissions st uid ss = Inr ps"
  by (simp add: userPermissions_def)

lemma storeAllow_iff:
  "storeAllow st u a r = Inr () \<longleftrightarrow>
     trimSpace (ui_id u) \<noteq> [] \<and> permissionCode a (res_type r) \<noteq> [] \<and>
     (\<exists>scopes. resourceScopes st r = Inr scopes \<and>
       (\<exists>b \<in> set (bindingsT st). grantsCode st (ui_id u) (permissionCode a (res_type r)) b \<and>
         (\<exists>s \<in> set scopes. scopeCond s b)))"
  (is "?L \<longleftrightarrow> ?R")
proof
  assume ?L
  then obtain scopes perms where *: "trimSpace (ui_id u) \<noteq> []" "permissionCode a (res_type r) \<noteq> []"
    "resourceScopes st r = Inr scopes" "userPermissions st (ui_id u) scopes = Inr perms"
    "permissionCode a (res_type r) \<in> set perms"
    unfolding storeAllow_def allow_iff by blast
  from userPermissions_Inr [OF *(1,4)] *(1-3,5) show ?R by blast
next
  assume R: ?R
  then obtain scopes where s: "resourceScopes st r = Inr scopes"
    and u: "trimSpace (ui_id u) \<noteq> []" by blast
  obtain perms where p: "userPermissions st (ui_id u) scopes = Inr perms"
    using userPermissions_total by blast
  have "permissionCode a (res_type r) \<in> set perms"
    using userPermissions_Inr [OF u p] R s by simp
  with R s p show ?L unfolding storeAllow_def allow_iff by blast
qed

interpretation rbac: permission_store "resourceScopes st" "userPermissions st"
proof (unfold_locales, goal_cases)
  case (1 ss ss' u ps ps')
  show ?case
  proof (cases "trimSpace u = []")
    case True
    with 1(2) show ?thesis by (simp add: userPermissions_def)
  next
    case False
    show ?thesis
      using userPermissions_Inr [OF False 1(2)] userPermissions_Inr [OF False 1(3)] 1(1) by blast
  qed
next
  case (2 u ss)
  then show ?case by (simp add: userPermissions_def)
qed

section \<open>Scope chains are nested\<close>

lemmas scope_defs = organizationScopes_def projectScopes_def environmentScopes_def folderScopes_def
  secretScopes_def folderChain_def

lemma liveProject_org: "liveProject st i = Some (o', p) \<Longrightarrow> liveOrg st (r_parent p) = Some o' \<and> findRow Projects i st = Some p"
  by (auto simp: liveProject_def split: option.splits)

lemma liveEnv_project:
  "liveEnv st i = Some (o', p, e) \<Longrightarrow> liveProject st (r_parent e) = Some (o', p) \<and> findRow Environments i st = Some e"
  by (auto simp: liveEnv_def split: option.splits)

lemma liveFolder_env:
  "liveFolder st i = Some (o', p, e, f) \<Longrightarrow> liveEnv st (r_parent f) = Some (o', p, e) \<and> findRow Folders i st = Some f"
  by (auto simp: liveFolder_def split: option.splits)

lemma findRow_Some: "findRow t i st = Some r \<Longrightarrow> r \<in> set (tbl st t) \<and> r_id r = i \<and> \<not> r_deleted r"
  by (auto simp: findRow_def dest: findFirst_Some)

lemma findSecret_Some:
  "findSecret i st = Some s \<Longrightarrow> s \<in> set (secretsT st) \<and> s_id s = i \<and> \<not> s_deleted s"
  by (auto simp: findSecret_def dest: findFirst_Some)

lemma liveFolder_ids:
  assumes "liveFolder st i = Some (o', p, e, f)"
  shows "r_id f = i" "r_id e = r_parent f" "r_id p = r_parent e" "r_id o' = r_parent p"
    "\<not> r_deleted f" "\<not> r_deleted e" "\<not> r_deleted p" "\<not> r_deleted o'"
  using liveFolder_env [OF assms] liveEnv_project liveProject_org
  by (metis findRow_Some liveOrg_def)+

lemma chain_project_env:
  "environmentScopes st i = Inr ss \<Longrightarrow> findRow Environments i st = Some e \<Longrightarrow>
   \<exists>ps. projectScopes st (r_parent e) = Inr ps \<and> set ps \<subseteq> set ss"
  by (auto simp: scope_defs liveEnv_def split: option.splits)

lemma chain_env_folder:
  "folderScopes st i = Inr ss \<Longrightarrow> findRow Folders i st = Some f \<Longrightarrow>
   \<exists>es. environmentScopes st (r_parent f) = Inr es \<and> set es \<subseteq> set ss"
  by (auto simp: scope_defs liveFolder_def split: option.splits)

lemma chain_folder_secret:
  "secretScopes st i = Inr ss \<Longrightarrow> findSecret i st = Some s \<Longrightarrow> folderScopes st (s_folder s) = Inr ss"
  by (auto simp: scope_defs split: option.splits)

lemma normalizeResourceType_simps [simp]:
  "normalizeResourceType ''organization'' = ''organization''"
  "normalizeResourceType ''project'' = ''project''"
  "normalizeResourceType ''environment'' = ''environment''"
  "normalizeResourceType ''folder'' = ''folder''"
  "normalizeResourceType ''secret'' = ''secret''"
  "normalizeResourceType ''global'' = ''global''"
  by (simp_all add: normalizeResourceType_def normalizeScopeType_def trimSpace_nospace isSpace_def Let_def)

lemma normalizeScopeType_simps [simp]:
  "normalizeScopeType ''organization'' = ''organization''"
  "normalizeScopeType ''project'' = ''project''"
  "normalizeScopeType ''environment'' = ''environment''"
  "normalizeScopeType ''folder'' = ''folder''"
  "normalizeScopeType ''secret'' = ''secret''"
  "normalizeScopeType ''global'' = ''global''"
  by (simp_all add: normalizeScopeType_def trimSpace_nospace isSpace_def Let_def)

lemma resourceScopes_simps [simp]:
  "resourceScopes st \<lparr>res_type = ''organization'', res_id = i\<rparr> = organizationScopes st i"
  "resourceScopes st \<lparr>res_type = ''project'', res_id = i\<rparr> = projectScopes st i"
  "resourceScopes st \<lparr>res_type = ''environment'', res_id = i\<rparr> = environmentScopes st i"
  "resourceScopes st \<lparr>res_type = ''folder'', res_id = i\<rparr> = folderScopes st i"
  "resourceScopes st \<lparr>res_type = ''secret'', res_id = i\<rparr> = secretScopes st i"
  by (simp_all add: resourceScopes_def Let_def)

end
