(* ===== verification/RbacAdmin.thy ===== *)
theory RbacAdmin
  imports RbacStore
begin

text \<open>
  Roles, bindings and users of \<open>internal/store/postgres/rbac.go\<close>: the system data the server
  installs at start-up, the role and binding operations with their transactions, and the listings.
\<close>

section \<open>System data\<close>

record systemPermission =
  sp_code :: str
  sp_resource :: str
  sp_action :: str
  sp_description :: str

record systemRole =
  sr_code :: str
  sr_name :: str
  sr_description :: str
  sr_scopeType :: str
  sr_permissions :: "str list"

definition sysPerm :: "str \<Rightarrow> str \<Rightarrow> str \<Rightarrow> str \<Rightarrow> systemPermission" where
  "sysPerm c r a d = \<lparr> sp_code = c, sp_resource = r, sp_action = a, sp_description = d \<rparr>"

definition sysRole :: "str \<Rightarrow> str \<Rightarrow> str \<Rightarrow> str \<Rightarrow> str list \<Rightarrow> systemRole" where
  "sysRole c n d s ps = \<lparr> sr_code = c, sr_name = n, sr_description = d, sr_scopeType = s, sr_permissions = ps \<rparr>"

definition defaultPermissions :: "systemPermission list" where
  "defaultPermissions = [
     sysPerm ''org:create'' ''org'' ''create'' ''Create organization'',
     sysPerm ''org:read'' ''org'' ''read'' ''Read organization'',
     sysPerm ''org:update'' ''org'' ''update'' ''Update organization'',
     sysPerm ''org:delete'' ''org'' ''delete'' ''Delete organization'',
     sysPerm ''org:force_delete'' ''org'' ''force_delete'' ''Force cascade-delete an organization including all child projects, environments, folders, and secrets'',
     sysPerm ''project:create'' ''project'' ''create'' ''Create project'',
     sysPerm ''project:read'' ''project'' ''read'' ''Read project'',
     sysPerm ''project:update'' ''project'' ''update'' ''Update project'',
     sysPerm ''project:delete'' ''project'' ''delete'' ''Delete project'',
     sysPerm ''env:create'' ''env'' ''create'' ''Create environment'',
     sysPerm ''env:read'' ''env'' ''read'' ''Read environment'',
     sysPerm ''env:update'' ''env'' ''update'' ''Update environment'',
     sysPerm ''env:delete'' ''env'' ''delete'' ''Delete environment'',
     sysPerm ''env:template:read'' ''env_template'' ''template:read'' ''Read environment templates'',
     sysPerm ''folder:create'' ''folder'' ''create'' ''Create folder'',
     sysPerm ''folder:read'' ''folder'' ''read'' ''Read folder'',
     sysPerm ''folder:update'' ''folder'' ''update'' ''Update folder'',
     sysPerm ''folder:delete'' ''folder'' ''delete'' ''Delete folder'',
     sysPerm ''secret:list'' ''secret'' ''list'' ''List secrets'',
     sysPerm ''secret:search'' ''secret'' ''search'' ''Search secrets'',
     sysPerm ''secret:read'' ''secret'' ''read'' ''Read secret metadata'',
     sysPerm ''secret:reveal'' ''secret'' ''reveal'' ''Reveal secret value'',
     sysPerm ''secret:create'' ''secret'' ''create'' ''Create secret'',
     sysPerm ''secret:update'' ''secret'' ''update'' ''Update secret'',
     sysPerm ''secret:delete'' ''secret'' ''delete'' ''Delete secret'',
     sysPerm ''audit:read'' ''audit'' ''read'' ''Read audit records'',
     sysPerm ''rbac:role:read'' ''rbac'' ''role:read'' ''Read roles'',
     sysPerm ''rbac:role:manage'' ''rbac'' ''role:manage'' ''Manage roles'',
     sysPerm ''rbac:binding:read'' ''rbac'' ''binding:read'' ''Read role bindings'',
     sysPerm ''rbac:binding:manage'' ''rbac'' ''binding:manage'' ''Manage role bindings'']"

definition permissionCodes :: "systemPermission list \<Rightarrow> str list" where
  "permissionCodes ps = map sp_code ps"

definition resourceReadCodes :: "str list" where
  "resourceReadCodes = [''org:read'', ''project:read'', ''env:read'', ''folder:read'', ''secret:list'',
     ''secret:search'', ''secret:read'', ''env:template:read'']"

definition auditReadCodes :: "str list" where
  "auditReadCodes = resourceReadCodes @ [''audit:read'']"

definition secretManageCodes :: "str list" where
  "secretManageCodes = [''secret:list'', ''secret:search'', ''secret:read'', ''secret:reveal'',
     ''secret:create'', ''secret:update'', ''secret:delete'']"

definition defaultRoles :: "systemRole list" where
  "defaultRoles = [
     sysRole ''platform_admin'' ''Platform Admin'' [] ''global''
       (permissionCodes defaultPermissions),
     sysRole ''org_owner'' ''Organization Owner'' [] ''organization''
       (permissionCodes defaultPermissions),
     sysRole ''org_admin'' ''Organization Admin'' [] ''organization''
       [''org:read'', ''org:update'', ''project:create'', ''project:read'', ''project:update'', ''project:delete'', ''env:create'', ''env:read'', ''env:update'', ''env:delete'', ''folder:create'', ''folder:read'', ''folder:update'', ''folder:delete'', ''secret:list'', ''secret:search'', ''secret:read'', ''secret:reveal'', ''secret:create'', ''secret:update'', ''secret:delete'', ''audit:read''],
     sysRole ''org_viewer'' ''Organization Viewer'' [] ''organization''
       resourceReadCodes,
     sysRole ''org_auditor'' ''Organization Auditor'' [] ''organization''
       auditReadCodes,
     sysRole ''project_admin'' ''Project Admin'' [] ''project''
       [''project:read'', ''project:update'', ''env:create'', ''env:read'', ''env:update'', ''env:delete'', ''folder:create'', ''folder:read'', ''folder:update'', ''folder:delete'', ''secret:list'', ''secret:search'', ''secret:read'', ''secret:reveal'', ''secret:create'', ''secret:update'', ''secret:delete'', ''rbac:role:manage'', ''rbac:binding:read'', ''rbac:binding:manage'', ''audit:read''],
     sysRole ''project_developer'' ''Project Developer'' [] ''project''
       [''project:read'', ''env:read'', ''folder:read'', ''secret:list'', ''secret:search'', ''secret:read'', ''secret:reveal'', ''secret:create'', ''secret:update''],
     sysRole ''project_viewer'' ''Project Viewer'' [] ''project''
       [''project:read'', ''env:read'', ''folder:read'', ''secret:list'', ''secret:search'', ''secret:read''],
     sysRole ''project_auditor'' ''Project Auditor'' [] ''project''
       [''project:read'', ''env:read'', ''folder:read'', ''secret:list'', ''secret:read'', ''audit:read''],
     sysRole ''environment_admin'' ''Environment Admin'' ''Manage folders, secrets, members, and audit records in one environment'' ''environment''
       [''env:read'', ''env:update'', ''folder:create'', ''folder:read'', ''folder:update'', ''folder:delete'', ''secret:list'', ''secret:search'', ''secret:read'', ''secret:reveal'', ''secret:create'', ''secret:update'', ''secret:delete'', ''rbac:binding:read'', ''rbac:binding:manage'', ''audit:read''],
     sysRole ''environment_developer'' ''Environment Developer'' ''Read, reveal, create, and update secrets in one environment'' ''environment''
       [''env:read'', ''folder:read'', ''secret:list'', ''secret:search'', ''secret:read'', ''secret:reveal'', ''secret:create'', ''secret:update''],
     sysRole ''environment_viewer'' ''Environment Viewer'' ''Read environment metadata and secret keys without revealing values'' ''environment''
       [''env:read'', ''folder:read'', ''secret:list'', ''secret:search'', ''secret:read''],
     sysRole ''environment_auditor'' ''Environment Auditor'' ''Read environment metadata, secret keys, and audit records'' ''environment''
       [''env:read'', ''folder:read'', ''secret:list'', ''secret:read'', ''audit:read''],
     sysRole ''folder_admin'' ''Folder Admin'' [] ''folder''
       secretManageCodes,
     sysRole ''folder_editor'' ''Folder Editor'' [] ''folder''
       [''secret:list'', ''secret:search'', ''secret:read'', ''secret:reveal'', ''secret:create'', ''secret:update''],
     sysRole ''folder_viewer'' ''Folder Viewer'' [] ''folder''
       [''secret:list'', ''secret:search'', ''secret:read'']]"

section \<open>Rows of the RBAC tables\<close>

definition scopeTypeCheck :: "str \<Rightarrow> bool" where
  "scopeTypeCheck t \<longleftrightarrow> t \<in> set [''global'', ''organization'', ''project'', ''environment'', ''folder'']"

definition bindingCheck :: "bindingRow \<Rightarrow> bool" where
  "bindingCheck b \<longleftrightarrow> scopeTypeCheck (b_scopeType b) \<and>
     ((b_scopeType b = ''global'' \<and> b_scope b = None) \<or> (b_scopeType b \<noteq> ''global'' \<and> b_scope b \<noteq> None))"

definition nullif :: "str \<Rightarrow> str option" where
  "nullif s = (if s = [] then None else Some s)"

text \<open>The key of the active-only unique index; a NULL \<open>scope_id\<close> is distinct from every other.\<close>

definition sameBinding :: "bindingRow \<Rightarrow> bindingRow \<Rightarrow> bool" where
  "sameBinding a b \<longleftrightarrow> b_user a = b_user b \<and> b_role a = b_role b \<and> b_scopeType a = b_scopeType b \<and>
     b_scope a = b_scope b"

definition insertBinding :: "bindingRow \<Rightarrow> unit tx" where
  "insertBinding b st =
     (if \<not> bindingCheck b then Inl pgCheck
      else if b_id b \<in> set (map b_id (bindingsT st)) then Inl pgUnique
      else if b_scope b \<noteq> None \<and> \<not> b_deleted b \<and>
        list_ex (\<lambda>x. \<not> b_deleted x \<and> sameBinding x b) (bindingsT st) then Inl pgUnique
      else Inr ((), st\<lparr>bindingsT := bindingsT st @ [b]\<rparr>))"

definition roleClash :: "roleRow \<Rightarrow> roleRow \<Rightarrow> bool" where
  "roleClash a b \<longleftrightarrow> ro_code a = ro_code b \<and>
     ((ro_system a \<and> ro_system b) \<or> (ro_org a \<noteq> None \<and> ro_org a = ro_org b) \<or>
      (ro_project a \<noteq> None \<and> ro_project a = ro_project b))"

definition insertRole :: "roleRow \<Rightarrow> unit tx" where
  "insertRole r st =
     (if \<not> scopeTypeCheck (ro_scopeType r) then Inl pgCheck
      else if ro_id r \<in> set (map ro_id (rolesT st)) then Inl pgUnique
      else if list_ex (\<lambda>x. \<not> ro_deleted x \<and> roleClash x r) (rolesT st) then Inl pgUnique
      else Inr ((), st\<lparr>rolesT := rolesT st @ [r]\<rparr>))"

definition findRole :: "str \<Rightarrow> store \<Rightarrow> roleRow option" where
  "findRole i st = findFirst (\<lambda>r. ro_id r = i \<and> \<not> ro_deleted r) (rolesT st)"

definition replaceRole :: "roleRow \<Rightarrow> unit tx" where
  "replaceRole r st =
     (if \<not> scopeTypeCheck (ro_scopeType r) then Inl pgCheck
      else if list_ex (\<lambda>x. ro_id x \<noteq> ro_id r \<and> \<not> ro_deleted x \<and> roleClash x r) (rolesT st) then Inl pgUnique
      else Inr ((), st\<lparr>rolesT := map (\<lambda>x. if ro_id x = ro_id r then r else x) (rolesT st)\<rparr>))"

text \<open>\<open>insert into role_permissions ... on conflict do nothing\<close>\<close>

definition addRolePerm :: "str \<Rightarrow> str \<Rightarrow> unit tx" where
  "addRolePerm rid pid st =
     Inr ((), if (rid, pid) \<in> set (rolePermsT st) then st else st\<lparr>rolePermsT := rolePermsT st @ [(rid, pid)]\<rparr>)"

definition clearRolePerms :: "str \<Rightarrow> unit tx" where
  "clearRolePerms rid st = Inr ((), st\<lparr>rolePermsT := filter (\<lambda>(r, _). r \<noteq> rid) (rolePermsT st)\<rparr>)"

section \<open>Start-up\<close>

definition upsertPermissionTx :: "systemPermission \<Rightarrow> str tx" where
  "upsertPermissionTx sp = bindT newUUID (\<lambda>i. bindT getT (\<lambda>st.
     case findFirst (\<lambda>p. p_code p = sp_code sp) (permsT st) of
       Some p \<Rightarrow> (\<lambda>st. Inr (p_id p, st\<lparr>permsT := map (\<lambda>x. if p_code x = sp_code sp
           then x\<lparr>p_resourceType := sp_resource sp, p_action := sp_action sp, p_description := sp_description sp\<rparr>
           else x) (permsT st)\<rparr>))
     | None \<Rightarrow> if i \<in> set (map p_id (permsT st)) then failT pgUnique
         else (\<lambda>st. Inr (i, st\<lparr>permsT := permsT st @ [\<lparr> p_id = i, p_code = sp_code sp,
           p_resourceType = sp_resource sp, p_action = sp_action sp, p_description = sp_description sp \<rparr>]\<rparr>))))"

definition upsertSystemRoleTx :: "systemRole \<Rightarrow> str tx" where
  "upsertSystemRoleTx sr = bindT getT (\<lambda>st.
     case findFirst (\<lambda>r. ro_code r = sr_code sr \<and> ro_system r \<and> \<not> ro_deleted r) (rolesT st) of
       None \<Rightarrow> bindT newUUID (\<lambda>i. bindT (insertRole \<lparr> ro_id = i, ro_code = sr_code sr, ro_name = sr_name sr,
           ro_description = sr_description sr, ro_scopeType = sr_scopeType sr, ro_org = None,
           ro_project = None, ro_system = True, ro_deleted = False \<rparr>) (\<lambda>_. retT i))
     | Some r \<Rightarrow> bindT (replaceRole (r\<lparr>ro_name := sr_name sr, ro_description := sr_description sr,
           ro_scopeType := sr_scopeType sr, ro_system := True\<rparr>)) (\<lambda>_. retT (ro_id r)))"

definition ensureRoleTx :: "(str \<times> str) list \<Rightarrow> systemRole \<Rightarrow> unit tx" where
  "ensureRoleTx permissionIds role = bindT (upsertSystemRoleTx role) (\<lambda>roleId.
     bindT (clearRolePerms roleId) (\<lambda>_.
     bindT (mapT (\<lambda>code. case map_of permissionIds code of
         None \<Rightarrow> failT (ErrMsg ''unknown permission code'')
       | Some pid \<Rightarrow> addRolePerm roleId pid) (sr_permissions role)) (\<lambda>_. retT ())))"

definition ensureSystemDataTx :: "unit tx" where
  "ensureSystemDataTx =
     bindT (mapT (\<lambda>p. bindT (upsertPermissionTx p) (\<lambda>i. retT (sp_code p, i))) defaultPermissions) (\<lambda>permissionIds.
     bindT (mapT (ensureRoleTx permissionIds) defaultRoles) (\<lambda>_. retT ()))"

definition ensureSystemData :: "store \<Rightarrow> (goErr + unit) \<times> store" where
  "ensureSystemData = runTx ensureSystemDataTx"

section \<open>Users\<close>

definition keepNonEmpty :: "str \<Rightarrow> str \<Rightarrow> str" where
  "keepNonEmpty new old = (if new \<noteq> [] then new else old)"

definition insertUser :: "user \<Rightarrow> unit tx" where
  "insertUser u st =
     (if u_id u \<in> set (map u_id (usersT st)) \<or> u_ext u \<in> set (map u_ext (usersT st)) \<or>
         (u_email u \<noteq> [] \<and> u_email u \<in> set (map u_email (usersT st)))
      then Inl pgUnique else Inr ((), st\<lparr>usersT := usersT st @ [u]\<rparr>))"

definition findUser :: "str \<Rightarrow> store \<Rightarrow> user option" where
  "findUser i st = findFirst (\<lambda>u. u_id u = i) (usersT st)"

definition jwtUser :: "str \<Rightarrow> str \<Rightarrow> str \<Rightarrow> nat \<Rightarrow> user" where
  "jwtUser i name email now = \<lparr> u_id = i, u_ext = i, u_name = name, u_email = email, u_source = ''jwt'',
     u_disabled = False, u_lastSeenAt = Some now, u_hash = [], u_algo = [], u_tva = Some 0 \<rparr>"

definition upsertUserByIdTx :: "str \<Rightarrow> str \<Rightarrow> str \<Rightarrow> str tx" where
  "upsertUserByIdTx userId name email = (let i = trimSpace userId in
     if i = [] then failT ErrNotFound
     else translated (\<lambda>st. case findUser i st of
       Some u \<Rightarrow>
         if keepNonEmpty email (u_email u) \<noteq> [] \<and>
            list_ex (\<lambda>x. u_id x \<noteq> i \<and> u_email x = keepNonEmpty email (u_email u)) (usersT st) then Inl pgUnique
         else Inr (i, st\<lparr>usersT := map (\<lambda>x. if u_id x = i
           then x\<lparr>u_name := keepNonEmpty name (u_name x), u_email := keepNonEmpty email (u_email x),
                  u_lastSeenAt := Some (clock st)\<rparr> else x) (usersT st)\<rparr>)
     | None \<Rightarrow> bindT (insertUser (jwtUser i name email (clock st))) (\<lambda>_. retT i) st))"

definition getUserById :: "store \<Rightarrow> str \<Rightarrow> goErr + user" where
  "getUserById st i = optE ErrNotFound (findUser i st)"

definition getUserByExternalId :: "store \<Rightarrow> str \<Rightarrow> goErr + user" where
  "getUserByExternalId st e = optE ErrNotFound (findFirst (\<lambda>u. u_ext u = e) (usersT st))"

definition syncUser :: "str \<Rightarrow> str \<Rightarrow> str \<Rightarrow> store \<Rightarrow> (goErr + user) \<times> store" where
  "syncUser userId name email st =
     (case runTx (upsertUserByIdTx userId name email) st of
        (Inl e, st') \<Rightarrow> (Inl e, st')
      | (Inr _, st') \<Rightarrow> (case getUserById st' userId of
          Inl e \<Rightarrow> (Inl e, st')
        | Inr u \<Rightarrow> (Inr u, cacheUserLabel (u_id u) (u_name u) st')))"

section \<open>Roles\<close>

record roleView =
  rv_role :: roleRow
  rv_permissions :: "str list"

definition rolePermissionCodes :: "store \<Rightarrow> str \<Rightarrow> str list" where
  "rolePermissionCodes st rid = sort (roleCodes st rid)"

definition listRoles :: "store \<Rightarrow> roleView list" where
  "listRoles st = map (\<lambda>r. \<lparr> rv_role = r, rv_permissions = rolePermissionCodes st (ro_id r) \<rparr>)
     (sort_key (\<lambda>r. if ro_system r then 0 else (1::nat))
       (sort_key ro_code (filter (\<lambda>r. \<not> ro_deleted r) (rolesT st))))"

definition getRole :: "store \<Rightarrow> str \<Rightarrow> str \<Rightarrow> goErr + roleView" where
  "getRole st i code =
     (let live = sort_key (\<lambda>r. if ro_system r then 0 else (1::nat)) (filter (\<lambda>r. \<not> ro_deleted r) (rolesT st));
          found = (if trimSpace i \<noteq> [] then findFirst (\<lambda>r. ro_id r = i) live
                   else if trimSpace code \<noteq> [] then findFirst (\<lambda>r. ro_code r = code) live
                   else None)
      in case found of None \<Rightarrow> Inl ErrNotFound
         | Some r \<Rightarrow> Inr \<lparr> rv_role = r, rv_permissions = rolePermissionCodes st (ro_id r) \<rparr>)"

definition roleOwnerColumns :: "str \<Rightarrow> str \<Rightarrow> str \<times> str" where
  "roleOwnerColumns scopeType scopeId =
     (let t = normalizeScopeType scopeType in
      if t = ''organization'' then (trimSpace scopeId, [])
      else if t = ''project'' then ([], trimSpace scopeId)
      else ([], []))"

definition replaceRolePermissionsTx :: "str \<Rightarrow> str list \<Rightarrow> unit tx" where
  "replaceRolePermissionsTx roleId codes = bindT (clearRolePerms roleId) (\<lambda>_.
     bindT (mapT (\<lambda>code. bindT getT (\<lambda>st. case findFirst (\<lambda>p. p_code p = code) (permsT st) of
         None \<Rightarrow> failT (ErrMsg ''unknown permission code'')
       | Some p \<Rightarrow> addRolePerm roleId (p_id p))) codes) (\<lambda>_. retT ()))"

definition createRole :: "str \<Rightarrow> str \<Rightarrow> str \<Rightarrow> str \<Rightarrow> str \<Rightarrow> str list \<Rightarrow> str \<Rightarrow> store \<Rightarrow> (goErr + roleView) \<times> store" where
  "createRole code name description scopeType scopeId permissions actor = runTx (
     bindT newUUID (\<lambda>i. case roleOwnerColumns scopeType scopeId of (orgId, projectId) \<Rightarrow>
       let r = \<lparr> ro_id = i, ro_code = code, ro_name = name, ro_description = description,
                 ro_scopeType = scopeType, ro_org = nullif orgId, ro_project = nullif projectId,
                 ro_system = False, ro_deleted = False \<rparr> in
       bindT (insertRole r) (\<lambda>_. bindT (replaceRolePermissionsTx i permissions) (\<lambda>_.
         retT \<lparr> rv_role = r, rv_permissions = permissions \<rparr>))))"

definition updateRole :: "str \<Rightarrow> str \<Rightarrow> str \<Rightarrow> str \<Rightarrow> str \<Rightarrow> str \<Rightarrow> str list \<Rightarrow> str \<Rightarrow> store \<Rightarrow> (goErr + roleView) \<times> store" where
  "updateRole i code name description scopeType scopeId permissions actor = runTx (
     bindT getT (\<lambda>st. case findRole i st of
       None \<Rightarrow> failT ErrNotFound
     | Some old \<Rightarrow> if ro_system old then failT (ErrMsg ''system role cannot be updated'')
         else case roleOwnerColumns scopeType scopeId of (orgId, projectId) \<Rightarrow>
           let r = old\<lparr>ro_code := code, ro_name := name, ro_description := description,
                       ro_scopeType := scopeType, ro_org := nullif orgId, ro_project := nullif projectId\<rparr> in
           bindT (replaceRole r) (\<lambda>_. bindT (replaceRolePermissionsTx (ro_id r) permissions) (\<lambda>_.
             retT \<lparr> rv_role = r, rv_permissions = permissions \<rparr>))))"

definition deleteRole :: "str \<Rightarrow> str \<Rightarrow> store \<Rightarrow> (goErr + unit) \<times> store" where
  "deleteRole i actor st =
     (if list_ex (\<lambda>r. ro_id r = i \<and> \<not> ro_deleted r \<and> \<not> ro_system r) (rolesT st)
      then (Inr (), st\<lparr>rolesT := map (\<lambda>r. if ro_id r = i \<and> \<not> ro_deleted r \<and> \<not> ro_system r
                                          then r\<lparr>ro_deleted := True\<rparr> else r) (rolesT st)\<rparr>)
      else (Inl ErrNotFound, st))"

section \<open>Bindings\<close>

definition roleIdByCodeTx :: "str \<Rightarrow> str tx" where
  "roleIdByCodeTx code st =
     (case findFirst (\<lambda>r. ro_code r = code \<and> \<not> ro_deleted r)
         (sort_key (\<lambda>r. if ro_system r then 0 else (1::nat)) (rolesT st)) of
        None \<Rightarrow> Inl ErrNotFound | Some r \<Rightarrow> Inr (ro_id r, st))"

definition activeBindingId :: "store \<Rightarrow> str \<Rightarrow> str \<Rightarrow> str \<Rightarrow> str \<Rightarrow> str option" where
  "activeBindingId st userId roleId scopeType scopeId =
     map_option b_id (findFirst (\<lambda>b. b_user b = userId \<and> b_role b = roleId \<and> b_scopeType b = scopeType \<and>
        b_scope b = nullif (trimSpace scopeId) \<and> \<not> b_deleted b) (bindingsT st))"

definition recordRoleBindingAuditTx :: "str \<Rightarrow> str \<Rightarrow> str \<Rightarrow> str \<Rightarrow> str \<Rightarrow> str \<Rightarrow> unit tx" where
  "recordRoleBindingAuditTx actor action target roleId scopeType scopeId = bindT newUUID (\<lambda>_ st.
     Inr ((), st\<lparr>bindAuditT := bindAuditT st @ [\<lparr> ba_actor = actor, ba_action = action, ba_target = target,
       ba_role = roleId, ba_scopeType = scopeType, ba_scope = nullif (trimSpace scopeId) \<rparr>]\<rparr>))"

definition bindingView :: "store \<Rightarrow> bindingRow \<Rightarrow> roleBinding option" where
  "bindingView st b =
     (case (findUser (b_user b) st, findFirst (\<lambda>r. ro_id r = b_role b) (rolesT st)) of
        (Some u, Some r) \<Rightarrow> Some \<lparr> rb_id = b_id b,
            rb_user = u\<lparr>u_hash := [], u_algo := [], u_tva := None\<rparr>, rb_roleId = ro_id r, rb_roleCode = ro_code r,
            rb_scopeType = b_scopeType b, rb_scopeId = (case b_scope b of None \<Rightarrow> [] | Some i \<Rightarrow> i),
            rb_grantedBy = b_grantedBy b, rb_expiresAt = b_expires b, rb_createdAt = b_createdAt b \<rparr>
      | _ \<Rightarrow> None)"

definition queryRoleBindings :: "store \<Rightarrow> (bindingRow \<Rightarrow> bool) \<Rightarrow> pagination \<Rightarrow> roleBinding paginated" where
  "queryRoleBindings st cond p =
     paginate p (List.map_filter (bindingView st)
       (sort_key (\<lambda>b. - int (b_createdAt b)) (filter cond (bindingsT st))))"

definition listCond :: "str \<Rightarrow> scope list \<Rightarrow> bindingRow \<Rightarrow> bool" where
  "listCond userId scopes b \<longleftrightarrow> \<not> b_deleted b \<and> (trimSpace userId \<noteq> [] \<longrightarrow> b_user b = userId) \<and>
     (let usable = filter (\<lambda>s. let t = normalizeScopeType (sc_type s) in
             t \<noteq> [] \<and> (t = ''global'' \<or> trimSpace (sc_id s) \<noteq> [])) scopes
      in usable \<noteq> [] \<longrightarrow> list_ex (\<lambda>s. scopeCond s b) usable)"

definition listRoleBindings :: "store \<Rightarrow> str \<Rightarrow> scope list \<Rightarrow> pagination \<Rightarrow> roleBinding paginated" where
  "listRoleBindings st userId scopes p = queryRoleBindings st (listCond userId scopes) p"

definition listRoleBindingsAt :: "store \<Rightarrow> str \<Rightarrow> str \<Rightarrow> pagination \<Rightarrow> roleBinding paginated" where
  "listRoleBindingsAt st scopeType scopeId p = listRoleBindings st [] [mkScope scopeType scopeId] p"

definition listUserGrants :: "store \<Rightarrow> str \<Rightarrow> pagination \<Rightarrow> roleBinding paginated" where
  "listUserGrants st userId p = listRoleBindings st userId [] p"

definition getRoleBinding :: "store \<Rightarrow> str \<Rightarrow> goErr + roleBinding" where
  "getRoleBinding st i =
     (case pg_items (queryRoleBindings st (\<lambda>b. b_id b = i \<and> \<not> b_deleted b) \<lparr>pageNum = 1, pageSize = 1\<rparr>) of
        [] \<Rightarrow> Inl ErrNotFound | b # _ \<Rightarrow> Inr b)"

definition mkBinding :: "str \<Rightarrow> str \<Rightarrow> str \<Rightarrow> str \<Rightarrow> str option \<Rightarrow> str \<Rightarrow> nat option \<Rightarrow> nat \<Rightarrow> bindingRow" where
  "mkBinding i uid rid scopeType scope grantedBy expires now = \<lparr> b_id = i, b_user = uid, b_role = rid,
     b_scopeType = scopeType, b_scope = scope, b_grantedBy = grantedBy, b_expires = expires,
     b_deleted = False, b_createdAt = now \<rparr>"

lemma mkBinding_sel [simp]:
  "b_id (mkBinding i u r t s g x n) = i" "b_user (mkBinding i u r t s g x n) = u"
  "b_role (mkBinding i u r t s g x n) = r" "b_scopeType (mkBinding i u r t s g x n) = t"
  "b_scope (mkBinding i u r t s g x n) = s" "b_expires (mkBinding i u r t s g x n) = x"
  "\<not> b_deleted (mkBinding i u r t s g x n)"
  by (simp_all add: mkBinding_def)

text \<open>The transaction of \<open>GrantRole\<close>: an active binding for the same user, role and scope is reused.\<close>

definition grantRoleTx :: "str \<Rightarrow> str \<Rightarrow> str \<Rightarrow> str \<Rightarrow> str \<Rightarrow> str \<Rightarrow> nat option \<Rightarrow> str \<Rightarrow> (str \<times> str) tx" where
  "grantRoleTx userId name email roleCode scopeType scopeId expiresAt actor =
     bindT (upsertUserByIdTx userId name email) (\<lambda>uid.
     bindT (roleIdByCodeTx roleCode) (\<lambda>rid.
     bindT getT (\<lambda>st. case activeBindingId st uid rid scopeType scopeId of
       Some existing \<Rightarrow> retT (uid, existing)
     | None \<Rightarrow> bindT newUUID (\<lambda>i.
         bindT (insertBinding (mkBinding i uid rid scopeType (nullif scopeId) actor expiresAt (clock st))) (\<lambda>_.
         bindT (recordRoleBindingAuditTx actor ''grant_role'' uid rid scopeType scopeId) (\<lambda>_.
         retT (uid, i)))))))"

definition grantRole :: "str \<Rightarrow> str \<Rightarrow> str \<Rightarrow> str \<Rightarrow> str \<Rightarrow> str \<Rightarrow> nat option \<Rightarrow> str \<Rightarrow> store \<Rightarrow> (goErr + roleBinding) \<times> store" where
  "grantRole userId name email roleCode scopeType scopeId expiresAt actor st =
     (case runTx (grantRoleTx userId name email roleCode scopeType scopeId expiresAt actor) st of
        (Inl e, st') \<Rightarrow> (Inl e, st')
      | (Inr (uid, bid), st') \<Rightarrow> let st2 = cacheUserLabel uid name st' in (getRoleBinding st2 bid, st2))"

definition revokeRoleTx :: "str \<Rightarrow> str \<Rightarrow> str \<Rightarrow> str \<Rightarrow> str \<Rightarrow> unit tx" where
  "revokeRoleTx targetUserId roleCode scopeType scopeId actor = bindT getT (\<lambda>st.
     case findFirst (\<lambda>b. b_user b = targetUserId \<and> findUser targetUserId st \<noteq> None \<and>
         list_ex (\<lambda>r. ro_id r = b_role b \<and> ro_code r = roleCode) (rolesT st) \<and>
         b_scopeType b = scopeType \<and> b_scope b = nullif scopeId \<and> \<not> b_deleted b) (bindingsT st) of
       None \<Rightarrow> failT ErrNotFound
     | Some b \<Rightarrow> bindT (\<lambda>st. Inr ((), st\<lparr>bindingsT := map (\<lambda>x. if b_id x = b_id b
           then x\<lparr>b_deleted := True\<rparr> else x) (bindingsT st)\<rparr>)) (\<lambda>_.
         recordRoleBindingAuditTx actor ''revoke_role'' (b_user b) (b_role b) scopeType scopeId))"

definition revokeRole :: "str \<Rightarrow> str \<Rightarrow> str \<Rightarrow> str \<Rightarrow> str \<Rightarrow> store \<Rightarrow> (goErr + unit) \<times> store" where
  "revokeRole targetUserId roleCode scopeType scopeId actor =
     runTx (revokeRoleTx targetUserId roleCode scopeType scopeId actor)"

definition ensureBootstrapAdmin :: "str \<Rightarrow> str \<Rightarrow> store \<Rightarrow> (goErr + unit) \<times> store" where
  "ensureBootstrapAdmin userId name st =
     (if trimSpace userId = [] then (Inr (), st)
      else case runTx (bindT (upsertUserByIdTx userId name []) (\<lambda>uid.
             bindT (roleIdByCodeTx ''platform_admin'') (\<lambda>rid.
             bindT getT (\<lambda>st. case activeBindingId st uid rid ''global'' [] of
               Some _ \<Rightarrow> retT uid
             | None \<Rightarrow> bindT newUUID (\<lambda>i.
                 bindT (insertBinding (mkBinding i uid rid ''global'' None ''bootstrap'' None (clock st))) (\<lambda>_.
                 retT uid)))))) st of
        (Inl e, st') \<Rightarrow> (Inl e, st')
      | (Inr uid, st') \<Rightarrow> (Inr (), cacheUserLabel uid name st'))"

definition effectivePermissions :: "store \<Rightarrow> str \<Rightarrow> str \<Rightarrow> str \<Rightarrow> goErr + str list \<times> roleBinding list" where
  "effectivePermissions st userId scopeType scopeId =
     bindE (if scopeType \<noteq> ''global'' then resourceScopes st \<lparr>res_type = scopeType, res_id = scopeId\<rparr>
            else Inr [globalScope]) (\<lambda>scopes.
     bindE (userPermissions st userId scopes) (\<lambda>permissions.
     Inr (permissions, pg_items (listRoleBindings st userId scopes \<lparr>pageNum = 1, pageSize = 1000\<rparr>))))"

end
