(* ===== verification/RbacViews.thy ===== *)
theory RbacViews
  imports RbacAdmin
begin

text \<open>
  The visibility queries of the RBAC store: \<open>ListPermissions\<close>, \<open>UserHasPermissionAnywhere\<close>,
  \<open>ListUsers\<close> with its common table expressions, and \<open>ListRoleBindingsCascading\<close> with its recursive one;
  and SQL's \<open>ilike\<close>, whose pattern is built from the caller's keyword without escaping.
\<close>

section \<open>ilike\<close>

function like :: "str \<Rightarrow> str \<Rightarrow> bool" where
  "like [] s = (s = [])"
| "like (c # p) s =
     (if c = CHR ''%'' then like p s \<or> (case s of [] \<Rightarrow> False | _ # s' \<Rightarrow> like (c # p) s')
      else if c = CHR ''_'' then (case s of [] \<Rightarrow> False | _ # s' \<Rightarrow> like p s')
      else if c = CHR 0x5C then (case p of [] \<Rightarrow> False | d # p' \<Rightarrow>
        (case s of [] \<Rightarrow> False | x # s' \<Rightarrow> x = d \<and> like p' s'))
      else (case s of [] \<Rightarrow> False | x # s' \<Rightarrow> x = c \<and> like p s'))"
  by pat_completeness auto
termination by (relation "measure (\<lambda>(p, s). length p + length s)") auto

definition ilikeContains :: "str \<Rightarrow> str \<Rightarrow> bool" where
  "ilikeContains s keyword = like (CHR ''%'' # toLower keyword @ ''%'') (toLower s)"

lemma like_percent: "like (CHR ''%'' # p) s \<longleftrightarrow> (\<exists>a b. s = a @ b \<and> like p b)"
proof (induction s)
  case (Cons x s)
  show ?case
  proof
    assume "like (CHR ''%'' # p) (x # s)"
    then consider "like p (x # s)" | "like (CHR ''%'' # p) s" by auto
    then show "\<exists>a b. x # s = a @ b \<and> like p b"
      using Cons.IH by cases (metis append_Nil, metis append_Cons)
  next
    assume "\<exists>a b. x # s = a @ b \<and> like p b"
    then obtain a b where ab: "x # s = a @ b" "like p b" by blast
    show "like (CHR ''%'' # p) (x # s)"
    proof (cases a)
      case Nil
      with ab show ?thesis by simp
    next
      case (Cons y ys)
      with ab Cons.IH have "like (CHR ''%'' # p) s" by auto
      then show ?thesis by simp
    qed
  qed
qed auto

lemma like_literal:
  "\<forall>c \<in> set p. c \<notin> {CHR ''%'', CHR ''_'', CHR 0x5C} \<Longrightarrow> like (p @ q) s \<longleftrightarrow> (\<exists>r. s = p @ r \<and> like q r)"
  by (induction p arbitrary: s) (auto split: list.splits)

lemma ilikeContains_plain:
  assumes "\<forall>c \<in> set (toLower k). c \<notin> {CHR ''%'', CHR ''_'', CHR 0x5C}"
  shows "ilikeContains s k \<longleftrightarrow> containsSub (toLower k) (toLower s)"
proof -
  have all: "like ''%'' r" for r by (simp only: like_percent) (metis append_Nil2 like.simps(1))
  show ?thesis
    by (simp only: ilikeContains_def like_percent like_literal [OF assms] containsSub_iff all) auto
qed

section \<open>Permissions anywhere\<close>

definition listPermissions :: "store \<Rightarrow> permissionRow list" where
  "listPermissions st = sort_key p_resourceType (sort_key p_action (permsT st))"

definition userHasPermissionAnywhere :: "store \<Rightarrow> str \<Rightarrow> str \<Rightarrow> bool" where
  "userHasPermissionAnywhere st userId code =
     (if trimSpace userId = [] \<or> trimSpace code = [] then False
      else list_ex (\<lambda>b. b_user b = userId \<and> bindingActive st b \<and> roleLive st (b_role b) \<and>
             code \<in> set (roleCodes st (b_role b))) (bindingsT st))"

section \<open>ListUsers\<close>

type_synonym scopeRef = "str \<times> str option"

definition callerManageScopes :: "store \<Rightarrow> str \<Rightarrow> scopeRef list" where
  "callerManageScopes st caller = remdups (map (\<lambda>b. (b_scopeType b, b_scope b))
     (filter (\<lambda>b. b_user b = caller \<and> bindingActive st b \<and> roleLive st (b_role b) \<and>
        ''rbac:role:manage'' \<in> set (roleCodes st (b_role b))) (bindingsT st)))"

definition liveRows :: "tab \<Rightarrow> store \<Rightarrow> row list" where
  "liveRows t st = filter (\<lambda>r. \<not> r_deleted r) (tbl st t)"

definition projectsUnderOrg :: "store \<Rightarrow> str \<Rightarrow> row list" where
  "projectsUnderOrg st org = filter (\<lambda>p. r_parent p = org) (liveRows Projects st)"

definition envsUnder :: "store \<Rightarrow> str list \<Rightarrow> row list" where
  "envsUnder st projects = filter (\<lambda>e. r_parent e \<in> set projects) (liveRows Environments st)"

definition foldersUnder :: "store \<Rightarrow> str list \<Rightarrow> row list" where
  "foldersUnder st envs = filter (\<lambda>f. r_parent f \<in> set envs) (liveRows Folders st)"

definition tagged :: "str \<Rightarrow> row list \<Rightarrow> scopeRef list" where
  "tagged t rs = map (\<lambda>r. (t, Some (r_id r))) rs"

definition expandScope :: "store \<Rightarrow> scopeRef \<Rightarrow> scopeRef list" where
  "expandScope st s = (case s of
       (t, Some i) \<Rightarrow>
         if t = ''organization'' then
           let ps = projectsUnderOrg st i; es = envsUnder st (map r_id ps); fs = foldersUnder st (map r_id es)
           in s # tagged ''project'' ps @ tagged ''environment'' es @ tagged ''folder'' fs
         else if t = ''project'' then
           let es = envsUnder st [i]; fs = foldersUnder st (map r_id es)
           in s # tagged ''environment'' es @ tagged ''folder'' fs
         else if t = ''environment'' then s # tagged ''folder'' (foldersUnder st [i])
         else [s]
     | (t, None) \<Rightarrow> [s])"

definition visibleScopes :: "store \<Rightarrow> str \<Rightarrow> scopeRef list" where
  "visibleScopes st caller = remdups (concat (map (expandScope st) (callerManageScopes st caller)))"

definition scopeRefMatches :: "scopeRef \<Rightarrow> bindingRow \<Rightarrow> bool" where
  "scopeRefMatches vs b \<longleftrightarrow>
     (fst vs = ''global'' \<and> b_scopeType b = ''global'' \<and> b_scope b = None) \<or>
     (b_scopeType b = fst vs \<and> snd vs \<noteq> None \<and> b_scope b = snd vs)"

definition visibleUsers :: "store \<Rightarrow> str \<Rightarrow> user list" where
  "visibleUsers st caller =
     (let hasGlobal = list_ex (\<lambda>s. fst s = ''global'') (callerManageScopes st caller);
          vs = visibleScopes st caller
      in filter (\<lambda>u. hasGlobal \<or> u_id u = caller \<or>
           list_ex (\<lambda>b. b_user b = u_id u \<and> \<not> b_deleted b \<and> list_ex (\<lambda>v. scopeRefMatches v b) vs) (bindingsT st))
         (usersT st))"

definition keywordMatches :: "str \<Rightarrow> user \<Rightarrow> bool" where
  "keywordMatches keyword u \<longleftrightarrow> keyword = [] \<or> ilikeContains (u_name u) keyword \<or>
     ilikeContains (u_ext u) keyword \<or> ilikeContains (u_email u) keyword \<or> ilikeContains (u_id u) keyword"

definition userRows :: "store \<Rightarrow> str \<Rightarrow> str \<Rightarrow> user list" where
  "userRows st callerId keyword =
     sort_key u_name (sort_key u_ext (filter (keywordMatches keyword) (visibleUsers st callerId)))"

definition listUsers :: "store \<Rightarrow> str \<Rightarrow> str \<Rightarrow> pagination \<Rightarrow> user paginated" where
  "listUsers st callerId keyword p =
     (if trimSpace callerId = [] then \<lparr> pg_items = [], pg_total = 0 \<rparr>
      else paginate p (userRows st (trimSpace callerId) (trimSpace keyword)))"

lemma set_userRows: "set (userRows st c k) \<subseteq> set (visibleUsers st c)"
  by (auto simp: userRows_def)

lemma listUsers_visible:
  assumes "u \<in> set (pg_items (listUsers st c k p))"
  shows "u \<in> set (visibleUsers st (trimSpace c))"
proof (cases "trimSpace c = []")
  case True
  with assms show ?thesis by (simp add: listUsers_def)
next
  case False
  with assms have "u \<in> set (pageOf p (userRows st (trimSpace c) (trimSpace k)))"
    by (simp add: listUsers_def paginate_def)
  then have "u \<in> set (userRows st (trimSpace c) (trimSpace k))"
    by (rule subsetD [OF pageOf_subset])
  then show ?thesis by (rule subsetD [OF set_userRows])
qed

section \<open>ListRoleBindingsCascading\<close>

text \<open>The recursive query unfolds a fixed hierarchy, so its fixed point is reached in four steps; a
  global anchor has no join partner because its \<open>scope_id\<close> is NULL.  This is the meaning of the query as written:
  its five branches are nested to the left, and PostgreSQL takes a recursive reference in the last branch only, an error
  that a comment of \<open>ListUsers\<close> in the same file describes.\<close>

definition childScopes :: "store \<Rightarrow> scopeRef \<Rightarrow> scopeRef list" where
  "childScopes st s = (case s of
       (t, Some i) \<Rightarrow>
         if t = ''organization'' then tagged ''project'' (projectsUnderOrg st i)
         else if t = ''project'' then tagged ''environment'' (envsUnder st [i])
         else if t = ''environment'' then tagged ''folder'' (foldersUnder st [i])
         else if t = ''folder'' then
           map (\<lambda>x. (''secret'', Some (s_id x))) (filter (\<lambda>x. s_folder x = i \<and> \<not> s_deleted x) (secretsT st))
         else []
     | (_, None) \<Rightarrow> [])"

fun descend :: "nat \<Rightarrow> store \<Rightarrow> scopeRef list \<Rightarrow> scopeRef list" where
  "descend 0 st frontier = []"
| "descend (Suc n) st frontier = frontier @ descend n st (concat (map (childScopes st) frontier))"

definition scopeDescendants :: "store \<Rightarrow> str \<Rightarrow> str \<Rightarrow> scopeRef list" where
  "scopeDescendants st scopeType scopeId =
     descend 5 st [(scopeType, if scopeType = ''global'' then None else Some scopeId)]"

definition listRoleBindingsCascading :: "store \<Rightarrow> str \<Rightarrow> str \<Rightarrow> pagination \<Rightarrow> goErr + roleBinding paginated" where
  "listRoleBindingsCascading st scopeType0 scopeId0 p =
     (let scopeType = trimSpace scopeType0; scopeId = trimSpace scopeId0 in
      if scopeType = [] then Inl (ErrMsg ''empty scope type'')
      else if scopeType \<noteq> ''global'' \<and> scopeId = [] then Inl (ErrMsg ''non-global scope requires scopeId'')
      else let ds = scopeDescendants st scopeType scopeId;
               hits = filter (\<lambda>b. \<not> b_deleted b \<and> list_ex (\<lambda>d. scopeRefMatches d b) ds) (bindingsT st)
           in Inr \<lparr> pg_items = pageOf p (List.map_filter (bindingView st) (sort_key (\<lambda>b. - int (b_createdAt b)) hits)),
                    pg_total = length hits \<rparr>)"

text \<open>The depth bound is a fixed point: one more round adds nothing.\<close>

lemma childScopes_secret [simp]: "childScopes st (''secret'', i) = []"
  by (simp add: childScopes_def split: option.splits)

definition depthOf :: "str \<Rightarrow> nat" where
  "depthOf t = (if t = ''secret'' then 0 else if t = ''folder'' then 1 else if t = ''environment'' then 2
     else if t = ''project'' then 3 else 4)"

lemma depthOf_simps [simp]:
  "depthOf ''secret'' = 0" "depthOf ''folder'' = 1" "depthOf ''environment'' = 2"
  "depthOf ''project'' = 3" "depthOf ''organization'' = 4"
  by (simp_all add: depthOf_def)

lemma tagged_fst: "s \<in> set (tagged t rs) \<Longrightarrow> fst s = t"
  by (auto simp: tagged_def)

lemma childScopes_depth:
  assumes "s' \<in> set (childScopes st s)"
  shows "Suc (depthOf (fst s')) \<le> depthOf (fst s)"
proof -
  obtain t i where s: "s = (t, i)" by (cases s)
  with assms obtain j where i: "i = Some j" by (cases i) (auto simp: childScopes_def)
  note c = assms [unfolded s i childScopes_def, simplified]
  consider "t = ''organization''" | "t = ''project''" | "t = ''environment''" | "t = ''folder''"
    | "t \<noteq> ''organization''" "t \<noteq> ''project''" "t \<noteq> ''environment''" "t \<noteq> ''folder''" by blast
  then show ?thesis
  proof cases
    case 1 then show ?thesis using c s by (simp add: tagged_fst)
  next
    case 2 then show ?thesis using c s by (simp add: tagged_fst)
  next
    case 3 then show ?thesis using c s by (simp add: tagged_fst)
  next
    case 4 then show ?thesis using c s by auto
  next
    case 5 then show ?thesis using c by simp
  qed
qed

lemma descend_nil [simp]: "descend n st [] = []" by (induction n) auto

lemma children_depth:
  assumes "\<forall>s \<in> set fr. depthOf (fst s) < Suc n"
  shows "\<forall>s \<in> set (concat (map (childScopes st) fr)). depthOf (fst s) < n"
  using assms childScopes_depth [of _ st] by fastforce

lemma descend_stable:
  "\<forall>s \<in> set fr. depthOf (fst s) < n \<Longrightarrow> descend (n + k) st fr = descend n st fr"
proof (induction n arbitrary: fr)
  case 0
  then have "fr = []" by (cases fr) auto
  then show ?case by simp
next
  case (Suc n)
  from Suc.IH [OF children_depth [OF Suc.prems]] show ?case by simp
qed

lemma depthOf_bound: "depthOf t < 5" by (simp add: depthOf_def)

definition childOf :: "store \<Rightarrow> scopeRef \<Rightarrow> scopeRef \<Rightarrow> bool" where
  "childOf st s s' \<longleftrightarrow> s' \<in> set (childScopes st s)"

lemma descend_closure:
  "\<forall>s \<in> set fr. depthOf (fst s) < n \<Longrightarrow> set (descend n st fr) = {s. \<exists>a \<in> set fr. rtranclp (childOf st) a s}"
proof (induction n arbitrary: fr)
  case 0
  then have "fr = []" by (cases fr) auto
  then show ?case by simp
next
  case (Suc n)
  let ?below = "\<lambda>s. \<exists>a \<in> set fr. \<exists>c. childOf st a c \<and> rtranclp (childOf st) c s"
  have split: "(s = a \<or> (\<exists>c. childOf st a c \<and> rtranclp (childOf st) c s)) \<longleftrightarrow> rtranclp (childOf st) a s" for a s
    by (blast elim: converse_rtranclpE intro: converse_rtranclp_into_rtranclp)
  have "set (descend n st (concat (map (childScopes st) fr))) = Collect ?below"
    unfolding Suc.IH [OF children_depth [OF Suc.prems]] by (auto simp: childOf_def)
  then have "set (descend (Suc n) st fr) = set fr \<union> Collect ?below" by simp
  also have "\<dots> = {s. \<exists>a \<in> set fr. s = a \<or> (\<exists>c. childOf st a c \<and> rtranclp (childOf st) c s)}" by blast
  also have "\<dots> = {s. \<exists>a \<in> set fr. rtranclp (childOf st) a s}" by (simp only: split)
  finally show ?case .
qed

text \<open>The recursive query of \<open>ListRoleBindingsCascading\<close> ends and is complete. Whatever the tables hold, its
  fixed point is reached after five rounds, and the scopes it yields are exactly those below the anchor in
  the reflexive and transitive closure of the parent relation of the hierarchy.\<close>

lemma cascade_terminates:
  "descend (5 + k) st [(t, if t = ''global'' then None else Some i)] = scopeDescendants st t i \<and>
   set (scopeDescendants st t i) = {s. rtranclp (childOf st) (t, if t = ''global'' then None else Some i) s}"
  using descend_stable [of "[(t, if t = ''global'' then None else Some i)]" 5 k st]
    descend_closure [of "[(t, if t = ''global'' then None else Some i)]" 5 st]
  by (simp add: scopeDescendants_def depthOf_bound)

end
