(* ===== verification/Repository.thy ===== *)
theory Repository
  imports RbacViews
begin

text \<open>
  The entity half of \<open>internal/store/postgres/repository.go\<close>: organizations, projects, environments,
  environment templates and folders, with their transactions, audit records and cascading soft deletes.
  One generic operation serves several tables, as in the code, where the table name is a parameter.
\<close>

section \<open>Rows and entities\<close>

definition newRow :: "str \<Rightarrow> str \<Rightarrow> str \<Rightarrow> str \<Rightarrow> str \<Rightarrow> str \<Rightarrow> int \<Rightarrow> str option \<Rightarrow> int \<Rightarrow> nat \<Rightarrow> row" where
  "newRow i parent code name comment actor srt fld lvl now = \<lparr> r_id = i, r_parent = parent, r_code = code,
     r_name = name, r_comment = comment, r_sort = srt, r_folder = fld, r_level = lvl, r_deleted = False,
     r_deletedBy = [], r_deletedAt = None, r_createdBy = actor, r_updatedBy = actor, r_createdAt = now,
     r_updatedAt = now \<rparr>"

lemma newRow_sel [simp]:
  "r_id (newRow i p c n m a s f l t) = i" "r_parent (newRow i p c n m a s f l t) = p"
  "r_code (newRow i p c n m a s f l t) = c" "r_folder (newRow i p c n m a s f l t) = f"
  "r_level (newRow i p c n m a s f l t) = l" "\<not> r_deleted (newRow i p c n m a s f l t)"
  "r_name (newRow i p c n m a s f l t) = n" "r_comment (newRow i p c n m a s f l t) = m"
  "r_sort (newRow i p c n m a s f l t) = s" "r_createdBy (newRow i p c n m a s f l t) = a"
  "r_updatedBy (newRow i p c n m a s f l t) = a"
  by (simp_all add: newRow_def)

text \<open>\<open>parentColumn\<close>: the column of the parent that is not a folder; organizations have none.\<close>

definition hasParentColumn :: "tab \<Rightarrow> bool" where
  "hasParentColumn t \<longleftrightarrow> t \<noteq> Organizations"

text \<open>The columns an entity is scanned from; only environments read \<open>sort_order\<close>.\<close>

definition scanEntity :: "tab \<Rightarrow> str \<Rightarrow> row \<Rightarrow> entity" where
  "scanEntity t parent r = \<lparr> e_id = r_id r, e_parent = (if hasParentColumn t then parent else []),
     e_code = r_code r, e_name = r_name r, e_comment = r_comment r,
     e_sort = (if t = Environments then r_sort r else 0),
     e_createdBy = r_createdBy r, e_createdByLabel = [], e_updatedBy = r_updatedBy r, e_updatedByLabel = [],
     e_createdAt = r_createdAt r, e_updatedAt = r_updatedAt r \<rparr>"

definition fillEntityLabels :: "store \<Rightarrow> entity \<Rightarrow> entity" where
  "fillEntityLabels st e = e\<lparr>e_createdByLabel := labelOf st (e_createdBy e),
     e_updatedByLabel := labelOf st (e_updatedBy e)\<rparr>"

definition readEntity :: "store \<Rightarrow> tab \<Rightarrow> row \<Rightarrow> entity" where
  "readEntity st t r = fillEntityLabels st (scanEntity t (r_parent r) r)"

definition defaultEnvironmentSortOrder :: "str \<Rightarrow> int" where
  "defaultEnvironmentSortOrder code =
     (let c = trimSpace code in
      if c = ''dev'' then 10 else if c = ''test'' then 20 else if c = ''sim'' then 30
      else if c = ''prod'' then 40 else 100)"

section \<open>Audit\<close>

definition recordAuditTx :: "str \<Rightarrow> str \<Rightarrow> str \<Rightarrow> str \<Rightarrow> payload \<Rightarrow> unit tx" where
  "recordAuditTx actor resourceType resourceId action value = bindT newUUID (\<lambda>i st.
     if i \<in> set (map a_id (auditT st)) then Inl pgUnique
     else Inr ((), st\<lparr>auditT := auditT st @ [\<lparr> a_id = i, a_actor = actor, a_type = resourceType,
       a_resource = resourceId, a_action = action, a_payload = value, a_createdAt = clock st \<rparr>]\<rparr>))"

definition recordAudit :: "str \<Rightarrow> str \<Rightarrow> str \<Rightarrow> str \<Rightarrow> payload \<Rightarrow> store \<Rightarrow> (goErr + unit) \<times> store" where
  "recordAudit actor resourceType resourceId action value =
     runTx (recordAuditTx actor resourceType resourceId action value)"

definition listAuditRecords :: "store \<Rightarrow> str \<Rightarrow> str \<Rightarrow> pagination \<Rightarrow> auditRow paginated" where
  "listAuditRecords st resourceType resourceId p = paginate p (sort_key (\<lambda>a. - int (a_createdAt a))
     (filter (\<lambda>a. (resourceType = [] \<or> a_type a = resourceType) \<and>
                  (resourceId = [] \<or> a_resource a = resourceId)) (auditT st)))"

section \<open>Generic entity operations\<close>

definition createEntityTx :: "tab \<Rightarrow> str \<Rightarrow> str \<Rightarrow> str \<Rightarrow> str \<Rightarrow> str \<Rightarrow> entity tx" where
  "createEntityTx t parent code name comment actor = bindT newUUID (\<lambda>i. bindT getT (\<lambda>st.
     let r = newRow i parent code name comment actor 100 None 1 (clock st) in
     bindT (translated (insertRow t r)) (\<lambda>_.
     retT (fillEntityLabels st (scanEntity t parent r\<lparr>e_sort := 0\<rparr>)))))"

definition createEntity :: "tab \<Rightarrow> str \<Rightarrow> str \<Rightarrow> str \<Rightarrow> str \<Rightarrow> str \<Rightarrow> str \<Rightarrow> store \<Rightarrow> (goErr + entity) \<times> store" where
  "createEntity t parent code name comment actor resourceType = runTx (
     bindT (createEntityTx t parent code name comment actor) (\<lambda>e.
     bindT (recordAuditTx actor resourceType (e_id e) ''create'' NoPayload) (\<lambda>_. retT e)))"

definition createEnvironmentTx :: "str \<Rightarrow> str \<Rightarrow> str \<Rightarrow> str \<Rightarrow> str \<Rightarrow> int \<Rightarrow> entity tx" where
  "createEnvironmentTx projectId code name comment actor sortOrder = bindT newUUID (\<lambda>i. bindT getT (\<lambda>st.
     let so = (if sortOrder \<le> 0 then defaultEnvironmentSortOrder code else sortOrder);
         r = newRow i projectId code name comment actor so None 1 (clock st) in
     bindT (translated (insertRow Environments r)) (\<lambda>_. retT (readEntity st Environments r))))"

text \<open>\<open>insert ... on conflict (org_id, code) where is_deleted = false do nothing\<close>; its errors are not
  translated.\<close>

definition upsertEnvironmentTemplateTx :: "str \<Rightarrow> str \<Rightarrow> str \<Rightarrow> str \<Rightarrow> str \<Rightarrow> unit tx" where
  "upsertEnvironmentTemplateTx orgId code name comment actor = bindT newUUID (\<lambda>i. bindT getT (\<lambda>st.
     let r = newRow i orgId code name comment actor 0 None 1 (clock st) in
     if \<not> checkOk EnvironmentTemplates r then failT pgCheck
     else if indexKey r \<in> set (activeKeys (tbl st EnvironmentTemplates)) then retT ()
     else insertRow EnvironmentTemplates r))"

definition getEntity :: "store \<Rightarrow> tab \<Rightarrow> str \<Rightarrow> goErr + entity" where
  "getEntity st t i = (case findRow t i st of None \<Rightarrow> Inl ErrNotFound | Some r \<Rightarrow> Inr (readEntity st t r))"

definition getEntityByCode :: "store \<Rightarrow> tab \<Rightarrow> str \<Rightarrow> goErr + entity" where
  "getEntityByCode st t code =
     (case findFirst (\<lambda>r. r_code r = code \<and> \<not> r_deleted r) (tbl st t) of
        None \<Rightarrow> Inl ErrNotFound | Some r \<Rightarrow> Inr (readEntity st t r))"

definition getEntityByCodeWithParent :: "store \<Rightarrow> tab \<Rightarrow> str \<Rightarrow> str \<Rightarrow> goErr + entity" where
  "getEntityByCodeWithParent st t parentId code =
     (case findFirst (\<lambda>r. r_parent r = parentId \<and> r_code r = code \<and> \<not> r_deleted r) (tbl st t) of
        None \<Rightarrow> Inl ErrNotFound | Some r \<Rightarrow> Inr (readEntity st t r))"

definition updateEntity :: "tab \<Rightarrow> str \<Rightarrow> str \<Rightarrow> str \<Rightarrow> str \<Rightarrow> str \<Rightarrow> store \<Rightarrow> (goErr + entity) \<times> store" where
  "updateEntity t i name comment actor resourceType = runTx (bindT getT (\<lambda>st.
     case findRow t i st of
       None \<Rightarrow> failT ErrNotFound
     | Some r \<Rightarrow>
         let f = (\<lambda>x. x\<lparr>r_name := name, r_comment := comment, r_updatedBy := actor, r_updatedAt := clock st\<rparr>) in
         bindT (\<lambda>st. Inr ((), setTbl t (map (\<lambda>x. if r_id x = i \<and> \<not> r_deleted x then f x else x) (tbl st t)) st)) (\<lambda>_.
         bindT (recordAuditTx actor resourceType (r_id r) ''update'' NoPayload) (\<lambda>_.
         retT (readEntity st t (f r))))))"

definition listEntities :: "store \<Rightarrow> tab \<Rightarrow> str \<Rightarrow> pagination \<Rightarrow> entity paginated" where
  "listEntities st t parentId p = paginate p (map (readEntity st t) (sort_key r_name
     (filter (\<lambda>r. parentId = [] \<or> r_parent r = parentId) (liveRows t st))))"

section \<open>Soft deletes\<close>

definition markDeleted :: "str \<Rightarrow> nat \<Rightarrow> row \<Rightarrow> row" where
  "markDeleted actor now r = r\<lparr>r_deleted := True, r_deletedAt := Some now, r_deletedBy := actor,
     r_updatedBy := actor, r_updatedAt := now\<rparr>"

definition markSecretDeleted :: "str \<Rightarrow> nat \<Rightarrow> secretRow \<Rightarrow> secretRow" where
  "markSecretDeleted actor now s = s\<lparr>s_deleted := True, s_deletedAt := Some now, s_deletedBy := actor,
     s_updatedBy := actor, s_updatedAt := now\<rparr>"

text \<open>\<open>update ... set is_deleted = true ... where P and is_deleted = false returning id\<close>\<close>

definition softDeleteRows :: "tab \<Rightarrow> (row \<Rightarrow> bool) \<Rightarrow> str \<Rightarrow> str list tx" where
  "softDeleteRows t P actor st =
     Inr (map r_id (filter (\<lambda>r. P r \<and> \<not> r_deleted r) (tbl st t)),
          setTbl t (map (\<lambda>r. if P r \<and> \<not> r_deleted r then markDeleted actor (clock st) r else r) (tbl st t)) st)"

definition softDeleteSecrets :: "(secretRow \<Rightarrow> bool) \<Rightarrow> str \<Rightarrow> str list tx" where
  "softDeleteSecrets P actor st =
     Inr (map s_id (filter (\<lambda>s. P s \<and> \<not> s_deleted s) (secretsT st)),
          st\<lparr>secretsT := map (\<lambda>s. if P s \<and> \<not> s_deleted s then markSecretDeleted actor (clock st) s else s)
             (secretsT st)\<rparr>)"

definition insertDeletedRecord :: "str \<Rightarrow> str \<Rightarrow> payload \<Rightarrow> str \<Rightarrow> unit tx" where
  "insertDeletedRecord resourceType i snapshot actor = bindT newUUID (\<lambda>did st.
     if did \<in> set (map d_id (deletedT st)) then Inl pgUnique
     else Inr ((), st\<lparr>deletedT := deletedT st @ [\<lparr> d_id = did, d_type = resourceType, d_resource = i,
       d_key = resourceType @ '':'' @ i, d_snapshot = snapshot, d_by = actor, d_at = clock st \<rparr>]\<rparr>))"

definition snapshotAndSoftDeleteTx :: "tab \<Rightarrow> str \<Rightarrow> str \<Rightarrow> str \<Rightarrow> unit tx" where
  "snapshotAndSoftDeleteTx t i actor resourceType = bindT getT (\<lambda>st.
     case findRow t i st of
       None \<Rightarrow> failT ErrNotFound
     | Some r \<Rightarrow> bindT (insertDeletedRecord resourceType i (RowSnapshot r) actor) (\<lambda>_.
         bindT (softDeleteRows t (\<lambda>x. r_id x = i) actor) (\<lambda>affected.
         if affected = [] then failT ErrNotFound
         else recordAuditTx actor resourceType i ''delete'' (RowSnapshot r))))"

definition snapshotAndSoftDeleteSecretTx :: "str \<Rightarrow> str \<Rightarrow> unit tx" where
  "snapshotAndSoftDeleteSecretTx i actor = bindT getT (\<lambda>st.
     case findSecret i st of
       None \<Rightarrow> failT ErrNotFound
     | Some s \<Rightarrow> bindT (insertDeletedRecord ''secret'' i (SecretSnapshot s) actor) (\<lambda>_.
         bindT (softDeleteSecrets (\<lambda>x. s_id x = i) actor) (\<lambda>affected.
         if affected = [] then failT ErrNotFound
         else recordAuditTx actor ''secret'' i ''delete'' (SecretSnapshot s))))"

definition softDeleteByParentTx :: "tab \<Rightarrow> str \<Rightarrow> str \<Rightarrow> str list tx" where
  "softDeleteByParentTx t parentId actor = softDeleteRows t (\<lambda>r. r_parent r = parentId) actor"

definition idsUnder :: "tab \<Rightarrow> (str \<Rightarrow> bool) \<Rightarrow> store \<Rightarrow> str list" where
  "idsUnder t P st = map r_id (filter (\<lambda>r. P (r_parent r)) (tbl st t))"

text \<open>The sub-queries of the cascades look at all rows, deleted ones included.\<close>

definition projectIdsOfOrg :: "store \<Rightarrow> str \<Rightarrow> str list" where
  "projectIdsOfOrg st orgId = idsUnder Projects (\<lambda>p. p = orgId) st"

definition envIdsOfProjects :: "store \<Rightarrow> str list \<Rightarrow> str list" where
  "envIdsOfProjects st ps = idsUnder Environments (\<lambda>p. p \<in> set ps) st"

definition folderIdsOfEnvs :: "store \<Rightarrow> str list \<Rightarrow> str list" where
  "folderIdsOfEnvs st es = idsUnder Folders (\<lambda>p. p \<in> set es) st"

definition softDeleteEnvUnderOrgTx :: "str \<Rightarrow> str \<Rightarrow> str list tx" where
  "softDeleteEnvUnderOrgTx orgId actor = bindT getT (\<lambda>st.
     softDeleteRows Environments (\<lambda>e. r_parent e \<in> set (projectIdsOfOrg st orgId)) actor)"

definition softDeleteFolderUnderOrgTx :: "str \<Rightarrow> str \<Rightarrow> str list tx" where
  "softDeleteFolderUnderOrgTx orgId actor = bindT getT (\<lambda>st.
     softDeleteRows Folders (\<lambda>f. r_parent f \<in> set (envIdsOfProjects st (projectIdsOfOrg st orgId))) actor)"

definition softDeleteSecretUnderOrgTx :: "str \<Rightarrow> str \<Rightarrow> str list tx" where
  "softDeleteSecretUnderOrgTx orgId actor = bindT getT (\<lambda>st.
     softDeleteSecrets (\<lambda>s. s_folder s \<in> set (folderIdsOfEnvs st
       (envIdsOfProjects st (projectIdsOfOrg st orgId)))) actor)"

definition softDeleteFolderUnderProjectTx :: "str \<Rightarrow> str \<Rightarrow> str list tx" where
  "softDeleteFolderUnderProjectTx projectId actor = bindT getT (\<lambda>st.
     softDeleteRows Folders (\<lambda>f. r_parent f \<in> set (envIdsOfProjects st [projectId])) actor)"

definition softDeleteSecretsUnderProjectTx :: "str \<Rightarrow> str \<Rightarrow> str list tx" where
  "softDeleteSecretsUnderProjectTx projectId actor = bindT getT (\<lambda>st.
     softDeleteSecrets (\<lambda>s. s_folder s \<in> set (folderIdsOfEnvs st (envIdsOfProjects st [projectId]))) actor)"

definition softDeleteSecretsUnderEnvTx :: "str \<Rightarrow> str \<Rightarrow> str list tx" where
  "softDeleteSecretsUnderEnvTx envId actor = bindT getT (\<lambda>st.
     softDeleteSecrets (\<lambda>s. s_folder s \<in> set (folderIdsOfEnvs st [envId])) actor)"

section \<open>Organizations\<close>

definition activeOrganization :: "store \<Rightarrow> str \<Rightarrow> bool" where
  "activeOrganization st code \<longleftrightarrow> list_ex (\<lambda>r. r_code r = code \<and> \<not> r_deleted r) (tbl st Organizations)"

text \<open>Both texts of the conflict wrap \<open>ErrConflict\<close>, so the second query does not change the error.\<close>

definition createOrganization :: "str \<Rightarrow> str \<Rightarrow> str \<Rightarrow> str \<Rightarrow> store \<Rightarrow> (goErr + entity) \<times> store" where
  "createOrganization code name comment actor st =
     (case createEntity Organizations [] code name comment actor ''organization'' st of
        (Inl ErrConflict, st') \<Rightarrow> if activeOrganization st' code then (Inl ErrConflict, st') else (Inl ErrConflict, st')
      | r \<Rightarrow> r)"

definition deleteOrganizationTx :: "str \<Rightarrow> str \<Rightarrow> cascadeScope tx" where
  "deleteOrganizationTx i actor =
     bindT (snapshotAndSoftDeleteTx Organizations i actor ''organization'') (\<lambda>_.
     bindT (softDeleteByParentTx Projects i actor) (\<lambda>ps.
     bindT (softDeleteEnvUnderOrgTx i actor) (\<lambda>es.
     bindT (softDeleteFolderUnderOrgTx i actor) (\<lambda>fs.
     bindT (softDeleteSecretUnderOrgTx i actor) (\<lambda>ss.
     retT \<lparr> cs_org = i, cs_projects = ps, cs_envs = es, cs_folders = fs, cs_secrets = ss \<rparr>)))))"

definition activeProjects :: "store \<Rightarrow> str \<Rightarrow> nat" where
  "activeProjects st orgId = length (filter (\<lambda>p. r_parent p = orgId) (liveRows Projects st))"

definition deleteOrganization :: "str \<Rightarrow> str \<Rightarrow> bool \<Rightarrow> store \<Rightarrow> (goErr + cascadeScope) \<times> store" where
  "deleteOrganization i actor force st =
     (if \<not> force \<and> activeProjects st i > 0 then (Inl ErrConflict, st)
      else runTx (deleteOrganizationTx i actor) st)"

section \<open>Projects and environments\<close>

definition createProjectTx :: "str \<Rightarrow> str \<Rightarrow> str \<Rightarrow> str \<Rightarrow> str \<Rightarrow> envSpec list \<Rightarrow> entity tx" where
  "createProjectTx orgId code name comment actor envs =
     bindT (createEntityTx Projects orgId code name comment actor) (\<lambda>project.
     bindT (mapT (\<lambda>env. bindT (createEnvironmentTx (e_id project) (es_code env) (es_name env) (es_comment env)
         actor (es_sort env)) (\<lambda>_.
         upsertEnvironmentTemplateTx orgId (es_code env) (es_name env) (es_comment env) actor)) envs) (\<lambda>_.
     bindT (recordAuditTx actor ''project'' (e_id project) ''create'' NoPayload) (\<lambda>_.
     retT project)))"

definition createProject :: "str \<Rightarrow> str \<Rightarrow> str \<Rightarrow> str \<Rightarrow> str \<Rightarrow> envSpec list \<Rightarrow> store \<Rightarrow> (goErr + entity) \<times> store" where
  "createProject orgId code name comment actor envs = runTx (createProjectTx orgId code name comment actor envs)"

definition deleteProjectTx :: "str \<Rightarrow> str \<Rightarrow> cascadeScope tx" where
  "deleteProjectTx i actor =
     bindT (snapshotAndSoftDeleteTx Projects i actor ''project'') (\<lambda>_.
     bindT (softDeleteByParentTx Environments i actor) (\<lambda>es.
     bindT (softDeleteFolderUnderProjectTx i actor) (\<lambda>fs.
     bindT (softDeleteSecretsUnderProjectTx i actor) (\<lambda>ss.
     retT \<lparr> cs_org = [], cs_projects = [i], cs_envs = es, cs_folders = fs, cs_secrets = ss \<rparr>))))"

definition deleteProject :: "str \<Rightarrow> str \<Rightarrow> store \<Rightarrow> (goErr + cascadeScope) \<times> store" where
  "deleteProject i actor = runTx (deleteProjectTx i actor)"

definition createEnvironment :: "str \<Rightarrow> str \<Rightarrow> str \<Rightarrow> str \<Rightarrow> str \<Rightarrow> store \<Rightarrow> (goErr + entity) \<times> store" where
  "createEnvironment projectId code name comment actor = runTx (bindT getT (\<lambda>st.
     case findRow Projects projectId st of
       None \<Rightarrow> failT ErrNotFound
     | Some p \<Rightarrow> bindT (createEnvironmentTx projectId code name comment actor 0) (\<lambda>env.
         bindT (upsertEnvironmentTemplateTx (r_parent p) code name comment actor) (\<lambda>_.
         bindT (recordAuditTx actor ''environment'' (e_id env) ''create'' NoPayload) (\<lambda>_.
         retT env)))))"

definition deleteEnvironmentTx :: "str \<Rightarrow> str \<Rightarrow> cascadeScope tx" where
  "deleteEnvironmentTx i actor =
     bindT (snapshotAndSoftDeleteTx Environments i actor ''environment'') (\<lambda>_.
     bindT (softDeleteByParentTx Folders i actor) (\<lambda>fs.
     bindT (softDeleteSecretsUnderEnvTx i actor) (\<lambda>ss.
     retT \<lparr> cs_org = [], cs_projects = [], cs_envs = [i], cs_folders = fs, cs_secrets = ss \<rparr>)))"

definition deleteEnvironment :: "str \<Rightarrow> str \<Rightarrow> store \<Rightarrow> (goErr + cascadeScope) \<times> store" where
  "deleteEnvironment i actor = runTx (deleteEnvironmentTx i actor)"

section \<open>Folders\<close>

definition insertFolderTx :: "str \<Rightarrow> str option \<Rightarrow> int \<Rightarrow> str \<Rightarrow> str \<Rightarrow> str \<Rightarrow> str \<Rightarrow> str \<Rightarrow> entity tx" where
  "insertFolderTx envId parent lvl code name comment actor entityParent = bindT newUUID (\<lambda>i. bindT getT (\<lambda>st.
     let r = newRow i envId code name comment actor 0 parent lvl (clock st) in
     bindT (translated (insertRow Folders r)) (\<lambda>_.
     bindT (recordAuditTx actor ''folder'' i ''create'' NoPayload) (\<lambda>_.
     retT (fillEntityLabels st (scanEntity Folders entityParent r))))))"

definition createFolder :: "str \<Rightarrow> str \<Rightarrow> str \<Rightarrow> str \<Rightarrow> str \<Rightarrow> str \<Rightarrow> int \<Rightarrow> store \<Rightarrow> (goErr + entity) \<times> store" where
  "createFolder envId parentFolderId code name comment actor level st =
     (if level = 1 then createEntity Folders envId code name comment actor ''folder'' st
      else if level \<noteq> 2 then (Inl ErrConflict, st)
      else if trimSpace parentFolderId = [] then (Inl (ErrMsg ''level=2 folder requires parentFolderId''), st)
      else case anyRow Folders parentFolderId st of
        None \<Rightarrow> (Inl ErrNotFound, st)
      | Some pf \<Rightarrow>
          if r_deleted pf then (Inl ErrNotFound, st)
          else if r_level pf \<noteq> 1 then (Inl ErrConflict, st)
          else if r_parent pf \<noteq> envId then (Inl ErrConflict, st)
          else runTx (insertFolderTx envId (Some parentFolderId) level code name comment actor parentFolderId) st)"

definition verifyEnv :: "store \<Rightarrow> str \<Rightarrow> goErr + str" where
  "verifyEnv st envId = (case anyRow Environments envId st of
       None \<Rightarrow> Inl ErrNotFound
     | Some e \<Rightarrow> if r_deleted e then Inl ErrNotFound else Inr envId)"

definition siblingParent :: "store \<Rightarrow> str \<Rightarrow> str \<Rightarrow> goErr + (str \<times> str)" where
  "siblingParent st parentCode envId =
     (case findFirst (\<lambda>f. r_parent f = envId \<and> r_code f = parentCode \<and> r_level f = 1 \<and> \<not> r_deleted f)
         (tbl st Folders) of
        None \<Rightarrow> Inl ErrNotFound | Some f \<Rightarrow> Inr (envId, r_id f))"

text \<open>The maps \<open>seenEnv\<close> and \<open>seenSibling\<close> only spare repeated queries; the store does not change between
  them, so every environment is looked up.\<close>

definition createFoldersAcrossEnvs :: "str \<Rightarrow> str \<Rightarrow> str \<Rightarrow> str \<Rightarrow> str \<Rightarrow> str list \<Rightarrow> store \<Rightarrow> (goErr + entity list) \<times> store" where
  "createFoldersAcrossEnvs parentCode code name comment actor envIds st =
     (if length envIds = 0 then (Inl (ErrMsg ''requires non-empty envIds''), st)
      else if trimSpace parentCode = [] then (Inl (ErrMsg ''requires non-empty parentCode''), st)
      else case mapE (verifyEnv st) envIds of
        Inl e \<Rightarrow> (Inl e, st)
      | Inr verified \<Rightarrow> (case mapE (siblingParent st parentCode) verified of
          Inl e \<Rightarrow> (Inl e, st)
        | Inr plan \<Rightarrow> runTx (mapT (\<lambda>(envId, pid).
            insertFolderTx envId (Some pid) 2 code name comment actor pid) plan) st))"

definition createTopLevelFoldersInEnvs :: "str \<Rightarrow> str \<Rightarrow> str \<Rightarrow> str \<Rightarrow> str list \<Rightarrow> store \<Rightarrow> (goErr + entity list) \<times> store" where
  "createTopLevelFoldersInEnvs code name comment actor envIds st =
     (if length envIds = 0 then (Inl (ErrMsg ''requires non-empty envIds''), st)
      else case mapE (verifyEnv st) envIds of
        Inl e \<Rightarrow> (Inl e, st)
      | Inr verified \<Rightarrow> runTx (mapT (\<lambda>envId.
            insertFolderTx envId None 1 code name comment actor envId) verified) st)"

definition deleteFolderTx :: "str \<Rightarrow> str \<Rightarrow> cascadeScope tx" where
  "deleteFolderTx i actor =
     bindT (snapshotAndSoftDeleteTx Folders i actor ''folder'') (\<lambda>_.
     bindT (softDeleteSecrets (\<lambda>s. s_folder s = i) actor) (\<lambda>ss.
     retT \<lparr> cs_org = [], cs_projects = [], cs_envs = [], cs_folders = [i], cs_secrets = ss \<rparr>))"

definition deleteFolder :: "str \<Rightarrow> str \<Rightarrow> store \<Rightarrow> (goErr + cascadeScope) \<times> store" where
  "deleteFolder i actor = runTx (deleteFolderTx i actor)"

definition getFolderEnvId :: "store \<Rightarrow> str \<Rightarrow> goErr + str" where
  "getFolderEnvId st i = (case findRow Folders i st of None \<Rightarrow> Inl ErrNotFound | Some f \<Rightarrow> Inr (r_parent f))"

definition getFolderContext :: "store \<Rightarrow> str \<Rightarrow> goErr + str \<times> str \<times> str \<times> int" where
  "getFolderContext st i = (case findRow Folders i st of
       None \<Rightarrow> Inl ErrNotFound
     | Some f \<Rightarrow> (case anyRow Environments (r_parent f) st of
         None \<Rightarrow> Inl ErrNotFound
       | Some e \<Rightarrow> Inr (r_parent f, r_parent e, (case r_folder f of None \<Rightarrow> [] | Some p \<Rightarrow> p), r_level f)))"

end
