(* ===== verification/SecretRepo.thy ===== *)
theory SecretRepo
  imports Repository
begin

text \<open>
  The secret half of \<open>internal/store/postgres/repository.go\<close>: creating, updating, deleting, reading and
  listing secrets, one by one and in batches, and the "narrowing" predicate that restricts every listing to
  the caller's scopes.  The \<open>value_ciphertext\<close> column is the ciphertext record that the code marshals
  into it and back.
\<close>

section \<open>Reading a secret with its path\<close>

type_synonym chain = "row \<times> row \<times> row \<times> row"

text \<open>\<open>join folders, environments, projects, organizations\<close> on the primary keys, whatever their state.\<close>

definition joinFolder :: "store \<Rightarrow> str \<Rightarrow> chain option" where
  "joinFolder st fid = (case anyRow Folders fid st of None \<Rightarrow> None | Some f \<Rightarrow>
     (case anyRow Environments (r_parent f) st of None \<Rightarrow> None | Some e \<Rightarrow>
     (case anyRow Projects (r_parent e) st of None \<Rightarrow> None | Some p \<Rightarrow>
     (case anyRow Organizations (r_parent p) st of None \<Rightarrow> None | Some o' \<Rightarrow> Some (o', p, e, f)))))"

definition chainLive :: "chain \<Rightarrow> bool" where
  "chainLive c = (case c of (o', p, e, f) \<Rightarrow>
     \<not> r_deleted f \<and> \<not> r_deleted e \<and> \<not> r_deleted p \<and> \<not> r_deleted o')"

definition buildSecretPath :: "str \<Rightarrow> str \<Rightarrow> str \<Rightarrow> str \<Rightarrow> str \<Rightarrow> str" where
  "buildSecretPath orgCode projectCode envCode folderCode key =
     (let parts = [orgCode, projectCode, envCode, folderCode, key] in
      if list_ex (\<lambda>part. part = []) parts then [] else joinWith CHR ''.'' parts)"

text \<open>The scanned read model; \<open>srt\<close> is \<open>e.sort_order\<close> in the queries that select it and 0 elsewhere.\<close>

definition scanSecret :: "store \<Rightarrow> int \<Rightarrow> secretRow \<Rightarrow> chain \<Rightarrow> secret" where
  "scanSecret st srt s c = (case c of (o', p, e, f) \<Rightarrow> \<lparr> sec_id = s_id s, sec_orgId = r_id o', sec_orgCode = r_code o',
     sec_projectId = r_id p, sec_projectCode = r_code p, sec_envId = r_id e, sec_envCode = r_code e,
     sec_folderId = s_folder s, sec_folderCode = r_code f, sec_key = s_key s,
     sec_path = buildSecretPath (r_code o') (r_code p) (r_code e) (r_code f) (s_key s),
     sec_value = [], sec_values = [], sec_comment = s_comment s, sec_version = s_version s, sec_sort = srt,
     sec_createdBy = s_createdBy s, sec_createdByLabel = labelOf st (s_createdBy s),
     sec_updatedBy = s_updatedBy s, sec_updatedByLabel = labelOf st (s_updatedBy s),
     sec_createdAt = s_createdAt s, sec_updatedAt = s_updatedAt s \<rparr>)"

definition getSecretCiphertext :: "store \<Rightarrow> str \<Rightarrow> goErr + secret \<times> secretCiphertext" where
  "getSecretCiphertext st i = (case findSecret i st of None \<Rightarrow> Inl ErrNotFound
     | Some s \<Rightarrow> (case joinFolder st (s_folder s) of None \<Rightarrow> Inl ErrNotFound
         | Some c \<Rightarrow> Inr (scanSecret st 0 s c, s_cipher s)))"

definition getSecret :: "store \<Rightarrow> str \<Rightarrow> goErr + secret" where
  "getSecret st i = (case findSecret i st of None \<Rightarrow> Inl ErrNotFound
     | Some s \<Rightarrow> (case joinFolder st (s_folder s) of None \<Rightarrow> Inl ErrNotFound
         | Some c \<Rightarrow> Inr (scanSecret st 0 s c)))"

text \<open>The live secrets whose chain exists, with the chain: the \<open>from\<close> clause of every listing.\<close>

definition joinedSecrets :: "store \<Rightarrow> (secretRow \<times> chain) list" where
  "joinedSecrets st = List.map_filter (\<lambda>s. if s_deleted s then None
     else map_option (Pair s) (joinFolder st (s_folder s))) (secretsT st)"

definition getSecretByKey :: "store \<Rightarrow> str \<Rightarrow> str \<Rightarrow> goErr + secret" where
  "getSecretByKey st folderId key =
     (case findFirst (\<lambda>(s, c). s_folder s = folderId \<and> s_key s = key) (joinedSecrets st) of
        None \<Rightarrow> Inl ErrNotFound | Some (s, c) \<Rightarrow> Inr (scanSecret st 0 s c))"

definition onPath :: "str \<Rightarrow> str \<Rightarrow> str \<Rightarrow> str \<Rightarrow> chain \<Rightarrow> bool" where
  "onPath orgCode projectCode envCode folderCode c \<longleftrightarrow> chainLive c \<and> (case c of (o', p, e, f) \<Rightarrow>
     r_code f = folderCode \<and> r_code e = envCode \<and> r_code p = projectCode \<and> r_code o' = orgCode)"

definition getSecretByPath :: "store \<Rightarrow> str \<Rightarrow> str \<Rightarrow> str \<Rightarrow> str \<Rightarrow> str \<Rightarrow> goErr + secret" where
  "getSecretByPath st orgCode projectCode envCode folderCode key =
     (case findFirst (\<lambda>(s, c). s_key s = key \<and> onPath orgCode projectCode envCode folderCode c) (joinedSecrets st) of
        None \<Rightarrow> Inl ErrNotFound | Some (s, c) \<Rightarrow> Inr (scanSecret st 0 s c))"

definition getSecretsKeys :: "store \<Rightarrow> str list \<Rightarrow> str list" where
  "getSecretsKeys st idl = List.map_filter (\<lambda>i. map_option s_key (findSecret i st)) idl"

definition getSecretIdsByKey :: "store \<Rightarrow> str \<Rightarrow> str list" where
  "getSecretIdsByKey st key = (if key = [] then []
     else map s_id (sort_key s_createdAt (filter (\<lambda>s. s_key s = key \<and> \<not> s_deleted s) (secretsT st))))"

section \<open>Narrowing\<close>

definition userReadScopes :: "store \<Rightarrow> str \<Rightarrow> str \<Rightarrow> scopeRef list" where
  "userReadScopes st uid code = remdups (map (\<lambda>b. (b_scopeType b, b_scope b))
     (filter (grantsCode st uid code) (bindingsT st)))"

type_synonym narrowingEntry = "str \<times> str option"

text \<open>An entry is a scope type and the value of its column in the row; NULL is in no set.\<close>

definition narrowingPredicate :: "scopeRef list \<Rightarrow> narrowingEntry list \<Rightarrow> bool" where
  "narrowingPredicate scopes entries =
     list_ex (\<lambda>(t, v). v \<noteq> None \<and> list_ex (\<lambda>(st, si). st = t \<and> si = v) scopes) entries"

definition scopeNarrowing :: "scopeRef list \<Rightarrow> narrowingEntry list \<Rightarrow> bool" where
  "scopeNarrowing scopes entries \<longleftrightarrow>
     list_ex (\<lambda>(st, si). st = ''global'') scopes \<or> narrowingPredicate scopes entries"

definition secretEntries :: "secretRow \<Rightarrow> chain \<Rightarrow> narrowingEntry list" where
  "secretEntries s c = (case c of (o', p, e, f) \<Rightarrow>
     [(''secret'', Some (s_id s)), (''folder'', Some (s_folder s)), (''folder'', r_folder f),
      (''environment'', Some (r_id e)), (''project'', Some (r_id p)), (''organization'', Some (r_id o'))])"

definition folderEntries :: "chain \<Rightarrow> narrowingEntry list" where
  "folderEntries c = (case c of (o', p, e, f) \<Rightarrow>
     [(''folder'', Some (r_id f)), (''folder'', r_folder f), (''environment'', Some (r_parent f)),
      (''project'', Some (r_parent e)), (''organization'', Some (r_parent p))])"

section \<open>Listing secrets\<close>

definition narrowedSecrets :: "store \<Rightarrow> str \<Rightarrow> str \<Rightarrow> (secretRow \<times> chain) list" where
  "narrowedSecrets st uid action = (let scopes = userReadScopes st uid action in
     filter (\<lambda>(s, c). chainLive c \<and> scopeNarrowing scopes (secretEntries s c)) (joinedSecrets st))"

definition filterMatches :: "listFilter \<Rightarrow> secretRow \<times> chain \<Rightarrow> bool" where
  "filterMatches fl sc = (case sc of (s, (o', p, e, f)) \<Rightarrow>
     (lf_env fl = [] \<or> r_id e = lf_env fl) \<and> (lf_folder fl = [] \<or> s_folder s = lf_folder fl) \<and>
     (lf_keyword fl = [] \<or> ilikeContains (s_key s) (lf_keyword fl)) \<and>
     (lf_project fl = [] \<or> r_id p = lf_project fl))"

definition envCodeOf :: "secretRow \<times> chain \<Rightarrow> str" where
  "envCodeOf sc = (case sc of (s, (o', p, e, f)) \<Rightarrow> r_code e)"

definition folderCodeOf :: "secretRow \<times> chain \<Rightarrow> str" where
  "folderCodeOf sc = (case sc of (s, (o', p, e, f)) \<Rightarrow> r_code f)"

definition envSortOf :: "chain \<Rightarrow> int" where
  "envSortOf c = (case c of (o', p, e, f) \<Rightarrow> r_sort e)"

definition listSecrets :: "store \<Rightarrow> str \<Rightarrow> str \<Rightarrow> listFilter \<Rightarrow> pagination \<Rightarrow> secret paginated" where
  "listSecrets st uid action fl p = paginate p (map (\<lambda>(s, c). scanSecret st 0 s c)
     (sort_key (\<lambda>(s, c). s_key s) (filter (filterMatches fl) (narrowedSecrets st uid action))))"

definition listSecretsWithCiphertext :: "store \<Rightarrow> str \<Rightarrow> str \<Rightarrow> listFilter \<Rightarrow> pagination \<Rightarrow> secretCacheRecord paginated" where
  "listSecretsWithCiphertext st uid action fl p = paginate p
     (map (\<lambda>(s, c). \<lparr> scr_secret = scanSecret st 0 s c, scr_cipher = s_cipher s \<rparr>)
     (sort_key (\<lambda>(s, c). s_key s) (sort_key envCodeOf (filter (filterMatches fl) (narrowedSecrets st uid action)))))"

text \<open>\<open>keys\<close> is a Go slice: \<open>None\<close> is nil, which the driver sends as a NULL array. Then
  \<open>cardinality(keys) = 0\<close> and \<open>s.key = any(keys)\<close> are NULL and no row is selected.\<close>

definition keysCondition :: "str list option \<Rightarrow> str \<Rightarrow> bool" where
  "keysCondition keys k = (case keys of None \<Rightarrow> False | Some ks \<Rightarrow> length ks = 0 \<or> k \<in> set ks)"

definition batchRevealSecretsByPath ::
    "store \<Rightarrow> str \<Rightarrow> str \<Rightarrow> str \<Rightarrow> str \<Rightarrow> str \<Rightarrow> str \<Rightarrow> str list option \<Rightarrow> (secret \<times> secretCiphertext) list" where
  "batchRevealSecretsByPath st uid action orgCode projectCode envCode folderCode keys =
     map (\<lambda>(s, c). (scanSecret st 0 s c, s_cipher s))
       (sort_key (\<lambda>(s, c). s_key s) (filter (\<lambda>(s, c). onPath orgCode projectCode envCode folderCode c \<and>
          keysCondition keys (s_key s)) (narrowedSecrets st uid action)))"

definition inProject :: "str \<Rightarrow> chain \<Rightarrow> bool" where
  "inProject projectId c = (case c of (o', p, e, f) \<Rightarrow> r_id p = projectId)"

definition listSecretsByProjectFolderKey ::
    "store \<Rightarrow> str \<Rightarrow> str \<Rightarrow> str \<Rightarrow> str \<Rightarrow> str list \<Rightarrow> str list \<Rightarrow> (secret \<times> secretCiphertext) list" where
  "listSecretsByProjectFolderKey st uid action projectId folderCode keys envCodes =
     map (\<lambda>(s, c). (scanSecret st (envSortOf c) s c, s_cipher s))
       (sort_key envCodeOf (sort_key (\<lambda>(s, c). s_key s) (filter (\<lambda>(s, c).
          folderCodeOf (s, c) = folderCode \<and> (length envCodes = 0 \<or> envCodeOf (s, c) \<in> set envCodes) \<and>
          inProject projectId c \<and> length keys > 0 \<and> s_key s \<in> set keys) (narrowedSecrets st uid action))))"

definition listSecretsInProjectByEnvs ::
    "store \<Rightarrow> str \<Rightarrow> str \<Rightarrow> str \<Rightarrow> str \<Rightarrow> str list \<Rightarrow> (secret \<times> secretCiphertext) list" where
  "listSecretsInProjectByEnvs st uid action projectId folderCode envCodes =
     map (\<lambda>(s, c). (scanSecret st (envSortOf c) s c, s_cipher s))
       (sort_key envCodeOf (sort_key folderCodeOf (sort_key (\<lambda>(s, c). s_key s) (filter (\<lambda>(s, c).
          (folderCode = [] \<or> folderCodeOf (s, c) = folderCode) \<and>
          (length envCodes = 0 \<or> envCodeOf (s, c) \<in> set envCodes) \<and> inProject projectId c)
          (narrowedSecrets st uid action)))))"

text \<open>The warm-up query of the cache takes every live secret with an existing chain.\<close>

definition listSecretCacheRecords :: "store \<Rightarrow> secretCacheRecord list" where
  "listSecretCacheRecords st = map (\<lambda>(s, c). \<lparr> scr_secret = scanSecret st 0 s c, scr_cipher = s_cipher s \<rparr>)
     (sort_key (\<lambda>(s, c). s_key s) (joinedSecrets st))"

section \<open>Listing folders\<close>

definition joinedFolders :: "store \<Rightarrow> (row \<times> row \<times> row) list" where
  "joinedFolders st = List.map_filter (\<lambda>f. case anyRow Environments (r_parent f) st of None \<Rightarrow> None
     | Some e \<Rightarrow> (case anyRow Projects (r_parent e) st of None \<Rightarrow> None
       | Some p \<Rightarrow> if r_deleted f \<or> r_deleted e \<or> r_deleted p then None else Some (p, e, f))) (tbl st Folders)"

definition narrowedFolders :: "store \<Rightarrow> str \<Rightarrow> row list" where
  "narrowedFolders st uid = (let scopes = userReadScopes st uid ''folder:read'' in
     map (\<lambda>(p, e, f). f) (filter (\<lambda>(p, e, f). scopeNarrowing scopes (folderEntries (p, p, e, f))) (joinedFolders st)))"

definition listFolders :: "store \<Rightarrow> str \<Rightarrow> str \<Rightarrow> str \<Rightarrow> pagination \<Rightarrow> goErr + entity paginated" where
  "listFolders st uid envId parentId p =
     (if envId = [] \<and> parentId = [] then Inl (ErrMsg ''ListFolders requires envId or parentId'')
      else if envId \<noteq> [] \<and> parentId \<noteq> [] then Inl (ErrMsg ''ListFolders accepts only one of envId or parentId'')
      else if envId \<noteq> [] then Inr (paginate p (map (readEntity st Folders)
        (sort_key r_name (filter (\<lambda>f. r_parent f = envId \<and> r_folder f = None) (narrowedFolders st uid)))))
      else Inr (paginate p (map (\<lambda>f. fillEntityLabels st (scanEntity Folders parentId f))
        (sort_key r_name (filter (\<lambda>f. r_folder f = Some parentId) (narrowedFolders st uid))))))"

definition listFolderChildren :: "store \<Rightarrow> str \<Rightarrow> str list \<Rightarrow> (str \<times> entity list) list" where
  "listFolderChildren st uid parentIds =
     (let rows = filter (\<lambda>f. r_folder f \<noteq> None \<and> the (r_folder f) \<in> set parentIds) (narrowedFolders st uid)
      in map (\<lambda>pid. (pid, map (\<lambda>f. fillEntityLabels st (scanEntity Folders pid f))
           (sort_key r_name (filter (\<lambda>f. r_folder f = Some pid) rows))))
         (remdups (map (\<lambda>f. the (r_folder f)) rows)))"

section \<open>Writing secrets\<close>

definition newSecretRow :: "str \<Rightarrow> str \<Rightarrow> str \<Rightarrow> secretCiphertext \<Rightarrow> str \<Rightarrow> str \<Rightarrow> nat \<Rightarrow> secretRow" where
  "newSecretRow i folderId key cipher comment actor now = \<lparr> s_id = i, s_folder = folderId, s_key = key,
     s_cipher = cipher, s_comment = comment, s_version = 1, s_deleted = False, s_deletedBy = [],
     s_deletedAt = None, s_createdBy = actor, s_updatedBy = actor, s_createdAt = now, s_updatedAt = now \<rparr>"

lemma newSecretRow_sel [simp]:
  "s_id (newSecretRow i f k c m a n) = i" "s_folder (newSecretRow i f k c m a n) = f"
  "s_key (newSecretRow i f k c m a n) = k" "s_cipher (newSecretRow i f k c m a n) = c"
  "s_comment (newSecretRow i f k c m a n) = m" "s_version (newSecretRow i f k c m a n) = 1"
  "\<not> s_deleted (newSecretRow i f k c m a n)"
  by (simp_all add: newSecretRow_def)

definition insertSecretTx :: "str \<Rightarrow> str \<Rightarrow> str \<Rightarrow> secretCiphertext \<Rightarrow> str \<Rightarrow> str \<Rightarrow> unit tx" where
  "insertSecretTx i folderId key cipher comment actor = bindT getT (\<lambda>st.
     translated (insertSecret (newSecretRow i folderId key cipher comment actor (clock st))))"

definition createSecretTx :: "str \<Rightarrow> str \<Rightarrow> str \<Rightarrow> str \<Rightarrow> secretCiphertext \<Rightarrow> str tx" where
  "createSecretTx folderId key comment actor cipher = bindT newUUID (\<lambda>i.
     bindT (insertSecretTx i folderId key cipher comment actor) (\<lambda>_.
     bindT (recordAuditTx actor ''secret'' i ''create'' (CipherPayload cipher)) (\<lambda>_. retT i)))"

text \<open>The read after the commit may fail, and then the rows are nevertheless stored.\<close>

definition createSecret :: "str \<Rightarrow> str \<Rightarrow> str \<Rightarrow> str \<Rightarrow> secretCiphertext \<Rightarrow> store \<Rightarrow> (goErr + secret) \<times> store" where
  "createSecret folderId key comment actor cipher st =
     (case runTx (createSecretTx folderId key comment actor cipher) st of
        (Inl e, st') \<Rightarrow> (Inl e, st') | (Inr i, st') \<Rightarrow> (getSecret st' i, st'))"

definition setSecret :: "str \<Rightarrow> secretCiphertext \<Rightarrow> str \<Rightarrow> str \<Rightarrow> nat \<Rightarrow> secretRow \<Rightarrow> secretRow" where
  "setSecret key cipher comment actor now s = s\<lparr>s_key := key, s_cipher := cipher, s_comment := comment,
     s_version := s_version s + 1, s_updatedBy := actor, s_updatedAt := now\<rparr>"

definition updateOneTx :: "str \<Rightarrow> str \<Rightarrow> str \<Rightarrow> str \<Rightarrow> secretCiphertext \<Rightarrow> str tx" where
  "updateOneTx i key comment actor cipher = bindT getT (\<lambda>st.
     bindT (translated (updateSecretRow i (setSecret key cipher comment actor (clock st)))) (\<lambda>r.
     case r of None \<Rightarrow> failT ErrNotFound
     | Some s \<Rightarrow> bindT (recordAuditTx actor ''secret'' (s_id s) ''update'' (CipherPayload cipher)) (\<lambda>_.
         retT (s_id s))))"

definition updateSecret :: "str \<Rightarrow> str \<Rightarrow> str \<Rightarrow> str \<Rightarrow> secretCiphertext \<Rightarrow> store \<Rightarrow> (goErr + secret) \<times> store" where
  "updateSecret i key comment actor cipher st =
     (case runTx (updateOneTx i key comment actor cipher) st of
        (Inl e, st') \<Rightarrow> (Inl e, st') | (Inr i', st') \<Rightarrow> (getSecret st' i', st'))"

definition deleteSecret :: "str \<Rightarrow> str \<Rightarrow> store \<Rightarrow> (goErr + unit) \<times> store" where
  "deleteSecret i actor = runTx (snapshotAndSoftDeleteSecretTx i actor)"

section \<open>Batches\<close>

record batchCreateItem =
  bc_folder :: str
  bc_key :: str
  bc_comment :: str
  bc_actor :: str
  bc_cipher :: secretCiphertext

record batchUpdateItem =
  bu_id :: str
  bu_key :: str
  bu_comment :: str
  bu_actor :: str
  bu_cipher :: secretCiphertext

definition folderEnvCode :: "store \<Rightarrow> str \<Rightarrow> str option" where
  "folderEnvCode st fid = (case anyRow Folders fid st of None \<Rightarrow> None
     | Some f \<Rightarrow> map_option r_code (anyRow Environments (r_parent f) st))"

definition insertBatchItemTx :: "str \<Rightarrow> batchCreateItem \<Rightarrow> (str \<times> str \<times> str) tx" where
  "insertBatchItemTx i it =
     bindT (insertSecretTx i (bc_folder it) (bc_key it) (bc_cipher it) (bc_comment it) (bc_actor it)) (\<lambda>_.
     bindT getT (\<lambda>st. case folderEnvCode st (bc_folder it) of
       None \<Rightarrow> failT (ErrMsg ''resolve env code'')
     | Some envCode \<Rightarrow> retT (envCode, bc_key it, i)))"

definition templateFolder :: "batchCreateItem list \<Rightarrow> str" where
  "templateFolder items = (case filter (\<lambda>it. bc_folder it \<noteq> []) items of [] \<Rightarrow> [] | it # _ \<Rightarrow> bc_folder it)"

definition batchCreateTx :: "batchCreateItem list \<Rightarrow> str list tx" where
  "batchCreateTx items =
     bindT (mapT (\<lambda>it. bindT newUUID (\<lambda>i. retT (i, it))) items) (\<lambda>pendings.
     bindT (mapT (\<lambda>(i, it). insertBatchItemTx i it) pendings) (\<lambda>entries.
     bindT (recordAuditTx (bc_actor (hd items)) ''folder'' (templateFolder items) ''create_batch''
       (EntriesPayload entries)) (\<lambda>_. retT (map (\<lambda>(_, _, i). i) entries))))"

definition batchCreateSecrets :: "batchCreateItem list \<Rightarrow> store \<Rightarrow> (goErr + secret list) \<times> store" where
  "batchCreateSecrets items st =
     (if length items = 0 then (Inr [], st)
      else case runTx (batchCreateTx items) st of
        (Inl e, st') \<Rightarrow> (Inl e, st')
      | (Inr is', st') \<Rightarrow> (mapE (getSecret st') is', st'))"

definition updateItemTx :: "batchUpdateItem \<Rightarrow> str tx" where
  "updateItemTx it = updateOneTx (bu_id it) (bu_key it) (bu_comment it) (bu_actor it) (bu_cipher it)"

definition batchUpdateTx :: "batchUpdateItem list \<Rightarrow> str list tx" where
  "batchUpdateTx items =
     bindT (mapT updateItemTx items) (\<lambda>updated.
     bindT (recordAuditTx (bu_actor (hd items)) ''secret'' (hd updated) ''update_batch''
       (EntriesPayload (map (\<lambda>(i, it). ([], bu_key it, i)) (zip updated items)))) (\<lambda>_. retT updated))"

definition batchUpdateSecrets :: "batchUpdateItem list \<Rightarrow> store \<Rightarrow> (goErr + secret list) \<times> store" where
  "batchUpdateSecrets items st =
     (if length items = 0 then (Inr [], st)
      else case runTx (batchUpdateTx items) st of
        (Inl e, st') \<Rightarrow> (Inl e, st')
      | (Inr is', st') \<Rightarrow> (mapE (getSecret st') is', st'))"

definition commentOneTx :: "str \<Rightarrow> str \<Rightarrow> str \<Rightarrow> (str \<times> str \<times> str) tx" where
  "commentOneTx comment actor i = bindT getT (\<lambda>st.
     bindT (translated (updateSecretRow i (\<lambda>s. s\<lparr>s_comment := comment, s_updatedBy := actor,
       s_updatedAt := clock st\<rparr>))) (\<lambda>r.
     case r of None \<Rightarrow> failT ErrNotFound
     | Some s \<Rightarrow> bindT (recordAuditTx actor ''secret'' (s_id s) ''update_comment'' NoPayload) (\<lambda>_.
         retT ([], s_key s, s_id s))))"

definition batchUpdateCommentByIds :: "str list \<Rightarrow> str \<Rightarrow> str \<Rightarrow> store \<Rightarrow> (goErr + unit) \<times> store" where
  "batchUpdateCommentByIds is' comment actor st =
     (if length is' = 0 then (Inr (), st)
      else runTx (bindT (mapT (commentOneTx comment actor) is') (\<lambda>entries.
        recordAuditTx actor ''secret'' (hd is') ''update_comment_batch'' (EntriesPayload entries))) st)"

end
