(* ===== verification/Crypto.thy ===== *)
theory Crypto
  imports Domain
begin

text \<open>
  The encryptor of \<open>internal/crypto/encryptor.go\<close>.  The AEAD of \<open>crypto/cipher\<close> is a parameter, the record
  \<open>aead\<close>; what the code relies on is \<open>aeadOk\<close>: opening what was sealed under the same nonce gives the
  plaintext.  Random nonces are drawn from a supply, and \<open>rand.Read\<close> fails when it is exhausted.  The context
  of the call is not cancelled.
\<close>

record aead =
  ae_nonceSize :: nat
  ae_seal :: "nat list \<Rightarrow> str \<Rightarrow> nat list"
  ae_open :: "nat list \<Rightarrow> nat list \<Rightarrow> str option"

definition aeadOk :: "aead \<Rightarrow> bool" where
  "aeadOk ae \<longleftrightarrow> (\<forall>nonce plaintext. ae_open ae nonce (ae_seal ae nonce plaintext) = Some plaintext)"

definition aesAlgorithm :: str where "aesAlgorithm = ''AES-256-GCM''"

text \<open>\<open>newCipher\<close> stands for \<open>aes.NewCipher\<close> with \<open>cipher.NewGCM\<close>.\<close>

definition newAESGCMEncryptor :: "(nat list \<Rightarrow> goErr + aead) \<Rightarrow> nat list \<Rightarrow> goErr + aead" where
  "newAESGCMEncryptor newCipher masterKey =
     (if length masterKey \<noteq> 32 then Inl (ErrMsg ''invalid encryption master key'') else newCipher masterKey)"

text \<open>\<open>rand.Read\<close> fills a slice of \<open>NonceSize\<close> bytes; the supply holds the random bytes to come.\<close>

definition readNonce :: "nat \<Rightarrow> nat list \<Rightarrow> goErr + nat list \<times> nat list" where
  "readNonce n rand = (if length rand < n then Inl ErrRand else Inr (take n rand, drop n rand))"

definition encrypt :: "aead \<Rightarrow> str \<Rightarrow> nat list \<Rightarrow> goErr + secretCiphertext \<times> nat list" where
  "encrypt ae plaintext rand = bindE (readNonce (ae_nonceSize ae) rand) (\<lambda>(nonce, rest).
     Inr (\<lparr> sc_algorithm = aesAlgorithm, sc_nonce = nonce, sc_data = ae_seal ae nonce plaintext \<rparr>, rest))"

definition decrypt :: "aead \<Rightarrow> secretCiphertext \<Rightarrow> goErr + str" where
  "decrypt ae c =
     (if sc_algorithm c \<noteq> aesAlgorithm then Inl (ErrMsg ''unsupported encryption algorithm'')
      else case ae_open ae (sc_nonce c) (sc_data c) of None \<Rightarrow> Inl ErrCrypto | Some p \<Rightarrow> Inr p)"

lemma decrypt_encrypt:
  "aeadOk ae \<Longrightarrow> encrypt ae v rand = Inr (c, rest) \<Longrightarrow> decrypt ae c = Inr v"
  by (auto simp: encrypt_def decrypt_def aeadOk_def bindE_Inr_iff)

lemma encrypt_nonce:
  "encrypt ae v rand = Inr (c, rest) \<Longrightarrow>
     length (sc_nonce c) = ae_nonceSize ae \<and> rand = sc_nonce c @ rest \<and> sc_algorithm c = aesAlgorithm"
  by (auto simp: encrypt_def readNonce_def bindE_Inr_iff split: if_splits)

text \<open>A transparent AEAD with a one byte nonce, for concrete runs.\<close>

definition demoAead :: aead where
  "demoAead = \<lparr> ae_nonceSize = 1, ae_seal = (\<lambda>n p. n @ map of_char p),
     ae_open = (\<lambda>n d. if take (length n) d = n then Some (map char_of (drop (length n) d)) else None) \<rparr>"

lemma demoAead_ok: "aeadOk demoAead"
  by (simp add: aeadOk_def demoAead_def comp_def)

end
