(* ===== verification/Navigation.thy ===== *)
theory Navigation
  imports SecretRepo
begin

text \<open>
  The plain listings of \<open>internal/store/postgres/repository.go\<close> and the queries of \<open>repository_tree.go\<close>.
  Organizations, projects and environments are narrowed by navigation: a grant at any level shows the
  ancestors one has to pass to reach what it covers.  A query \<open>x.id in (select ...)\<close> is membership in the list of
  identifiers that the sub-query selects; \<open>union\<close> is concatenation, since only membership counts.  Rows that
  tie in the \<open>order by\<close> keep the order of insertion.
\<close>

section \<open>The navigation CTEs\<close>

type_synonym navScope = "str \<times> str option \<times> str"

definition roleResourceTypes :: "store \<Rightarrow> str \<Rightarrow> str list" where
  "roleResourceTypes st rid =
     concat (map (\<lambda>(r, pid). if r = rid then map p_resourceType (filter (\<lambda>p. p_id p = pid) (permsT st)) else [])
       (rolePermsT st))"

definition navigationScopes :: "store \<Rightarrow> str \<Rightarrow> navScope list" where
  "navigationScopes st uid = remdups (concat (map (\<lambda>b.
     map (\<lambda>rt. (b_scopeType b, b_scope b, rt)) (roleResourceTypes st (b_role b)))
     (filter (\<lambda>b. b_user b = uid \<and> userActive st uid \<and> bindingActive st b \<and> roleLive st (b_role b)) (bindingsT st))))"

text \<open>The non-null scope ids of one scope type whose permission has one of the resource types.\<close>

definition scopeIds :: "navScope list \<Rightarrow> str \<Rightarrow> str list \<Rightarrow> str list" where
  "scopeIds ns stp types = List.map_filter (\<lambda>(t, i, rt). if t = stp \<and> rt \<in> set types then i else None) ns"

definition globalAllow :: "navScope list \<Rightarrow> str list \<Rightarrow> bool" where
  "globalAllow ns types = list_ex (\<lambda>(t, i, rt). t = ''global'' \<and> rt \<in> set types) ns"

definition liveWith :: "store \<Rightarrow> tab \<Rightarrow> (row \<Rightarrow> bool) \<Rightarrow> row list" where
  "liveWith st t P = filter (\<lambda>r. \<not> r_deleted r \<and> P r) (tbl st t)"

text \<open>The parents of the live rows with one of the given identifiers.\<close>

definition parentsOf :: "store \<Rightarrow> tab \<Rightarrow> str list \<Rightarrow> str list" where
  "parentsOf st t idl = map r_parent (liveWith st t (\<lambda>r. r_id r \<in> set idl))"

definition foldersOfSecrets :: "store \<Rightarrow> str list \<Rightarrow> str list" where
  "foldersOfSecrets st idl = map s_folder (filter (\<lambda>s. \<not> s_deleted s \<and> s_id s \<in> set idl) (secretsT st))"

definition visibleOrganizations :: "store \<Rightarrow> str \<Rightarrow> str list" where
  "visibleOrganizations st uid = (let ns = navigationScopes st uid in
     (if globalAllow ns [''org'', ''project'', ''env'', ''folder'', ''secret'']
      then map r_id (liveWith st Organizations (\<lambda>_. True)) else []) @
     scopeIds ns ''organization'' [''org'', ''project'', ''env'', ''folder'', ''secret''] @
     parentsOf st Projects (scopeIds ns ''project'' [''project'', ''env'', ''folder'', ''secret'']) @
     parentsOf st Projects (parentsOf st Environments (scopeIds ns ''environment'' [''env'', ''folder'', ''secret''])) @
     parentsOf st Projects (parentsOf st Environments (parentsOf st Folders
       (scopeIds ns ''folder'' [''folder'', ''secret'']))) @
     parentsOf st Projects (parentsOf st Environments (parentsOf st Folders (foldersOfSecrets st
       (scopeIds ns ''secret'' [''secret''])))))"

definition visibleProjects :: "store \<Rightarrow> str \<Rightarrow> str list" where
  "visibleProjects st uid = (let ns = navigationScopes st uid in
     (if globalAllow ns [''project'', ''env'', ''folder'', ''secret'']
      then map r_id (liveWith st Projects (\<lambda>_. True)) else []) @
     map r_id (liveWith st Projects (\<lambda>p. r_parent p \<in>
       set (scopeIds ns ''organization'' [''project'', ''env'', ''folder'', ''secret'']))) @
     scopeIds ns ''project'' [''project'', ''env'', ''folder'', ''secret''] @
     parentsOf st Environments (scopeIds ns ''environment'' [''env'', ''folder'', ''secret'']) @
     parentsOf st Environments (parentsOf st Folders (scopeIds ns ''folder'' [''folder'', ''secret''])) @
     parentsOf st Environments (parentsOf st Folders (foldersOfSecrets st (scopeIds ns ''secret'' [''secret'']))))"

definition visibleEnvironments :: "store \<Rightarrow> str \<Rightarrow> str list" where
  "visibleEnvironments st uid = (let ns = navigationScopes st uid in
     (if globalAllow ns [''env'', ''folder'', ''secret'']
      then map r_id (liveWith st Environments (\<lambda>_. True)) else []) @
     map r_id (liveWith st Environments (\<lambda>e. r_parent e \<in> set (map r_id (liveWith st Projects
       (\<lambda>p. r_parent p \<in> set (scopeIds ns ''organization'' [''env'', ''folder'', ''secret'']))))))  @
     map r_id (liveWith st Environments (\<lambda>e. r_parent e \<in>
       set (scopeIds ns ''project'' [''env'', ''folder'', ''secret'']))) @
     scopeIds ns ''environment'' [''env'', ''folder'', ''secret''] @
     parentsOf st Folders (scopeIds ns ''folder'' [''folder'', ''secret'']) @
     parentsOf st Folders (foldersOfSecrets st (scopeIds ns ''secret'' [''secret''])))"

section \<open>Paginated listings\<close>

definition listOrganizations :: "store \<Rightarrow> str \<Rightarrow> pagination \<Rightarrow> entity paginated" where
  "listOrganizations st uid p = paginate p (map (readEntity st Organizations) (sort_key r_name
     (liveWith st Organizations (\<lambda>r. r_id r \<in> set (visibleOrganizations st uid)))))"

definition listProjects :: "store \<Rightarrow> str \<Rightarrow> str \<Rightarrow> pagination \<Rightarrow> entity paginated" where
  "listProjects st uid orgId p = paginate p (map (readEntity st Projects) (sort_key r_name
     (liveWith st Projects (\<lambda>r. r_parent r = orgId \<and> r_id r \<in> set (visibleProjects st uid)))))"

text \<open>\<open>join projects p\<close> with \<open>p.is_deleted = false\<close>.\<close>

definition liveProjectOf :: "store \<Rightarrow> row \<Rightarrow> row option" where
  "liveProjectOf st e = findRow Projects (r_parent e) st"

definition listEnvironments :: "store \<Rightarrow> str \<Rightarrow> str \<Rightarrow> pagination \<Rightarrow> entity paginated" where
  "listEnvironments st uid projectId p = paginate p (map (readEntity st Environments)
     (sort_key r_sort (sort_key r_createdAt (liveWith st Environments (\<lambda>e. liveProjectOf st e \<noteq> None \<and>
        r_parent e = projectId \<and> r_id e \<in> set (visibleEnvironments st uid))))))"

definition listEnvironmentTemplates :: "store \<Rightarrow> str \<Rightarrow> str \<Rightarrow> pagination \<Rightarrow> entity paginated" where
  "listEnvironmentTemplates st uid orgId p = (let scopes = userReadScopes st uid ''env:template:read'' in
     paginate p (map (readEntity st EnvironmentTemplates) (sort_key r_name
       (liveWith st EnvironmentTemplates (\<lambda>t. r_parent t = orgId \<and>
          scopeNarrowing scopes [(''env_template'', Some (r_id t)), (''organization'', Some (r_parent t))])))))"

definition getEnvironmentTemplate :: "store \<Rightarrow> str \<Rightarrow> goErr + entity" where
  "getEnvironmentTemplate st i = (case findRow EnvironmentTemplates i st of None \<Rightarrow> Inl ErrNotFound
     | Some t \<Rightarrow> Inr (readEntity st EnvironmentTemplates t))"

definition getEnvironmentTemplateByCode :: "store \<Rightarrow> str \<Rightarrow> str \<Rightarrow> goErr + entity" where
  "getEnvironmentTemplateByCode st orgId code =
     (case findFirst (\<lambda>t. r_parent t = orgId \<and> r_code t = code \<and> \<not> r_deleted t) (tbl st EnvironmentTemplates) of
        None \<Rightarrow> Inl ErrNotFound | Some t \<Rightarrow> Inr (readEntity st EnvironmentTemplates t))"

section \<open>The tree queries\<close>

definition listAllOrganizationsForTree :: "store \<Rightarrow> str \<Rightarrow> entity list" where
  "listAllOrganizationsForTree st uid = map (readEntity st Organizations) (sort_key r_name
     (liveWith st Organizations (\<lambda>r. r_id r \<in> set (visibleOrganizations st uid))))"

definition listAllProjectsForTree :: "store \<Rightarrow> str \<Rightarrow> entity list" where
  "listAllProjectsForTree st uid = map (readEntity st Projects) (sort_key r_name
     (liveWith st Projects (\<lambda>r. r_id r \<in> set (visibleProjects st uid))))"

definition projectCodeOf :: "store \<Rightarrow> row \<Rightarrow> str" where
  "projectCodeOf st e = (case liveProjectOf st e of None \<Rightarrow> [] | Some p \<Rightarrow> r_code p)"

definition listAllEnvironmentsForTree :: "store \<Rightarrow> str \<Rightarrow> entity list" where
  "listAllEnvironmentsForTree st uid = map (readEntity st Environments)
     (sort_key (projectCodeOf st) (sort_key r_sort (sort_key r_createdAt (liveWith st Environments
        (\<lambda>e. liveProjectOf st e \<noteq> None \<and> r_id e \<in> set (visibleEnvironments st uid))))))"

definition narrowedFolderRows :: "store \<Rightarrow> str \<Rightarrow> (row \<times> row \<times> row) list" where
  "narrowedFolderRows st uid = (let scopes = userReadScopes st uid ''folder:read'' in
     filter (\<lambda>(p, e, f). scopeNarrowing scopes (folderEntries (p, p, e, f))) (joinedFolders st))"

definition coalesceText :: "str option \<Rightarrow> str" where
  "coalesceText v = (case v of None \<Rightarrow> [] | Some t \<Rightarrow> t)"

definition scanFolderTreeEntry :: "store \<Rightarrow> row \<times> row \<times> row \<Rightarrow> folderTreeEntry" where
  "scanFolderTreeEntry st pef = (case pef of (p, e, f) \<Rightarrow>
     \<lparr> fe_entity = fillEntityLabels st (scanEntity Folders (r_parent f) f), fe_level = r_level f,
       fe_env = r_parent f, fe_parent = coalesceText (r_folder f), fe_project = r_parent e \<rparr>)"

definition listAllFoldersForTree :: "store \<Rightarrow> str \<Rightarrow> folderTreeEntry list" where
  "listAllFoldersForTree st uid = map (scanFolderTreeEntry st)
     (sort_key (\<lambda>(p, e, f). r_name f) (narrowedFolderRows st uid))"

definition scanFolderInProject :: "row \<times> row \<times> row \<Rightarrow> folderInProject" where
  "scanFolderInProject pef = (case pef of (p, e, f) \<Rightarrow>
     \<lparr> fp_id = r_id f, fp_code = r_code f, fp_name = r_name f, fp_comment = r_comment f, fp_level = r_level f,
       fp_env = r_parent f, fp_envCode = r_code e, fp_parent = coalesceText (r_folder f),
       fp_project = r_parent e \<rparr>)"

definition listFoldersInProject :: "store \<Rightarrow> str \<Rightarrow> str \<Rightarrow> folderInProject list" where
  "listFoldersInProject st uid projectId = map scanFolderInProject
     (sort_key (\<lambda>(p, e, f). r_level f) (sort_key (\<lambda>(p, e, f). r_code f) (sort_key (\<lambda>(p, e, f). r_parent f)
       (sort_key (\<lambda>(p, e, f). r_id f) (filter (\<lambda>(p, e, f). r_id p = projectId \<and> r_level f \<in> {1, 2})
         (narrowedFolderRows st uid))))))"

end
