(* ===== verification/RedisCache.thy ===== *)
theory RedisCache
  imports Crypto Navigation "HOL-Library.AList"
begin

text \<open>
  The Redis cache of \<open>internal/store/redis/cache.go\<close>: the key space as an association list from keys to
  hashes, strings and sets, the commands the code issues, and the operations of \<open>Cache\<close>.  A hash field is
  the value that was formatted into it; \<open>strconv\<close>, \<open>time.Format\<close> with \<open>RFC3339Nano\<close>, \<open>json\<close> and
  \<open>base64\<close> are kept as the constructors of \<open>field\<close>.  A command fails when the server is down or the key has
  another type.  Sets are listed in insertion order, an order Redis leaves open.

  The goroutines of \<open>ListAllMeta\<close>, \<open>WarmTree\<close> and \<open>GlobalSearch\<close> work on different key families, so they are run
  one after the other here.
\<close>

section \<open>The key space\<close>

datatype field = Text str | Num int | Time nat | CipherText secretCiphertext

datatype rval = RHash "(str \<times> field) list" | RStr str | RSet "str list"

record redis =
  rd_up :: bool
  rd_keys :: "(str \<times> rval) list"

type_synonym 'a rd = "redis \<Rightarrow> (goErr + 'a) \<times> redis"

definition retR :: "'a \<Rightarrow> 'a rd" where "retR x r = (Inr x, r)"
definition failR :: "goErr \<Rightarrow> 'a rd" where "failR e r = (Inl e, r)"
definition bindR :: "'a rd \<Rightarrow> ('a \<Rightarrow> 'b rd) \<Rightarrow> 'b rd" where
  "bindR m f r = (case m r of (Inl e, r') \<Rightarrow> (Inl e, r') | (Inr x, r') \<Rightarrow> f x r')"

fun mapR :: "('a \<Rightarrow> 'b rd) \<Rightarrow> 'a list \<Rightarrow> 'b list rd" where
  "mapR f [] = retR []"
| "mapR f (x # xs) = bindR (f x) (\<lambda>y. bindR (mapR f xs) (\<lambda>ys. retR (y # ys)))"

definition command :: "((str \<times> rval) list \<Rightarrow> goErr + 'a \<times> (str \<times> rval) list) \<Rightarrow> 'a rd" where
  "command f r = (if \<not> rd_up r then (Inl ErrCache, r)
     else case f (rd_keys r) of Inl e \<Rightarrow> (Inl e, r) | Inr (x, ks) \<Rightarrow> (Inr x, r\<lparr>rd_keys := ks\<rparr>))"

definition hashAt :: "(str \<times> rval) list \<Rightarrow> str \<Rightarrow> goErr + (str \<times> field) list" where
  "hashAt ks k = (case map_of ks k of None \<Rightarrow> Inr [] | Some (RHash h) \<Rightarrow> Inr h | _ \<Rightarrow> Inl ErrCache)"

definition setAt :: "(str \<times> rval) list \<Rightarrow> str \<Rightarrow> goErr + str list" where
  "setAt ks k = (case map_of ks k of None \<Rightarrow> Inr [] | Some (RSet s) \<Rightarrow> Inr s | _ \<Rightarrow> Inl ErrCache)"

definition cmdDel :: "str list \<Rightarrow> unit rd" where
  "cmdDel dks = command (\<lambda>ks. Inr ((), filter (\<lambda>(k, _). k \<notin> set dks) ks))"

definition cmdHGet :: "str \<Rightarrow> str \<Rightarrow> field option rd" where
  "cmdHGet k f = command (\<lambda>ks. bindE (hashAt ks k) (\<lambda>h. Inr (map_of h f, ks)))"

definition cmdHGetAll :: "str \<Rightarrow> (str \<times> field) list rd" where
  "cmdHGetAll k = command (\<lambda>ks. bindE (hashAt ks k) (\<lambda>h. Inr (h, ks)))"

definition cmdHSet :: "str \<Rightarrow> (str \<times> field) list \<Rightarrow> unit rd" where
  "cmdHSet k fs = command (\<lambda>ks. bindE (hashAt ks k) (\<lambda>h.
     Inr ((), AList.update k (RHash (fold (\<lambda>(f, v). AList.update f v) fs h)) ks)))"

definition cmdSet :: "str \<Rightarrow> str \<Rightarrow> unit rd" where
  "cmdSet k v = command (\<lambda>ks. Inr ((), AList.update k (RStr v) ks))"

definition cmdSMembers :: "str \<Rightarrow> str list rd" where
  "cmdSMembers k = command (\<lambda>ks. bindE (setAt ks k) (\<lambda>s. Inr (s, ks)))"

definition cmdSAdd :: "str \<Rightarrow> str \<Rightarrow> unit rd" where
  "cmdSAdd k m = command (\<lambda>ks. bindE (setAt ks k) (\<lambda>s.
     Inr ((), AList.update k (RSet (if m \<in> set s then s else s @ [m])) ks)))"

definition cmdSRem :: "str \<Rightarrow> str \<Rightarrow> unit rd" where
  "cmdSRem k m = command (\<lambda>ks. bindE (setAt ks k) (\<lambda>s. let s' = filter (\<lambda>x. x \<noteq> m) s in
     Inr ((), if s' = [] then AList.delete k ks else AList.update k (RSet s') ks)))"

text \<open>The cursor loop of \<open>SCAN MATCH p*\<close> visits every key with the prefix.\<close>

definition cmdScanPrefix :: "str \<Rightarrow> str list rd" where
  "cmdScanPrefix p = command (\<lambda>ks. Inr (filter (\<lambda>k. hasPrefix p k) (map fst ks), ks))"

text \<open>A pipeline executes every command and reports the first error.\<close>

definition pipe2 :: "unit rd \<Rightarrow> unit rd \<Rightarrow> unit rd" where
  "pipe2 a b r = (case a r of (ra, r1) \<Rightarrow> (case b r1 of (rb, r2) \<Rightarrow>
     ((case ra of Inl e \<Rightarrow> Inl e | Inr _ \<Rightarrow> rb), r2)))"

section \<open>Secrets\<close>

definition idsKey :: "str \<Rightarrow> str" where "idsKey pre = pre @ '':secret:ids''"
definition secretKey :: "str \<Rightarrow> str \<Rightarrow> str" where "secretKey pre i = pre @ '':secret:'' @ i"
definition pathKey :: "str \<Rightarrow> str \<Rightarrow> str" where "pathKey pre p = pre @ '':secret:path:'' @ p"

definition secretFields :: "secretCacheRecord \<Rightarrow> (str \<times> field) list" where
  "secretFields rec = (let s = scr_secret rec in
     [(''id'', Text (sec_id s)), (''org_id'', Text (sec_orgId s)), (''org_code'', Text (sec_orgCode s)),
      (''project_id'', Text (sec_projectId s)), (''project_code'', Text (sec_projectCode s)),
      (''environment_id'', Text (sec_envId s)), (''environment_code'', Text (sec_envCode s)),
      (''folder_id'', Text (sec_folderId s)), (''folder_code'', Text (sec_folderCode s)),
      (''key'', Text (sec_key s)), (''path'', Text (sec_path s)),
      (''value_ciphertext'', CipherText (scr_cipher rec)), (''comment'', Text (sec_comment s)),
      (''version'', Num (sec_version s)), (''created_by'', Text (sec_createdBy s)),
      (''created_by_label'', Text (sec_createdByLabel s)), (''updated_by'', Text (sec_updatedBy s)),
      (''updated_by_label'', Text (sec_updatedByLabel s)), (''created_at'', Time (sec_createdAt s)),
      (''updated_at'', Time (sec_updatedAt s))])"

text \<open>Reading a field back: a missing string is empty, a missing number 0, a missing time the zero time.\<close>

definition textOf :: "(str \<times> field) list \<Rightarrow> str \<Rightarrow> str" where
  "textOf h f = (case map_of h f of Some (Text t) \<Rightarrow> t | _ \<Rightarrow> [])"

definition atoi :: "(str \<times> field) list \<Rightarrow> str \<Rightarrow> int" where
  "atoi h f = (case map_of h f of Some (Num n) \<Rightarrow> n | _ \<Rightarrow> 0)"

definition parseTime :: "(str \<times> field) list \<Rightarrow> str \<Rightarrow> nat" where
  "parseTime h f = (case map_of h f of Some (Time t) \<Rightarrow> t | _ \<Rightarrow> 0)"

definition labelOrId :: "str \<Rightarrow> str \<Rightarrow> str" where
  "labelOrId label i = (if label \<noteq> [] then label else i)"

definition upsertSecret :: "str \<Rightarrow> secretCacheRecord \<Rightarrow> unit rd" where
  "upsertSecret pre rec = (let s = scr_secret rec; key = secretKey pre (sec_id s) in
     bindR (cmdHGet key ''path'') (\<lambda>old.
     let oldPath = (case old of Some (Text p) \<Rightarrow> p | _ \<Rightarrow> []) in
     bindR (if oldPath \<noteq> [] \<and> oldPath \<noteq> sec_path s then cmdDel [pathKey pre oldPath] else retR ()) (\<lambda>_.
     bindR (cmdHSet key (secretFields rec)) (\<lambda>_.
     bindR (if sec_path s \<noteq> [] then cmdSet (pathKey pre (sec_path s)) (sec_id s) else retR ()) (\<lambda>_.
     cmdSAdd (idsKey pre) (sec_id s))))))"

definition deleteSecretC :: "str \<Rightarrow> str \<Rightarrow> unit rd" where
  "deleteSecretC pre i = bindR (cmdHGet (secretKey pre i) ''path'') (\<lambda>old.
     let path = (case old of Some (Text p) \<Rightarrow> p | _ \<Rightarrow> []) in
     bindR (cmdDel (secretKey pre i # (if path \<noteq> [] then [pathKey pre path] else []))) (\<lambda>_.
     cmdSRem (idsKey pre) i))"

definition deletePathKeys :: "str \<Rightarrow> unit rd" where
  "deletePathKeys pre = bindR (cmdScanPrefix (pathKey pre [])) cmdDel"

definition warmSecrets :: "str \<Rightarrow> secretCacheRecord list \<Rightarrow> unit rd" where
  "warmSecrets pre records = bindR (cmdDel [idsKey pre]) (\<lambda>_. bindR (deletePathKeys pre) (\<lambda>_.
     bindR (mapR (upsertSecret pre) records) (\<lambda>_. retR ())))"

definition matches :: "(str \<times> field) list \<Rightarrow> listFilter \<Rightarrow> str \<Rightarrow> bool" where
  "matches h fl keyword =
     (if lf_env fl \<noteq> [] \<and> textOf h ''environment_id'' \<noteq> lf_env fl then False
      else if lf_folder fl \<noteq> [] \<and> textOf h ''folder_id'' \<noteq> lf_folder fl then False
      else if keyword \<noteq> [] \<and> \<not> containsSub keyword (toLower (textOf h ''key'')) \<and>
              \<not> containsSub keyword (toLower (textOf h ''path'')) then False
      else True)"

definition hashToSecret :: "(str \<times> field) list \<Rightarrow> secret" where
  "hashToSecret h = \<lparr> sec_id = textOf h ''id'', sec_orgId = textOf h ''org_id'', sec_orgCode = textOf h ''org_code'',
     sec_projectId = textOf h ''project_id'', sec_projectCode = textOf h ''project_code'',
     sec_envId = textOf h ''environment_id'', sec_envCode = textOf h ''environment_code'',
     sec_folderId = textOf h ''folder_id'', sec_folderCode = textOf h ''folder_code'',
     sec_key = textOf h ''key'', sec_path = textOf h ''path'', sec_value = [], sec_values = [],
     sec_comment = textOf h ''comment'', sec_version = atoi h ''version'', sec_sort = 0,
     sec_createdBy = textOf h ''created_by'',
     sec_createdByLabel = labelOrId (textOf h ''created_by_label'') (textOf h ''created_by''),
     sec_updatedBy = textOf h ''updated_by'',
     sec_updatedByLabel = labelOrId (textOf h ''updated_by_label'') (textOf h ''updated_by''),
     sec_createdAt = parseTime h ''created_at'', sec_updatedAt = parseTime h ''updated_at'' \<rparr>"

definition searchSecrets :: "str \<Rightarrow> listFilter \<Rightarrow> secret list rd" where
  "searchSecrets pre fl = bindR (cmdSMembers (idsKey pre)) (\<lambda>idl.
     let keyword = toLower (lf_keyword fl) in
     bindR (mapR (\<lambda>i. cmdHGetAll (secretKey pre i)) idl) (\<lambda>hs.
     retR (map hashToSecret (filter (\<lambda>h. h \<noteq> [] \<and> matches h fl keyword) hs))))"

section \<open>Resource metadata\<close>

datatype resourceType = ResourceOrg | ResourceProject | ResourceEnv | ResourceFolder | ResourceSecret

definition typeName :: "resourceType \<Rightarrow> str" where
  "typeName t = (case t of ResourceOrg \<Rightarrow> ''org'' | ResourceProject \<Rightarrow> ''project'' | ResourceEnv \<Rightarrow> ''env''
     | ResourceFolder \<Rightarrow> ''folder'' | ResourceSecret \<Rightarrow> ''secret'')"

definition typeIdsKey :: "str \<Rightarrow> resourceType \<Rightarrow> str" where
  "typeIdsKey pre t = pre @ '':'' @ typeName t @ '':ids''"

definition typeKey :: "str \<Rightarrow> resourceType \<Rightarrow> str \<Rightarrow> str" where
  "typeKey pre t i = pre @ '':'' @ typeName t @ '':'' @ i"

definition upsertResource :: "str \<Rightarrow> resourceType \<Rightarrow> str \<Rightarrow> (str \<times> field) list \<Rightarrow> unit rd" where
  "upsertResource pre t i fs = pipe2 (cmdHSet (typeKey pre t i) fs) (cmdSAdd (typeIdsKey pre t) i)"

definition deleteResource :: "str \<Rightarrow> resourceType \<Rightarrow> str \<Rightarrow> unit rd" where
  "deleteResource pre t i = pipe2 (cmdDel [typeKey pre t i]) (cmdSRem (typeIdsKey pre t) i)"

definition entityFields :: "(str \<times> field) list \<Rightarrow> entity \<Rightarrow> (str \<times> field) list" where
  "entityFields extra e = (''id'', Text (e_id e)) # extra @
     [(''code'', Text (e_code e)), (''name'', Text (e_name e)), (''comment'', Text (e_comment e)),
      (''created_by'', Text (e_createdBy e)), (''updated_by'', Text (e_updatedBy e))]"

definition upsertOrg :: "str \<Rightarrow> entity \<Rightarrow> unit rd" where
  "upsertOrg pre e = upsertResource pre ResourceOrg (e_id e) (entityFields [] e)"

definition deleteOrg :: "str \<Rightarrow> str \<Rightarrow> unit rd" where
  "deleteOrg pre = deleteResource pre ResourceOrg"

definition upsertProject :: "str \<Rightarrow> entity \<Rightarrow> unit rd" where
  "upsertProject pre e = upsertResource pre ResourceProject (e_id e) (entityFields [(''org_id'', Text (e_parent e))] e)"

definition deleteProjectC :: "str \<Rightarrow> str \<Rightarrow> unit rd" where
  "deleteProjectC pre = deleteResource pre ResourceProject"

definition upsertEnvironment :: "str \<Rightarrow> entity \<Rightarrow> unit rd" where
  "upsertEnvironment pre e =
     upsertResource pre ResourceEnv (e_id e) (entityFields [(''project_id'', Text (e_parent e))] e)"

definition deleteEnvironmentC :: "str \<Rightarrow> str \<Rightarrow> unit rd" where
  "deleteEnvironmentC pre = deleteResource pre ResourceEnv"

definition upsertFolder :: "str \<Rightarrow> entity \<Rightarrow> str \<Rightarrow> str \<Rightarrow> str \<Rightarrow> int \<Rightarrow> unit rd" where
  "upsertFolder pre e envId projectId parentId level = upsertResource pre ResourceFolder (e_id e)
     (entityFields [(''environment_id'', Text envId), (''project_id'', Text projectId),
        (''parent_id'', Text parentId), (''level'', Num level)] e)"

definition deleteFolderC :: "str \<Rightarrow> str \<Rightarrow> unit rd" where
  "deleteFolderC pre = deleteResource pre ResourceFolder"

section \<open>The tree snapshot\<close>

record treeMetaSnapshot =
  ts_orgs :: "entity list"
  ts_projects :: "entity list"
  ts_envs :: "entity list"
  ts_folders :: "folderTreeEntry list"

definition snapshotEmpty :: "treeMetaSnapshot \<Rightarrow> bool" where
  "snapshotEmpty s \<longleftrightarrow> length (ts_orgs s) = 0 \<and> length (ts_projects s) = 0 \<and>
     length (ts_envs s) = 0 \<and> length (ts_folders s) = 0"

definition hashToEntity :: "str \<Rightarrow> (str \<times> field) list \<Rightarrow> entity" where
  "hashToEntity parent h = \<lparr> e_id = textOf h ''id'', e_parent = parent, e_code = textOf h ''code'',
     e_name = textOf h ''name'', e_comment = textOf h ''comment'', e_sort = 0,
     e_createdBy = textOf h ''created_by'', e_createdByLabel = [], e_updatedBy = textOf h ''updated_by'',
     e_updatedByLabel = [], e_createdAt = 0, e_updatedAt = 0 \<rparr>"

definition hashToOrg :: "(str \<times> field) list \<Rightarrow> entity" where "hashToOrg h = hashToEntity [] h"

definition hashToProject :: "(str \<times> field) list \<Rightarrow> entity" where
  "hashToProject h = hashToEntity (textOf h ''org_id'') h"

definition hashToEnv :: "(str \<times> field) list \<Rightarrow> entity" where
  "hashToEnv h = hashToEntity (textOf h ''project_id'') h"

definition hashToFolderEntry :: "(str \<times> field) list \<Rightarrow> folderTreeEntry option" where
  "hashToFolderEntry h =
     (if textOf h ''id'' = [] \<or> textOf h ''environment_id'' = [] \<or> textOf h ''project_id'' = [] then None
      else let level = atoi h ''level'' in
        if level \<noteq> 1 \<and> level \<noteq> 2 then None
        else Some \<lparr> fe_entity = hashToEntity (textOf h ''environment_id'') h, fe_level = level,
          fe_env = textOf h ''environment_id'', fe_parent = textOf h ''parent_id'',
          fe_project = textOf h ''project_id'' \<rparr>)"

text \<open>A hash of the wrong type fails its own command of the pipeline: \<open>Exec\<close> reports it.\<close>

definition scanType :: "str \<Rightarrow> resourceType \<Rightarrow> (str \<times> field) list list rd" where
  "scanType pre t = bindR (cmdSMembers (typeIdsKey pre t)) (\<lambda>idl.
     bindR (mapR (\<lambda>i. cmdHGetAll (typeKey pre t i)) idl) (\<lambda>hs. retR (filter (\<lambda>h. h \<noteq> []) hs)))"

definition listAllMeta :: "str \<Rightarrow> treeMetaSnapshot rd" where
  "listAllMeta pre = bindR (scanType pre ResourceOrg) (\<lambda>os. bindR (scanType pre ResourceProject) (\<lambda>ps.
     bindR (scanType pre ResourceEnv) (\<lambda>es. bindR (scanType pre ResourceFolder) (\<lambda>fs.
     retR \<lparr> ts_orgs = map hashToOrg os, ts_projects = map hashToProject ps, ts_envs = map hashToEnv es,
       ts_folders = List.map_filter hashToFolderEntry fs \<rparr>))))"

definition seqR :: "unit rd list \<Rightarrow> unit rd" where
  "seqR ms = bindR (mapR id ms) (\<lambda>_. retR ())"

text \<open>Each family stops at its first error, the families run independently, the first error is returned.\<close>

definition warmTree :: "str \<Rightarrow> treeMetaSnapshot \<Rightarrow> unit rd" where
  "warmTree pre s =
     (if snapshotEmpty s then retR ()
      else pipe2 (seqR (map (upsertOrg pre) (ts_orgs s)))
          (pipe2 (seqR (map (upsertProject pre) (ts_projects s)))
          (pipe2 (seqR (map (upsertEnvironment pre) (ts_envs s)))
             (seqR (map (\<lambda>f. upsertFolder pre (fe_entity f) (fe_env f) (fe_project f) (fe_parent f) (fe_level f))
                (ts_folders s))))))"

section \<open>Global search\<close>

record globalSearchHit =
  gh_id :: str
  gh_code :: str
  gh_name :: str
  gh_comment :: str
  gh_matchField :: str
  gh_key :: str
  gh_path :: str
  gh_folderId :: str
  gh_envId :: str
  gh_projectId :: str
  gh_orgId :: str

record globalSearchResult =
  gs_orgs :: "globalSearchHit list"
  gs_projects :: "globalSearchHit list"
  gs_envs :: "globalSearchHit list"
  gs_folders :: "globalSearchHit list"
  gs_secrets :: "globalSearchHit list"

definition containsFold :: "str \<Rightarrow> str \<Rightarrow> bool" where
  "containsFold haystack needleLower =
     (if haystack = [] \<or> needleLower = [] then False else containsSub needleLower (toLower haystack))"

definition decryptCachedValue :: "aead option \<Rightarrow> secretCiphertext \<Rightarrow> str option" where
  "decryptCachedValue enc c = (case enc of None \<Rightarrow> None
     | Some ae \<Rightarrow> (case decrypt ae c of Inl _ \<Rightarrow> None | Inr p \<Rightarrow> Some p))"

definition matchKeywordOnFields :: "aead option \<Rightarrow> (str \<times> field) list \<Rightarrow> resourceType \<Rightarrow> str \<Rightarrow> str option" where
  "matchKeywordOnFields enc h t kw =
     (if containsFold (textOf h ''code'') kw then Some ''code''
      else if containsFold (textOf h ''name'') kw then Some ''name''
      else if containsFold (textOf h ''comment'') kw then Some ''comment''
      else if t = ResourceSecret then
        (case map_of h ''value_ciphertext'' of
           Some (CipherText c) \<Rightarrow> (case decryptCachedValue enc c of
              Some p \<Rightarrow> if containsFold p kw then Some ''value'' else None | None \<Rightarrow> None)
         | _ \<Rightarrow> None)
      else None)"

definition buildHit :: "resourceType \<Rightarrow> (str \<times> field) list \<Rightarrow> str \<Rightarrow> globalSearchHit" where
  "buildHit t h matchField = (let g = (\<lambda>ts f. if t \<in> set ts then textOf h f else []) in
     \<lparr> gh_id = textOf h ''id'', gh_code = textOf h ''code'', gh_name = textOf h ''name'',
       gh_comment = textOf h ''comment'', gh_matchField = matchField,
       gh_key = g [ResourceSecret] ''key'', gh_path = g [ResourceSecret] ''path'',
       gh_folderId = g [ResourceSecret] ''folder_id'',
       gh_envId = g [ResourceFolder, ResourceSecret] ''environment_id'',
       gh_projectId = g [ResourceEnv, ResourceFolder, ResourceSecret] ''project_id'',
       gh_orgId = g [ResourceProject, ResourceSecret] ''org_id'' \<rparr>)"

definition searchType :: "str \<Rightarrow> aead option \<Rightarrow> resourceType \<Rightarrow> str \<Rightarrow> nat \<Rightarrow> globalSearchHit list rd" where
  "searchType pre enc t kw limit = bindR (scanType pre t) (\<lambda>hs.
     retR (take limit (List.map_filter (\<lambda>h. map_option (buildHit t h) (matchKeywordOnFields enc h t kw)) hs)))"

text \<open>A family that fails contributes no hits.\<close>

definition hitsOf :: "redis \<Rightarrow> globalSearchHit list rd \<Rightarrow> globalSearchHit list" where
  "hitsOf r m = (case fst (m r) of Inl _ \<Rightarrow> [] | Inr hs \<Rightarrow> hs)"

definition globalSearch :: "str \<Rightarrow> aead option \<Rightarrow> redis \<Rightarrow> str \<Rightarrow> int \<Rightarrow> globalSearchResult" where
  "globalSearch pre enc r keyword perTypeLimit =
     (let kw = toLower (trimSpace keyword);
          limit = (if perTypeLimit \<le> 0 then 50 else nat perTypeLimit);
          hits = (\<lambda>t. if kw = [] then [] else hitsOf r (searchType pre enc t kw limit))
      in \<lparr> gs_orgs = hits ResourceOrg, gs_projects = hits ResourceProject, gs_envs = hits ResourceEnv,
           gs_folders = hits ResourceFolder, gs_secrets = hits ResourceSecret \<rparr>)"

end
