(* ===== verification/SecretService.thy ===== *)
theory SecretService
  imports SecretRepo RedisCache
begin

text \<open>
  The secret service of \<open>internal/service/secret_service.go\<close>: authorization, encryption, persistence, the cache
  and the reveal audit, composed over one \<open>world\<close>: the PostgreSQL store, the Redis cache (\<open>None\<close> for a nil
  cache) and the random bytes still to come.  A handler is a function of the world; unlike a transaction it
  does not undo what happened before an error.  Failures of the cache are logged and otherwise ignored, as in
  the code.
\<close>

section \<open>Handlers\<close>

record world =
  w_st :: store
  w_rd :: "redis option"
  w_rand :: "nat list"

text \<open>The fields of \<open>secretService\<close>; the repository and the cache are the world.\<close>

record secretService =
  ss_prefix :: str
  ss_enc :: "aead option"
  ss_authz :: "store \<Rightarrow> allowFn"

type_synonym 'a handler = "world \<Rightarrow> (goErr + 'a) \<times> world"

definition retS :: "'a \<Rightarrow> 'a handler" where "retS x w = (Inr x, w)"
definition failS :: "goErr \<Rightarrow> 'a handler" where "failS e w = (Inl e, w)"
definition bindS :: "'a handler \<Rightarrow> ('a \<Rightarrow> 'b handler) \<Rightarrow> 'b handler" where
  "bindS m f w = (case m w of (Inl e, w') \<Rightarrow> (Inl e, w') | (Inr x, w') \<Rightarrow> f x w')"

fun mapS :: "('a \<Rightarrow> 'b handler) \<Rightarrow> 'a list \<Rightarrow> 'b list handler" where
  "mapS f [] = retS []"
| "mapS f (x # xs) = bindS (f x) (\<lambda>y. bindS (mapS f xs) (\<lambda>ys. retS (y # ys)))"

definition readS :: "(store \<Rightarrow> goErr + 'a) \<Rightarrow> 'a handler" where
  "readS f w = (f (w_st w), w)"

definition storeS :: "(store \<Rightarrow> (goErr + 'a) \<times> store) \<Rightarrow> 'a handler" where
  "storeS m w = (case m (w_st w) of (r, st') \<Rightarrow> (r, w\<lparr>w_st := st'\<rparr>))"

definition cacheS :: "unit rd \<Rightarrow> unit handler" where
  "cacheS m w = (case w_rd w of None \<Rightarrow> (Inr (), w) | Some r \<Rightarrow> (Inr (), w\<lparr>w_rd := Some (snd (m r))\<rparr>))"

definition requireS :: "bool \<Rightarrow> goErr \<Rightarrow> unit handler" where
  "requireS b e = (if b then retS () else failS e)"

definition allowS :: "secretService \<Rightarrow> userInfo \<Rightarrow> str \<Rightarrow> resource \<Rightarrow> unit handler" where
  "allowS svc u action res = readS (\<lambda>st. ss_authz svc st u action res)"

lemma handler_simps [simp]: "retS x w = (Inr x, w)" "failS e w = (Inl e, w)" "readS f w = (f (w_st w), w)"
  by (simp_all add: retS_def failS_def readS_def)

lemma bindS_simps [simp]:
  "m w = (Inl e, w') \<Longrightarrow> bindS m f w = (Inl e, w')"
  "m w = (Inr x, w') \<Longrightarrow> bindS m f w = f x w'"
  by (simp_all add: bindS_def)

lemma bindS_Inr_iff [result_simps]:
  "bindS m f w = (Inr y, w2) \<longleftrightarrow> (\<exists>x w1. m w = (Inr x, w1) \<and> f x w1 = (Inr y, w2))"
  by (auto simp: bindS_def split: prod.splits sum.splits)

lemma bindS_cases:
  assumes "bindS m f w = (r, w2)"
  obtains e where "m w = (Inl e, w2)" "r = Inl e" | x w1 where "m w = (Inr x, w1)" "f x w1 = (r, w2)"
  using assms by (auto simp: bindS_def split: prod.splits sum.splits)

lemma requireS_Inr [result_simps]: "requireS b e w = (Inr x, w') \<longleftrightarrow> b \<and> w' = w"
  by (auto simp: requireS_def)

definition folderScope :: "str \<Rightarrow> resource" where "folderScope i = \<lparr> res_type = ''folder'', res_id = i \<rparr>"
definition environmentScope :: "str \<Rightarrow> resource" where "environmentScope i = \<lparr> res_type = ''environment'', res_id = i \<rparr>"
definition secretScope :: "str \<Rightarrow> resource" where "secretScope i = \<lparr> res_type = ''secret'', res_id = i \<rparr>"

section \<open>Encryption and cache\<close>

definition encryptS :: "secretService \<Rightarrow> str \<Rightarrow> secretCiphertext handler" where
  "encryptS svc v w = (case ss_enc svc of
       None \<Rightarrow> (Inl (ErrMsg ''encryptor is not configured''), w)
     | Some ae \<Rightarrow> (case encrypt ae v (w_rand w) of Inl e \<Rightarrow> (Inl e, w)
         | Inr (c, rest) \<Rightarrow> (Inr c, w\<lparr>w_rand := rest\<rparr>)))"

definition decryptS :: "secretService \<Rightarrow> secretCiphertext \<Rightarrow> goErr + str" where
  "decryptS svc c = (case ss_enc svc of
       None \<Rightarrow> Inl (ErrMsg ''encryptor is not configured'') | Some ae \<Rightarrow> decrypt ae c)"

definition cacheUpsert :: "secretService \<Rightarrow> secret \<Rightarrow> secretCiphertext \<Rightarrow> unit handler" where
  "cacheUpsert svc s c = cacheS (upsertSecret (ss_prefix svc) \<lparr> scr_secret = s, scr_cipher = c \<rparr>)"

section \<open>Single secrets\<close>

definition create :: "secretService \<Rightarrow> userInfo \<Rightarrow> str \<Rightarrow> str \<Rightarrow> str \<Rightarrow> str \<Rightarrow> str \<Rightarrow> secret handler" where
  "create svc u folderId key v comment actor =
     bindS (allowS svc u ''secret:create'' (folderScope folderId)) (\<lambda>_.
     bindS (encryptS svc v) (\<lambda>c.
     bindS (storeS (createSecret folderId key comment actor c)) (\<lambda>s.
     bindS (cacheUpsert svc s c) (\<lambda>_. retS s))))"

definition update :: "secretService \<Rightarrow> userInfo \<Rightarrow> str \<Rightarrow> str \<Rightarrow> str \<Rightarrow> str \<Rightarrow> str \<Rightarrow> secret handler" where
  "update svc u i key v comment actor =
     bindS (allowS svc u ''secret:update'' (secretScope i)) (\<lambda>_.
     bindS (encryptS svc v) (\<lambda>c.
     bindS (storeS (updateSecret i key comment actor c)) (\<lambda>s.
     bindS (cacheUpsert svc s c) (\<lambda>_. retS s))))"

definition delete :: "secretService \<Rightarrow> userInfo \<Rightarrow> str \<Rightarrow> str \<Rightarrow> unit handler" where
  "delete svc u i actor =
     bindS (allowS svc u ''secret:delete'' (secretScope i)) (\<lambda>_.
     bindS (storeS (deleteSecret i actor)) (\<lambda>_.
     cacheS (deleteSecretC (ss_prefix svc) i)))"

definition get :: "secretService \<Rightarrow> userInfo \<Rightarrow> str \<Rightarrow> secret handler" where
  "get svc u i = bindS (allowS svc u ''secret:read'' (secretScope i)) (\<lambda>_. readS (\<lambda>st. getSecret st i))"

definition reveal :: "secretService \<Rightarrow> userInfo \<Rightarrow> str \<Rightarrow> str \<Rightarrow> secret handler" where
  "reveal svc u i actor =
     bindS (allowS svc u ''secret:reveal'' (secretScope i)) (\<lambda>_.
     bindS (readS (\<lambda>st. getSecretCiphertext st i)) (\<lambda>(s, c).
     bindS (readS (\<lambda>_. decryptS svc c)) (\<lambda>plaintext.
     bindS (storeS (recordAudit actor ''secret'' (sec_id s) ''reveal'' NoPayload)) (\<lambda>_.
     retS (s\<lparr>sec_value := plaintext\<rparr>)))))"

section \<open>Paths\<close>

definition parseSecretPath :: "str \<Rightarrow> goErr + str \<times> str \<times> str \<times> str \<times> str" where
  "parseSecretPath path = (let parts = splitOn CHR ''.'' (trimSpace path) in
     if length parts \<noteq> 5 then Inl (ErrMsg ''invalid secret path'')
     else if list_ex (\<lambda>p. trimSpace p = []) parts then Inl (ErrMsg ''invalid secret path: empty segment'')
     else Inr (parts ! 0, parts ! 1, parts ! 2, parts ! 3, parts ! 4))"

definition parseFolderPath :: "str \<Rightarrow> goErr + str \<times> str \<times> str \<times> str" where
  "parseFolderPath path = (let parts = splitOn CHR ''.'' (trimSpace path) in
     if length parts \<noteq> 4 then Inl (ErrMsg ''invalid folder path'')
     else if list_ex (\<lambda>p. trimSpace p = []) parts then Inl (ErrMsg ''invalid folder path: empty segment'')
     else Inr (parts ! 0, parts ! 1, parts ! 2, parts ! 3))"

definition getByPath :: "secretService \<Rightarrow> userInfo \<Rightarrow> str \<Rightarrow> secret handler" where
  "getByPath svc u path =
     bindS (readS (\<lambda>_. parseSecretPath path)) (\<lambda>(orgCode, projectCode, envCode, folderCode, key).
     bindS (readS (\<lambda>st. getSecretByPath st orgCode projectCode envCode folderCode key)) (\<lambda>s.
     bindS (allowS svc u ''secret:read'' (secretScope (sec_id s))) (\<lambda>_. retS s)))"

definition revealByPath :: "secretService \<Rightarrow> userInfo \<Rightarrow> str \<Rightarrow> str \<Rightarrow> secret handler" where
  "revealByPath svc u path actor =
     bindS (readS (\<lambda>_. parseSecretPath path)) (\<lambda>(orgCode, projectCode, envCode, folderCode, key).
     bindS (readS (\<lambda>st. getSecretByPath st orgCode projectCode envCode folderCode key)) (\<lambda>s.
     bindS (allowS svc u ''secret:reveal'' (secretScope (sec_id s))) (\<lambda>_.
     reveal svc u (sec_id s) actor)))"

section \<open>Revealing a folder\<close>

definition decryptAll :: "secretService \<Rightarrow> (secret \<times> secretCiphertext) list \<Rightarrow> goErr + secret list" where
  "decryptAll svc = mapE (\<lambda>(s, c). bindE (decryptS svc c) (\<lambda>plaintext. Inr (s\<lparr>sec_value := plaintext\<rparr>)))"

definition batchRevealByPath :: "secretService \<Rightarrow> userInfo \<Rightarrow> str \<Rightarrow> str list option \<Rightarrow> str \<Rightarrow> (secret list \<times> str list) handler" where
  "batchRevealByPath svc u path keys0 actor =
     bindS (requireS (trimSpace (ui_id u) \<noteq> []) ErrPermissionDenied) (\<lambda>_.
     bindS (readS (\<lambda>_. parseFolderPath path)) (\<lambda>(orgCode, projectCode, envCode, folderCode).
     let keys = (case keys0 of None \<Rightarrow> [] | Some ks \<Rightarrow> ks) in
     bindS (readS (\<lambda>st. decryptAll svc (batchRevealSecretsByPath st (ui_id u) ''secret:reveal''
       orgCode projectCode envCode folderCode (Some keys)))) (\<lambda>results.
     bindS (if length results > 0
            then let auditKeys = (if length keys = 0 then map sec_key results else keys) in
              storeS (recordAudit actor ''folder'' (sec_folderId (hd results)) ''reveal_batch'' (KeysPayload auditKeys))
            else retS ()) (\<lambda>_.
     retS (results, filter (\<lambda>k. k \<notin> set (map sec_key results)) keys)))))"

definition batchRevealByCode :: "secretService \<Rightarrow> userInfo \<Rightarrow> str \<Rightarrow> str \<Rightarrow> str \<Rightarrow> str \<Rightarrow> str \<Rightarrow> secret list handler" where
  "batchRevealByCode svc u orgCode projectCode envCode folderCode actor =
     bindS (requireS (trimSpace (ui_id u) \<noteq> []) ErrPermissionDenied) (\<lambda>_.
     bindS (requireS (trimSpace orgCode \<noteq> [] \<and> trimSpace projectCode \<noteq> [] \<and> trimSpace envCode \<noteq> [] \<and>
       trimSpace folderCode \<noteq> []) (ErrMsg ''orgCode, projectCode, environmentCode, folderCode are all required'')) (\<lambda>_.
     bindS (readS (\<lambda>st. decryptAll svc (batchRevealSecretsByPath st (ui_id u) ''secret:reveal''
       orgCode projectCode envCode folderCode None))) (\<lambda>results.
     bindS (if length results > 0
            then storeS (recordAudit actor ''folder'' (sec_folderId (hd results)) ''reveal_batch''
              (KeysPayload (map sec_key results)))
            else retS ()) (\<lambda>_.
     retS results))))"

end
