(* ===== verification/SecretBatch.thy ===== *)
theory SecretBatch
  imports SecretService
begin

text \<open>
  The batch and listing operations of \<open>internal/service/secret_service.go\<close>: revealing across environments,
  creating and updating in batches, listing and searching.
\<close>

section \<open>ListAcrossEnvs\<close>

fun cleanKeysAcc :: "str list \<Rightarrow> str list \<Rightarrow> goErr + str list" where
  "cleanKeysAcc seen [] = Inr []"
| "cleanKeysAcc seen (k0 # ks) = (let k = trimSpace k0 in
     if k = [] then cleanKeysAcc seen ks
     else if \<not> keyPattern k then Inl (ErrMsg ''key must match ^[A-Z][A-Z0-9_]*$'')
     else if k \<in> set seen then cleanKeysAcc seen ks
     else bindE (cleanKeysAcc (k # seen) ks) (\<lambda>r. Inr (k # r)))"

definition cleanEnvs :: "str list \<Rightarrow> str list" where
  "cleanEnvs envList = dedupe (filter (\<lambda>e. e \<noteq> []) (map trimSpace envList))"

record groupState =
  gr_projectCode :: str
  gr_comment :: str
  gr_envs :: "(str \<times> envSecretValue option) list"
  gr_hasHit :: bool

type_synonym groupKey = "str \<times> str"

definition newGroup :: "str \<Rightarrow> str list \<Rightarrow> groupState" where
  "newGroup projectCode cleaned = \<lparr> gr_projectCode = projectCode, gr_comment = [],
     gr_envs = map (\<lambda>code. (code, None)) cleaned, gr_hasHit = False \<rparr>"

definition envValue :: "secret \<Rightarrow> str \<Rightarrow> envSecretValue" where
  "envValue s plaintext = \<lparr> ev_folderId = sec_folderId s, ev_value = plaintext, ev_version = sec_version s,
     ev_comment = sec_comment s, ev_id = sec_id s, ev_sort = sec_sort s, ev_updatedAt = sec_updatedAt s \<rparr>"

text \<open>The map \<open>groups\<close> with the slice \<open>order\<close> is an association list in insertion order.\<close>

definition addHit :: "secretService \<Rightarrow> str list \<Rightarrow> secret \<times> secretCiphertext \<Rightarrow>
    (groupKey \<times> groupState) list \<Rightarrow> goErr + (groupKey \<times> groupState) list" where
  "addHit svc cleaned sc groups = (case sc of (s, c) \<Rightarrow>
     let gk = (sec_folderCode s, sec_key s);
         g = (case map_of groups gk of Some g \<Rightarrow> g | None \<Rightarrow> newGroup (sec_projectCode s) cleaned);
         g1 = (if \<not> gr_hasHit g then g\<lparr>gr_comment := sec_comment s, gr_hasHit := True\<rparr> else g)
     in bindE (decryptS svc c) (\<lambda>plaintext.
       Inr (AList.update gk (g1\<lparr>gr_envs := AList.update (sec_envCode s) (Some (envValue s plaintext)) (gr_envs g1)\<rparr>)
         groups)))"

definition groupHits :: "secretService \<Rightarrow> str list \<Rightarrow> (secret \<times> secretCiphertext) list \<Rightarrow>
    goErr + (groupKey \<times> groupState) list" where
  "groupHits svc cleaned rows = foldE (addHit svc cleaned) rows []"

definition totalHits :: "(groupKey \<times> groupState) list \<Rightarrow> nat" where
  "totalHits groups = sum_list (map (\<lambda>(_, g). length (filter (\<lambda>(_, v). v \<noteq> None) (gr_envs g))) groups)"

definition acrossPayload :: "str \<Rightarrow> str list \<Rightarrow> str list \<Rightarrow> (groupKey \<times> groupState) list \<Rightarrow> payload" where
  "acrossPayload folderCode keys cleaned groups =
     (if length keys = 0 then RevealPayload [] [] cleaned (totalHits groups) (map fst groups)
      else RevealPayload folderCode keys cleaned (totalHits groups) [])"

definition acrossOut :: "(groupKey \<times> groupState) list \<Rightarrow> str \<Rightarrow> str list \<Rightarrow> str list \<Rightarrow> secretAcrossEnvs list" where
  "acrossOut groups projectCode keys cleaned =
     map (\<lambda>((_, key), g). \<lparr> sa_projectCode = gr_projectCode g, sa_key = key, sa_comment = gr_comment g,
       sa_envs = gr_envs g \<rparr>) groups @
     map (\<lambda>k. \<lparr> sa_projectCode = projectCode, sa_key = k, sa_comment = [],
       sa_envs = map (\<lambda>code. (code, None)) cleaned \<rparr>)
       (filter (\<lambda>k. k \<notin> set (map (\<lambda>((_, key), _). key) groups)) keys)"

definition firstProjectCode :: "(secret \<times> secretCiphertext) list \<Rightarrow> str" where
  "firstProjectCode rows = (case findFirst (\<lambda>(s, _). sec_projectCode s \<noteq> []) rows of
       None \<Rightarrow> [] | Some (s, _) \<Rightarrow> sec_projectCode s)"

definition acrossRows :: "store \<Rightarrow> str \<Rightarrow> str \<Rightarrow> str \<Rightarrow> str list \<Rightarrow> str list \<Rightarrow> (secret \<times> secretCiphertext) list" where
  "acrossRows st uid projectId folderCode keys cleaned =
     (if length keys = 0 then listSecretsInProjectByEnvs st uid ''secret:read'' projectId folderCode cleaned
      else listSecretsByProjectFolderKey st uid ''secret:read'' projectId folderCode keys cleaned)"

definition listAcrossEnvs ::
    "secretService \<Rightarrow> userInfo \<Rightarrow> str \<Rightarrow> str \<Rightarrow> str list \<Rightarrow> str list \<Rightarrow> str \<Rightarrow> secretAcrossEnvs list handler" where
  "listAcrossEnvs svc u projectId0 folderCode0 keys0 envList actor =
     bindS (requireS (trimSpace (ui_id u) \<noteq> []) ErrPermissionDenied) (\<lambda>_.
     let projectId = trimSpace projectId0; folderCode = trimSpace folderCode0 in
     bindS (requireS (projectId \<noteq> []) (ErrMsg ''projectId is required'')) (\<lambda>_.
     bindS (readS (\<lambda>_. cleanKeysAcc [] keys0)) (\<lambda>keys.
     bindS (requireS (length keys \<le> 32) (ErrMsg ''keyList exceeds max length 32'')) (\<lambda>_.
     bindS (requireS (\<not> (length keys > 0 \<and> folderCode = []))
       (ErrMsg ''folderCode is required when keyList is provided'')) (\<lambda>_.
     let cleaned = cleanEnvs envList in
     bindS (requireS (length cleaned \<noteq> 0) (ErrMsg ''envList must contain at least one non-empty env code'')) (\<lambda>_.
     bindS (requireS (length cleaned \<le> 32) (ErrMsg ''envList exceeds max length 32'')) (\<lambda>_.
     bindS (readS (\<lambda>st. Inr (acrossRows st (ui_id u) projectId folderCode keys cleaned))) (\<lambda>rows.
     bindS (readS (\<lambda>_. groupHits svc cleaned rows)) (\<lambda>groups.
     bindS (if length groups > 0
            then storeS (recordAudit actor ''project'' projectId ''reveal_batch''
              (acrossPayload folderCode keys cleaned groups))
            else retS ()) (\<lambda>_.
     retS (acrossOut groups (firstProjectCode rows) keys cleaned)))))))))))"

section \<open>BatchCreate\<close>

record batchCreateEnvTarget =
  bt_envCode :: str
  bt_folder :: str
  bt_value :: str

record batchCreateSecretSpec =
  bs_key :: str
  bs_comment :: str
  bs_envs :: "batchCreateEnvTarget list"

definition checkCreateSpec :: "batchCreateSecretSpec \<Rightarrow> goErr + unit" where
  "checkCreateSpec item =
     (if \<not> keyPattern (bs_key item) then Inl (ErrMsg ''secretList.key'')
      else if length (bs_envs item) = 0 then Inl (ErrMsg ''secretList needs an env'')
      else if list_ex (\<lambda>e. trimSpace (bt_folder e) = []) (bs_envs item) then Inl (ErrMsg ''folderId'')
      else Inr ())"

definition expandTargets :: "batchCreateSecretSpec list \<Rightarrow> (batchCreateSecretSpec \<times> batchCreateEnvTarget) list" where
  "expandTargets specs = concat (map (\<lambda>item. map (Pair item) (bs_envs item)) specs)"

definition batchCreate :: "secretService \<Rightarrow> userInfo \<Rightarrow> batchCreateSecretSpec list \<Rightarrow> str \<Rightarrow> unit handler" where
  "batchCreate svc u specs actor =
     bindS (requireS (trimSpace (ui_id u) \<noteq> []) ErrPermissionDenied) (\<lambda>_.
     bindS (requireS (length specs \<noteq> 0) (ErrMsg ''secretList'')) (\<lambda>_.
     bindS (readS (\<lambda>_. mapE checkCreateSpec specs)) (\<lambda>_.
     bindS (mapS (\<lambda>(item, e). bindS (encryptS svc (bt_value e)) (\<lambda>c. retS (item, e, c)))
       (expandTargets specs)) (\<lambda>targets.
     bindS (mapS (\<lambda>(item, e, c). allowS svc u ''secret:create'' (folderScope (bt_folder e))) targets) (\<lambda>_.
     let items = map (\<lambda>(item, e, c). \<lparr> bc_folder = bt_folder e, bc_key = bs_key item,
       bc_comment = bs_comment item, bc_actor = actor, bc_cipher = c \<rparr>) targets in
     bindS (storeS (batchCreateSecrets items)) (\<lambda>created.
     bindS (mapS (\<lambda>(s, (item, e, c)). cacheUpsert svc s c) (zip created targets)) (\<lambda>_. retS ())))))))"

section \<open>BatchUpdate\<close>

record batchUpdateSecretSpec =
  us_id :: str
  us_key :: str
  us_value :: str
  us_comment :: str

definition checkUpdateSpec :: "batchUpdateSecretSpec \<Rightarrow> goErr + unit" where
  "checkUpdateSpec item =
     (if trimSpace (us_id item) = [] then Inl (ErrMsg ''secretList.id'')
      else if \<not> keyPattern (us_key item) then Inl (ErrMsg ''secretList.key'')
      else Inr ())"

definition updateItems :: "str \<Rightarrow> (batchUpdateSecretSpec \<times> secretCiphertext) list \<Rightarrow> batchUpdateItem list" where
  "updateItems actor = map (\<lambda>(item, c). \<lparr> bu_id = us_id item, bu_key = us_key item, bu_comment = us_comment item,
     bu_actor = actor, bu_cipher = c \<rparr>)"

definition encryptSpecs :: "secretService \<Rightarrow> batchUpdateSecretSpec list \<Rightarrow> (batchUpdateSecretSpec \<times> secretCiphertext) list handler" where
  "encryptSpecs svc = mapS (\<lambda>item. bindS (encryptS svc (us_value item)) (\<lambda>c. retS (item, c)))"

definition storeAndCache :: "secretService \<Rightarrow> str \<Rightarrow> (batchUpdateSecretSpec \<times> secretCiphertext) list \<Rightarrow> unit handler" where
  "storeAndCache svc actor targets =
     bindS (storeS (batchUpdateSecrets (updateItems actor targets))) (\<lambda>updated.
     bindS (mapS (\<lambda>(s, (item, c)). cacheUpsert svc s c) (zip updated targets)) (\<lambda>_. retS ()))"

definition batchUpdate :: "secretService \<Rightarrow> userInfo \<Rightarrow> batchUpdateSecretSpec list \<Rightarrow> str \<Rightarrow> unit handler" where
  "batchUpdate svc u specs actor =
     bindS (requireS (trimSpace (ui_id u) \<noteq> []) ErrPermissionDenied) (\<lambda>_.
     bindS (requireS (length specs \<noteq> 0) (ErrMsg ''secretList'')) (\<lambda>_.
     bindS (readS (\<lambda>_. mapE checkUpdateSpec specs)) (\<lambda>_.
     bindS (encryptSpecs svc specs) (\<lambda>targets.
     bindS (mapS (\<lambda>(item, c). allowS svc u ''secret:update'' (secretScope (us_id item))) targets) (\<lambda>_.
     storeAndCache svc actor targets)))))"

text \<open>\<open>BatchUpdateByIDs\<close>: the values share the key and the comment of the request.\<close>

fun checkDistinctIds :: "str list \<Rightarrow> str list \<Rightarrow> goErr + unit" where
  "checkDistinctIds seen [] = Inr ()"
| "checkDistinctIds seen (i # is') =
     (if trimSpace i = [] then Inl (ErrMsg ''values.id'')
      else if i \<in> set seen then Inl (ErrMsg ''values.id repeated'')
      else checkDistinctIds (i # seen) is')"

definition batchUpdateByIDs :: "secretService \<Rightarrow> userInfo \<Rightarrow> (str \<times> str) list \<Rightarrow> str \<Rightarrow> str \<Rightarrow> str \<Rightarrow> unit handler" where
  "batchUpdateByIDs svc u vals key comment actor =
     bindS (requireS (trimSpace (ui_id u) \<noteq> []) ErrPermissionDenied) (\<lambda>_.
     bindS (requireS (trimSpace key \<noteq> []) (ErrMsg ''key'')) (\<lambda>_.
     if length vals = 0 then
       bindS (readS (\<lambda>st. Inr (getSecretIdsByKey st key))) (\<lambda>idl.
       bindS (requireS (length idl \<noteq> 0) (ErrMsg ''no secret with this key'')) (\<lambda>_.
       storeS (batchUpdateCommentByIds idl comment actor)))
     else
       bindS (requireS (length vals \<le> 32) (ErrMsg ''values'')) (\<lambda>_.
       bindS (readS (\<lambda>_. checkDistinctIds [] (map fst vals))) (\<lambda>_.
       bindS (readS (\<lambda>st. Inr (getSecretsKeys st (map fst vals)))) (\<lambda>existing.
       bindS (requireS (length existing = length vals) (ErrMsg ''some secrets do not exist'')) (\<lambda>_.
       bindS (requireS (list_all (\<lambda>k. k = hd existing) existing) (ErrMsg ''keys differ'')) (\<lambda>_.
       bindS (encryptSpecs svc (map (\<lambda>(i, v). \<lparr> us_id = i, us_key = key, us_value = v, us_comment = comment \<rparr>) vals))
         (\<lambda>targets. storeAndCache svc actor targets)))))) ))"

section \<open>List and Search\<close>

definition narrowSecretSearchScope :: "listFilter \<Rightarrow> listFilter" where
  "narrowSecretSearchScope fl0 =
     (let fl = fl0\<lparr>lf_folder := trimSpace (lf_folder fl0), lf_env := trimSpace (lf_env fl0),
                   lf_project := trimSpace (lf_project fl0)\<rparr> in
      if lf_folder fl \<noteq> [] then fl\<lparr>lf_env := [], lf_project := []\<rparr>
      else if lf_env fl \<noteq> [] then fl\<lparr>lf_project := []\<rparr>
      else fl)"

definition listScope :: "secretService \<Rightarrow> userInfo \<Rightarrow> str \<Rightarrow> listFilter \<Rightarrow> unit handler" where
  "listScope svc u action fl =
     (if lf_folder fl \<noteq> [] then allowS svc u action (folderScope (lf_folder fl))
      else if lf_env fl \<noteq> [] then allowS svc u action (environmentScope (lf_env fl))
      else failS (ErrMsg ''listScope: either FolderId or EnvironmentId is required''))"

definition listS :: "secretService \<Rightarrow> userInfo \<Rightarrow> listFilter \<Rightarrow> pagination \<Rightarrow> secret paginated handler" where
  "listS svc u fl p =
     bindS (requireS (trimSpace (ui_id u) \<noteq> []) ErrPermissionDenied) (\<lambda>_.
     readS (\<lambda>st. Inr (listSecrets st (ui_id u) ''secret:list'' (narrowSecretSearchScope fl) p)))"

record secretGroup =
  sg_key :: str
  sg_envs :: "(str \<times> secret) list"

datatype searchItem = Single secret | Group secretGroup

definition revealIfPermitted :: "secretService \<Rightarrow> userInfo \<Rightarrow> store \<Rightarrow> str \<Rightarrow> secretCiphertext \<Rightarrow> goErr + str" where
  "revealIfPermitted svc u st i c =
     (case ss_authz svc st u ''secret:reveal'' (secretScope i) of
        Inl e \<Rightarrow> if e = ErrPermissionDenied then Inr [] else Inl e
      | Inr _ \<Rightarrow> (case decryptS svc c of Inl _ \<Rightarrow> Inr [] | Inr plain \<Rightarrow> Inr plain))"

definition fillValuesPerSecret :: "secretService \<Rightarrow> userInfo \<Rightarrow> store \<Rightarrow> secretCacheRecord list \<Rightarrow> goErr + secret list" where
  "fillValuesPerSecret svc u st = mapE (\<lambda>rec. let s = scr_secret rec in
     bindE (revealIfPermitted svc u st (sec_id s) (scr_cipher rec)) (\<lambda>plaintext.
     Inr (if plaintext \<noteq> [] \<or> sec_envCode s \<noteq> [] then s\<lparr>sec_values := [(sec_envCode s, plaintext)]\<rparr> else s)))"

definition addToGroup :: "secretCacheRecord \<Rightarrow> (groupKey \<times> secretGroup) list \<Rightarrow> (groupKey \<times> secretGroup) list" where
  "addToGroup rec groups = (let s = scr_secret rec; k = (sec_folderCode s, sec_key s);
       g = (case map_of groups k of Some g \<Rightarrow> g | None \<Rightarrow> \<lparr> sg_key = sec_key s, sg_envs = [] \<rparr>)
     in AList.update k (if sec_envCode s \<noteq> [] then g\<lparr>sg_envs := AList.update (sec_envCode s) s (sg_envs g)\<rparr> else g)
       groups)"

definition groupRecords :: "secretCacheRecord list \<Rightarrow> secretGroup list" where
  "groupRecords recs = map snd (fold addToGroup recs [])"

definition aggregateSecretsByProject :: "secretCacheRecord paginated \<Rightarrow> pagination \<Rightarrow> secretGroup paginated" where
  "aggregateSecretsByProject records p = (let all = groupRecords (pg_items records) in
     \<lparr> pg_items = sliceFrom (nat (offsetOf p)) (nat (limitOf p)) all,
       pg_total = (if pg_total records = 0 then length all else pg_total records) \<rparr>)"

definition search :: "secretService \<Rightarrow> userInfo \<Rightarrow> listFilter \<Rightarrow> pagination \<Rightarrow> searchItem paginated handler" where
  "search svc u fl0 p =
     bindS (requireS (trimSpace (ui_id u) \<noteq> []) ErrPermissionDenied) (\<lambda>_.
     let fl = narrowSecretSearchScope fl0 in
     bindS (readS (\<lambda>st. Inr (listSecretsWithCiphertext st (ui_id u) ''secret:search'' fl p))) (\<lambda>records.
     if lf_project fl \<noteq> [] then
       (let r = aggregateSecretsByProject records p in
        retS \<lparr> pg_items = map Group (pg_items r), pg_total = pg_total r \<rparr>)
     else
       bindS (readS (\<lambda>st. fillValuesPerSecret svc u st (pg_items records))) (\<lambda>secrets.
       retS \<lparr> pg_items = map Single secrets, pg_total = pg_total records \<rparr>)))"

definition paginateSecrets :: "secret list \<Rightarrow> pagination \<Rightarrow> secret paginated" where
  "paginateSecrets items p0 = (let p = normalize p0; start = nat (offsetOf p) in
     if start \<ge> length items then \<lparr> pg_items = [], pg_total = length items \<rparr>
     else \<lparr> pg_items = sliceFrom start (nat (limitOf p)) items, pg_total = length items \<rparr>)"

end
