(* ===== verification/Demo.thy ===== *)
theory Demo
  imports RbacViews
begin

text \<open>
  A small concrete store on which the witnesses evaluate the operations: one organization with one
  project, two environments, a top-level folder with a sub-folder, one secret, two roles and two users.
\<close>

definition demoRow :: "str \<Rightarrow> str \<Rightarrow> str \<Rightarrow> str option \<Rightarrow> int \<Rightarrow> row" where
  "demoRow i parent code fld lvl = \<lparr> r_id = i, r_parent = parent, r_code = code, r_name = code,
     r_comment = [], r_sort = 100, r_folder = fld, r_level = lvl, r_deleted = False, r_deletedBy = [],
     r_deletedAt = None, r_createdBy = ''al'', r_updatedBy = ''al'', r_createdAt = 1, r_updatedAt = 1 \<rparr>"

definition demoCipher :: secretCiphertext where
  "demoCipher = \<lparr> sc_algorithm = ''aes'', sc_nonce = [1], sc_data = [2] \<rparr>"

definition demoSecret :: "str \<Rightarrow> str \<Rightarrow> str \<Rightarrow> secretRow" where
  "demoSecret i f k = \<lparr> s_id = i, s_folder = f, s_key = k, s_cipher = demoCipher, s_comment = [],
     s_version = 1, s_deleted = False, s_deletedBy = [], s_deletedAt = None, s_createdBy = ''al'',
     s_updatedBy = ''al'', s_createdAt = 1, s_updatedAt = 1 \<rparr>"

definition demoUser :: "str \<Rightarrow> bool \<Rightarrow> user" where
  "demoUser i dis = (jwtUser i i [] 1)\<lparr>u_disabled := dis\<rparr>"

definition demoRole :: "str \<Rightarrow> str \<Rightarrow> roleRow" where
  "demoRole i c = \<lparr> ro_id = i, ro_code = c, ro_name = c, ro_description = [], ro_scopeType = ''project'',
     ro_org = None, ro_project = None, ro_system = True, ro_deleted = False \<rparr>"

definition demoPerm :: "str \<Rightarrow> str \<Rightarrow> permissionRow" where
  "demoPerm i c = \<lparr> p_id = i, p_code = c, p_resourceType = ''x'', p_action = c, p_description = [] \<rparr>"

definition demoStore :: store where
  "demoStore = emptyStore\<lparr>
     tbl := (\<lambda>_. [])(Organizations := [demoRow ''o'' [] ''org'' None 1],
       Projects := [demoRow ''p'' ''o'' ''prj'' None 1],
       Environments := [demoRow ''e'' ''p'' ''dev'' None 1, demoRow ''e2'' ''p'' ''test'' None 1],
       Folders := [demoRow ''f'' ''e'' ''pay'' None 1, demoRow ''g'' ''e'' ''sub'' (Some ''f'') 2]),
     secretsT := [demoSecret ''s'' ''f'' ''K'', demoSecret ''t'' ''g'' ''L''],
     usersT := [demoUser ''al'' False, demoUser ''dis'' True],
     permsT := [demoPerm ''p1'' ''secret:read'', demoPerm ''p2'' ''rbac:role:manage''],
     rolesT := [demoRole ''r1'' ''dev'', demoRole ''r2'' ''adm''],
     rolePermsT := [(''r1'', ''p1''), (''r2'', ''p1''), (''r2'', ''p2'')],
     bindingsT := [mkBinding ''b1'' ''al'' ''r1'' ''project'' (Some ''p'') ''x'' None 1,
       mkBinding ''b2'' ''dis'' ''r2'' ''global'' None ''x'' None 1,
       mkBinding ''b3'' ''cy'' ''r1'' ''project'' (Some ''p'') ''x'' (Some 5) 1],
     clock := 10, ids := [''n1'', ''n2'', ''n3'', ''n4'', ''n5'', ''n6'', ''n7'', ''n8'']\<rparr>"

definition demoUI :: "str \<Rightarrow> userInfo" where
  "demoUI i = \<lparr> ui_id = i, ui_name = i, ui_jwt = [], ui_cookie = [] \<rparr>"

definition rsrc :: "str \<Rightarrow> str \<Rightarrow> resource" where
  "rsrc t i = \<lparr> res_type = t, res_id = i \<rparr>"

end
