(* ===== verification/RbacProps.thy ===== *)
theory RbacProps
  imports Demo
begin

text \<open>
  Correctness of the access-control core: what a binding gives, how access flows down the resource
  tree, what granting and revoking change, and the invariant of the bindings table over every history
  of RBAC operations.
\<close>

section \<open>Framing\<close>

lemma resourceScopes_cong:
  "tbl st' = tbl st \<Longrightarrow> secretsT st' = secretsT st \<Longrightarrow> resourceScopes st' = resourceScopes st"
  by (rule ext)
    (simp add: resourceScopes_def scope_defs envTemplateScopes_def liveFolder_def liveEnv_def
      liveProject_def liveOrg_def findRow_def findSecret_def Let_def cong: option.case_cong)

lemma roleCodes_cong:
  "rolePermsT st' = rolePermsT st \<Longrightarrow> permsT st' = permsT st \<Longrightarrow> roleCodes st' = roleCodes st"
  by (rule ext) (simp add: roleCodes_def split_def cong: if_cong)

lemma roleLive_cong: "rolesT st' = rolesT st \<Longrightarrow> roleLive st' = roleLive st"
  by (rule ext) (simp add: roleLive_def)

text \<open>Two stores that agree on everything but users, bindings, labels, the audit table and the
  identifier supply.\<close>

definition sameRbac :: "store \<Rightarrow> store \<Rightarrow> bool" where
  "sameRbac st st' \<longleftrightarrow> tbl st' = tbl st \<and> secretsT st' = secretsT st \<and> rolesT st' = rolesT st \<and>
     rolePermsT st' = rolePermsT st \<and> permsT st' = permsT st \<and> clock st' = clock st"

lemma sameRbac_grants:
  assumes "sameRbac st st'" "userActive st' x = userActive st x"
  shows "grantsCode st' x c b = grantsCode st x c b"
  using assms roleCodes_cong [of st' st] roleLive_cong [of st' st]
  by (simp add: sameRbac_def grantsCode_def bindingActive_def split: option.splits)

section \<open>What the operations change\<close>

lemma upsertUser_effect:
  assumes "upsertUserByIdTx i n e st = Inr (uid, st1)"
  obtains us where "uid = trimSpace i" "uid \<noteq> []" "st1 = st\<lparr>usersT := us\<rparr>"
    "\<And>x. x \<noteq> uid \<Longrightarrow> userActive st1 x = userActive st x"
    "(\<forall>u \<in> set (usersT st). u_id u = uid \<longrightarrow> \<not> u_disabled u) \<Longrightarrow> userActive st1 uid"
    "uid \<in> u_id ` set us"
proof (cases "findUser (trimSpace i) st")
  case None
  then have none: "\<forall>u \<in> set (usersT st). u_id u \<noteq> trimSpace i" by (simp add: findUser_def)
  from assms None have *: "uid = trimSpace i" "uid \<noteq> []"
    "st1 = st\<lparr>usersT := usersT st @ [jwtUser (trimSpace i) n e (clock st)]\<rparr>"
    by (auto simp: upsertUserByIdTx_def Let_def translated_Inr insertUser_def bindT_Inr_iff
        split: if_splits)
  show thesis
    by (rule that [OF *]) (auto simp: * userActive_def jwtUser_def)
next
  case (Some u)
  then have u: "u \<in> set (usersT st)" "u_id u = trimSpace i"
    by (auto simp: findUser_def dest: findFirst_Some)
  let ?f = "\<lambda>x. if u_id x = trimSpace i
      then x\<lparr>u_name := keepNonEmpty n (u_name x), u_email := keepNonEmpty e (u_email x),
             u_lastSeenAt := Some (clock st)\<rparr> else x"
  from assms Some have *: "uid = trimSpace i" "uid \<noteq> []" "st1 = st\<lparr>usersT := map ?f (usersT st)\<rparr>"
    by (auto simp: upsertUserByIdTx_def Let_def translated_Inr split: if_splits)
  have a: "userActive st1 x = userActive st x" for x
  proof -
    have "list_ex (\<lambda>u. u_id u = x \<and> \<not> u_disabled u) (map ?f xs) =
          list_ex (\<lambda>u. u_id u = x \<and> \<not> u_disabled u) xs" for xs
      by (induction xs) auto
    then show ?thesis by (simp add: * userActive_def)
  qed
  show thesis
  proof (rule that [OF *])
    show "userActive st1 uid" if "\<forall>u \<in> set (usersT st). u_id u = uid \<longrightarrow> \<not> u_disabled u"
      using that u * a by (auto simp: userActive_def list_ex_iff)
    show "uid \<in> u_id ` set (map ?f (usersT st))"
    proof -
      have "u_id (?f u) \<in> u_id ` set (map ?f (usersT st))"
        using u(1) by (simp only: set_map image_eqI)
      then show ?thesis using u(2) * by simp
    qed
  qed (simp_all add: a)
qed

lemma roleIdByCode_state: "roleIdByCodeTx c st = Inr (rid, st') \<Longrightarrow> st' = st"
  by (auto simp: roleIdByCodeTx_def split: option.splits)

lemma roleIdByCode_live: "roleIdByCodeTx c st = Inr (rid, st') \<Longrightarrow> roleLive st rid"
  by (auto simp: roleIdByCodeTx_def roleLive_def list_ex_iff split: option.splits dest!: findFirst_Some)

lemma roleIdByCode_cong:
  "rolesT st' = rolesT st \<Longrightarrow> roleIdByCodeTx c st' = Inr (rid, x) \<Longrightarrow> roleIdByCodeTx c st = Inr (rid, st)"
  by (simp add: roleIdByCodeTx_def del: findFirst_None split: option.splits)

lemma audit_effect:
  "recordRoleBindingAuditTx a b c d e f st = Inr (u, st') \<Longrightarrow>
   \<exists>i au. st' = st\<lparr>ids := i, bindAuditT := au\<rparr>"
  by (auto simp: recordRoleBindingAuditTx_def bindT_Inr_iff newUUID_Inr)

lemma insertBinding_Inr:
  "insertBinding b st = Inr (u, st') \<longleftrightarrow>
     bindingCheck b \<and> b_id b \<notin> set (map b_id (bindingsT st)) \<and>
     (b_scope b = None \<or> b_deleted b \<or> \<not> list_ex (\<lambda>x. \<not> b_deleted x \<and> sameBinding x b) (bindingsT st)) \<and>
     st' = st\<lparr>bindingsT := bindingsT st @ [b]\<rparr>"
  by (auto simp: insertBinding_def)

text \<open>A successful grant either reuses the active binding or appends one.\<close>

lemma grantRoleTx_effect:
  assumes "grantRoleTx userId n e rc stp sid ex actor st = Inr ((uid, bid), st')"
  obtains st1 rid where "upsertUserByIdTx userId n e st = Inr (uid, st1)" "roleIdByCodeTx rc st = Inr (rid, st)"
    "activeBindingId st uid rid stp sid = Some bid \<and> st' = st1 \<or>
     activeBindingId st uid rid stp sid = None \<and>
       (\<exists>i au. let b = mkBinding bid uid rid stp (nullif sid) actor ex (clock st) in
          bindingCheck b \<and> bid \<notin> set (map b_id (bindingsT st)) \<and>
          (b_scope b = None \<or> \<not> list_ex (\<lambda>x. \<not> b_deleted x \<and> sameBinding x b) (bindingsT st)) \<and>
          st' = st1\<lparr>bindingsT := bindingsT st @ [b], ids := i, bindAuditT := au\<rparr>)"
proof -
  from assms obtain u1 st1 rid st2 where up: "upsertUserByIdTx userId n e st = Inr (u1, st1)"
    and ro: "roleIdByCodeTx rc st1 = Inr (rid, st2)"
    and rest: "(case activeBindingId st2 u1 rid stp sid of
       Some existing \<Rightarrow> retT (u1, existing)
     | None \<Rightarrow> bindT newUUID (\<lambda>i.
         bindT (insertBinding (mkBinding i u1 rid stp (nullif sid) actor ex (clock st2))) (\<lambda>_.
         bindT (recordRoleBindingAuditTx actor ''grant_role'' u1 rid stp sid) (\<lambda>_.
         retT (u1, i))))) st2 = Inr ((uid, bid), st')"
    by (auto simp: grantRoleTx_def bindT_Inr_iff)
  have st2: "st2 = st1" using roleIdByCode_state [OF ro] .
  from upsertUser_effect [OF up] obtain us where us: "st1 = st\<lparr>usersT := us\<rparr>" by metis
  have ro': "roleIdByCodeTx rc st = Inr (rid, st)"
    by (rule roleIdByCode_cong [OF _ ro]) (simp add: us)
  have act: "activeBindingId st2 u1 rid stp sid = activeBindingId st u1 rid stp sid"
    by (simp add: activeBindingId_def st2 us)
  show thesis
  proof (cases "activeBindingId st u1 rid stp sid")
    case (Some b)
    with rest act st2 have "uid = u1" "bid = b" "st' = st1" by auto
    with that up ro' Some show thesis by blast
  next
    case None
    with rest act obtain i st3 u3 st4 u4 where n: "newUUID st2 = Inr (i, st3)"
      and ins: "insertBinding (mkBinding i u1 rid stp (nullif sid) actor ex (clock st2)) st3 = Inr (u3, st4)"
      and au: "recordRoleBindingAuditTx actor ''grant_role'' u1 rid stp sid st4 = Inr (u4, st')"
      and eq: "uid = u1" "bid = i"
      by (auto simp: bindT_Inr_iff)
    from n obtain is' where st3: "st3 = st2\<lparr>ids := is'\<rparr>" by (auto simp: newUUID_Inr)
    from audit_effect [OF au] obtain i' au' where st': "st' = st4\<lparr>ids := i', bindAuditT := au'\<rparr>" by blast
    show thesis
      using ins None
      by (intro that [of st1 rid])
        (simp_all add: up eq ro' insertBinding_Inr st' st3 st2 us Let_def mkBinding_def, blast)
  qed
qed

lemma cacheUserLabel_frame:
  "\<exists>l. cacheUserLabel u n st = st\<lparr>labelsC := l\<rparr>"
  by (cases "trimSpace u = []") (auto simp: cacheUserLabel_def Let_def intro: exI [of _ "labelsC st"])

lemma cacheUserLabel_bindings [simp]: "bindingsT (cacheUserLabel u n st) = bindingsT st"
  by (simp add: cacheUserLabel_def Let_def)

lemma grantRole_effect:
  assumes "grantRole userId n e rc stp sid ex actor st = (Inr rb, st')"
  obtains uid bid st1 l where "grantRoleTx userId n e rc stp sid ex actor st = Inr ((uid, bid), st1)"
    "st' = st1\<lparr>labelsC := l\<rparr>"
proof -
  from assms obtain uid bid st1 where g: "grantRoleTx userId n e rc stp sid ex actor st = Inr ((uid, bid), st1)"
    and s: "st' = cacheUserLabel uid n st1"
    by (auto simp: grantRole_def runTx_def Let_def split: sum.splits prod.splits)
  with cacheUserLabel_frame [of uid n st1] that show thesis by auto
qed

section \<open>Granting\<close>

lemma scopeCond_self:
  assumes "bindingCheck b" "b_scopeType b = t" "b_scope b = nullif i" "trimSpace i = i"
  shows "scopeCond (mkScope t i) b"
proof -
  from assms have t: "t \<in> set [''global'', ''organization'', ''project'', ''environment'', ''folder'']"
    and s: "t = ''global'' \<and> nullif i = None \<or> t \<noteq> ''global'' \<and> nullif i \<noteq> None"
    by (auto simp only: bindingCheck_def scopeTypeCheck_def)
  from t have n: "normalizeScopeType t = t" "t \<noteq> []" by auto
  show ?thesis
  proof (cases "t = ''global''")
    case True
    with s assms(2,3) show ?thesis by (simp add: scopeCond_def mkScope_def)
  next
    case False
    with s have "i \<noteq> []" by (auto simp: nullif_def split: if_splits)
    with n assms(2-4) False show ?thesis by (simp add: scopeCond_def mkScope_def nullif_def)
  qed
qed

text \<open>C40. Granting takes effect. When \<open>GrantRole\<close> succeeds for an enabled (or new) user, with an
  expiry that is absent or in the future and no active binding of that role at that scope before, the
  authorizer allows the user every action the role's permission codes name, on every resource whose
  scope chain contains the granted scope.\<close>

theorem grant_gives_access:
  assumes "grantRole userId n e rc stp sid ex actor st = (Inr rb, st')"
    and "roleIdByCodeTx rc st = Inr (rid, st)" "code \<in> set (roleCodes st rid)"
    and "activeBindingId st (trimSpace userId) rid stp sid = None"
    and "case ex of None \<Rightarrow> True | Some t \<Rightarrow> clock st < t"
    and "\<forall>u \<in> set (usersT st). u_id u = trimSpace userId \<longrightarrow> \<not> u_disabled u"
    and "resourceScopes st r = Inr scopes" "mkScope stp sid \<in> set scopes" "trimSpace sid = sid"
    and "permissionCode a (res_type r) = code" "code \<noteq> []" "ui_id u = trimSpace userId"
  shows "storeAllow st' u a r = Inr ()"
proof -
  from grantRole_effect [OF assms(1)] obtain uid bid st1 l
    where g: "grantRoleTx userId n e rc stp sid ex actor st = Inr ((uid, bid), st1)"
      and st': "st' = st1\<lparr>labelsC := l\<rparr>" by metis
  obtain st0 rid'
    where up: "upsertUserByIdTx userId n e st = Inr (uid, st0)" and ro: "roleIdByCodeTx rc st = Inr (rid', st)"
      and c: "activeBindingId st uid rid' stp sid = Some bid \<and> st1 = st0 \<or>
        activeBindingId st uid rid' stp sid = None \<and>
        (\<exists>i au. let b = mkBinding bid uid rid' stp (nullif sid) actor ex (clock st) in
          bindingCheck b \<and> bid \<notin> set (map b_id (bindingsT st)) \<and>
          (b_scope b = None \<or> \<not> list_ex (\<lambda>x. \<not> b_deleted x \<and> sameBinding x b) (bindingsT st)) \<and>
          st1 = st0\<lparr>bindingsT := bindingsT st @ [b], ids := i, bindAuditT := au\<rparr>)"
    by (rule grantRoleTx_effect [OF g])
  from upsertUser_effect [OF up] obtain us where us: "uid = trimSpace userId" "uid \<noteq> []"
    "st0 = st\<lparr>usersT := us\<rparr>"
    "(\<forall>u \<in> set (usersT st). u_id u = uid \<longrightarrow> \<not> u_disabled u) \<Longrightarrow> userActive st0 uid" by metis
  have rid: "rid' = rid" using ro assms(2) by simp
  define b where "b = mkBinding bid uid rid stp (nullif sid) actor ex (clock st)"
  from c assms(4) obtain i au where chk: "bindingCheck b"
    and st1: "st1 = st0\<lparr>bindingsT := bindingsT st @ [b], ids := i, bindAuditT := au\<rparr>"
    by (auto simp: us(1) rid b_def Let_def)
  have same: "sameRbac st st'" by (simp add: sameRbac_def st' st1 us(3))
  have ua: "userActive st' uid"
    using us(4) assms(6) by (simp add: us(1) userActive_def st' st1)
  have rl: "roleLive st' rid" "roleCodes st' = roleCodes st"
    using roleIdByCode_live [OF assms(2)] roleCodes_cong [of st' st] roleLive_cong [of st' st] same
    unfolding sameRbac_def by auto
  have bf: "b_user b = uid" "b_role b = rid" "\<not> b_deleted b" "b_expires b = ex"
    by (simp_all add: b_def mkBinding_def)
  have "clock st' = clock st" using same by (simp add: sameRbac_def)
  then have "bindingActive st' b" using bf assms(5) by (simp add: bindingActive_def cong: option.case_cong)
  then have gc: "grantsCode st' uid code b"
    using ua rl bf assms(3) by (simp add: grantsCode_def)
  have "scopeCond (mkScope stp sid) b"
    by (rule scopeCond_self [OF chk]) (simp_all add: b_def mkBinding_def assms(9))
  moreover have "b \<in> set (bindingsT st')" by (simp add: st' st1)
  moreover have "resourceScopes st' r = Inr scopes"
    using resourceScopes_cong [of st' st] same assms(7) by (simp add: sameRbac_def)
  ultimately show ?thesis
    unfolding storeAllow_iff using gc assms(8,10-12) us(1,2) by auto
qed

theorem grant_gives_access_witness:
  "storeAllow (snd (grantRole ''dd'' ''n'' [] ''dev'' ''project'' ''p'' (Some 99) ''al'' demoStore))
     (demoUI ''dd'') ''secret:read'' (rsrc ''secret'' ''t'') = Inr ()"
proof -
  let ?g = "grantRole ''dd'' ''n'' [] ''dev'' ''project'' ''p'' (Some 99) ''al'' demoStore"
  let ?ss = "[globalScope, mkScope ''organization'' ''o'', mkScope ''project'' ''p'',
     mkScope ''environment'' ''e'', mkScope ''folder'' ''f'', mkScope ''folder'' ''g'']"
  have ok: "is_ok (fst ?g)" by code_simp
  then obtain rb where g: "?g = (Inr rb, snd ?g)" by (cases ?g) (auto simp: is_ok_iff)
  have ro: "roleIdByCodeTx ''dev'' demoStore = Inr (''r1'', demoStore)" by code_simp
  have c: "''secret:read'' \<in> set (roleCodes demoStore ''r1'')" by code_simp
  have act: "activeBindingId demoStore (trimSpace ''dd'') ''r1'' ''project'' ''p'' = None" by code_simp
  have ex: "case Some 99 of None \<Rightarrow> True | Some t \<Rightarrow> clock demoStore < t" by code_simp
  have us: "\<forall>u \<in> set (usersT demoStore). u_id u = trimSpace ''dd'' \<longrightarrow> \<not> u_disabled u" by code_simp
  have sc: "resourceScopes demoStore (rsrc ''secret'' ''t'') = Inr ?ss" by code_simp
  have mem: "mkScope ''project'' ''p'' \<in> set ?ss" by simp
  have tr: "trimSpace ''p'' = ''p''" by code_simp
  have pc: "permissionCode ''secret:read'' (res_type (rsrc ''secret'' ''t'')) = ''secret:read''" by code_simp
  have ui: "ui_id (demoUI ''dd'') = trimSpace ''dd''" by code_simp
  show ?thesis
    by (rule grant_gives_access [OF g ro c act ex us sc mem tr pc _ ui]) simp
qed

section \<open>Who is affected\<close>

lemma storeAllow_cong:
  assumes "sameRbac st st'" "userActive st' (ui_id u) = userActive st (ui_id u)"
    and "filter (\<lambda>b. b_user b = ui_id u) (bindingsT st') = filter (\<lambda>b. b_user b = ui_id u) (bindingsT st)"
  shows "storeAllow st' u a r = Inr () \<longleftrightarrow> storeAllow st u a r = Inr ()"
proof -
  have r: "resourceScopes st' = resourceScopes st"
    using assms(1) by (intro resourceScopes_cong) (simp_all add: sameRbac_def)
  have b: "b \<in> set (bindingsT st') \<and> grantsCode st' (ui_id u) c b \<longleftrightarrow>
           b \<in> set (bindingsT st) \<and> grantsCode st (ui_id u) c b" for b c
  proof -
    have "b \<in> set (bindingsT st') \<and> b_user b = ui_id u \<longleftrightarrow> b \<in> set (bindingsT st) \<and> b_user b = ui_id u"
      using arg_cong [OF assms(3), of set] by auto
    then show ?thesis
      using sameRbac_grants [OF assms(1,2)] by (auto simp: grantsCode_def)
  qed
  show ?thesis unfolding storeAllow_iff r using b by blast
qed

text \<open>Granting a role to one user leaves the decisions for every other user unchanged.\<close>

theorem grant_isolated:
  assumes "grantRole userId n e rc stp sid ex actor st = (Inr rb, st')" "ui_id u \<noteq> trimSpace userId"
  shows "storeAllow st' u a r = Inr () \<longleftrightarrow> storeAllow st u a r = Inr ()"
proof -
  obtain uid bid st1 l where g: "grantRoleTx userId n e rc stp sid ex actor st = Inr ((uid, bid), st1)"
    and st': "st' = st1\<lparr>labelsC := l\<rparr>" by (rule grantRole_effect [OF assms(1)])
  obtain st0 rid where up: "upsertUserByIdTx userId n e st = Inr (uid, st0)"
    and c: "activeBindingId st uid rid stp sid = Some bid \<and> st1 = st0 \<or>
        activeBindingId st uid rid stp sid = None \<and>
        (\<exists>i au. let b = mkBinding bid uid rid stp (nullif sid) actor ex (clock st) in
          bindingCheck b \<and> bid \<notin> set (map b_id (bindingsT st)) \<and>
          (b_scope b = None \<or> \<not> list_ex (\<lambda>x. \<not> b_deleted x \<and> sameBinding x b) (bindingsT st)) \<and>
          st1 = st0\<lparr>bindingsT := bindingsT st @ [b], ids := i, bindAuditT := au\<rparr>)"
    by (rule grantRoleTx_effect [OF g])
  obtain us where us: "uid = trimSpace userId" "st0 = st\<lparr>usersT := us\<rparr>"
    "\<And>x. x \<noteq> uid \<Longrightarrow> userActive st0 x = userActive st x"
    using upsertUser_effect [OF up] by metis
  have ne: "ui_id u \<noteq> uid" using us(1) assms(2) by simp
  have ua: "userActive st' (ui_id u) = userActive st0 (ui_id u)"
    using c by (auto simp: st' userActive_def Let_def)
  have f: "filter (\<lambda>b. b_user b = ui_id u) (bindingsT st') = filter (\<lambda>b. b_user b = ui_id u) (bindingsT st)"
    using c ne by (auto simp: st' us(2) Let_def mkBinding_def)
  have "sameRbac st st'" using c by (auto simp: st' us(2) Let_def sameRbac_def)
  then show ?thesis by (rule storeAllow_cong) (simp_all add: ua us(3) [OF ne] f)
qed

theorem grant_isolated_witness:
  "storeAllow (snd (grantRole ''dd'' ''n'' [] ''dev'' ''project'' ''p'' None ''al'' demoStore))
     (demoUI ''al'') ''secret:read'' (rsrc ''secret'' ''t'') = Inr ()"
proof -
  let ?g = "grantRole ''dd'' ''n'' [] ''dev'' ''project'' ''p'' None ''al'' demoStore"
  have "is_ok (fst ?g)" by code_simp
  then obtain rb where g: "?g = (Inr rb, snd ?g)" by (cases ?g) (auto simp: is_ok_iff)
  have ne: "ui_id (demoUI ''al'') \<noteq> trimSpace ''dd''" by code_simp
  have "storeAllow demoStore (demoUI ''al'') ''secret:read'' (rsrc ''secret'' ''t'') = Inr ()" by code_simp
  then show ?thesis using grant_isolated [OF g ne] by blast
qed

section \<open>Revoking\<close>

lemma revokeRole_effect:
  assumes "revokeRole uid rc stp sid actor st = (Inr x, st')"
  obtains b i au where "b \<in> set (bindingsT st)" "b_user b = uid" "b_scopeType b = stp" "b_scope b = nullif sid"
    "\<not> b_deleted b" "\<exists>r \<in> set (rolesT st). ro_id r = b_role b \<and> ro_code r = rc"
    "st' = st\<lparr>bindingsT := map (\<lambda>y. if b_id y = b_id b then y\<lparr>b_deleted := True\<rparr> else y) (bindingsT st),
              ids := i, bindAuditT := au\<rparr>"
proof -
  from assms have t: "revokeRoleTx uid rc stp sid actor st = Inr (x, st')"
    by (simp add: revokeRole_def runTx_Inr)
  let ?p = "\<lambda>b. b_user b = uid \<and> findUser uid st \<noteq> None \<and>
         list_ex (\<lambda>r. ro_id r = b_role b \<and> ro_code r = rc) (rolesT st) \<and>
         b_scopeType b = stp \<and> b_scope b = nullif sid \<and> \<not> b_deleted b"
  from t obtain b where f: "findFirst ?p (bindingsT st) = Some b"
    by (cases "findFirst ?p (bindingsT st)") (auto simp: revokeRoleTx_def bindT_Inr_iff simp del: findFirst_None)
  let ?st1 = "st\<lparr>bindingsT := map (\<lambda>y. if b_id y = b_id b then y\<lparr>b_deleted := True\<rparr> else y) (bindingsT st)\<rparr>"
  from t f have "recordRoleBindingAuditTx actor ''revoke_role'' (b_user b) (b_role b) stp sid ?st1 = Inr (x, st')"
    by (simp add: revokeRoleTx_def bindT_Inr_iff)
  from audit_effect [OF this] obtain i au where st': "st' = ?st1\<lparr>ids := i, bindAuditT := au\<rparr>" by blast
  from findFirst_Some [OF f] st' show thesis
    by (intro that) (auto simp: list_ex_iff)
qed

text \<open>Revoking only takes access away: whatever the authorizer allows to anyone after a successful
  \<open>RevokeRole\<close>, it already allowed before.\<close>

theorem revoke_monotone:
  assumes "revokeRole uid rc stp sid actor st = (Inr x, st')" "storeAllow st' u a r = Inr ()"
  shows "storeAllow st u a r = Inr ()"
proof -
  obtain b :: bindingRow and i au where st': "st' = st\<lparr>bindingsT := map (\<lambda>y. if b_id y = b_id b then y\<lparr>b_deleted := True\<rparr> else y)
      (bindingsT st), ids := i, bindAuditT := au\<rparr>"
    by (rule revokeRole_effect [OF assms(1)]) (erule that)
  have same: "sameRbac st st'" and ua: "userActive st' = userActive st"
    by (auto simp: sameRbac_def st' userActive_def)
  have sc: "resourceScopes st' = resourceScopes st"
    using same by (intro resourceScopes_cong) (simp_all add: sameRbac_def)
  from assms(2) obtain scopes y s where *: "trimSpace (ui_id u) \<noteq> []" "permissionCode a (res_type r) \<noteq> []"
    "resourceScopes st r = Inr scopes" "y \<in> set (bindingsT st')"
    "grantsCode st' (ui_id u) (permissionCode a (res_type r)) y" "s \<in> set scopes" "scopeCond s y"
    unfolding storeAllow_iff sc by blast
  have g: "grantsCode st (ui_id u) (permissionCode a (res_type r)) y"
    using *(5) sameRbac_grants [OF same] ua by simp
  then have "\<not> b_deleted y" by (simp add: grantsCode_def bindingActive_def)
  with *(4) have "y \<in> set (bindingsT st)" by (auto simp: st' split: if_splits)
  with * g show ?thesis unfolding storeAllow_iff by blast
qed

theorem revoke_monotone_witness:
  "storeAllow demoStore (demoUI ''al'') ''secret:read'' (rsrc ''secret'' ''t'') = Inr ()"
proof -
  let ?g = "revokeRole ''dis'' ''adm'' ''global'' [] ''al'' demoStore"
  have "is_ok (fst ?g)" by code_simp
  then obtain rb where g: "?g = (Inr rb, snd ?g)" by (cases ?g) (auto simp: is_ok_iff)
  have "storeAllow (snd ?g) (demoUI ''al'') ''secret:read'' (rsrc ''secret'' ''t'') = Inr ()" by code_simp
  then show ?thesis by (rule revoke_monotone [OF g])
qed

section \<open>Access flows down the resource tree\<close>

text \<open>Inheritance: a permission code held on a project is held on every environment, folder and
  secret whose live ancestor chain contains that project.\<close>

theorem permission_flows_down:
  assumes "storeAllow st u a \<lparr>res_type = ''project'', res_id = r_id p\<rparr> = Inr ()"
    and "CHR '':'' \<in> set (trimSpace a)"
    and "findSecret sid st = Some s" "liveFolder st (s_folder s) = Some (o', p, e, f)"
  shows "storeAllow st u a \<lparr>res_type = ''environment'', res_id = r_id e\<rparr> = Inr () \<and>
         storeAllow st u a \<lparr>res_type = ''folder'', res_id = r_id f\<rparr> = Inr () \<and>
         storeAllow st u a \<lparr>res_type = ''secret'', res_id = sid\<rparr> = Inr ()"
proof -
  from liveFolder_env [OF assms(4)] have e: "liveEnv st (r_parent f) = Some (o', p, e)"
    and f: "findRow Folders (s_folder s) st = Some f" by simp_all
  from liveEnv_project [OF e] have p: "liveProject st (r_parent e) = Some (o', p)" by simp
  have ids: "r_id p = r_parent e" "r_id e = r_parent f" "r_id f = s_folder s"
    using liveFolder_ids [OF assms(4)] by simp_all
  have ps: "resourceScopes st \<lparr>res_type = ''project'', res_id = r_id p\<rparr> =
      Inr [globalScope, mkScope ''organization'' (r_id o'), mkScope ''project'' (r_id p)]"
    using p ids by (simp add: projectScopes_def)
  have es: "resourceScopes st \<lparr>res_type = ''environment'', res_id = r_id e\<rparr> =
      Inr [globalScope, mkScope ''organization'' (r_id o'), mkScope ''project'' (r_id p),
        mkScope ''environment'' (r_id e)]"
    using e ids by (simp add: environmentScopes_def)
  have fs: "resourceScopes st \<lparr>res_type = ''folder'', res_id = r_id f\<rparr> = Inr (folderChain (o', p, e, f))"
    using assms(4) ids by (simp add: folderScopes_def)
  have ss: "resourceScopes st \<lparr>res_type = ''secret'', res_id = sid\<rparr> = Inr (folderChain (o', p, e, f))"
    using assms(3,4) by (simp add: secretScopes_def)
  have "trimSpace a \<noteq> []" using assms(2) by auto
  then have pc: "permissionCode a t = trimSpace a" for t
    using assms(2) by (rule permissionCode_colon)
  note down = rbac.allow_down [OF assms(1) [unfolded storeAllow_def] ps, folded storeAllow_def]
  have sub: "set [globalScope, mkScope ''organization'' (r_id o'), mkScope ''project'' (r_id p)] \<subseteq>
      set (folderChain (o', p, e, f))" by (auto simp: folderChain_def)
  show ?thesis
    by (intro conjI down [OF es] down [OF fs sub] down [OF ss sub]) (auto simp: pc)
qed

theorem permission_flows_down_witness:
  "storeAllow demoStore (demoUI ''al'') ''secret:read'' \<lparr>res_type = ''secret'', res_id = ''t''\<rparr> = Inr ()"
proof -
  let ?p = "demoRow ''p'' ''o'' ''prj'' None 1"
  have a: "storeAllow demoStore (demoUI ''al'') ''secret:read'' \<lparr>res_type = ''project'', res_id = r_id ?p\<rparr> = Inr ()"
    by code_simp
  have c: "CHR '':'' \<in> set (trimSpace ''secret:read'')" by code_simp
  have s: "findSecret ''t'' demoStore = Some (demoSecret ''t'' ''g'' ''L'')" by code_simp
  have l: "liveFolder demoStore (s_folder (demoSecret ''t'' ''g'' ''L'')) = Some (demoRow ''o'' [] ''org'' None 1, ?p,
     demoRow ''e'' ''p'' ''dev'' None 1, demoRow ''g'' ''e'' ''sub'' (Some ''f'') 2)" by code_simp
  show ?thesis using permission_flows_down [OF a c s l] by blast
qed

section \<open>The bindings table over every history\<close>

definition bindKey :: "bindingRow \<Rightarrow> str \<times> str \<times> str \<times> str option" where
  "bindKey b = (b_user b, b_role b, b_scopeType b, b_scope b)"

definition activeBindings :: "bindingRow list \<Rightarrow> bindingRow list" where
  "activeBindings bs = filter (\<lambda>b. \<not> b_deleted b) bs"

definition bindingsOk :: "store \<Rightarrow> bool" where
  "bindingsOk st \<longleftrightarrow> distinct (map b_id (bindingsT st)) \<and> list_all bindingCheck (bindingsT st) \<and>
     distinct (map bindKey (activeBindings (bindingsT st)))"

lemma bindingsOk_cong: "bindingsT st' = bindingsT st \<Longrightarrow> bindingsOk st' = bindingsOk st"
  by (simp add: bindingsOk_def)

lemma sameBinding_key: "sameBinding a b \<longleftrightarrow> bindKey a = bindKey b"
  by (auto simp: sameBinding_def bindKey_def)

lemma bindingsOk_append:
  assumes "bindingsOk st" "bindingCheck b" "b_id b \<notin> set (map b_id (bindingsT st))"
    and "\<not> list_ex (\<lambda>x. \<not> b_deleted x \<and> sameBinding x b) (bindingsT st)"
    and "bindingsT st' = bindingsT st @ [b]"
  shows "bindingsOk st'"
  using assms by (auto simp: bindingsOk_def activeBindings_def list_ex_iff sameBinding_key)

lemma bindingsOk_delete:
  assumes "bindingsOk st" "bindingsT st' = map (\<lambda>y. if b_id y = i then y\<lparr>b_deleted := True\<rparr> else y) (bindingsT st)"
  shows "bindingsOk st'"
proof -
  let ?f = "\<lambda>y. if b_id y = i then y\<lparr>b_deleted := True\<rparr> else y"
  have i: "map b_id (map ?f bs) = map b_id bs" for bs by (induction bs) auto
  have c: "list_all bindingCheck (map ?f bs) = list_all bindingCheck bs" for bs
    by (induction bs) (auto simp: bindingCheck_def)
  have a: "activeBindings (map ?f bs) = filter (\<lambda>b. b_id b \<noteq> i) (activeBindings bs)" for bs
    by (induction bs) (auto simp: activeBindings_def)
  show ?thesis
    using assms(1) unfolding bindingsOk_def assms(2) i c a by (simp add: distinct_map_filter)
qed

lemma upsert_bindings: "upsertUserByIdTx i n e st = Inr (uid, st1) \<Longrightarrow> bindingsT st1 = bindingsT st"
  by (erule upsertUser_effect) simp

lemma activeBindingId_None:
  assumes "activeBindingId st uid rid stp sid = None"
  shows "\<not> list_ex (\<lambda>x. \<not> b_deleted x \<and> b_user x = uid \<and> b_role x = rid \<and> b_scopeType x = stp \<and>
     b_scope x = nullif (trimSpace sid)) (bindingsT st)"
  using assms by (auto simp: activeBindingId_def list_ex_iff)

lemma grantRole_bindingsOk:
  assumes "bindingsOk st" "grantRole userId n e rc stp sid ex actor st = (r, st')"
  shows "bindingsOk st'"
proof (cases "runTx (grantRoleTx userId n e rc stp sid ex actor) st")
  case (Pair q st1)
  show ?thesis
  proof (cases q)
    case (Inl er)
    with Pair assms(2) have "st' = st" by (auto simp: grantRole_def dest: runTx_Inl)
    with assms(1) show ?thesis by simp
  next
    case (Inr ub)
    obtain uid bid where ub: "ub = (uid, bid)" by (cases ub)
    from Pair Inr ub have g: "grantRoleTx userId n e rc stp sid ex actor st = Inr ((uid, bid), st1)"
      by (simp add: runTx_Inr)
    from assms(2) Pair Inr ub have st': "st' = cacheUserLabel uid n st1"
      by (simp add: grantRole_def Let_def)
    have bst': "bindingsT st' = bindingsT st1" using st' by simp
    obtain st0 rid where up: "upsertUserByIdTx userId n e st = Inr (uid, st0)"
      and c: "activeBindingId st uid rid stp sid = Some bid \<and> st1 = st0 \<or>
        activeBindingId st uid rid stp sid = None \<and>
        (\<exists>i au. let b = mkBinding bid uid rid stp (nullif sid) actor ex (clock st) in
          bindingCheck b \<and> bid \<notin> set (map b_id (bindingsT st)) \<and>
          (b_scope b = None \<or> \<not> list_ex (\<lambda>x. \<not> b_deleted x \<and> sameBinding x b) (bindingsT st)) \<and>
          st1 = st0\<lparr>bindingsT := bindingsT st @ [b], ids := i, bindAuditT := au\<rparr>)"
      by (rule grantRoleTx_effect [OF g])
    from c show ?thesis
    proof (elim disjE conjE)
      assume "st1 = st0"
      then have "bindingsT st' = bindingsT st" using bst' upsert_bindings [OF up] by simp
      with assms(1) bindingsOk_cong show ?thesis by blast
    next
      let ?b = "mkBinding bid uid rid stp (nullif sid) actor ex (clock st)"
      assume none: "activeBindingId st uid rid stp sid = None"
        and "\<exists>i au. let b = ?b in bindingCheck b \<and> bid \<notin> set (map b_id (bindingsT st)) \<and>
          (b_scope b = None \<or> \<not> list_ex (\<lambda>x. \<not> b_deleted x \<and> sameBinding x b) (bindingsT st)) \<and>
          st1 = st0\<lparr>bindingsT := bindingsT st @ [b], ids := i, bindAuditT := au\<rparr>"
      then have chk: "bindingCheck ?b" "bid \<notin> set (map b_id (bindingsT st))"
        and u: "nullif sid = None \<or> \<not> list_ex (\<lambda>x. \<not> b_deleted x \<and> sameBinding x ?b) (bindingsT st)"
        and s1: "bindingsT st1 = bindingsT st @ [?b]"
        by (auto simp: Let_def mkBinding_def)
      have "\<not> list_ex (\<lambda>x. \<not> b_deleted x \<and> sameBinding x ?b) (bindingsT st)"
      proof (cases "nullif sid = None")
        case True
        then have "sid = []" by (auto simp: nullif_def split: if_splits)
        with activeBindingId_None [OF none] show ?thesis
          by (auto simp: list_ex_iff sameBinding_def mkBinding_def)
      next
        case False
        with u show ?thesis by simp
      qed
      then show ?thesis
        using chk s1 bst' by (intro bindingsOk_append [OF assms(1) chk(1)]) simp_all
    qed
  qed
qed

lemma revokeRole_bindingsOk:
  assumes "bindingsOk st" "revokeRole uid rc stp sid actor st = (r, st')"
  shows "bindingsOk st'"
proof (cases r)
  case (Inl e)
  with assms show ?thesis by (auto simp: revokeRole_def dest: runTx_Inl)
next
  case (Inr x)
  obtain b :: bindingRow and i au where "st' = st\<lparr>bindingsT := map (\<lambda>y. if b_id y = b_id b
      then y\<lparr>b_deleted := True\<rparr> else y) (bindingsT st), ids := i, bindAuditT := au\<rparr>"
    by (rule revokeRole_effect [OF assms(2) [unfolded Inr]]) (erule that)
  then show ?thesis by (intro bindingsOk_delete [OF assms(1), where i = "b_id b"]) simp
qed

text \<open>The other RBAC operations do not write bindings.\<close>

lemma preserves_bindings_writes [preserving]:
  "preserves (\<lambda>st. bindingsT st = bs) newUUID"
  "preserves (\<lambda>st. bindingsT st = bs) (insertRole r)"
  "preserves (\<lambda>st. bindingsT st = bs) (replaceRole r)"
  "preserves (\<lambda>st. bindingsT st = bs) (addRolePerm rid pid)"
  "preserves (\<lambda>st. bindingsT st = bs) (clearRolePerms rid)"
  by (auto simp: preserves_def newUUID_Inr insertRole_def replaceRole_def addRolePerm_def
      clearRolePerms_def split: if_splits)

lemma preserves_bindings_perm [preserving]: "preserves (\<lambda>st. bindingsT st = bs) (upsertPermissionTx p)"
  unfolding upsertPermissionTx_def
  by (intro preserving) (auto simp: preserves_def)

lemma createRole_bindings: "createRole c n d stp sid ps actor st = (r, st') \<Longrightarrow> bindingsT st' = bindingsT st"
  by (rule preserves_runTx [where P = "\<lambda>s. bindingsT s = bindingsT st", OF _ refl])
    (auto simp: createRole_def replaceRolePermissionsTx_def Let_def intro!: preserving)

lemma updateRole_bindings: "updateRole i c n d stp sid ps actor st = (r, st') \<Longrightarrow> bindingsT st' = bindingsT st"
  by (rule preserves_runTx [where P = "\<lambda>s. bindingsT s = bindingsT st", OF _ refl])
    (auto simp: updateRole_def replaceRolePermissionsTx_def Let_def intro!: preserving)

lemma ensureSystemData_bindings: "ensureSystemData st = (r, st') \<Longrightarrow> bindingsT st' = bindingsT st"
  by (rule preserves_runTx [where P = "\<lambda>s. bindingsT s = bindingsT st", OF _ refl])
    (auto simp: ensureSystemData_def ensureSystemDataTx_def ensureRoleTx_def upsertSystemRoleTx_def
      intro!: preserving)

lemma deleteRole_bindings: "deleteRole i actor st = (r, st') \<Longrightarrow> bindingsT st' = bindingsT st"
  by (auto simp: deleteRole_def split: if_splits)

lemma syncUser_bindings: "syncUser i n e st = (r, st') \<Longrightarrow> bindingsT st' = bindingsT st"
proof -
  assume a: "syncUser i n e st = (r, st')"
  obtain q st1 where q: "runTx (upsertUserByIdTx i n e) st = (q, st1)" by (cases "runTx (upsertUserByIdTx i n e) st")
  have b: "bindingsT st1 = bindingsT st"
    using q by (cases q) (auto dest: runTx_Inl simp: runTx_Inr upsert_bindings)
  from a q b show ?thesis
    by (cases q; cases "getUserById st1 i") (auto simp: syncUser_def)
qed

lemma bootstrap_bindingsOk:
  assumes "bindingsOk st" "ensureBootstrapAdmin userId n st = (r, st')"
  shows "bindingsOk st'"
proof (cases "trimSpace userId = []")
  case True
  with assms show ?thesis by (simp add: ensureBootstrapAdmin_def)
next
  case False
  define m where "m = bindT (upsertUserByIdTx userId n []) (\<lambda>uid. bindT (roleIdByCodeTx ''platform_admin'') (\<lambda>rid.
             bindT getT (\<lambda>st. case activeBindingId st uid rid ''global'' [] of
               Some _ \<Rightarrow> retT uid
             | None \<Rightarrow> bindT newUUID (\<lambda>i.
                 bindT (insertBinding (mkBinding i uid rid ''global'' None ''bootstrap'' None (clock st))) (\<lambda>_.
                 retT uid)))))"
  obtain q st1 where q: "runTx m st = (q, st1)" by (cases "runTx m st")
  have "bindingsOk st1"
  proof (cases q)
    case (Inl e)
    with q assms(1) show ?thesis by (auto dest: runTx_Inl)
  next
    case (Inr x)
    with q have "m st = Inr (x, st1)" by (simp add: runTx_Inr)
    then obtain uid sa rid sb where up: "upsertUserByIdTx userId n [] st = Inr (uid, sa)"
      and ro: "roleIdByCodeTx ''platform_admin'' sa = Inr (rid, sb)"
      and rest: "(case activeBindingId sb uid rid ''global'' [] of
               Some _ \<Rightarrow> retT uid
             | None \<Rightarrow> bindT newUUID (\<lambda>i.
                 bindT (insertBinding (mkBinding i uid rid ''global'' None ''bootstrap'' None (clock sb))) (\<lambda>_.
                 retT uid))) sb = Inr (x, st1)"
      by (auto simp: m_def bindT_Inr_iff)
    have sb: "bindingsT sb = bindingsT st" using upsert_bindings [OF up] roleIdByCode_state [OF ro] by simp
    have ok: "bindingsOk sb" using assms(1) bindingsOk_cong [OF sb] by simp
    show ?thesis
    proof (cases "activeBindingId sb uid rid ''global'' []")
      case (Some y)
      with rest ok show ?thesis by simp
    next
      case None
      with rest obtain i is' where *: "bindingCheck (mkBinding i uid rid ''global'' None ''bootstrap'' None (clock sb))"
        "i \<notin> set (map b_id (bindingsT sb))"
        "bindingsT st1 = bindingsT sb @ [mkBinding i uid rid ''global'' None ''bootstrap'' None (clock sb)]"
        by (auto simp: bindT_Inr_iff newUUID_Inr insertBinding_Inr mkBinding_def)
      from activeBindingId_None [OF None]
      have "\<not> list_ex (\<lambda>x. \<not> b_deleted x \<and> sameBinding x
          (mkBinding i uid rid ''global'' None ''bootstrap'' None (clock sb))) (bindingsT sb)"
        by (auto simp: list_ex_iff sameBinding_def mkBinding_def nullif_def)
      with ok * show ?thesis by (intro bindingsOk_append [of sb _ st1]) (auto simp: mkBinding_def)
    qed
  qed
  moreover have "bindingsT st' = bindingsT st1"
    using assms(2) False q
    by (cases q) (auto simp: ensureBootstrapAdmin_def m_def [symmetric])
  ultimately show ?thesis using bindingsOk_cong by blast
qed

inductive rbac_step :: "store \<Rightarrow> store \<Rightarrow> bool" where
  grant: "grantRole userId n e rc stp sid ex actor st = (r, st') \<Longrightarrow> rbac_step st st'"
| revoke: "revokeRole uid rc stp sid actor st = (r', st') \<Longrightarrow> rbac_step st st'"
| bootstrap: "ensureBootstrapAdmin userId n st = (r', st') \<Longrightarrow> rbac_step st st'"
| system: "ensureSystemData st = (r', st') \<Longrightarrow> rbac_step st st'"
| sync: "syncUser i n e st = (r'', st') \<Longrightarrow> rbac_step st st'"
| create: "createRole c n d stp sid ps actor st = (rv, st') \<Longrightarrow> rbac_step st st'"
| update: "updateRole i c n d stp sid ps actor st = (rv, st') \<Longrightarrow> rbac_step st st'"
| delete: "deleteRole i actor st = (r', st') \<Longrightarrow> rbac_step st st'"
| tick: "rbac_step st (st\<lparr>clock := clock st + k\<rparr>)"
| draw: "rbac_step st (st\<lparr>ids := l\<rparr>)"

lemma rbac_step_bindingsOk: "rbac_step st st' \<Longrightarrow> bindingsOk st \<Longrightarrow> bindingsOk st'"
proof (induction rule: rbac_step.induct)
  case (grant userId n e rc stp sid ex actor st r st')
  then show ?case by (blast intro: grantRole_bindingsOk)
next
  case (revoke uid rc stp sid actor st r' st')
  then show ?case by (blast intro: revokeRole_bindingsOk)
next
  case (bootstrap userId n st r' st')
  then show ?case by (blast intro: bootstrap_bindingsOk)
qed (auto dest!: ensureSystemData_bindings syncUser_bindings createRole_bindings updateRole_bindings
      deleteRole_bindings bindingsOk_cong simp: bindingsOk_def)

text \<open>C16. Over every history of RBAC operations from the empty store, in any order and with any results,
  the bindings table stays well formed: identifiers are unique, a global binding has no scope id and every
  other one has, and no user holds the same role twice at the same scope, not even at the global scope,
  where the database's unique index does not see NULL scope ids.\<close>

theorem bindings_reachable:
  assumes "rtranclp rbac_step emptyStore st"
  shows "distinct (map b_id (bindingsT st)) \<and> list_all bindingCheck (bindingsT st) \<and>
         distinct (map bindKey (activeBindings (bindingsT st)))"
proof -
  have "bindingsOk st"
    using assms
  proof (induction rule: rtranclp_induct)
    case base
    show ?case by (simp add: bindingsOk_def emptyStore_def activeBindings_def)
  next
    case (step y z)
    then show ?case by (blast intro: rbac_step_bindingsOk)
  qed
  then show ?thesis by (simp add: bindingsOk_def)
qed

text \<open>A role is created, the administrator is bootstrapped twice, and a colleague is granted the role at a project.\<close>

definition roleHistory :: store where
  "roleHistory = snd (createRole ''platform_admin'' ''Admin'' [] ''global'' [] [] ''x''
     (emptyStore\<lparr>ids := [''i1'', ''i2'', ''i3'', ''i4'']\<rparr>))"

definition bindingHistory :: store where
  "bindingHistory = snd (grantRole ''cy'' ''Cy'' [] ''platform_admin'' ''project'' ''p'' None ''root''
     (snd (ensureBootstrapAdmin ''root'' ''R'' (snd (ensureBootstrapAdmin ''root'' ''R'' roleHistory)))))"

theorem bindings_reachable_witness:
  "map (\<lambda>b. (b_user b, b_scopeType b, b_scope b)) (bindingsT bindingHistory) =
     [(''root'', ''global'', None), (''cy'', ''project'', Some ''p'')] \<and>
   distinct (map b_id (bindingsT bindingHistory)) \<and> list_all bindingCheck (bindingsT bindingHistory) \<and>
   distinct (map bindKey (activeBindings (bindingsT bindingHistory)))"
proof -
  have "rbac_step emptyStore (emptyStore\<lparr>ids := [''i1'', ''i2'', ''i3'', ''i4'']\<rparr>)" by (rule rbac_step.draw)
  moreover have "rbac_step (emptyStore\<lparr>ids := [''i1'', ''i2'', ''i3'', ''i4'']\<rparr>) roleHistory"
    unfolding roleHistory_def by (rule rbac_step.create) (rule surjective_pairing)
  moreover have "rbac_step st (snd (ensureBootstrapAdmin ''root'' ''R'' st))" for st
    by (rule rbac_step.bootstrap) (rule surjective_pairing)
  moreover have "rbac_step st (snd (grantRole ''cy'' ''Cy'' [] ''platform_admin'' ''project'' ''p'' None ''root'' st))" for st
    by (rule rbac_step.grant) (rule surjective_pairing)
  ultimately have "rtranclp rbac_step emptyStore bindingHistory"
    unfolding bindingHistory_def by (meson rtranclp.rtrancl_into_rtrancl rtranclp.rtrancl_refl)
  moreover have "map (\<lambda>b. (b_user b, b_scopeType b, b_scope b)) (bindingsT bindingHistory) =
     [(''root'', ''global'', None), (''cy'', ''project'', Some ''p'')]" by code_simp
  ultimately show ?thesis using bindings_reachable [of bindingHistory] by blast
qed

section \<open>Where the code is surprising\<close>

text \<open>Granting again does not renew: when an active (not deleted) binding for the same user, role and
  scope exists, even one that has expired, \<open>GrantRole\<close> leaves the bindings table as it is. A requested new
  expiry is ignored, so an expired grant can only be renewed after a revoke.\<close>

theorem grant_keeps_existing:
  assumes "grantRole userId n e rc stp sid ex actor st = (Inr rb, st')"
    and "roleIdByCodeTx rc st = Inr (rid, st)"
    and "activeBindingId st (trimSpace userId) rid stp sid = Some bid"
  shows "bindingsT st' = bindingsT st"
proof -
  obtain uid bid' st1 l where g: "grantRoleTx userId n e rc stp sid ex actor st = Inr ((uid, bid'), st1)"
    and st': "st' = st1\<lparr>labelsC := l\<rparr>" by (rule grantRole_effect [OF assms(1)])
  obtain st0 rid' where up: "upsertUserByIdTx userId n e st = Inr (uid, st0)"
    and ro: "roleIdByCodeTx rc st = Inr (rid', st)"
    and c: "activeBindingId st uid rid' stp sid = Some bid' \<and> st1 = st0 \<or>
        activeBindingId st uid rid' stp sid = None \<and>
        (\<exists>i au. let b = mkBinding bid' uid rid' stp (nullif sid) actor ex (clock st) in
          bindingCheck b \<and> bid' \<notin> set (map b_id (bindingsT st)) \<and>
          (b_scope b = None \<or> \<not> list_ex (\<lambda>x. \<not> b_deleted x \<and> sameBinding x b) (bindingsT st)) \<and>
          st1 = st0\<lparr>bindingsT := bindingsT st @ [b], ids := i, bindAuditT := au\<rparr>)"
    by (rule grantRoleTx_effect [OF g])
  have "uid = trimSpace userId" using upsertUser_effect [OF up] by metis
  with c ro assms(2,3) have "st1 = st0" by simp
  then show ?thesis using upsert_bindings [OF up] by (simp add: st')
qed

theorem grant_keeps_existing_witness:
  "bindingsT (snd (grantRole ''cy'' ''n'' [] ''dev'' ''project'' ''p'' (Some 99) ''al'' demoStore)) = bindingsT demoStore \<and>
   storeAllow (snd (grantRole ''cy'' ''n'' [] ''dev'' ''project'' ''p'' (Some 99) ''al'' demoStore))
     (demoUI ''cy'') ''secret:read'' (rsrc ''secret'' ''t'') = Inl ErrPermissionDenied"
proof -
  let ?g = "grantRole ''cy'' ''n'' [] ''dev'' ''project'' ''p'' (Some 99) ''al'' demoStore"
  have "is_ok (fst ?g)" by code_simp
  then obtain rb where g: "?g = (Inr rb, snd ?g)" by (cases ?g) (auto simp: is_ok_iff)
  have r: "roleIdByCodeTx ''dev'' demoStore = Inr (''r1'', demoStore)" by code_simp
  have a: "activeBindingId demoStore (trimSpace ''cy'') ''r1'' ''project'' ''p'' = Some ''b3''" by code_simp
  have "storeAllow (snd ?g) (demoUI ''cy'') ''secret:read'' (rsrc ''secret'' ''t'') = Inl ErrPermissionDenied"
    by code_simp
  with grant_keeps_existing [OF g r a] show ?thesis by blast
qed

text \<open>The two permission checks differ on disabled users: \<open>Allow\<close> refuses a disabled user everything,
  while \<open>UserHasPermissionAnywhere\<close>, the gate of the user listing, does not look at \<open>is_disabled\<close> and lets
  such a user through on any live binding.\<close>

theorem disabled_user_divergence:
  assumes "\<not> userActive st (ui_id u)"
  shows "storeAllow st u a r \<noteq> Inr () \<and>
    (userHasPermissionAnywhere st (ui_id u) code \<longleftrightarrow>
       trimSpace (ui_id u) \<noteq> [] \<and> trimSpace code \<noteq> [] \<and>
       (\<exists>b \<in> set (bindingsT st). b_user b = ui_id u \<and> bindingActive st b \<and> roleLive st (b_role b) \<and>
          code \<in> set (roleCodes st (b_role b))))"
  using assms by (auto simp: storeAllow_iff grantsCode_def userHasPermissionAnywhere_def list_ex_iff)

theorem disabled_user_divergence_witness:
  "storeAllow demoStore (demoUI ''dis'') ''rbac:role:manage'' (rsrc ''global'' []) \<noteq> Inr () \<and>
   userHasPermissionAnywhere demoStore (ui_id (demoUI ''dis'')) ''rbac:role:manage''"
proof -
  have n: "\<not> userActive demoStore (ui_id (demoUI ''dis''))" by code_simp
  have "userHasPermissionAnywhere demoStore (ui_id (demoUI ''dis'')) ''rbac:role:manage''" by code_simp
  with disabled_user_divergence [OF n] show ?thesis by blast
qed

section \<open>The system roles\<close>

definition roleNamed :: "str \<Rightarrow> str list" where
  "roleNamed c = concat (map sr_permissions (filter (\<lambda>r. sr_code r = c) defaultRoles))"

text \<open>The system data is consistent: role and permission codes are unique, every role's permissions
  exist (so start-up never fails with "unknown permission code"), every role has a scope type that the
  schema accepts, only the two full roles can force-delete an organization, roles that may reveal secrets
  are exactly the admin, owner, developer and editor roles, and each viewer role is contained in the
  developer or editor role and that in the admin role of its level.\<close>

theorem default_roles_consistent:
  "distinct (map sp_code defaultPermissions) \<and> distinct (map sr_code defaultRoles) \<and>
   list_all (\<lambda>r. list_all (\<lambda>c. c \<in> set (permissionCodes defaultPermissions)) (sr_permissions r) \<and>
     scopeTypeCheck (sr_scopeType r)) defaultRoles \<and>
   map sr_code (filter (\<lambda>r. ''org:force_delete'' \<in> set (sr_permissions r)) defaultRoles) =
     [''platform_admin'', ''org_owner''] \<and>
   map sr_code (filter (\<lambda>r. ''secret:reveal'' \<in> set (sr_permissions r)) defaultRoles) =
     [''platform_admin'', ''org_owner'', ''org_admin'', ''project_admin'', ''project_developer'',
      ''environment_admin'', ''environment_developer'', ''folder_admin'', ''folder_editor''] \<and>
   set (roleNamed ''folder_viewer'') \<subseteq> set (roleNamed ''folder_editor'') \<and>
   set (roleNamed ''folder_editor'') \<subseteq> set (roleNamed ''folder_admin'') \<and>
   set (roleNamed ''environment_viewer'') \<subseteq> set (roleNamed ''environment_developer'') \<and>
   set (roleNamed ''environment_developer'') \<subseteq> set (roleNamed ''environment_admin'') \<and>
   set (roleNamed ''project_viewer'') \<subseteq> set (roleNamed ''project_developer'') \<and>
   set (roleNamed ''project_developer'') \<subseteq> set (roleNamed ''project_admin'')"
  by code_simp

end
