(* ===== verification/RepoProps.thy ===== *)
theory RepoProps
  imports Repository RbacProps
begin

text \<open>
  Correctness of the entity repository: what the cascading deletes remove and report, the tree
  invariant, all-or-nothing batches, and the immutability of codes.
\<close>

section \<open>Effects of the building blocks\<close>

lemma setTbl_simps [simp]:
  "tbl (st\<lparr>ids := a\<rparr>) = tbl st" "setTbl t (tbl st t) st = st"
  by (simp_all add: setTbl_def)

lemma softDeleteRows_Inr:
  "softDeleteRows t P actor st = Inr (r, st') \<longleftrightarrow>
     r = map r_id (filter (\<lambda>x. P x \<and> \<not> r_deleted x) (tbl st t)) \<and>
     st' = setTbl t (map (\<lambda>x. if P x \<and> \<not> r_deleted x then markDeleted actor (clock st) x else x) (tbl st t)) st"
  by (auto simp: softDeleteRows_def)

lemma softDeleteSecrets_Inr:
  "softDeleteSecrets P actor st = Inr (r, st') \<longleftrightarrow>
     r = map s_id (filter (\<lambda>x. P x \<and> \<not> s_deleted x) (secretsT st)) \<and>
     st' = st\<lparr>secretsT := map (\<lambda>x. if P x \<and> \<not> s_deleted x then markSecretDeleted actor (clock st) x else x)
       (secretsT st)\<rparr>"
  by (auto simp: softDeleteSecrets_def)

lemma recordAudit_Inr:
  "recordAuditTx actor ty i act v st = Inr (u, st') \<longleftrightarrow>
     (\<exists>a rest. ids st = a # rest \<and> a \<notin> set (map a_id (auditT st)) \<and>
        st' = st\<lparr>ids := rest, auditT := auditT st @ [\<lparr> a_id = a, a_actor = actor, a_type = ty, a_resource = i,
          a_action = act, a_payload = v, a_createdAt = clock st \<rparr>]\<rparr>)"
  by (cases "ids st") (auto simp: recordAuditTx_def bindT_def newUUID_def)

lemma recordAudit_frame:
  assumes "recordAuditTx actor ty i act v st = Inr (u, st')"
  shows "tbl st' = tbl st" "secretsT st' = secretsT st" "clock st' = clock st" "deletedT st' = deletedT st"
    "labelsC st' = labelsC st" "sameRbac st st'"
  using assms by (auto simp: recordAudit_Inr sameRbac_def)

definition softMarked :: "(row \<Rightarrow> bool) \<Rightarrow> str \<Rightarrow> nat \<Rightarrow> row list \<Rightarrow> row list" where
  "softMarked P actor now rs = map (\<lambda>x. if P x \<and> \<not> r_deleted x then markDeleted actor now x else x) rs"

definition softMarkedSecrets :: "(secretRow \<Rightarrow> bool) \<Rightarrow> str \<Rightarrow> nat \<Rightarrow> secretRow list \<Rightarrow> secretRow list" where
  "softMarkedSecrets P actor now ss = map (\<lambda>x. if P x \<and> \<not> s_deleted x then markSecretDeleted actor now x else x) ss"

definition liveIds :: "(row \<Rightarrow> bool) \<Rightarrow> row list \<Rightarrow> str list" where
  "liveIds P rs = map r_id (filter (\<lambda>x. P x \<and> \<not> r_deleted x) rs)"

definition liveSecretIds :: "(secretRow \<Rightarrow> bool) \<Rightarrow> secretRow list \<Rightarrow> str list" where
  "liveSecretIds P ss = map s_id (filter (\<lambda>x. P x \<and> \<not> s_deleted x) ss)"

lemma softMarked_ids [simp]: "map r_id (softMarked P a n rs) = map r_id rs"
  by (simp add: softMarked_def markDeleted_def)

lemma softMarked_parents:
  "map r_id (filter (\<lambda>r. Q (r_parent r)) (softMarked P a n rs)) = map r_id (filter (\<lambda>r. Q (r_parent r)) rs)"
  by (induction rs) (auto simp: softMarked_def markDeleted_def)

lemma snapshot_effect:
  assumes "snapshotAndSoftDeleteTx t i actor ty st = Inr (u, st')"
  obtains r where "findRow t i st = Some r"
    "tbl st' = (tbl st)(t := softMarked (\<lambda>x. r_id x = i) actor (clock st) (tbl st t))"
    "secretsT st' = secretsT st" "clock st' = clock st"
    "\<exists>d. deletedT st' = deletedT st @ [d] \<and> d_resource d = i \<and> d_type d = ty \<and> d_snapshot d = RowSnapshot r"
    "\<exists>a. auditT st' = auditT st @ [a] \<and> a_resource a = i \<and> a_action a = ''delete'' \<and> a_actor a = actor"
proof -
  from assms obtain r where f: "findRow t i st = Some r"
    by (cases "findRow t i st") (auto simp: snapshotAndSoftDeleteTx_def bindT_Inr_iff)
  from assms f obtain st1 x st2 where ins: "insertDeletedRecord ty i (RowSnapshot r) actor st = Inr ((), st1)"
    and del: "softDeleteRows t (\<lambda>x. r_id x = i) actor st1 = Inr (x, st2)"
    and aud: "recordAuditTx actor ty i ''delete'' (RowSnapshot r) st2 = Inr (u, st')"
    by (auto simp: snapshotAndSoftDeleteTx_def bindT_Inr_iff split: if_splits)
  from ins obtain d is' where st1: "st1 = st\<lparr>ids := is', deletedT := deletedT st @ [d]\<rparr>"
    "d_resource d = i" "d_type d = ty" "d_snapshot d = RowSnapshot r"
    by (auto simp: insertDeletedRecord_def bindT_Inr_iff newUUID_Inr split: if_splits)
  from del have st2: "st2 = setTbl t (softMarked (\<lambda>x. r_id x = i) actor (clock st) (tbl st t)) st1"
    by (simp add: softDeleteRows_Inr softMarked_def st1 cong: if_cong)
  from aud obtain a as where st': "st' = st2\<lparr>ids := as, auditT := auditT st2 @ [a]\<rparr>"
    "a_resource a = i" "a_action a = ''delete''" "a_actor a = actor"
    by (auto simp: recordAudit_Inr)
  show thesis
    by (rule that [OF f]) (use st' st2 st1 in \<open>auto simp: setTbl_def\<close>)
qed

lemma idsUnder_marked: "tbl st' t = softMarked P a n (tbl st t) \<Longrightarrow> idsUnder t Q st' = idsUnder t Q st"
  by (simp add: idsUnder_def softMarked_parents)

lemma idsUnder_same: "tbl st' t = tbl st t \<Longrightarrow> idsUnder t Q st' = idsUnder t Q st"
  by (simp add: idsUnder_def)

section \<open>Cascading deletes\<close>

abbreviation envOfOrg :: "store \<Rightarrow> str \<Rightarrow> row \<Rightarrow> bool" where
  "envOfOrg st i \<equiv> \<lambda>e. r_parent e \<in> set (projectIdsOfOrg st i)"

abbreviation folderOfOrg :: "store \<Rightarrow> str \<Rightarrow> row \<Rightarrow> bool" where
  "folderOfOrg st i \<equiv> \<lambda>f. r_parent f \<in> set (envIdsOfProjects st (projectIdsOfOrg st i))"

abbreviation secretOfOrg :: "store \<Rightarrow> str \<Rightarrow> secretRow \<Rightarrow> bool" where
  "secretOfOrg st i \<equiv> \<lambda>s. s_folder s \<in> set (folderIdsOfEnvs st (envIdsOfProjects st (projectIdsOfOrg st i)))"

lemma deleteOrganization_effect:
  assumes "deleteOrganization i actor force st = (Inr sc, st')"
  shows "tbl st' Organizations = softMarked (\<lambda>x. r_id x = i) actor (clock st) (tbl st Organizations) \<and>
    tbl st' Projects = softMarked (\<lambda>x. r_parent x = i) actor (clock st) (tbl st Projects) \<and>
    tbl st' Environments = softMarked (envOfOrg st i) actor (clock st) (tbl st Environments) \<and>
    tbl st' Folders = softMarked (folderOfOrg st i) actor (clock st) (tbl st Folders) \<and>
    secretsT st' = softMarkedSecrets (secretOfOrg st i) actor (clock st) (secretsT st) \<and>
    tbl st' EnvironmentTemplates = tbl st EnvironmentTemplates \<and>
    cs_projects sc = liveIds (\<lambda>x. r_parent x = i) (tbl st Projects) \<and>
    cs_envs sc = liveIds (envOfOrg st i) (tbl st Environments) \<and>
    cs_folders sc = liveIds (folderOfOrg st i) (tbl st Folders) \<and>
    cs_secrets sc = liveSecretIds (secretOfOrg st i) (secretsT st)"
proof -
  from assms have "deleteOrganizationTx i actor st = Inr (sc, st')"
    by (auto simp: deleteOrganization_def runTx_Inr split: if_splits)
  then obtain u s1 ps s2 es s3 fs s4 ss s5 where
    1: "snapshotAndSoftDeleteTx Organizations i actor ''organization'' st = Inr (u, s1)" and
    2: "softDeleteByParentTx Projects i actor s1 = Inr (ps, s2)" and
    3: "softDeleteEnvUnderOrgTx i actor s2 = Inr (es, s3)" and
    4: "softDeleteFolderUnderOrgTx i actor s3 = Inr (fs, s4)" and
    5: "softDeleteSecretUnderOrgTx i actor s4 = Inr (ss, s5)" and
    6: "sc = \<lparr> cs_org = i, cs_projects = ps, cs_envs = es, cs_folders = fs, cs_secrets = ss \<rparr>" "st' = s5"
    by (auto simp: deleteOrganizationTx_def bindT_Inr_iff)
  obtain r where s1: "tbl s1 = (tbl st)(Organizations := softMarked (\<lambda>x. r_id x = i) actor (clock st) (tbl st Organizations))"
    "secretsT s1 = secretsT st" "clock s1 = clock st" by (rule snapshot_effect [OF 1]) (erule that)
  from 2 have s2: "ps = liveIds (\<lambda>x. r_parent x = i) (tbl st Projects)"
    "tbl s2 = (tbl s1)(Projects := softMarked (\<lambda>x. r_parent x = i) actor (clock st) (tbl st Projects))"
    "secretsT s2 = secretsT st" "clock s2 = clock st"
    by (auto simp: softDeleteByParentTx_def softDeleteRows_Inr liveIds_def softMarked_def s1 setTbl_def)
  have p: "projectIdsOfOrg s2 j = projectIdsOfOrg st j" for j
    unfolding projectIdsOfOrg_def by (rule idsUnder_marked) (simp add: s2 s1)
  from 3 have s3: "es = liveIds (envOfOrg st i) (tbl st Environments)"
    "tbl s3 = (tbl s2)(Environments := softMarked (envOfOrg st i) actor (clock st) (tbl st Environments))"
    "secretsT s3 = secretsT st" "clock s3 = clock st"
    by (auto simp: softDeleteEnvUnderOrgTx_def bindT_Inr_iff softDeleteRows_Inr liveIds_def softMarked_def s1 s2 p setTbl_def)
  have p3: "projectIdsOfOrg s3 j = projectIdsOfOrg st j" for j
    using p [of j] by (simp add: projectIdsOfOrg_def s3 idsUnder_def)
  have e: "envIdsOfProjects s3 xs = envIdsOfProjects st xs" for xs
    unfolding envIdsOfProjects_def by (rule idsUnder_marked) (simp add: s3 s2 s1)
  from 4 have s4: "fs = liveIds (folderOfOrg st i) (tbl st Folders)"
    "tbl s4 = (tbl s3)(Folders := softMarked (folderOfOrg st i) actor (clock st) (tbl st Folders))"
    "secretsT s4 = secretsT st" "clock s4 = clock st"
    by (auto simp: softDeleteFolderUnderOrgTx_def bindT_Inr_iff softDeleteRows_Inr liveIds_def softMarked_def
        s1 s2 s3 p3 e setTbl_def)
  have p4: "projectIdsOfOrg s4 j = projectIdsOfOrg st j" for j
    using p3 [of j] by (simp add: projectIdsOfOrg_def s4 idsUnder_def)
  have e4: "envIdsOfProjects s4 xs = envIdsOfProjects st xs" for xs
    using e [of xs] by (simp add: envIdsOfProjects_def s4 idsUnder_def)
  have f: "folderIdsOfEnvs s4 xs = folderIdsOfEnvs st xs" for xs
    unfolding folderIdsOfEnvs_def by (rule idsUnder_marked) (simp add: s4 s3 s2 s1)
  from 5 have s5: "ss = liveSecretIds (secretOfOrg st i) (secretsT st)" "tbl s5 = tbl s4"
    "secretsT s5 = softMarkedSecrets (secretOfOrg st i) actor (clock st) (secretsT st)"
    by (auto simp: softDeleteSecretUnderOrgTx_def bindT_Inr_iff softDeleteSecrets_Inr liveSecretIds_def
        softMarkedSecrets_def s4 p4 e4 f)
  show ?thesis by (simp add: 6 s1 s2 s3 s4 s5)
qed

text \<open>C3. The organization cascade is exact. When \<open>DeleteOrganization\<close> succeeds, it soft-deletes the
  organization and exactly the live projects, environments, folders and secrets below it, at every level
  and whatever the parents' own state, and touches no other row; the \<open>CascadeScope\<close> it returns lists exactly
  the identifiers of the rows it deleted, which is what the cache invalidation relies on.\<close>

theorem deleteOrganization_cascade:
  assumes "deleteOrganization i actor force st = (Inr sc, st')"
  shows "tbl st' Organizations = softMarked (\<lambda>x. r_id x = i) actor (clock st) (tbl st Organizations) \<and>
    tbl st' Projects = softMarked (\<lambda>x. r_parent x = i) actor (clock st) (tbl st Projects) \<and>
    tbl st' Environments = softMarked (envOfOrg st i) actor (clock st) (tbl st Environments) \<and>
    tbl st' Folders = softMarked (folderOfOrg st i) actor (clock st) (tbl st Folders) \<and>
    secretsT st' = softMarkedSecrets (secretOfOrg st i) actor (clock st) (secretsT st) \<and>
    tbl st' EnvironmentTemplates = tbl st EnvironmentTemplates \<and>
    cs_projects sc = liveIds (\<lambda>x. r_parent x = i) (tbl st Projects) \<and>
    cs_envs sc = liveIds (envOfOrg st i) (tbl st Environments) \<and>
    cs_folders sc = liveIds (folderOfOrg st i) (tbl st Folders) \<and>
    cs_secrets sc = liveSecretIds (secretOfOrg st i) (secretsT st)"
  by (rule deleteOrganization_effect [OF assms])

theorem deleteOrganization_cascade_witness:
  "cs_secrets (projr (fst (deleteOrganization ''o'' ''al'' True demoStore))) = [''s'', ''t''] \<and>
   tbl (snd (deleteOrganization ''o'' ''al'' True demoStore)) Folders =
     softMarked (folderOfOrg demoStore ''o'') ''al'' 10 (tbl demoStore Folders)"
proof -
  let ?g = "deleteOrganization ''o'' ''al'' True demoStore"
  have "is_ok (fst ?g)" by code_simp
  then obtain sc where g: "?g = (Inr sc, snd ?g)" by (cases ?g) (auto simp: is_ok_iff)
  note d = deleteOrganization_cascade [OF g]
  have c: "clock demoStore = 10" by code_simp
  have l: "liveSecretIds (secretOfOrg demoStore ''o'') (secretsT demoStore) = [''s'', ''t'']" by code_simp
  have "projr (fst ?g) = sc" using g by (metis fst_conv sum.sel(2))
  with d c l show ?thesis by simp
qed

text \<open>The cascades of a project and of an environment, in the same form.\<close>

lemma deleteProject_effect:
  assumes "deleteProject i actor st = (Inr sc, st')"
  shows "tbl st' = (tbl st)(Projects := softMarked (\<lambda>x. r_id x = i) actor (clock st) (tbl st Projects),
      Environments := softMarked (\<lambda>x. r_parent x = i) actor (clock st) (tbl st Environments),
      Folders := softMarked (\<lambda>f. r_parent f \<in> set (envIdsOfProjects st [i])) actor (clock st) (tbl st Folders)) \<and>
    secretsT st' = softMarkedSecrets (\<lambda>s. s_folder s \<in> set (folderIdsOfEnvs st (envIdsOfProjects st [i])))
      actor (clock st) (secretsT st) \<and>
    sc = \<lparr> cs_org = [], cs_projects = [i], cs_envs = liveIds (\<lambda>x. r_parent x = i) (tbl st Environments),
      cs_folders = liveIds (\<lambda>f. r_parent f \<in> set (envIdsOfProjects st [i])) (tbl st Folders),
      cs_secrets = liveSecretIds (\<lambda>s. s_folder s \<in> set (folderIdsOfEnvs st (envIdsOfProjects st [i]))) (secretsT st) \<rparr>"
proof -
  from assms have "deleteProjectTx i actor st = Inr (sc, st')" by (simp add: deleteProject_def runTx_Inr)
  then obtain u s1 es s2 fs s3 ss where
    1: "snapshotAndSoftDeleteTx Projects i actor ''project'' st = Inr (u, s1)" and
    2: "softDeleteByParentTx Environments i actor s1 = Inr (es, s2)" and
    3: "softDeleteFolderUnderProjectTx i actor s2 = Inr (fs, s3)" and
    4: "softDeleteSecretsUnderProjectTx i actor s3 = Inr (ss, st')" and
    5: "sc = \<lparr> cs_org = [], cs_projects = [i], cs_envs = es, cs_folders = fs, cs_secrets = ss \<rparr>"
    by (auto simp: deleteProjectTx_def bindT_Inr_iff)
  obtain r where s1: "tbl s1 = (tbl st)(Projects := softMarked (\<lambda>x. r_id x = i) actor (clock st) (tbl st Projects))"
    "secretsT s1 = secretsT st" "clock s1 = clock st" by (rule snapshot_effect [OF 1]) (erule that)
  from 2 have s2: "es = liveIds (\<lambda>x. r_parent x = i) (tbl st Environments)"
    "tbl s2 = (tbl s1)(Environments := softMarked (\<lambda>x. r_parent x = i) actor (clock st) (tbl st Environments))"
    "secretsT s2 = secretsT st" "clock s2 = clock st"
    by (auto simp: softDeleteByParentTx_def softDeleteRows_Inr liveIds_def softMarked_def s1 setTbl_def)
  have e: "envIdsOfProjects s2 xs = envIdsOfProjects st xs" for xs
    unfolding envIdsOfProjects_def by (rule idsUnder_marked) (simp add: s2 s1)
  from 3 have s3: "fs = liveIds (\<lambda>f. r_parent f \<in> set (envIdsOfProjects st [i])) (tbl st Folders)"
    "tbl s3 = (tbl s2)(Folders := softMarked (\<lambda>f. r_parent f \<in> set (envIdsOfProjects st [i])) actor (clock st) (tbl st Folders))"
    "secretsT s3 = secretsT st" "clock s3 = clock st"
    by (auto simp: softDeleteFolderUnderProjectTx_def bindT_Inr_iff softDeleteRows_Inr liveIds_def softMarked_def
        s1 s2 e setTbl_def)
  have e3: "envIdsOfProjects s3 xs = envIdsOfProjects st xs" for xs
    using e [of xs] by (simp add: envIdsOfProjects_def s3 idsUnder_def)
  have f: "folderIdsOfEnvs s3 xs = folderIdsOfEnvs st xs" for xs
    unfolding folderIdsOfEnvs_def by (rule idsUnder_marked) (simp add: s3 s2 s1)
  from 4 show ?thesis
    by (auto simp: softDeleteSecretsUnderProjectTx_def bindT_Inr_iff softDeleteSecrets_Inr liveSecretIds_def
        softMarkedSecrets_def s1 s2 s3 e3 f 5)
qed

lemma deleteEnvironment_effect:
  assumes "deleteEnvironment i actor st = (Inr sc, st')"
  shows "tbl st' = (tbl st)(Environments := softMarked (\<lambda>x. r_id x = i) actor (clock st) (tbl st Environments),
      Folders := softMarked (\<lambda>f. r_parent f = i) actor (clock st) (tbl st Folders)) \<and>
    secretsT st' = softMarkedSecrets (\<lambda>s. s_folder s \<in> set (folderIdsOfEnvs st [i])) actor (clock st) (secretsT st) \<and>
    sc = \<lparr> cs_org = [], cs_projects = [], cs_envs = [i], cs_folders = liveIds (\<lambda>f. r_parent f = i) (tbl st Folders),
      cs_secrets = liveSecretIds (\<lambda>s. s_folder s \<in> set (folderIdsOfEnvs st [i])) (secretsT st) \<rparr>"
proof -
  from assms have "deleteEnvironmentTx i actor st = Inr (sc, st')" by (simp add: deleteEnvironment_def runTx_Inr)
  then obtain u s1 fs s2 ss where
    1: "snapshotAndSoftDeleteTx Environments i actor ''environment'' st = Inr (u, s1)" and
    2: "softDeleteByParentTx Folders i actor s1 = Inr (fs, s2)" and
    3: "softDeleteSecretsUnderEnvTx i actor s2 = Inr (ss, st')" and
    5: "sc = \<lparr> cs_org = [], cs_projects = [], cs_envs = [i], cs_folders = fs, cs_secrets = ss \<rparr>"
    by (auto simp: deleteEnvironmentTx_def bindT_Inr_iff)
  obtain r where s1: "tbl s1 = (tbl st)(Environments := softMarked (\<lambda>x. r_id x = i) actor (clock st) (tbl st Environments))"
    "secretsT s1 = secretsT st" "clock s1 = clock st" by (rule snapshot_effect [OF 1]) (erule that)
  from 2 have s2: "fs = liveIds (\<lambda>x. r_parent x = i) (tbl st Folders)"
    "tbl s2 = (tbl s1)(Folders := softMarked (\<lambda>x. r_parent x = i) actor (clock st) (tbl st Folders))"
    "secretsT s2 = secretsT st" "clock s2 = clock st"
    by (auto simp: softDeleteByParentTx_def softDeleteRows_Inr liveIds_def softMarked_def s1 setTbl_def)
  have f: "folderIdsOfEnvs s2 xs = folderIdsOfEnvs st xs" for xs
    unfolding folderIdsOfEnvs_def by (rule idsUnder_marked) (simp add: s2 s1)
  from 3 show ?thesis
    by (auto simp: softDeleteSecretsUnderEnvTx_def bindT_Inr_iff softDeleteSecrets_Inr liveSecretIds_def
        softMarkedSecrets_def s1 s2 f 5)
qed

lemma deleteFolder_effect:
  assumes "deleteFolder i actor st = (Inr sc, st')"
  shows "tbl st' = (tbl st)(Folders := softMarked (\<lambda>x. r_id x = i) actor (clock st) (tbl st Folders)) \<and>
    secretsT st' = softMarkedSecrets (\<lambda>s. s_folder s = i) actor (clock st) (secretsT st) \<and>
    sc = \<lparr> cs_org = [], cs_projects = [], cs_envs = [], cs_folders = [i],
      cs_secrets = liveSecretIds (\<lambda>s. s_folder s = i) (secretsT st) \<rparr>"
proof -
  from assms have "deleteFolderTx i actor st = Inr (sc, st')" by (simp add: deleteFolder_def runTx_Inr)
  then obtain u s1 ss where
    1: "snapshotAndSoftDeleteTx Folders i actor ''folder'' st = Inr (u, s1)" and
    2: "softDeleteSecrets (\<lambda>s. s_folder s = i) actor s1 = Inr (ss, st')" and
    5: "sc = \<lparr> cs_org = [], cs_projects = [], cs_envs = [], cs_folders = [i], cs_secrets = ss \<rparr>"
    by (auto simp: deleteFolderTx_def bindT_Inr_iff)
  obtain r where s1: "tbl s1 = (tbl st)(Folders := softMarked (\<lambda>x. r_id x = i) actor (clock st) (tbl st Folders))"
    "secretsT s1 = secretsT st" "clock s1 = clock st" by (rule snapshot_effect [OF 1]) (erule that)
  from 2 show ?thesis
    by (auto simp: softDeleteSecrets_Inr liveSecretIds_def softMarkedSecrets_def s1 5)
qed

section \<open>Deleting a top-level folder\<close>

lemma findRow_softMarked:
  assumes "tbl st' t = softMarked P a n (tbl st t)" "\<And>r. r \<in> set (tbl st t) \<Longrightarrow> r_id r = j \<Longrightarrow> \<not> r_deleted r \<Longrightarrow> \<not> P r"
  shows "findRow t j st' = findRow t j st"
proof -
  have "findFirst (\<lambda>r. r_id r = j \<and> \<not> r_deleted r) (softMarked P a n rs) =
        findFirst (\<lambda>r. r_id r = j \<and> \<not> r_deleted r) rs"
    if "\<And>r. r \<in> set rs \<Longrightarrow> r_id r = j \<Longrightarrow> \<not> r_deleted r \<Longrightarrow> \<not> P r" for rs
    using that by (induction rs) (auto simp: softMarked_def markDeleted_def)
  with assms show ?thesis by (simp add: findRow_def)
qed

lemma findRow_softMarked_None:
  assumes "tbl st' t = softMarked (\<lambda>x. r_id x = i) a n rs"
  shows "findRow t i st' = None"
proof -
  have "findFirst (\<lambda>r. r_id r = i \<and> \<not> r_deleted r) (softMarked (\<lambda>x. r_id x = i) a n rs) = None"
    by (induction rs) (simp_all add: softMarked_def markDeleted_def del: findFirst_None)
  then show ?thesis by (simp only: findRow_def assms)
qed

lemma findSecret_softMarked:
  assumes "secretsT st' = softMarkedSecrets P a n (secretsT st)"
    "\<And>s. s \<in> set (secretsT st) \<Longrightarrow> s_id s = j \<Longrightarrow> \<not> s_deleted s \<Longrightarrow> \<not> P s"
  shows "findSecret j st' = findSecret j st"
proof -
  have "findFirst (\<lambda>s. s_id s = j \<and> \<not> s_deleted s) (softMarkedSecrets P a n ss) =
        findFirst (\<lambda>s. s_id s = j \<and> \<not> s_deleted s) ss"
    if "\<And>s. s \<in> set ss \<Longrightarrow> s_id s = j \<Longrightarrow> \<not> s_deleted s \<Longrightarrow> \<not> P s" for ss
    using that by (induction ss) (auto simp: softMarkedSecrets_def markSecretDeleted_def)
  with assms show ?thesis by (simp add: findSecret_def)
qed

text \<open>Deleting a folder does not cascade to its sub-folders: after a successful \<open>DeleteFolder\<close> of a
  top-level folder, a live sub-folder under it is still live, its scope chain, and so every decision of the
  authorizer about it, is unchanged, and a secret in it is still found.\<close>

theorem deleteFolder_leaves_subfolders:
  assumes "deleteFolder i actor st = (Inr sc, st')"
    and "findRow Folders j st = Some g" "r_folder g = Some i" "j \<noteq> i"
    and "findSecret k st = Some s" "s_folder s = j" "distinct (map s_id (secretsT st))"
  shows "findRow Folders i st' = None \<and> findRow Folders j st' = Some g \<and>
         folderScopes st' j = folderScopes st j \<and> findSecret k st' = Some s"
proof -
  note eff = deleteFolder_effect [OF assms(1)]
  have F: "tbl st' Folders = softMarked (\<lambda>x. r_id x = i) actor (clock st) (tbl st Folders)"
    and S: "secretsT st' = softMarkedSecrets (\<lambda>s. s_folder s = i) actor (clock st) (secretsT st)"
    and E: "tbl st' Environments = tbl st Environments" "tbl st' Projects = tbl st Projects"
      "tbl st' Organizations = tbl st Organizations"
    using eff by simp_all
  have gone: "findRow Folders i st' = None"
    by (rule findRow_softMarked_None [OF F])
  have stay: "findRow Folders j st' = findRow Folders j st"
    using assms(4) by (intro findRow_softMarked [OF F]) simp
  have sec: "findSecret k st' = findSecret k st"
  proof (rule findSecret_softMarked [OF S])
    fix x assume x: "x \<in> set (secretsT st)" "s_id x = k" "\<not> s_deleted x"
    have "s \<in> set (secretsT st)" "s_id s = k" using findSecret_Some [OF assms(5)] by simp_all
    with x assms(7) have "x = s" by (simp add: distinct_map inj_on_def)
    with assms(4,6) show "s_folder x \<noteq> i" by simp
  qed
  have "folderScopes st' j = folderScopes st j"
    using stay E by (simp add: folderScopes_def liveFolder_def liveEnv_def liveProject_def liveOrg_def findRow_def
        cong: option.case_cong)
  with gone stay sec assms(2,5) show ?thesis by simp
qed

theorem deleteFolder_leaves_subfolders_witness:
  "findRow Folders ''f'' (snd (deleteFolder ''f'' ''al'' demoStore)) = None \<and>
   findSecret ''t'' (snd (deleteFolder ''f'' ''al'' demoStore)) = Some (demoSecret ''t'' ''g'' ''L'') \<and>
   storeAllow (snd (deleteFolder ''f'' ''al'' demoStore)) (demoUI ''al'') ''secret:read'' (rsrc ''secret'' ''t'') = Inr ()"
proof -
  let ?g = "deleteFolder ''f'' ''al'' demoStore"
  have "is_ok (fst ?g)" by code_simp
  then obtain sc where g: "?g = (Inr sc, snd ?g)" by (cases ?g) (auto simp: is_ok_iff)
  have f: "findRow Folders ''g'' demoStore = Some (demoRow ''g'' ''e'' ''sub'' (Some ''f'') 2)" by code_simp
  have s: "findSecret ''t'' demoStore = Some (demoSecret ''t'' ''g'' ''L'')" by code_simp
  have d: "distinct (map s_id (secretsT demoStore))" by code_simp
  have a: "storeAllow (snd ?g) (demoUI ''al'') ''secret:read'' (rsrc ''secret'' ''t'') = Inr ()" by code_simp
  have rf: "r_folder (demoRow ''g'' ''e'' ''sub'' (Some ''f'') 2) = Some ''f''" by (simp add: demoRow_def)
  have sf: "s_folder (demoSecret ''t'' ''g'' ''L'') = ''g''" by (simp add: demoSecret_def)
  have ne: "''g'' \<noteq> ''f''" by simp
  from deleteFolder_leaves_subfolders [OF g f rf ne s sf d] a show ?thesis by blast
qed

section \<open>Batches over environments\<close>

lemma insertRow_Inr:
  "insertRow t r st = Inr (u, st') \<Longrightarrow>
     st' = setTbl t (tbl st t @ [r]) st \<and> r_id r \<notin> set (map r_id (tbl st t)) \<and> checkOk t r \<and> fkOk t r st \<and>
     (\<not> r_deleted r \<longrightarrow> indexKey r \<notin> set (activeKeys (tbl st t)))"
  by (auto simp: insertRow_def split: if_splits)

lemma insertFolder_effect:
  assumes "insertFolderTx env pf lvl code n c actor ep st = Inr (e, st')"
  obtains r where "tbl st' = (tbl st)(Folders := tbl st Folders @ [r])" "secretsT st' = secretsT st"
    "r_parent r = env" "r_folder r = pf" "r_level r = lvl" "r_code r = code" "\<not> r_deleted r" "r_id r = e_id e"
    "indexKey r \<notin> set (activeKeys (tbl st Folders))" "checkOk Folders r" "fkOk Folders r st"
    "e_parent e = ep" "e_code e = code" "clock st' = clock st"
proof -
  from assms obtain i s1 u s2 u' where n: "newUUID st = Inr (i, s1)"
    and ins: "insertRow Folders (newRow i env code n c actor 0 pf lvl (clock s1)) s1 = Inr (u, s2)"
    and au: "recordAuditTx actor ''folder'' i ''create'' NoPayload s2 = Inr (u', st')"
    and e: "e = fillEntityLabels s1 (scanEntity Folders ep (newRow i env code n c actor 0 pf lvl (clock s1)))"
    by (auto simp: insertFolderTx_def bindT_Inr_iff Let_def translated_Inr)
  from n obtain l where s1: "s1 = st\<lparr>ids := l\<rparr>" by (auto simp: newUUID_Inr)
  note i = insertRow_Inr [OF ins] and a = recordAudit_frame [OF au]
  show thesis
    by (rule that [of "newRow i env code n c actor 0 pf lvl (clock s1)"])
      (use i a s1 e in \<open>auto simp: setTbl_def fillEntityLabels_def scanEntity_def hasParentColumn_def fkOk_def
        split: option.splits\<close>)
qed

lemma folders_batch:
  assumes "mapT (\<lambda>(env, pid). insertFolderTx env (Some pid) 2 code n c actor pid) plan st = Inr (es, st')"
  shows "distinct plan \<and> length es = length plan \<and> map e_parent es = map snd plan \<and>
     (\<forall>e \<in> set es. e_code e = code) \<and>
     (\<forall>(env, pid) \<in> set plan. (env, pid, code) \<notin> set (activeKeys (tbl st Folders))) \<and>
     (\<exists>rs. tbl st' = (tbl st)(Folders := tbl st Folders @ rs) \<and> map r_id rs = map e_id es \<and>
        map indexKey rs = map (\<lambda>(env, pid). (env, pid, code)) plan \<and>
        list_all (\<lambda>r. \<not> r_deleted r \<and> r_level r = 2) rs)"
  using assms
proof (induction plan arbitrary: st es)
  case Nil
  then show ?case by (auto simp: fun_upd_idem)
next
  case (Cons p plan)
  obtain env pid where p: "p = (env, pid)" by (cases p)
  from Cons.prems p obtain e s1 es' where h: "insertFolderTx env (Some pid) 2 code n c actor pid st = Inr (e, s1)"
    and t: "mapT (\<lambda>(env, pid). insertFolderTx env (Some pid) 2 code n c actor pid) plan s1 = Inr (es', st')"
    and es: "es = e # es'"
    by (auto simp: bindT_Inr_iff)
  obtain r where r: "tbl s1 = (tbl st)(Folders := tbl st Folders @ [r])" "r_parent r = env"
    "r_folder r = Some pid" "r_level r = 2" "r_code r = code" "\<not> r_deleted r" "r_id r = e_id e"
    "indexKey r \<notin> set (activeKeys (tbl st Folders))" "e_parent e = pid" "e_code e = code"
    using insertFolder_effect [OF h] by metis
  have k: "indexKey r = (env, pid, code)" using r by (simp add: indexKey_def)
  have ak: "activeKeys (tbl s1 Folders) = activeKeys (tbl st Folders) @ [(env, pid, code)]"
    using r k by (simp add: activeKeys_def)
  from Cons.IH [OF t] obtain rs where IH: "distinct plan" "length es' = length plan" "map e_parent es' = map snd plan"
    "\<forall>e \<in> set es'. e_code e = code"
    "\<forall>(env, pid) \<in> set plan. (env, pid, code) \<notin> set (activeKeys (tbl s1 Folders))"
    "tbl st' = (tbl s1)(Folders := tbl s1 Folders @ rs)" "map r_id rs = map e_id es'"
    "map indexKey rs = map (\<lambda>(env, pid). (env, pid, code)) plan"
    "list_all (\<lambda>r. \<not> r_deleted r \<and> r_level r = 2) rs" by blast
  have "p \<notin> set plan" using IH(5) ak p by auto
  moreover have "tbl st' = (tbl st)(Folders := tbl st Folders @ r # rs)" using IH(6) r(1) by simp
  ultimately show ?case
    using IH r k es p ak by (auto intro!: exI [of _ "r # rs"])
qed

lemma verifyEnvs_same: "mapE (verifyEnv st) envIds = Inr v \<Longrightarrow> v = envIds"
  by (induction envIds arbitrary: v)
    (auto simp: bindE_Inr_iff verifyEnv_def split: option.splits if_splits)

lemma siblingParents_fst: "mapE (siblingParent st pc) envIds = Inr plan \<Longrightarrow> map fst plan = envIds"
  by (induction envIds arbitrary: plan)
    (auto simp: bindE_Inr_iff siblingParent_def simp del: findFirst_None split: option.splits)

lemma siblingParents_all:
  "mapE (siblingParent st pc) envIds = Inr plan \<Longrightarrow> x \<in> set plan \<Longrightarrow> siblingParent st pc (fst x) = Inr x"
proof (induction envIds arbitrary: plan)
  case (Cons e es)
  from Cons.prems(1) obtain y ys where y: "siblingParent st pc e = Inr y"
    and ys: "mapE (siblingParent st pc) es = Inr ys" "plan = y # ys" by (auto simp: bindE_Inr_iff)
  have "fst y = e" using y by (cases "findFirst (\<lambda>f. r_parent f = e \<and> r_code f = pc \<and> r_level f = 1 \<and> \<not> r_deleted f)
      (tbl st Folders)") (auto simp: siblingParent_def simp del: findFirst_None)
  with Cons ys y show ?case by auto
qed simp

text \<open>\<open>CreateFoldersAcrossEnvs\<close> is all or nothing. On an error the store is unchanged. On success no
  environment was named twice, there is one new live level-2 folder per requested environment, in request
  order, each under the live top-level folder with the given parent code in its environment (which is the
  parent the returned entity shows), with the requested code, and no other row of the folder table changed.\<close>

theorem createFoldersAcrossEnvs_all_or_nothing:
  assumes "createFoldersAcrossEnvs parentCode code name comment actor envIds st = (r, st')"
  shows "case r of
      Inl e \<Rightarrow> st' = st
    | Inr es \<Rightarrow> distinct envIds \<and> length es = length envIds \<and> (\<forall>e \<in> set es. e_code e = code) \<and>
        mapE (siblingParent st parentCode) envIds = Inr (zip envIds (map e_parent es)) \<and>
        (\<exists>rs. tbl st' Folders = tbl st Folders @ rs \<and> map r_id rs = map e_id es \<and>
          map indexKey rs = map (\<lambda>(env, pid). (env, pid, code)) (zip envIds (map e_parent es)) \<and>
          list_all (\<lambda>r. \<not> r_deleted r \<and> r_level r = 2) rs)"
proof (cases r)
  case (Inl e)
  have "st' = st"
    using assms Inl
    by (auto simp: createFoldersAcrossEnvs_def dest: runTx_Inl split: if_splits sum.splits)
  with Inl show ?thesis by simp
next
  case (Inr es)
  from assms Inr obtain v plan where v: "mapE (verifyEnv st) envIds = Inr v"
    and pl: "mapE (siblingParent st parentCode) v = Inr plan"
    and tx: "mapT (\<lambda>(env, pid). insertFolderTx env (Some pid) 2 code name comment actor pid) plan st = Inr (es, st')"
    by (auto simp: createFoldersAcrossEnvs_def runTx_Inr split: if_splits sum.splits)
  have v': "v = envIds" by (rule verifyEnvs_same [OF v])
  from folders_batch [OF tx] obtain rs where b: "distinct plan" "length es = length plan"
    "map e_parent es = map snd plan" "\<forall>e \<in> set es. e_code e = code"
    "tbl st' = (tbl st)(Folders := tbl st Folders @ rs)" "map r_id rs = map e_id es"
    "map indexKey rs = map (\<lambda>(env, pid). (env, pid, code)) plan"
    "list_all (\<lambda>r. \<not> r_deleted r \<and> r_level r = 2) rs" by blast
  have f: "map fst plan = envIds" by (rule siblingParents_fst [OF pl [unfolded v']])
  have z: "plan = zip envIds (map e_parent es)" using f b(3) by (metis zip_map_fst_snd)
  have "inj_on fst (set plan)"
  proof (rule inj_onI)
    fix p q assume pq: "p \<in> set plan" "q \<in> set plan" "fst p = fst q"
    have "siblingParent st parentCode (fst q) = Inr p"
      using siblingParents_all [OF pl pq(1)] unfolding pq(3) .
    from trans [OF sym [OF this] siblingParents_all [OF pl pq(2)]]
    show "p = q" by (rule Inr_inject)
  qed
  then have d: "distinct envIds" using b(1) f by (metis distinct_map)
  have l: "length es = length envIds" using b(2) f by (metis length_map)
  have m: "mapE (siblingParent st parentCode) envIds = Inr (zip envIds (map e_parent es))"
    using pl unfolding v' z [symmetric] .
  have F: "tbl st' Folders = tbl st Folders @ rs" by (simp add: b(5))
  show ?thesis
    unfolding Inr sum.case z [symmetric] using d l b(4) m [unfolded z [symmetric]] F b(6-8) by blast
qed

theorem createFoldersAcrossEnvs_all_or_nothing_witness:
  "snd (createFoldersAcrossEnvs ''pay'' ''x'' ''x'' [] ''al'' [''e'', ''e2''] demoStore) = demoStore \<and>
   fst (createFoldersAcrossEnvs ''pay'' ''x'' ''x'' [] ''al'' [''e'', ''e2''] demoStore) = Inl ErrNotFound"
proof -
  let ?g = "createFoldersAcrossEnvs ''pay'' ''x'' ''x'' [] ''al'' [''e'', ''e2''] demoStore"
  have f: "fst ?g = Inl ErrNotFound" by code_simp
  then have g: "?g = (Inl ErrNotFound, snd ?g)" by (metis prod.collapse)
  from createFoldersAcrossEnvs_all_or_nothing [OF g] f show ?thesis by simp
qed

end
