(* ===== verification/SecretProps.thy ===== *)
theory SecretProps
  imports SecretRepo RepoProps
begin

text \<open>
  Correctness of the secret repository: listings agree with the authorizer, paths identify secrets when
  folder codes do not repeat in an environment (and only then), writes are atomic and count versions.
\<close>

section \<open>Well-formed stores\<close>

text \<open>What the schema guarantees of a store and the proofs use: primary keys, the checks on bindings, and
  that a scope id is an identifier, so not blank.\<close>

definition wfStore :: "store \<Rightarrow> bool" where
  "wfStore st \<longleftrightarrow> (\<forall>t. distinct (map r_id (tbl st t))) \<and> distinct (map s_id (secretsT st)) \<and>
     list_all bindingCheck (bindingsT st) \<and>
     list_all (\<lambda>b. case b_scope b of None \<Rightarrow> True | Some i \<Rightarrow> trimSpace i \<noteq> []) (bindingsT st)"

lemma findFirst_unique:
  assumes "distinct (map f xs)" "x \<in> set xs"
  shows "findFirst (\<lambda>y. f y = f x) xs = Some x"
  using assms by (induction xs) (auto simp: image_iff)

lemma findFirst_unique_and:
  assumes "distinct (map f xs)" "x \<in> set xs" "P x"
  shows "findFirst (\<lambda>y. f y = f x \<and> P y) xs = Some x"
  using assms by (induction xs) (auto simp: image_iff)

lemma anyRow_findRow:
  assumes "wfStore st" "anyRow t i st = Some r" "\<not> r_deleted r"
  shows "findRow t i st = Some r"
proof -
  have m: "r \<in> set (tbl st t)" "r_id r = i" using assms(2) by (auto simp: anyRow_def dest: findFirst_Some)
  have "distinct (map r_id (tbl st t))" using assms(1) by (simp add: wfStore_def)
  from findFirst_unique_and [OF this m(1), of "\<lambda>r. \<not> r_deleted r"] assms(3) m(2)
  show ?thesis by (simp add: findRow_def)
qed

lemma findRow_anyRow:
  assumes "wfStore st" "findRow t i st = Some r"
  shows "anyRow t i st = Some r"
proof -
  note m = findRow_Some [OF assms(2)]
  have "distinct (map r_id (tbl st t))" using assms(1) by (simp add: wfStore_def)
  from findFirst_unique [OF this, of r] m show ?thesis by (simp add: anyRow_def)
qed

lemma joinFolder_live:
  assumes "wfStore st"
  shows "joinFolder st fid = Some c \<and> chainLive c \<longleftrightarrow> liveFolder st fid = Some c"
proof
  assume a: "joinFolder st fid = Some c \<and> chainLive c"
  obtain o' p e f where c: "c = (o', p, e, f)" by (cases c)
  from a c have j: "anyRow Folders fid st = Some f" "anyRow Environments (r_parent f) st = Some e"
    "anyRow Projects (r_parent e) st = Some p" "anyRow Organizations (r_parent p) st = Some o'"
    by (auto simp: joinFolder_def split: option.splits)
  from a c have "\<not> r_deleted f" "\<not> r_deleted e" "\<not> r_deleted p" "\<not> r_deleted o'"
    by (simp_all add: chainLive_def)
  with j anyRow_findRow [OF assms] show "liveFolder st fid = Some c"
    by (simp add: c liveFolder_def liveEnv_def liveProject_def liveOrg_def)
next
  assume a: "liveFolder st fid = Some c"
  obtain o' p e f where c: "c = (o', p, e, f)" by (cases c)
  note l = a [unfolded c]
  note f = liveFolder_env [OF l]
  note e = liveEnv_project [OF conjunct1 [OF f]]
  note p = liveProject_org [OF conjunct1 [OF e]]
  have "anyRow Folders fid st = Some f" "anyRow Environments (r_parent f) st = Some e"
    "anyRow Projects (r_parent e) st = Some p" "anyRow Organizations (r_parent p) st = Some o'"
    using f e p by (auto simp: liveOrg_def intro!: findRow_anyRow [OF assms])
  then show "joinFolder st fid = Some c \<and> chainLive c"
    using liveFolder_ids [OF l] by (simp add: c joinFolder_def chainLive_def)
qed

lemma joinedSecrets_iff:
  "(s, c) \<in> set (joinedSecrets st) \<longleftrightarrow>
     s \<in> set (secretsT st) \<and> \<not> s_deleted s \<and> joinFolder st (s_folder s) = Some c"
proof
  assume "(s, c) \<in> set (joinedSecrets st)"
  then show "s \<in> set (secretsT st) \<and> \<not> s_deleted s \<and> joinFolder st (s_folder s) = Some c"
    by (auto simp: joinedSecrets_def set_map_filter_iff split: if_splits)
next
  assume a: "s \<in> set (secretsT st) \<and> \<not> s_deleted s \<and> joinFolder st (s_folder s) = Some c"
  then show "(s, c) \<in> set (joinedSecrets st)"
    unfolding joinedSecrets_def set_map_filter_iff by (intro bexI [of _ s]) simp_all
qed

section \<open>Listings agree with the authorizer\<close>

text \<open>A binding that counts for a folder chain: global, or at one of the scopes of the chain.\<close>

definition bindsChain :: "bindingRow \<Rightarrow> chain \<Rightarrow> bool" where
  "bindsChain b c \<longleftrightarrow> (case c of (o', p, e, f) \<Rightarrow>
     b_scopeType b = ''global'' \<or>
     (b_scopeType b = ''organization'' \<and> b_scope b = Some (r_id o')) \<or>
     (b_scopeType b = ''project'' \<and> b_scope b = Some (r_id p)) \<or>
     (b_scopeType b = ''environment'' \<and> b_scope b = Some (r_id e)) \<or>
     (b_scopeType b = ''folder'' \<and> b_scope b = Some (r_id f)) \<or>
     (b_scopeType b = ''folder'' \<and> r_folder f \<noteq> None \<and> b_scope b = r_folder f))"

lemma scopeCond_mk:
  assumes "t \<in> set [''organization'', ''project'', ''environment'', ''folder'', ''secret'']"
    and "case b_scope b of None \<Rightarrow> True | Some i \<Rightarrow> trimSpace i \<noteq> []"
  shows "scopeCond (mkScope t i) b \<longleftrightarrow> b_scopeType b = t \<and> b_scope b = Some i"
proof -
  have n: "normalizeScopeType t = t" "t \<noteq> []" "t \<noteq> ''global''" using assms(1) by auto
  show ?thesis using assms(2) n by (auto simp: scopeCond_def mkScope_def)
qed

lemma scopeCond_global:
  "bindingCheck b \<Longrightarrow> scopeCond globalScope b \<longleftrightarrow> b_scopeType b = ''global''"
  by (auto simp: scopeCond_def globalScope_def mkScope_def bindingCheck_def)

lemma folderChain_binds:
  assumes "bindingCheck b" "case b_scope b of None \<Rightarrow> True | Some i \<Rightarrow> trimSpace i \<noteq> []"
  shows "(\<exists>s \<in> set (folderChain c). scopeCond s b) \<longleftrightarrow> bindsChain b c"
proof -
  obtain o' p e f where c: "c = (o', p, e, f)" by (cases c)
  have ne: "b_scope b \<noteq> Some []" using assms(2) by auto
  show ?thesis
  proof (cases "r_folder f")
    case None
    then show ?thesis
      by (simp add: folderChain_def bindsChain_def c scopeCond_global [OF assms(1)] scopeCond_mk [OF _ assms(2)])
  next
    case (Some pf)
    show ?thesis
    proof (cases "pf = []")
      case True
      with Some ne show ?thesis
        by (simp add: folderChain_def bindsChain_def c scopeCond_global [OF assms(1)] scopeCond_mk [OF _ assms(2)])
    next
      case False
      with Some show ?thesis
        by (simp add: folderChain_def bindsChain_def c scopeCond_global [OF assms(1)] scopeCond_mk [OF _ assms(2)])
          blast
    qed
  qed
qed

lemma userReadScopes_iff:
  "(t, v) \<in> set (userReadScopes st uid code) \<longleftrightarrow>
     (\<exists>b \<in> set (bindingsT st). grantsCode st uid code b \<and> b_scopeType b = t \<and> b_scope b = v)"
  by (auto simp: userReadScopes_def)

lemma scopeNarrowing_iff:
  "scopeNarrowing (userReadScopes st uid code) entries \<longleftrightarrow>
     (\<exists>b \<in> set (bindingsT st). grantsCode st uid code b \<and>
        (b_scopeType b = ''global'' \<or> (\<exists>(t, v) \<in> set entries. v \<noteq> None \<and> b_scopeType b = t \<and> b_scope b = v)))"
proof -
  have g: "list_ex (\<lambda>(t, v). t = ''global'') (userReadScopes st uid code) \<longleftrightarrow>
      (\<exists>b \<in> set (bindingsT st). grantsCode st uid code b \<and> b_scopeType b = ''global'')"
    using userReadScopes_iff [of "''global''" _ st uid code] by (auto simp: list_ex_iff)
  have n: "narrowingPredicate (userReadScopes st uid code) entries \<longleftrightarrow>
      (\<exists>(t, v) \<in> set entries. v \<noteq> None \<and> (t, v) \<in> set (userReadScopes st uid code))"
    by (auto simp: narrowingPredicate_def list_ex_iff)
  have n': "narrowingPredicate (userReadScopes st uid code) entries \<longleftrightarrow>
      (\<exists>(t, v) \<in> set entries. v \<noteq> None \<and>
        (\<exists>b \<in> set (bindingsT st). grantsCode st uid code b \<and> b_scopeType b = t \<and> b_scope b = v))"
    unfolding n userReadScopes_iff ..
  show ?thesis unfolding scopeNarrowing_def g n' by blast
qed

lemma secretEntries_binds:
  assumes "bindingCheck b" "r_id f = s_folder s"
  shows "(b_scopeType b = ''global'' \<or>
      (\<exists>(t, v) \<in> set (secretEntries s (o', p, e, f)). v \<noteq> None \<and> b_scopeType b = t \<and> b_scope b = v)) \<longleftrightarrow>
    bindsChain b (o', p, e, f)"
proof -
  have "b_scopeType b \<noteq> ''secret''" using assms(1) by (auto simp: bindingCheck_def scopeTypeCheck_def)
  then show ?thesis using assms(2) by (simp add: secretEntries_def bindsChain_def) blast
qed

lemma listing_agrees:
  assumes wf: "wfStore st" and u: "trimSpace (ui_id u) \<noteq> []"
    and code: "trimSpace code = code" "CHR '':'' \<in> set code"
    and s: "findSecret i st = Some s"
  shows "(\<exists>c. (s, c) \<in> set (narrowedSecrets st (ui_id u) code)) \<longleftrightarrow>
         storeAllow st u code (rsrc ''secret'' i) = Inr ()"
proof -
  have ne: "code \<noteq> []" using code(2) by auto
  have pc: "permissionCode code (res_type (rsrc ''secret'' i)) = code" "code \<noteq> []"
    using permissionCode_colon [of code "res_type (rsrc ''secret'' i)"] code ne by simp_all
  have sm: "s \<in> set (secretsT st)" "s_id s = i" "\<not> s_deleted s" using findSecret_Some [OF s] by auto
  have bc: "bindingCheck b" "case b_scope b of None \<Rightarrow> True | Some i \<Rightarrow> trimSpace i \<noteq> []"
    if "b \<in> set (bindingsT st)" for b using wf that by (auto simp: wfStore_def list_all_iff)
  have scopes: "resourceScopes st (rsrc ''secret'' i) = secretScopes st i" by (simp add: rsrc_def)
  have L: "(\<exists>c. (s, c) \<in> set (narrowedSecrets st (ui_id u) code)) \<longleftrightarrow>
      (\<exists>c. liveFolder st (s_folder s) = Some c \<and>
         (\<exists>b \<in> set (bindingsT st). grantsCode st (ui_id u) code b \<and> bindsChain b c))" (is "?l = ?r")
  proof -
    have "(s, c) \<in> set (narrowedSecrets st (ui_id u) code) \<longleftrightarrow>
        liveFolder st (s_folder s) = Some c \<and>
         (\<exists>b \<in> set (bindingsT st). grantsCode st (ui_id u) code b \<and> bindsChain b c)" for c
    proof -
      obtain o' p e f where c: "c = (o', p, e, f)" by (cases c)
      have "(s, c) \<in> set (narrowedSecrets st (ui_id u) code) \<longleftrightarrow>
          liveFolder st (s_folder s) = Some c \<and> scopeNarrowing (userReadScopes st (ui_id u) code) (secretEntries s c)"
        using joinFolder_live [OF wf, of "s_folder s" c] sm
        by (auto simp: narrowedSecrets_def Let_def joinedSecrets_iff)
      also have "\<dots> \<longleftrightarrow> liveFolder st (s_folder s) = Some c \<and>
          (\<exists>b \<in> set (bindingsT st). grantsCode st (ui_id u) code b \<and> bindsChain b c)"
      proof (rule conj_cong [OF refl])
        assume l: "liveFolder st (s_folder s) = Some c"
        have f: "r_id f = s_folder s" using liveFolder_ids [OF l [unfolded c]] by simp
        show "scopeNarrowing (userReadScopes st (ui_id u) code) (secretEntries s c) \<longleftrightarrow>
            (\<exists>b \<in> set (bindingsT st). grantsCode st (ui_id u) code b \<and> bindsChain b c)"
          unfolding scopeNarrowing_iff c
          by (intro bex_cong refl conj_cong secretEntries_binds [OF bc(1) f])
      qed
      finally show ?thesis .
    qed
    then show ?thesis by blast
  qed
  have R: "storeAllow st u code (rsrc ''secret'' i) = Inr () \<longleftrightarrow>
      (\<exists>c. liveFolder st (s_folder s) = Some c \<and>
         (\<exists>b \<in> set (bindingsT st). grantsCode st (ui_id u) code b \<and> (\<exists>sc \<in> set (folderChain c). scopeCond sc b)))"
  proof (cases "liveFolder st (s_folder s)")
    case None
    then have "secretScopes st i = Inl ErrNotFound" by (simp add: secretScopes_def s)
    with None show ?thesis unfolding storeAllow_iff scopes by simp
  next
    case (Some c)
    then have "secretScopes st i = Inr (folderChain c)" by (simp add: secretScopes_def s)
    with Some u pc show ?thesis unfolding storeAllow_iff scopes by simp
  qed
  show ?thesis unfolding L R using folderChain_binds bc by blast
qed

text \<open>C10. Two mechanisms, one decision. For a well-formed store and a live secret, the secret is in the rows
  that a listing may return to the user (the SQL narrowing by the user's bindings for a permission code)
  exactly when the authorizer allows that user that permission on that secret.\<close>

theorem listing_agrees_with_allow:
  assumes "wfStore st" "trimSpace (ui_id u) \<noteq> []" "trimSpace code = code" "CHR '':'' \<in> set code"
    and "findSecret i st = Some s"
  shows "(\<exists>c. (s, c) \<in> set (narrowedSecrets st (ui_id u) code)) \<longleftrightarrow>
         storeAllow st u code (rsrc ''secret'' i) = Inr ()"
  by (rule listing_agrees [OF assms])

lemma demo_wf: "wfStore demoStore" by code_simp

theorem listing_agrees_with_allow_witness:
  "(\<exists>c. (demoSecret ''t'' ''g'' ''L'', c) \<in> set (narrowedSecrets demoStore ''al'' ''secret:read'')) \<and>
   \<not> (\<exists>c. (demoSecret ''t'' ''g'' ''L'', c) \<in> set (narrowedSecrets demoStore ''cy'' ''secret:read''))"
proof -
  have s: "findSecret ''t'' demoStore = Some (demoSecret ''t'' ''g'' ''L'')" by code_simp
  have c: "trimSpace ''secret:read'' = ''secret:read''" by code_simp
  have m: "CHR '':'' \<in> set ''secret:read''" by simp
  have u: "ui_id (demoUI ''al'') = ''al''" "ui_id (demoUI ''cy'') = ''cy''" by (simp_all add: demoUI_def)
  have n: "trimSpace (ui_id (demoUI ''al'')) \<noteq> []" "trimSpace (ui_id (demoUI ''cy'')) \<noteq> []" by code_simp+
  have a: "storeAllow demoStore (demoUI ''al'') ''secret:read'' (rsrc ''secret'' ''t'') = Inr ()" by code_simp
  have b: "storeAllow demoStore (demoUI ''cy'') ''secret:read'' (rsrc ''secret'' ''t'') \<noteq> Inr ()" by code_simp
  from listing_agrees_with_allow [OF demo_wf n(1) c m s] listing_agrees_with_allow [OF demo_wf n(2) c m s] a b
  show ?thesis by (simp add: u)
qed

section \<open>Paths\<close>

text \<open>The active-only unique indexes, and the columns that only folders use.\<close>

definition uniqueStore :: "store \<Rightarrow> bool" where
  "uniqueStore st \<longleftrightarrow> (\<forall>t. distinct (activeKeys (tbl st t))) \<and> distinct (activeSecretKeys (secretsT st)) \<and>
     (\<forall>t. t \<noteq> Folders \<longrightarrow> list_all (\<lambda>r. r_folder r = None) (tbl st t)) \<and>
     list_all (\<lambda>r. r_parent r = []) (tbl st Organizations)"

text \<open>What the schema does not guarantee: no two live folders of one environment share a code.\<close>

definition folderCodesUnique :: "store \<Rightarrow> bool" where
  "folderCodesUnique st \<longleftrightarrow> distinct (map (\<lambda>f. (r_parent f, r_code f)) (liveRows Folders st))"

lemma distinct_map_inj: "distinct (map f xs) \<Longrightarrow> x \<in> set xs \<Longrightarrow> y \<in> set xs \<Longrightarrow> f x = f y \<Longrightarrow> x = y"
  by (simp add: distinct_map inj_on_def)

lemma liveFolder_row:
  assumes "uniqueStore st" "t \<noteq> Folders" "r \<in> set (tbl st t)" "r' \<in> set (tbl st t)"
    "\<not> r_deleted r" "\<not> r_deleted r'" "r_parent r = r_parent r'" "r_code r = r_code r'"
  shows "r = r'"
proof -
  have d: "distinct (map indexKey (filter (\<lambda>r. \<not> r_deleted r) (tbl st t)))"
    using assms(1) by (simp add: uniqueStore_def activeKeys_def)
  have "r_folder r = None" "r_folder r' = None" using assms(1-4) by (auto simp: uniqueStore_def list_all_iff)
  then have "indexKey r = indexKey r'" using assms(7,8) by (simp add: indexKey_def)
  with distinct_map_inj [OF d] assms(3-6) show ?thesis by simp
qed

lemma path_chain_unique:
  assumes "uniqueStore st" "folderCodesUnique st"
    and l: "liveFolder st i = Some (o1, p1, e1, f1)" "liveFolder st j = Some (o2, p2, e2, f2)"
    and eq: "r_code o1 = r_code o2" "r_code p1 = r_code p2" "r_code e1 = r_code e2" "r_code f1 = r_code f2"
  shows "o1 = o2 \<and> p1 = p2 \<and> e1 = e2 \<and> f1 = f2"
proof -
  note i1 = liveFolder_ids [OF l(1)] and i2 = liveFolder_ids [OF l(2)]
  note a1 = liveFolder_env [OF l(1)] and a2 = liveFolder_env [OF l(2)]
  note b1 = liveEnv_project [OF conjunct1 [OF a1]] and b2 = liveEnv_project [OF conjunct1 [OF a2]]
  note c1 = liveProject_org [OF conjunct1 [OF b1]] and c2 = liveProject_org [OF conjunct1 [OF b2]]
  have m: "f1 \<in> set (tbl st Folders)" "f2 \<in> set (tbl st Folders)" "e1 \<in> set (tbl st Environments)"
    "e2 \<in> set (tbl st Environments)" "p1 \<in> set (tbl st Projects)" "p2 \<in> set (tbl st Projects)"
    "o1 \<in> set (tbl st Organizations)" "o2 \<in> set (tbl st Organizations)"
    using a1 a2 b1 b2 c1 c2 by (auto simp: liveOrg_def dest!: findRow_Some)
  have "r_parent o1 = []" "r_parent o2 = []" using assms(1) m by (auto simp: uniqueStore_def list_all_iff)
  then have o': "o1 = o2" using liveFolder_row [OF assms(1) _ m(7,8)] i1 i2 eq by simp
  then have p: "p1 = p2" using liveFolder_row [OF assms(1) _ m(5,6)] i1 i2 eq by simp
  then have e: "e1 = e2" using liveFolder_row [OF assms(1) _ m(3,4)] i1 i2 eq by simp
  have "distinct (map (\<lambda>f. (r_parent f, r_code f)) (liveRows Folders st))"
    using assms(2) by (simp add: folderCodesUnique_def)
  from distinct_map_inj [OF this, of f1 f2] m i1 i2 e eq have "f1 = f2" by (simp add: liveRows_def)
  with o' p e show ?thesis by simp
qed

text \<open>Paths identify secrets. In a store that satisfies the schema and where no environment has two live
  folders with the same code, looking a live secret up by the codes on its path and its key returns that
  secret, and its stored path is the five parts joined with dots.\<close>

theorem path_identifies:
  assumes "wfStore st" "uniqueStore st" "folderCodesUnique st"
    and "findSecret i st = Some s" "liveFolder st (s_folder s) = Some (o', p, e, f)"
    and "r_code o' \<noteq> []" "r_code p \<noteq> []" "r_code e \<noteq> []" "r_code f \<noteq> []" "s_key s \<noteq> []"
  shows "getSecretByPath st (r_code o') (r_code p) (r_code e) (r_code f) (s_key s) =
           Inr (scanSecret st 0 s (o', p, e, f)) \<and>
         sec_path (scanSecret st 0 s (o', p, e, f)) =
           joinWith CHR ''.'' [r_code o', r_code p, r_code e, r_code f, s_key s]"
proof -
  let ?P = "\<lambda>(x, c). s_key x = s_key s \<and> onPath (r_code o') (r_code p) (r_code e) (r_code f) c"
  have sm: "s \<in> set (secretsT st)" "s_id s = i" "\<not> s_deleted s" using findSecret_Some [OF assms(4)] by auto
  have jl: "joinFolder st (s_folder s) = Some (o', p, e, f)" "chainLive (o', p, e, f)"
    using joinFolder_live [OF assms(1), of "s_folder s" "(o', p, e, f)"] assms(5) by simp_all
  have mem: "(s, (o', p, e, f)) \<in> set (joinedSecrets st)" "?P (s, (o', p, e, f))"
    using sm jl by (auto simp: joinedSecrets_iff onPath_def)
  then obtain y where y: "findFirst ?P (joinedSecrets st) = Some y"
    by (cases "findFirst ?P (joinedSecrets st)") auto
  obtain x o2 p2 e2 f2 where yx: "y = (x, (o2, p2, e2, f2))" by (cases y) auto
  from findFirst_Some [OF y] yx have x: "(x, (o2, p2, e2, f2)) \<in> set (joinedSecrets st)" "s_key x = s_key s"
    "onPath (r_code o') (r_code p) (r_code e) (r_code f) (o2, p2, e2, f2)" by auto
  have xl: "liveFolder st (s_folder x) = Some (o2, p2, e2, f2)"
    using joinFolder_live [OF assms(1), of "s_folder x" "(o2, p2, e2, f2)"] x by (auto simp: joinedSecrets_iff onPath_def)
  have c: "o' = o2 \<and> p = p2 \<and> e = e2 \<and> f = f2"
    using x(3) by (intro path_chain_unique [OF assms(2,3) assms(5) xl]) (auto simp: onPath_def)
  have "s_folder x = s_folder s" using liveFolder_ids [OF assms(5)] liveFolder_ids [OF xl] c by simp
  then have k: "secretIndexKey x = secretIndexKey s" using x(2) by (simp add: secretIndexKey_def)
  have d: "distinct (map secretIndexKey (filter (\<lambda>s. \<not> s_deleted s) (secretsT st)))"
    using assms(2) by (simp add: uniqueStore_def activeSecretKeys_def)
  have "x = s" using distinct_map_inj [OF d _ _ k] x(1) sm by (simp add: joinedSecrets_iff)
  with y yx c have "getSecretByPath st (r_code o') (r_code p) (r_code e) (r_code f) (s_key s) =
      Inr (scanSecret st 0 s (o', p, e, f))" by (simp add: getSecretByPath_def)
  moreover have "sec_path (scanSecret st 0 s (o', p, e, f)) =
      joinWith CHR ''.'' [r_code o', r_code p, r_code e, r_code f, s_key s]"
    using assms(6-10) by (simp add: scanSecret_def buildSecretPath_def Let_def)
  ultimately show ?thesis by simp
qed

theorem path_identifies_witness:
  "is_ok (getSecretByPath demoStore ''org'' ''prj'' ''dev'' ''sub'' ''L'')"
proof -
  have u: "uniqueStore demoStore" "folderCodesUnique demoStore" by code_simp+
  have s: "findSecret ''t'' demoStore = Some (demoSecret ''t'' ''g'' ''L'')" by code_simp
  have l: "liveFolder demoStore (s_folder (demoSecret ''t'' ''g'' ''L'')) = Some (demoRow ''o'' [] ''org'' None 1,
     demoRow ''p'' ''o'' ''prj'' None 1, demoRow ''e'' ''p'' ''dev'' None 1, demoRow ''g'' ''e'' ''sub'' (Some ''f'') 2)"
    by code_simp
  from path_identifies [OF demo_wf u s l] show ?thesis by (simp add: demoRow_def demoSecret_def)
qed

text \<open>Two top-level folders, each with a sub-folder of the same code, each with a secret of the same key:
  the schema accepts it.\<close>

definition twinStore :: store where
  "twinStore = demoStore\<lparr>
     tbl := (tbl demoStore)(Folders := [demoRow ''f'' ''e'' ''pay'' None 1, demoRow ''h'' ''e'' ''bill'' None 1,
       demoRow ''g1'' ''e'' ''sub'' (Some ''f'') 2, demoRow ''g2'' ''e'' ''sub'' (Some ''h'') 2]),
     secretsT := [demoSecret ''s1'' ''g1'' ''K'', demoSecret ''s2'' ''g2'' ''K'']\<rparr>"

text \<open>Without that hypothesis paths are ambiguous: the unique index on folders is per parent, so two
  sub-folders of one environment may share a code. Such a store satisfies every constraint, has two different
  live secrets with the same path, and \<open>GetSecretByPath\<close> can reach only one of them.\<close>

theorem path_ambiguous:
  "wfStore twinStore \<and> uniqueStore twinStore \<and> list_all (\<lambda>r. checkOk Folders r \<and> fkOk Folders r twinStore) (tbl twinStore Folders) \<and>
   map_option sec_path (Some (projr (getSecret twinStore ''s1''))) = Some (sec_path (projr (getSecret twinStore ''s2''))) \<and>
   sec_path (projr (getSecret twinStore ''s2'')) = ''org.prj.dev.sub.K'' \<and>
   getSecretByPath twinStore ''org'' ''prj'' ''dev'' ''sub'' ''K'' = getSecret twinStore ''s1'' \<and>
   getSecret twinStore ''s1'' \<noteq> getSecret twinStore ''s2''"
  by code_simp

end
