(* ===== verification/SchemaProps.thy ===== *)
theory SchemaProps
  imports SecretProps
begin

text \<open>
  What every history of operations keeps of the stored data: the constraints of the schema, and the shape
  of the folder tree that only the Go code enforces (a sub-folder lies under a top-level folder of its own
  environment).  Each statement of the repository keeps the invariant, transactions inherit it through the
  collection \<open>preserving\<close>, and the histories are an inductive step relation over all writing operations.
\<close>

section \<open>The invariant\<close>

definition parentOk :: "store \<Rightarrow> row \<Rightarrow> bool" where
  "parentOk st f \<longleftrightarrow> (case r_folder f of None \<Rightarrow> True
     | Some p \<Rightarrow> list_ex (\<lambda>q. r_id q = p \<and> r_level q = 1 \<and> r_parent q = r_parent f) (tbl st Folders))"

definition tableOk :: "tab \<Rightarrow> row list \<Rightarrow> bool" where
  "tableOk t rs \<longleftrightarrow> distinct (map r_id rs) \<and> distinct (activeKeys rs) \<and> list_all (checkOk t) rs \<and>
     (t \<noteq> Folders \<longrightarrow> list_all (\<lambda>r. r_folder r = None) rs) \<and>
     (t = Organizations \<longrightarrow> list_all (\<lambda>r. r_parent r = []) rs)"

definition secretsOk :: "secretRow list \<Rightarrow> bool" where
  "secretsOk ss \<longleftrightarrow> distinct (map s_id ss) \<and> distinct (activeSecretKeys ss) \<and>
     list_all (\<lambda>s. keyPattern (s_key s)) ss"

definition schemaOk :: "store \<Rightarrow> bool" where
  "schemaOk st \<longleftrightarrow> (\<forall>t. tableOk t (tbl st t) \<and> list_all (\<lambda>r. fkOk t r st) (tbl st t)) \<and>
     list_all (parentOk st) (tbl st Folders) \<and> secretsOk (secretsT st)"

lemma schemaOk_tables:
  assumes "schemaOk st" "tbl st' = tbl st" "secretsOk (secretsT st')"
  shows "schemaOk st'"
proof -
  have "fkOk t r st' = fkOk t r st" for t r unfolding fkOk_def assms(2) ..
  moreover have "parentOk st' = parentOk st" by (rule ext) (simp only: parentOk_def assms(2))
  ultimately show ?thesis using assms by (simp add: schemaOk_def)
qed

lemma schemaOk_cong: "schemaOk st \<Longrightarrow> tbl st' = tbl st \<Longrightarrow> secretsT st' = secretsT st \<Longrightarrow> schemaOk st'"
  using schemaOk_tables [of st st'] by (simp add: schemaOk_def)

lemma schemaOk_empty: "schemaOk emptyStore"
  by (simp add: schemaOk_def emptyStore_def tableOk_def secretsOk_def activeKeys_def activeSecretKeys_def)

text \<open>The constraints hold in a growing table.\<close>

lemma fkOk_mono:
  "fkOk t r st \<Longrightarrow> (\<And>t. set (map r_id (tbl st t)) \<subseteq> set (map r_id (tbl st' t))) \<Longrightarrow> fkOk t r st'"
  unfolding fkOk_def by (cases t) (auto split: option.splits)

lemma parentOk_mono:
  "parentOk st f \<Longrightarrow> set (tbl st Folders) \<subseteq> set (tbl st' Folders) \<Longrightarrow> parentOk st' f"
  unfolding parentOk_def by (auto simp: list_ex_iff split: option.splits)

lemma schemaOk_insertRow:
  assumes "schemaOk st" "insertRow t r st = Inr (u, st')"
    and "\<not> r_deleted r" "t \<noteq> Folders \<Longrightarrow> r_folder r = None" "t = Organizations \<Longrightarrow> r_parent r = []"
    and "t = Folders \<Longrightarrow> parentOk st r"
  shows "schemaOk st'"
proof -
  have i: "st' = setTbl t (tbl st t @ [r]) st" "r_id r \<notin> set (map r_id (tbl st t))" "checkOk t r" "fkOk t r st"
    "indexKey r \<notin> set (activeKeys (tbl st t))"
    using insertRow_Inr [OF assms(2)] assms(3) by blast+
  have ids: "set (map r_id (tbl st t')) \<subseteq> set (map r_id (tbl st' t'))" for t' using i(1) by auto
  have "tableOk t (tbl st t @ [r])"
    using assms i by (auto simp: schemaOk_def tableOk_def activeKeys_def)
  moreover have "list_all (\<lambda>x. fkOk t' x st') (tbl st' t')" for t'
    using assms(1) i fkOk_mono [OF _ ids] by (auto simp: schemaOk_def list_all_iff)
  moreover have "list_all (parentOk st') (tbl st' Folders)"
  proof -
    have sub: "set (tbl st Folders) \<subseteq> set (tbl st' Folders)" using i(1) by auto
    have "parentOk st x" if "x \<in> set (tbl st' Folders)" for x
      using that assms(1,6) i(1) by (auto simp: schemaOk_def list_all_iff split: if_splits)
    then show ?thesis using parentOk_mono [OF _ sub] by (simp add: list_all_iff)
  qed
  ultimately show ?thesis
    using assms(1) i(1) by (auto simp: schemaOk_def)
qed

text \<open>Updates that keep the identifying columns and never undelete.\<close>

definition keepsRow :: "(row \<Rightarrow> row) \<Rightarrow> bool" where
  "keepsRow f \<longleftrightarrow> (\<forall>r. r_id (f r) = r_id r \<and> r_parent (f r) = r_parent r \<and> r_code (f r) = r_code r \<and>
     r_folder (f r) = r_folder r \<and> r_level (f r) = r_level r \<and> (r_deleted r \<longrightarrow> r_deleted (f r)))"

lemma activeKeys_map:
  assumes "keepsRow f"
  shows "set (activeKeys (map f rs)) \<subseteq> set (activeKeys rs)"
    and "distinct (activeKeys rs) \<Longrightarrow> distinct (activeKeys (map f rs))"
proof -
  have k: "indexKey (f r) = indexKey r" for r using assms by (simp add: keepsRow_def indexKey_def)
  show "set (activeKeys (map f rs)) \<subseteq> set (activeKeys rs)"
    using assms by (auto simp: activeKeys_def k keepsRow_def)
  show "distinct (activeKeys rs) \<Longrightarrow> distinct (activeKeys (map f rs))"
  proof (induction rs)
    case (Cons r rs)
    have s: "set (activeKeys (map f rs)) \<subseteq> set (activeKeys rs)"
      using assms by (auto simp: activeKeys_def k keepsRow_def)
    have l: "activeKeys (x # xs) = (if r_deleted x then activeKeys xs else indexKey x # activeKeys xs)" for x xs
      by (simp add: activeKeys_def)
    have d: "r_deleted r \<Longrightarrow> r_deleted (f r)" using assms by (simp add: keepsRow_def)
    show ?case using Cons s d by (simp add: l k split: if_splits) blast+
  qed (simp add: activeKeys_def)
qed

lemma schemaOk_mapRows:
  assumes "schemaOk st" "keepsRow f"
  shows "schemaOk (setTbl t (map f (tbl st t)) st)"
proof -
  let ?st = "setTbl t (map f (tbl st t)) st"
  have k: "\<And>r. r_id (f r) = r_id r" "\<And>r. r_parent (f r) = r_parent r" "\<And>r. r_code (f r) = r_code r"
    "\<And>r. r_folder (f r) = r_folder r" "\<And>r. r_level (f r) = r_level r"
    using assms(2) by (simp_all add: keepsRow_def)
  have c: "checkOk t' (f r) = checkOk t' r" for t' r by (simp add: checkOk_def levelCheck_def k)
  have idmap: "map r_id (tbl ?st t') = map r_id (tbl st t')" for t' by (simp add: k)
  have fk: "fkOk t' r ?st = fkOk t' r st" for t' r unfolding fkOk_def idmap ..
  have fk': "fkOk t' (f r) s = fkOk t' r s" for t' r s by (simp add: fkOk_def k cong: tab.case_cong)
  have pa: "parentOk ?st r = parentOk st r" for r
    by (simp add: parentOk_def list_ex_iff k split: option.splits)
  have pa': "parentOk s (f r) = parentOk s r" for r s by (simp only: parentOk_def k)
  have "tableOk t' (tbl ?st t')" for t'
    using assms activeKeys_map(2) [OF assms(2)]
    by (auto simp: schemaOk_def tableOk_def list_all_iff k c comp_def)
  moreover have "list_all (\<lambda>r. fkOk t' r ?st) (tbl ?st t')" for t'
    using assms(1) by (auto simp: schemaOk_def list_all_iff fk fk')
  moreover have "list_all (parentOk ?st) (tbl ?st Folders)"
    using assms(1) by (auto simp: schemaOk_def list_all_iff pa pa')
  ultimately show ?thesis using assms(1) by (simp add: schemaOk_def)
qed

definition keepsSecret :: "(secretRow \<Rightarrow> secretRow) \<Rightarrow> bool" where
  "keepsSecret f \<longleftrightarrow> (\<forall>s. s_id (f s) = s_id s \<and> s_folder (f s) = s_folder s \<and> s_key (f s) = s_key s \<and>
     (s_deleted s \<longrightarrow> s_deleted (f s)))"

lemma secretsOk_map:
  assumes "secretsOk ss" "keepsSecret f"
  shows "secretsOk (map f ss)"
proof -
  have k: "\<And>s. s_id (f s) = s_id s" "\<And>s. s_key (f s) = s_key s" "\<And>s. secretIndexKey (f s) = secretIndexKey s"
    using assms(2) by (simp_all add: keepsSecret_def secretIndexKey_def)
  have "distinct (activeSecretKeys ss) \<Longrightarrow> distinct (activeSecretKeys (map f ss))"
  proof (induction ss)
    case (Cons s ss)
    have c: "set (activeSecretKeys (map f ss)) \<subseteq> set (activeSecretKeys ss)"
      using assms(2) by (auto simp: activeSecretKeys_def k keepsSecret_def)
    have l: "activeSecretKeys (x # xs) =
        (if s_deleted x then activeSecretKeys xs else secretIndexKey x # activeSecretKeys xs)" for x xs
      by (simp add: activeSecretKeys_def)
    have d: "s_deleted s \<Longrightarrow> s_deleted (f s)" using assms(2) by (simp add: keepsSecret_def)
    show ?case using Cons c d by (simp add: l k split: if_splits) blast+
  qed (simp add: activeSecretKeys_def)
  with assms(1) show ?thesis by (simp add: secretsOk_def list_all_iff k comp_def)
qed

section \<open>Statements keep it\<close>

lemma preserves_schema_frame:
  "(\<And>st x st'. m st = Inr (x, st') \<Longrightarrow> tbl st' = tbl st \<and> secretsT st' = secretsT st) \<Longrightarrow> preserves schemaOk m"
  using schemaOk_cong by (auto simp: preserves_def)

lemma preserves_schema_newUUID [preserving]: "preserves schemaOk newUUID"
  by (rule preserves_schema_frame) (auto simp: newUUID_Inr)

lemma preserves_schema_audit [preserving]: "preserves schemaOk (recordAuditTx actor ty i act v)"
  by (rule preserves_schema_frame) (auto simp: recordAudit_Inr)

lemma preserves_schema_deleted [preserving]: "preserves schemaOk (insertDeletedRecord ty i sn actor)"
  by (rule preserves_schema_frame)
    (auto simp: insertDeletedRecord_def bindT_Inr_iff newUUID_Inr split: if_splits)

lemma preserves_schema_insertRow [preserving]:
  assumes "\<not> r_deleted r" "r_folder r = None" "t = Organizations \<Longrightarrow> r_parent r = []"
  shows "preserves schemaOk (insertRow t r)"
  by (rule preservesI) (rule schemaOk_insertRow, assumption, assumption, use assms in \<open>auto simp: parentOk_def\<close>)

lemma keepsRow_mark: "keepsRow (\<lambda>r. if P r \<and> \<not> r_deleted r then markDeleted a n r else r)"
  by (simp add: keepsRow_def markDeleted_def)

lemma preserves_schema_softDelete [preserving]: "preserves schemaOk (softDeleteRows t P actor)"
  by (rule preservesI) (auto simp: softDeleteRows_Inr intro: schemaOk_mapRows keepsRow_mark)

lemma schemaOk_secrets: "schemaOk st \<Longrightarrow> secretsOk ss \<Longrightarrow> schemaOk (st\<lparr>secretsT := ss\<rparr>)"
  by (erule schemaOk_tables) simp_all

lemma keepsSecret_mark: "keepsSecret (\<lambda>s. if P s \<and> \<not> s_deleted s then markSecretDeleted a n s else s)"
  by (simp add: keepsSecret_def markSecretDeleted_def)

lemma preserves_schema_softDeleteSecrets [preserving]: "preserves schemaOk (softDeleteSecrets P actor)"
proof (rule preservesI)
  fix st r st' assume a: "schemaOk st" "softDeleteSecrets P actor st = Inr (r, st')"
  then have "secretsOk (secretsT st)" by (simp add: schemaOk_def)
  from a schemaOk_secrets [OF a(1) secretsOk_map [OF this keepsSecret_mark]] show "schemaOk st'"
    by (simp add: softDeleteSecrets_Inr)
qed

lemma preserves_schema_insertSecret [preserving]:
  "\<not> s_deleted s \<Longrightarrow> preserves schemaOk (insertSecret s)"
proof (rule preservesI)
  fix st x st' assume a: "\<not> s_deleted s" "schemaOk st" "insertSecret s st = Inr (x, st')"
  have "secretsOk (secretsT st)" using a(2) by (simp add: schemaOk_def)
  with a have "st' = st\<lparr>secretsT := secretsT st @ [s]\<rparr>" "secretsOk (secretsT st @ [s])"
    by (auto simp: insertSecret_def secretsOk_def activeSecretKeys_def split: if_splits)
  with schemaOk_secrets [OF a(2)] show "schemaOk st'" by simp
qed

text \<open>An update in place: the new row keeps identifier and folder, its key is checked against the others.\<close>

lemma secretsOk_update:
  assumes "secretsOk ss" "findFirst (\<lambda>s. s_id s = i \<and> \<not> s_deleted s) ss = Some s"
    and "s_id s' = i" "\<not> s_deleted s'" "keyPattern (s_key s')"
    and "secretIndexKey s' \<notin> set (activeSecretKeys (filter (\<lambda>x. s_id x \<noteq> i) ss))"
  shows "secretsOk (map (\<lambda>x. if s_id x = i \<and> \<not> s_deleted x then s' else x) ss)"
proof -
  let ?f = "\<lambda>x. if s_id x = i \<and> \<not> s_deleted x then s' else x"
  have ids: "map s_id (map ?f ss) = map s_id ss" using assms(3) by auto
  have l: "activeSecretKeys (x # xs) =
      (if s_deleted x then activeSecretKeys xs else secretIndexKey x # activeSecretKeys xs)" for x xs
    by (simp add: activeSecretKeys_def)
  have sub: "set (activeSecretKeys (map ?f xs)) \<subseteq>
      insert (secretIndexKey s') (set (activeSecretKeys (filter (\<lambda>x. s_id x \<noteq> i) xs)))" for xs
    by (induction xs) (auto simp: l activeSecretKeys_def)
  have other: "i \<notin> set (map s_id xs) \<Longrightarrow> map ?f xs = xs" for xs by (induction xs) auto
  have fsub: "set (activeSecretKeys (filter P xs)) \<subseteq> set (activeSecretKeys xs)" for P xs
    by (auto simp: activeSecretKeys_def)
  have "distinct (map s_id ss) \<Longrightarrow> distinct (activeSecretKeys ss) \<Longrightarrow>
      secretIndexKey s' \<notin> set (activeSecretKeys (filter (\<lambda>x. s_id x \<noteq> i) ss)) \<Longrightarrow>
      distinct (activeSecretKeys (map ?f ss))" for ss
  proof (induction ss)
    case (Cons x xs)
    show ?case
    proof (cases "s_id x = i")
      case True
      then have n: "i \<notin> set (map s_id xs)" using Cons.prems(1) by auto
      have fx: "filter (\<lambda>x. s_id x \<noteq> i) xs = xs" using n by (induction xs) auto
      have new: "secretIndexKey s' \<notin> set (activeSecretKeys xs)"
        using Cons.prems(3) True unfolding filter.simps fx by (simp add: l fx)
      have d: "distinct (activeSecretKeys xs)" using Cons.prems(2) by (simp add: l split: if_splits)
      show ?thesis using True new d assms(4) by (simp only: list.map other [OF n] l) auto
    next
      case False
      have IH: "distinct (activeSecretKeys (map ?f xs))"
        using Cons.prems False by (intro Cons.IH) (auto simp: l split: if_splits)
      show ?thesis
      proof (cases "s_deleted x")
        case True
        with IH False show ?thesis by (simp add: l)
      next
        case nd: False
        have "secretIndexKey x \<noteq> secretIndexKey s'" using Cons.prems(3) False nd by (auto simp: l)
        moreover have "secretIndexKey x \<notin> set (activeSecretKeys xs)"
          using Cons.prems(2) nd by (simp add: l)
        ultimately have "secretIndexKey x \<notin> set (activeSecretKeys (map ?f xs))"
          using sub [of xs] fsub [of "\<lambda>x. s_id x \<noteq> i" xs] by blast
        with IH False nd show ?thesis by (simp add: l)
      qed
    qed
  qed (simp add: activeSecretKeys_def)
  then have "distinct (activeSecretKeys (map ?f ss))" using assms(1,6) by (simp add: secretsOk_def)
  moreover have "list_all (\<lambda>s. keyPattern (s_key s)) (map ?f ss)"
    using assms(1,5) by (auto simp: secretsOk_def list_all_iff)
  ultimately show ?thesis using assms(1) unfolding secretsOk_def ids by simp
qed

lemma preserves_schema_updateSecret [preserving]:
  assumes "\<And>s. s_id (f s) = s_id s \<and> s_folder (f s) = s_folder s \<and> (s_deleted (f s) \<longleftrightarrow> s_deleted s)"
  shows "preserves schemaOk (updateSecretRow i f)"
proof (rule preservesI)
  fix st r st' assume a: "schemaOk st" "updateSecretRow i f st = Inr (r, st')"
  show "schemaOk st'"
  proof (cases "findSecret i st")
    case None
    with a show ?thesis by (simp add: updateSecretRow_def)
  next
    case (Some s)
    note s = findSecret_Some [OF Some]
    have so: "secretsOk (secretsT st)" using a(1) by (simp add: schemaOk_def)
    from a(2) Some have c: "keyPattern (s_key (f s))"
      "secretIndexKey (f s) \<notin> set (activeSecretKeys (filter (\<lambda>x. s_id x \<noteq> i) (secretsT st)))"
      "st' = st\<lparr>secretsT := map (\<lambda>x. if s_id x = i \<and> \<not> s_deleted x then f s else x) (secretsT st)\<rparr>"
      by (auto simp: updateSecretRow_def Let_def split: if_splits)
    have "secretsOk (map (\<lambda>x. if s_id x = i \<and> \<not> s_deleted x then f s else x) (secretsT st))"
      by (rule secretsOk_update [OF so Some [unfolded findSecret_def] _ _ c(1,2)]) (use s assms in auto)
    with c(3) schemaOk_secrets [OF a(1)] show ?thesis by simp
  qed
qed

section \<open>Transactions keep it\<close>

lemma preserves_schema_snapshot [preserving]:
  "preserves schemaOk (snapshotAndSoftDeleteTx t i actor ty)"
  "preserves schemaOk (snapshotAndSoftDeleteSecretTx i actor)"
  unfolding snapshotAndSoftDeleteTx_def snapshotAndSoftDeleteSecretTx_def by (intro preserving)+

lemmas cascade_tx_defs = deleteOrganizationTx_def deleteProjectTx_def deleteEnvironmentTx_def deleteFolderTx_def
  softDeleteByParentTx_def softDeleteEnvUnderOrgTx_def softDeleteFolderUnderOrgTx_def softDeleteSecretUnderOrgTx_def
  softDeleteFolderUnderProjectTx_def softDeleteSecretsUnderProjectTx_def softDeleteSecretsUnderEnvTx_def

lemma preserves_schema_cascades:
  "preserves schemaOk (deleteOrganizationTx i actor)" "preserves schemaOk (deleteProjectTx i actor)"
  "preserves schemaOk (deleteEnvironmentTx i actor)" "preserves schemaOk (deleteFolderTx i actor)"
  unfolding cascade_tx_defs by (intro preserving)+

lemma preserves_schema_createEntity [preserving]:
  "(t = Organizations \<Longrightarrow> parent = []) \<Longrightarrow> preserves schemaOk (createEntityTx t parent code name comment actor)"
  unfolding createEntityTx_def Let_def by (intro preserving) simp_all

lemma preserves_schema_createEnvironment [preserving]:
  "preserves schemaOk (createEnvironmentTx p code name comment actor srt)"
  unfolding createEnvironmentTx_def Let_def by (intro preserving) simp_all

lemma preserves_schema_template [preserving]:
  "preserves schemaOk (upsertEnvironmentTemplateTx org code name comment actor)"
  unfolding upsertEnvironmentTemplateTx_def Let_def by (intro preserving) simp_all

lemma preserves_schema_createProject: "preserves schemaOk (createProjectTx org code name comment actor envs)"
  unfolding createProjectTx_def by (intro preserving) simp_all

lemma preserves_schema_secretWrites [preserving]:
  "preserves schemaOk (insertSecretTx i fid key c m actor)"
  "preserves schemaOk (updateOneTx i key m actor c)"
  "preserves schemaOk (commentOneTx m actor i)"
  unfolding insertSecretTx_def updateOneTx_def commentOneTx_def
  by (intro preserving; simp add: setSecret_def)+

lemma preserves_schema_secretBatches [preserving]:
  "preserves schemaOk (createSecretTx fid key m actor c)" "preserves schemaOk (batchCreateTx items)"
  "preserves schemaOk (batchUpdateTx uitems)"
  unfolding createSecretTx_def batchCreateTx_def batchUpdateTx_def insertBatchItemTx_def updateItemTx_def
  by (intro preserving)+

section \<open>Folders\<close>

text \<open>A batch of folders needs its parents to exist throughout; nothing in the batch removes a row.\<close>

definition planOk :: "(str \<times> str option) list \<Rightarrow> store \<Rightarrow> bool" where
  "planOk plan st \<longleftrightarrow> schemaOk st \<and> list_all (\<lambda>(env, pf). case pf of None \<Rightarrow> True
     | Some p \<Rightarrow> list_ex (\<lambda>q. r_id q = p \<and> r_level q = 1 \<and> r_parent q = env) (tbl st Folders)) plan"

lemma planOk_schema: "planOk plan st \<Longrightarrow> schemaOk st" by (simp add: planOk_def)

lemma planOk_insertFolder:
  assumes "(env, pf) \<in> set plan"
  shows "preserves (planOk plan) (insertFolderTx env pf lvl code name comment actor ep)"
proof (rule preservesI)
  fix st e st' assume p: "planOk plan st" and tx: "insertFolderTx env pf lvl code name comment actor ep st = Inr (e, st')"
  from tx obtain i s1 u s2 u' where n: "newUUID st = Inr (i, s1)"
    and ins: "insertRow Folders (newRow i env code name comment actor 0 pf lvl (clock s1)) s1 = Inr (u, s2)"
    and au: "recordAuditTx actor ''folder'' i ''create'' NoPayload s2 = Inr (u', st')"
    by (auto simp: insertFolderTx_def bindT_Inr_iff Let_def translated_Inr)
  from n have s1: "tbl s1 = tbl st" "secretsT s1 = secretsT st" by (auto simp: newUUID_Inr)
  note fr = recordAudit_frame [OF au]
  have ok1: "schemaOk s1" by (rule schemaOk_cong [OF planOk_schema [OF p] s1])
  have "parentOk s1 (newRow i env code name comment actor 0 pf lvl (clock s1))"
    using p assms s1 by (auto simp: planOk_def parentOk_def list_all_iff split: option.splits)
  then have "schemaOk s2" by (intro schemaOk_insertRow [OF ok1 ins]) simp_all
  then have ok: "schemaOk st'" using fr schemaOk_cong by blast
  have sub: "set (tbl st Folders) \<subseteq> set (tbl st' Folders)"
    using insertRow_Inr [OF ins] s1 fr(1) by auto
  have "list_ex P (tbl st' Folders)" if "list_ex P (tbl st Folders)" for P
    using that sub by (auto simp: list_ex_iff)
  with p ok show "planOk plan st'" by (auto simp: planOk_def list_all_iff split: option.splits)
qed

lemma siblingParent_plan:
  assumes "siblingParent st pc env = Inr (env', pid)"
  shows "list_ex (\<lambda>q. r_id q = pid \<and> r_level q = 1 \<and> r_parent q = env') (tbl st Folders)"
proof -
  let ?P = "\<lambda>f. r_parent f = env \<and> r_code f = pc \<and> r_level f = 1 \<and> \<not> r_deleted f"
  obtain f where f: "findFirst ?P (tbl st Folders) = Some f" "env' = env" "pid = r_id f"
    using assms by (cases "findFirst ?P (tbl st Folders)") (auto simp: siblingParent_def simp del: findFirst_None)
  from findFirst_Some [OF f(1)] f(2,3) show ?thesis by (auto simp: list_ex_iff)
qed

lemma schema_createFolder:
  assumes "schemaOk st" "createFolder envId pf code name comment actor level st = (r, st')"
  shows "schemaOk st'"
proof (cases "level = 1")
  case True
  have p: "preserves schemaOk (bindT (createEntityTx Folders envId code name comment actor)
      (\<lambda>e. bindT (recordAuditTx actor ''folder'' (e_id e) ''create'' NoPayload) (\<lambda>_. retT e)))"
    by (intro preserving) simp
  from preserves_runTx [OF p assms(1)] True assms(2) show ?thesis
    by (simp add: createFolder_def createEntity_def)
next
  case False
  show ?thesis
  proof (cases "st' = st")
    case True
    with assms(1) show ?thesis by simp
  next
    case False2: False
    from False False2 assms(2) obtain q where q: "anyRow Folders pf st = Some q" "r_level q = 1" "r_parent q = envId"
      and tx: "runTx (insertFolderTx envId (Some pf) level code name comment actor pf) st = (r, st')"
      by (auto simp: createFolder_def split: if_splits option.splits)
    have "q \<in> set (tbl st Folders)" "r_id q = pf" using q(1) by (auto simp: anyRow_def dest: findFirst_Some)
    then have "planOk [(envId, Some pf)] st" using assms(1) q by (auto simp: planOk_def list_ex_iff)
    then show ?thesis
      by (intro planOk_schema [OF preserves_runTx [OF planOk_insertFolder _ tx]]) simp_all
  qed
qed

lemma schema_createFoldersAcrossEnvs:
  assumes "schemaOk st" "createFoldersAcrossEnvs pc code name comment actor envIds st = (r, st')"
  shows "schemaOk st'"
proof (cases "st' = st")
  case True
  with assms(1) show ?thesis by simp
next
  case False
  with assms(2) obtain v plan where pl: "mapE (siblingParent st pc) v = Inr plan"
    and tx: "runTx (mapT (\<lambda>(envId, pid). insertFolderTx envId (Some pid) 2 code name comment actor pid) plan) st = (r, st')"
    by (auto simp: createFoldersAcrossEnvs_def split: if_splits sum.splits)
  let ?plan = "map (\<lambda>(e, p). (e, Some p)) plan"
  have "planOk ?plan st"
    using assms(1) siblingParents_all [OF pl] siblingParent_plan
    by (auto simp: planOk_def list_all_iff) blast
  moreover have "preserves (planOk ?plan) (mapT (\<lambda>(envId, pid).
      insertFolderTx envId (Some pid) 2 code name comment actor pid) plan)"
    by (intro preserves_mapT) (force intro!: planOk_insertFolder)
  ultimately show ?thesis using preserves_runTx [OF _ _ tx] planOk_schema by blast
qed

lemma schema_createTopLevelFolders:
  assumes "schemaOk st" "createTopLevelFoldersInEnvs code name comment actor envIds st = (r, st')"
  shows "schemaOk st'"
proof (cases "st' = st")
  case True
  with assms(1) show ?thesis by simp
next
  case False
  with assms(2) obtain v where
    tx: "runTx (mapT (\<lambda>envId. insertFolderTx envId None 1 code name comment actor envId) v) st = (r, st')"
    by (auto simp: createTopLevelFoldersInEnvs_def split: if_splits sum.splits)
  let ?plan = "map (\<lambda>e. (e, None)) v"
  have "planOk ?plan st" using assms(1) by (auto simp: planOk_def list_all_iff)
  moreover have "preserves (planOk ?plan) (mapT (\<lambda>envId.
      insertFolderTx envId None 1 code name comment actor envId) v)"
    by (intro preserves_mapT) (force intro!: planOk_insertFolder)
  ultimately show ?thesis using preserves_runTx [OF _ _ tx] planOk_schema by blast
qed

section \<open>RBAC operations do not touch the data\<close>

definition dataIs :: "(tab \<Rightarrow> row list) \<Rightarrow> secretRow list \<Rightarrow> store \<Rightarrow> bool" where
  "dataIs T S st \<longleftrightarrow> tbl st = T \<and> secretsT st = S"

lemma preserves_data_writes [preserving]:
  "preserves (dataIs T S) newUUID" "preserves (dataIs T S) (insertRole r)"
  "preserves (dataIs T S) (replaceRole r)" "preserves (dataIs T S) (addRolePerm rid pid)"
  "preserves (dataIs T S) (clearRolePerms rid)" "preserves (dataIs T S) (insertBinding b)"
  "preserves (dataIs T S) (roleIdByCodeTx c)"
  by (auto simp: preserves_def dataIs_def newUUID_Inr insertRole_def replaceRole_def addRolePerm_def
      clearRolePerms_def insertBinding_def roleIdByCodeTx_def split: if_splits option.splits)

lemma preserves_data_user [preserving]: "preserves (dataIs T S) (upsertUserByIdTx i n e)"
  by (rule preservesI) (erule upsertUser_effect, simp add: dataIs_def)

lemma preserves_data_bindAudit [preserving]:
  "preserves (dataIs T S) (recordRoleBindingAuditTx a act tg r stp sid)"
  unfolding recordRoleBindingAuditTx_def
  by (rule preserves_bindT [OF preserves_data_writes(1)]) (simp add: preserves_def dataIs_def)

lemma preserves_data_perm [preserving]: "preserves (dataIs T S) (upsertPermissionTx p)"
  unfolding upsertPermissionTx_def by (intro preserving) (auto simp: preserves_def dataIs_def)

lemma preserves_data_txs:
  "preserves (dataIs T S) (grantRoleTx u n e rc stp sid ex a)"
  "preserves (dataIs T S) (revokeRoleTx u rc stp sid a)" "preserves (dataIs T S) ensureSystemDataTx"
  unfolding grantRoleTx_def revokeRoleTx_def ensureSystemDataTx_def ensureRoleTx_def upsertSystemRoleTx_def
  by (intro preserving; auto simp: preserves_def dataIs_def)+

lemma cacheUserLabel_data [simp]:
  "tbl (cacheUserLabel u n st) = tbl st" "secretsT (cacheUserLabel u n st) = secretsT st"
  by (simp_all add: cacheUserLabel_def Let_def)

lemma dataIs_same: "dataIs (tbl st) (secretsT st) st' \<longleftrightarrow> tbl st' = tbl st \<and> secretsT st' = secretsT st"
  by (simp add: dataIs_def)

lemma runTx_data:
  "(\<And>T S. preserves (dataIs T S) m) \<Longrightarrow> runTx m st = (r, st') \<Longrightarrow> tbl st' = tbl st \<and> secretsT st' = secretsT st"
  using preserves_runTx [of "dataIs (tbl st) (secretsT st)" m st r st'] by (simp add: dataIs_def)

lemma rbac_step_data: "rbac_step st st' \<Longrightarrow> tbl st' = tbl st \<and> secretsT st' = secretsT st"
proof (induction rule: rbac_step.induct)
  case (grant userId n e rc stp sid ex actor st r st')
  obtain q st1 where q: "runTx (grantRoleTx userId n e rc stp sid ex actor) st = (q, st1)" by fastforce
  from runTx_data [OF preserves_data_txs(1) q] grant q show ?case
    by (cases q) (auto simp: grantRole_def Let_def)
next
  case (revoke uid rc stp sid actor st r' st')
  then show ?case using runTx_data [OF preserves_data_txs(2)] by (simp add: revokeRole_def)
next
  case (bootstrap userId n st r' st')
  show ?case
  proof (cases "trimSpace userId = []")
    case True
    with bootstrap show ?thesis by (simp add: ensureBootstrapAdmin_def)
  next
    case False
    define m where "m = bindT (upsertUserByIdTx userId n []) (\<lambda>uid. bindT (roleIdByCodeTx ''platform_admin'') (\<lambda>rid.
             bindT getT (\<lambda>st. case activeBindingId st uid rid ''global'' [] of
               Some _ \<Rightarrow> retT uid
             | None \<Rightarrow> bindT newUUID (\<lambda>i.
                 bindT (insertBinding (mkBinding i uid rid ''global'' None ''bootstrap'' None (clock st))) (\<lambda>_.
                 retT uid)))))"
    obtain q st1 where q: "runTx m st = (q, st1)" by fastforce
    have "\<And>T S. preserves (dataIs T S) m" unfolding m_def by (intro preserving)
    from runTx_data [OF this q] bootstrap False q show ?thesis
      by (cases q) (auto simp: ensureBootstrapAdmin_def m_def [symmetric])
  qed
next
  case (system st r' st')
  then show ?case using runTx_data [OF preserves_data_txs(3)] by (simp add: ensureSystemData_def)
next
  case (sync i n e st r'' st')
  obtain q st1 where q: "runTx (upsertUserByIdTx i n e) st = (q, st1)" by fastforce
  from runTx_data [OF preserves_data_user q] sync q show ?case
    by (cases q; cases "getUserById st1 i") (auto simp: syncUser_def)
next
  case (create c n d stp sid ps actor st rv st')
  show ?case
    using create unfolding createRole_def
    by (rule runTx_data [rotated]) (auto simp: replaceRolePermissionsTx_def Let_def intro!: preserving)
next
  case (update i c n d stp sid ps actor st rv st')
  show ?case
    using update unfolding updateRole_def
    by (rule runTx_data [rotated]) (auto simp: replaceRolePermissionsTx_def Let_def intro!: preserving)
qed (auto simp: deleteRole_def split: if_splits)

section \<open>Histories\<close>

lemma runTx_schema: "runTx m st = (r, st') \<Longrightarrow> schemaOk st \<Longrightarrow> preserves schemaOk m \<Longrightarrow> schemaOk st'"
  by (rule preserves_runTx)

inductive app_step :: "store \<Rightarrow> store \<Rightarrow> bool" where
  rbac: "rbac_step st st' \<Longrightarrow> app_step st st'"
| createOrganization: "createOrganization code name comment actor st = (r, st') \<Longrightarrow> app_step st st'"
| updateEntity: "updateEntity t i name comment actor ty st = (r, st') \<Longrightarrow> app_step st st'"
| deleteOrganization: "deleteOrganization i actor force st = (s, st') \<Longrightarrow> app_step st st'"
| createProject: "createProject org code name comment actor envs st = (r, st') \<Longrightarrow> app_step st st'"
| deleteProject: "deleteProject i actor st = (s, st') \<Longrightarrow> app_step st st'"
| createEnvironment: "createEnvironment p code name comment actor st = (r, st') \<Longrightarrow> app_step st st'"
| deleteEnvironment: "deleteEnvironment i actor st = (s, st') \<Longrightarrow> app_step st st'"
| createFolder: "createFolder env pf code name comment actor level st = (r, st') \<Longrightarrow> app_step st st'"
| createFolders: "createFoldersAcrossEnvs pc code name comment actor envIds st = (rs, st') \<Longrightarrow> app_step st st'"
| createTopFolders: "createTopLevelFoldersInEnvs code name comment actor envIds st = (rs, st') \<Longrightarrow> app_step st st'"
| deleteFolder: "deleteFolder i actor st = (s, st') \<Longrightarrow> app_step st st'"
| createSecret: "createSecret fid key m actor c st = (x, st') \<Longrightarrow> app_step st st'"
| createSecrets: "batchCreateSecrets items st = (xs, st') \<Longrightarrow> app_step st st'"
| updateSecret: "updateSecret i key m actor c st = (x, st') \<Longrightarrow> app_step st st'"
| updateSecrets: "batchUpdateSecrets uitems st = (xs, st') \<Longrightarrow> app_step st st'"
| commentSecrets: "batchUpdateCommentByIds idl m actor st = (u, st') \<Longrightarrow> app_step st st'"
| deleteSecret: "deleteSecret i actor st = (u, st') \<Longrightarrow> app_step st st'"
| audit: "recordAudit actor ty i act v st = (u, st') \<Longrightarrow> app_step st st'"

lemma schema_createEntity:
  "schemaOk st \<Longrightarrow> (t = Organizations \<Longrightarrow> parent = []) \<Longrightarrow>
   createEntity t parent code name comment actor ty st = (r, st') \<Longrightarrow> schemaOk st'"
  unfolding createEntity_def
  by (erule preserves_runTx [rotated 2]; (intro preserving)?; simp?)

lemma keepsRow_update: "keepsRow (\<lambda>x. if P x then x\<lparr>r_name := n, r_comment := c, r_updatedBy := a, r_updatedAt := k\<rparr> else x)"
  by (simp add: keepsRow_def)

lemma preserves_schema_editRows [preserving]:
  "keepsRow f \<Longrightarrow> preserves schemaOk (\<lambda>st. Inr ((), setTbl t (map f (tbl st t)) st))"
  by (rule preservesI) (auto intro: schemaOk_mapRows)

lemma schema_updateEntity:
  assumes "schemaOk st" "updateEntity t i name comment actor ty st = (r, st')"
  shows "schemaOk st'"
  by (rule runTx_schema [OF assms(2) [unfolded updateEntity_def Let_def] assms(1)])
    (intro preserving keepsRow_update)

lemma schema_secretWrite:
  assumes "schemaOk st" "preserves schemaOk m"
    and "(case runTx m st of (Inl e, s) \<Rightarrow> (Inl e, s) | (Inr y, s) \<Rightarrow> (f y s, s)) = (r, st')"
  shows "schemaOk st'"
  using assms preserves_runTx [OF assms(2,1)] by (auto split: prod.splits sum.splits)

lemma app_step_schemaOk: "app_step st st' \<Longrightarrow> schemaOk st \<Longrightarrow> schemaOk st'"
proof (induction rule: app_step.induct)
  case (rbac st st')
  then show ?case using rbac_step_data schemaOk_cong by blast
next
  case (createOrganization code name comment actor st r st')
  then have "createEntity Organizations [] code name comment actor ''organization'' st = (r, st')"
    by (auto simp: createOrganization_def split: prod.splits sum.splits goErr.splits if_splits)
  with createOrganization show ?case by (blast intro: schema_createEntity)
next
  case (updateEntity t i name comment actor ty st r st')
  then show ?case by (blast intro: schema_updateEntity)
next
  case (deleteOrganization i actor force st s st')
  then show ?case
    using preserves_runTx [OF preserves_schema_cascades(1)] by (auto simp: deleteOrganization_def split: if_splits)
next
  case (createProject org code name comment actor envs st r st')
  then show ?case using preserves_runTx [OF preserves_schema_createProject] by (auto simp: createProject_def)
next
  case (deleteProject i actor st s st')
  then show ?case using preserves_runTx [OF preserves_schema_cascades(2)] by (auto simp: deleteProject_def)
next
  case (createEnvironment p code name comment actor st r st')
  show ?case
    by (rule preserves_runTx [where P = schemaOk, OF _ createEnvironment(2) createEnvironment(1) [unfolded createEnvironment_def]])
      (intro preserving)
next
  case (deleteEnvironment i actor st s st')
  then show ?case using preserves_runTx [OF preserves_schema_cascades(3)] by (auto simp: deleteEnvironment_def)
next
  case (createFolder env pf code name comment actor level st r st')
  then show ?case by (blast intro: schema_createFolder)
next
  case (createFolders pc code name comment actor envIds st rs st')
  then show ?case by (blast intro: schema_createFoldersAcrossEnvs)
next
  case (createTopFolders code name comment actor envIds st rs st')
  then show ?case by (blast intro: schema_createTopLevelFolders)
next
  case (deleteFolder i actor st s st')
  then show ?case using preserves_runTx [OF preserves_schema_cascades(4)] by (auto simp: deleteFolder_def)
next
  case (createSecret fid key m actor c st x st')
  then show ?case using schema_secretWrite [OF _ preserves_schema_secretBatches(1)] by (auto simp: createSecret_def)
next
  case (createSecrets items st xs st')
  then show ?case
    using schema_secretWrite [OF _ preserves_schema_secretBatches(2)]
    by (auto simp: batchCreateSecrets_def split: if_splits)
next
  case (updateSecret i key m actor c st x st')
  then show ?case using schema_secretWrite [OF _ preserves_schema_secretWrites(2)] by (auto simp: updateSecret_def)
next
  case (updateSecrets uitems st xs st')
  then show ?case
    using schema_secretWrite [OF _ preserves_schema_secretBatches(3)]
    by (auto simp: batchUpdateSecrets_def split: if_splits)
next
  case (commentSecrets idl m actor st u st')
  show ?case
  proof (cases "length idl = 0")
    case True
    with commentSecrets show ?thesis by (simp add: batchUpdateCommentByIds_def)
  next
    case False
    with commentSecrets(1) have "runTx (bindT (mapT (commentOneTx m actor) idl) (\<lambda>entries.
        recordAuditTx actor ''secret'' (hd idl) ''update_comment_batch'' (EntriesPayload entries))) st = (u, st')"
      by (simp add: batchUpdateCommentByIds_def)
    from runTx_schema [OF this commentSecrets(2)] show ?thesis by (blast intro: preserving)
  qed
next
  case (deleteSecret i actor st u st')
  then show ?case using preserves_runTx [OF preserves_schema_snapshot(2)] by (auto simp: deleteSecret_def)
next
  case (audit actor ty i act v st u st')
  then show ?case using preserves_runTx [OF preserves_schema_audit] by (auto simp: recordAudit_def)
qed

text \<open>C1. Over every history of writing operations of the repository and of RBAC, from the empty store, with
  any arguments and results, the stored data satisfy the schema: primary keys are unique, no two active rows
  share the columns of their unique index, codes and keys have their patterns, environments and templates
  have existing parents, folders have the level that fits their parent column. Beyond the schema, a
  sub-folder's parent is a top-level folder of the same environment, so folders never nest deeper.\<close>

theorem schema_reachable:
  assumes "rtranclp app_step emptyStore st"
  shows "(\<forall>t. distinct (map r_id (tbl st t)) \<and> distinct (activeKeys (tbl st t)) \<and>
            list_all (\<lambda>r. checkOk t r \<and> fkOk t r st) (tbl st t)) \<and>
         distinct (map s_id (secretsT st)) \<and> distinct (activeSecretKeys (secretsT st)) \<and>
         list_all (\<lambda>s. keyPattern (s_key s)) (secretsT st) \<and>
         list_all (\<lambda>f. case r_folder f of None \<Rightarrow> r_level f = 1
           | Some p \<Rightarrow> r_level f = 2 \<and>
               list_ex (\<lambda>q. r_id q = p \<and> r_level q = 1 \<and> r_folder q = None \<and> r_parent q = r_parent f)
                 (tbl st Folders)) (tbl st Folders)"
proof -
  have ok: "schemaOk st"
    using assms by (induction rule: rtranclp_induct) (auto intro: schemaOk_empty app_step_schemaOk)
  have lv: "levelCheck f" if "f \<in> set (tbl st Folders)" for f
    using ok that by (auto simp: schemaOk_def tableOk_def checkOk_def list_all_iff)
  have "case r_folder f of None \<Rightarrow> r_level f = 1
      | Some p \<Rightarrow> r_level f = 2 \<and>
          list_ex (\<lambda>q. r_id q = p \<and> r_level q = 1 \<and> r_folder q = None \<and> r_parent q = r_parent f) (tbl st Folders)"
    if f: "f \<in> set (tbl st Folders)" for f
  proof (cases "r_folder f")
    case None
    with lv [OF f] show ?thesis by (simp add: levelCheck_def)
  next
    case (Some p)
    have "parentOk st f" using ok f by (auto simp: schemaOk_def list_all_iff)
    then obtain q where "q \<in> set (tbl st Folders)" "r_id q = p" "r_level q = 1" "r_parent q = r_parent f"
      using Some by (auto simp: parentOk_def list_ex_iff)
    with lv [of q] lv [OF f] Some show ?thesis by (auto simp: levelCheck_def list_ex_iff)
  qed
  with ok show ?thesis by (auto simp: schemaOk_def tableOk_def secretsOk_def list_all_iff)
qed

definition seedStore :: store where
  "seedStore = snd (createOrganization ''acme'' ''Acme'' [] ''root'' (emptyStore\<lparr>ids := [''i1'', ''i2'']\<rparr>))"

theorem schema_reachable_witness:
  "map r_code (tbl seedStore Organizations) = [''acme''] \<and> distinct (map r_id (tbl seedStore Organizations))"
proof -
  have "rbac_step emptyStore (emptyStore\<lparr>ids := [''i1'', ''i2'']\<rparr>)" by (rule rbac_step.draw)
  then have "app_step emptyStore (emptyStore\<lparr>ids := [''i1'', ''i2'']\<rparr>)" by (rule app_step.rbac)
  moreover have "app_step (emptyStore\<lparr>ids := [''i1'', ''i2'']\<rparr>) seedStore"
    unfolding seedStore_def by (rule app_step.createOrganization) (rule surjective_pairing)
  ultimately have "rtranclp app_step emptyStore seedStore" by (metis r_into_rtranclp rtranclp_trans)
  note s = schema_reachable [OF this]
  have "map r_code (tbl seedStore Organizations) = [''acme'']" by code_simp
  with s show ?thesis by blast
qed

end
