(* ===== verification/SecretWriteProps.thy ===== *)
theory SecretWriteProps
  imports SchemaProps
begin

text \<open>
  What the writes of the secret repository do to the table: a batch is all or nothing, an update replaces one
  row and counts its version, a comment update leaves the ciphertexts alone.
\<close>

section \<open>Batches of new secrets\<close>

definition batchRow :: "nat \<Rightarrow> str \<times> batchCreateItem \<Rightarrow> secretRow" where
  "batchRow now x = (case x of (i, it) \<Rightarrow>
     newSecretRow i (bc_folder it) (bc_key it) (bc_cipher it) (bc_comment it) (bc_actor it) now)"

lemma newUUIDs_effect:
  "mapT (\<lambda>it. bindT newUUID (\<lambda>i. retT (i, it))) items st = Inr (ps, st') \<Longrightarrow>
     map snd ps = items \<and> (\<exists>l. st' = st\<lparr>ids := l\<rparr>)"
proof (induction items arbitrary: st ps)
  case (Cons it items)
  from Cons.prems obtain x s1 ps' where h: "bindT newUUID (\<lambda>i. retT (i, it)) st = Inr (x, s1)"
    and t1: "mapT (\<lambda>it. bindT newUUID (\<lambda>i. retT (i, it))) items s1 = Inr (ps', st')" and p1: "ps = x # ps'"
    unfolding mapT.simps bindT_Inr_iff tx_simps by blast
  from h obtain i l where "x = (i, it)" "s1 = st\<lparr>ids := l\<rparr>" by (auto simp: bindT_Inr_iff newUUID_Inr)
  with t1 p1 have p: "ps = (i, it) # ps'"
    and t: "mapT (\<lambda>it. bindT newUUID (\<lambda>i. retT (i, it))) items (st\<lparr>ids := l\<rparr>) = Inr (ps', st')" by auto
  from Cons.IH [OF t] p show ?case by auto
next
  case Nil
  then show ?case by (auto intro: exI [of _ "ids st'"])
qed

lemma insertBatch_effect:
  "mapT (\<lambda>(i, it). insertBatchItemTx i it) ps st = Inr (es, st') \<Longrightarrow>
     st' = st\<lparr>secretsT := secretsT st @ map (batchRow (clock st)) ps\<rparr> \<and>
     map (\<lambda>(_, _, i). i) es = map fst ps \<and> map (\<lambda>(_, k, _). k) es = map (\<lambda>(_, it). bc_key it) ps"
proof (induction ps arbitrary: st es)
  case (Cons x ps)
  obtain i it where x: "x = (i, it)" by (cases x)
  from Cons.prems x obtain e es' st1 where h: "insertBatchItemTx i it st = Inr (e, st1)"
    and t: "mapT (\<lambda>(i, it). insertBatchItemTx i it) ps st1 = Inr (es', st')" and es: "es = e # es'"
    by (auto simp: bindT_Inr_iff)
  have s1: "st1 = st\<lparr>secretsT := secretsT st @ [batchRow (clock st) x]\<rparr> \<and> fst (snd e) = bc_key it \<and> snd (snd e) = i"
    using h x by (auto simp: insertBatchItemTx_def insertSecretTx_def bindT_Inr_iff translated_Inr batchRow_def
        insertSecret_def split: option.splits if_splits)
  from Cons.IH [OF t] s1 es x show ?case by (auto split: prod.splits)
qed simp

lemma batchCreateTx_effect:
  assumes "batchCreateTx items st = Inr (idl, st')"
  obtains ps a where "map snd ps = items" "map fst ps = idl"
    "secretsT st' = secretsT st @ map (batchRow (clock st)) ps" "tbl st' = tbl st" "clock st' = clock st"
    "auditT st' = auditT st @ [a]" "a_action a = ''create_batch''" "labelsC st' = labelsC st"
proof -
  from assms obtain ps s1 es s2 u where n: "mapT (\<lambda>it. bindT newUUID (\<lambda>i. retT (i, it))) items st = Inr (ps, s1)"
    and ins: "mapT (\<lambda>(i, it). insertBatchItemTx i it) ps s1 = Inr (es, s2)"
    and au: "recordAuditTx (bc_actor (hd items)) ''folder'' (templateFolder items) ''create_batch'' (EntriesPayload es) s2 =
      Inr (u, st')"
    and idl: "idl = map (\<lambda>(_, _, i). i) es"
    by (auto simp: batchCreateTx_def bindT_Inr_iff)
  note n' = newUUIDs_effect [OF n] and i' = insertBatch_effect [OF ins]
  obtain b l where b: "st' = s2\<lparr>ids := l, auditT := auditT s2 @ [b]\<rparr>" "a_action b = ''create_batch''"
    using au by (auto simp: recordAudit_Inr)
  show thesis
    by (rule that [of ps b]) (use n' i' idl b recordAudit_frame [OF au] in auto)
qed

lemma batchCreateSecrets_effect:
  assumes "schemaOk st" "items \<noteq> []" "batchCreateSecrets items st = (r, st')"
  shows "(\<exists>e. r = Inl e \<and> st' = st) \<or>
         (\<exists>idl a. length idl = length items \<and>
            secretsT st' = secretsT st @ map (batchRow (clock st)) (zip idl items) \<and>
            distinct (map s_id (secretsT st')) \<and> distinct (activeSecretKeys (secretsT st')) \<and>
            tbl st' = tbl st \<and> auditT st' = auditT st @ [a] \<and> a_action a = ''create_batch'' \<and>
            r = mapE (getSecret st') idl)"
proof (cases "runTx (batchCreateTx items) st")
  case (Pair q s1)
  show ?thesis
  proof (cases q)
    case (Inl e)
    with Pair assms show ?thesis by (auto simp: batchCreateSecrets_def dest: runTx_Inl)
  next
    case (Inr idl)
    with Pair assms(2,3) have r: "r = mapE (getSecret st') idl" "s1 = st'" by (auto simp: batchCreateSecrets_def)
    from Pair Inr r have tx: "batchCreateTx items st = Inr (idl, st')" by (simp add: runTx_Inr)
    have ok: "schemaOk st'"
      by (rule app_step_schemaOk [OF app_step.createSecrets [OF assms(3)] assms(1)])
    show ?thesis
    proof (rule batchCreateTx_effect [OF tx])
      fix ps a assume e: "map snd ps = items" "map fst ps = idl"
        "secretsT st' = secretsT st @ map (batchRow (clock st)) ps" "tbl st' = tbl st"
        "auditT st' = auditT st @ [a]" "a_action a = ''create_batch''"
      have "ps = zip idl items" using e(1,2) by (metis zip_map_fst_snd)
      moreover have "length idl = length items" using e(1,2) by (metis length_map)
      ultimately show ?thesis using e r ok by (auto simp: schemaOk_def secretsOk_def)
    qed
  qed
qed

text \<open>Creating a batch of secrets is all or nothing. Either nothing was written and the batch failed, or,
  for a non-empty batch, one new live row per item was appended, in order, with the item's folder, key,
  ciphertext, comment and actor at version 1, identifiers and active (folder, key) pairs stay unique, one
  audit record for the whole batch was written, and the result is what reading those rows back gives.\<close>

theorem batchCreateSecrets_all_or_nothing:
  assumes "schemaOk st" "items \<noteq> []" "batchCreateSecrets items st = (r, st')"
  shows "(\<exists>e. r = Inl e \<and> st' = st) \<or>
         (\<exists>idl a. length idl = length items \<and>
            secretsT st' = secretsT st @ map (batchRow (clock st)) (zip idl items) \<and>
            distinct (map s_id (secretsT st')) \<and> distinct (activeSecretKeys (secretsT st')) \<and>
            tbl st' = tbl st \<and> auditT st' = auditT st @ [a] \<and> a_action a = ''create_batch'' \<and>
            r = mapE (getSecret st') idl)"
  by (rule batchCreateSecrets_effect [OF assms])

definition demoItems :: "batchCreateItem list" where
  "demoItems = [\<lparr> bc_folder = ''f'', bc_key = ''A1'', bc_comment = [], bc_actor = ''al'', bc_cipher = demoCipher \<rparr>,
     \<lparr> bc_folder = ''g'', bc_key = ''A1'', bc_comment = [], bc_actor = ''al'', bc_cipher = demoCipher \<rparr>]"

lemma demo_schema: "schemaOk demoStore" by code_simp

theorem batchCreateSecrets_all_or_nothing_witness:
  "length (secretsT (snd (batchCreateSecrets demoItems demoStore))) = 4 \<and>
   distinct (activeSecretKeys (secretsT (snd (batchCreateSecrets demoItems demoStore))))"
proof -
  let ?g = "batchCreateSecrets demoItems demoStore"
  have ok: "is_ok (fst ?g)" by code_simp
  have l: "length demoItems = 2" "length (secretsT demoStore) = 2" by (simp_all add: demoItems_def demoStore_def)
  have ne: "demoItems \<noteq> []" by (simp add: demoItems_def)
  have g: "?g = (fst ?g, snd ?g)" by simp
  from batchCreateSecrets_all_or_nothing [OF demo_schema ne g] ok
  obtain idl a where "length idl = length demoItems"
    "secretsT (snd ?g) = secretsT demoStore @ map (batchRow (clock demoStore)) (zip idl demoItems)"
    "distinct (activeSecretKeys (secretsT (snd ?g)))" by auto
  with l show ?thesis by simp
qed

section \<open>Updates\<close>

lemma updateSecretRow_Some:
  assumes "updateSecretRow i f st = Inr (Some s', st')"
  shows "\<exists>s. findSecret i st = Some s \<and> s' = f s \<and> keyPattern (s_key (f s)) \<and>
    st' = st\<lparr>secretsT := map (\<lambda>x. if s_id x = i \<and> \<not> s_deleted x then f s else x) (secretsT st)\<rparr>"
proof (cases "findSecret i st")
  case (Some s)
  then have "updateSecretRow i f st = (if \<not> keyPattern (s_key (f s)) then Inl pgCheck
      else if secretIndexKey (f s) \<in> set (activeSecretKeys (filter (\<lambda>x. s_id x \<noteq> i) (secretsT st))) then Inl pgUnique
      else Inr (Some (f s), st\<lparr>secretsT := map (\<lambda>x. if s_id x = i \<and> \<not> s_deleted x then f s else x) (secretsT st)\<rparr>))"
    by (simp add: updateSecretRow_def Let_def)
  with assms Some show ?thesis by (simp split: if_splits)
qed (use assms in \<open>simp add: updateSecretRow_def\<close>)

lemma updateOneTx_effect:
  assumes "updateOneTx i key m actor c st = Inr (j, st')"
  obtains s a where "findSecret i st = Some s" "j = i" "keyPattern key"
    "secretsT st' = map (\<lambda>x. if s_id x = i \<and> \<not> s_deleted x then setSecret key c m actor (clock st) s else x) (secretsT st)"
    "tbl st' = tbl st" "labelsC st' = labelsC st" "clock st' = clock st"
    "auditT st' = auditT st @ [a]" "a_action a = ''update''" "a_resource a = i" "a_actor a = actor"
proof -
  let ?f = "setSecret key c m actor (clock st)"
  from assms obtain q s1 where up: "updateSecretRow i ?f st = Inr (q, s1)"
    and rest: "(case q of None \<Rightarrow> failT ErrNotFound
      | Some s \<Rightarrow> bindT (recordAuditTx actor ''secret'' (s_id s) ''update'' (CipherPayload c)) (\<lambda>_. retT (s_id s))) s1 =
      Inr (j, st')"
    by (auto simp only: updateOneTx_def bindT_Inr_iff translated_Inr getT_simp sum.inject prod.inject)
  from rest obtain s' where q: "q = Some s'" by (cases q) auto
  from updateSecretRow_Some [OF up [unfolded q]] obtain s where f: "findSecret i st = Some s" "keyPattern (s_key (?f s))"
    and s1: "s' = ?f s" "s1 = st\<lparr>secretsT := map (\<lambda>x. if s_id x = i \<and> \<not> s_deleted x then ?f s else x) (secretsT st)\<rparr>"
    by blast
  from rest q obtain u where au: "recordAuditTx actor ''secret'' (s_id s') ''update'' (CipherPayload c) s1 = Inr (u, st')"
    and j: "j = s_id s'" unfolding q option.case bindT_Inr_iff tx_simps sum.inject prod.inject by blast
  have k: "keyPattern key" using f(2) by (simp add: setSecret_def)
  have id': "s_id s' = s_id s" using s1(1) by (simp add: setSecret_def)
  note s = findSecret_Some [OF f(1)]
  obtain a l where a: "st' = s1\<lparr>ids := l, auditT := auditT s1 @ [a]\<rparr>" "a_action a = ''update''" "a_resource a = s_id s'"
    "a_actor a = actor"
    using au by (auto simp: recordAudit_Inr)
  show thesis
    by (rule that [OF f(1) _ k, of a]) (use s j s1 a id' in auto)
qed

text \<open>Updating a secret that exists under new key, value and comment changes that row and no other: the
  row keeps its identifier, folder and creation data, takes the new key, ciphertext and comment, and its
  version grows by one; one audit record is written. If the transaction fails the store is unchanged.\<close>

theorem updateSecret_effect:
  assumes "schemaOk st" "updateSecret i key m actor c st = (r, st')" "st' \<noteq> st"
  shows "\<exists>s s' a. findSecret i st = Some s \<and> findSecret i st' = Some s' \<and>
           s' = s\<lparr>s_key := key, s_cipher := c, s_comment := m, s_version := s_version s + 1,
                  s_updatedBy := actor, s_updatedAt := clock st\<rparr> \<and>
           filter (\<lambda>x. s_id x \<noteq> i) (secretsT st') = filter (\<lambda>x. s_id x \<noteq> i) (secretsT st) \<and>
           tbl st' = tbl st \<and> auditT st' = auditT st @ [a] \<and> a_action a = ''update'' \<and> a_resource a = i \<and>
           r = getSecret st' i"
proof -
  from assms(2,3) obtain j where tx: "updateOneTx i key m actor c st = Inr (j, st')" and r: "r = getSecret st' j"
    by (auto simp: updateSecret_def runTx_Inr dest: runTx_Inl split: prod.splits sum.splits)
  show ?thesis
  proof (rule updateOneTx_effect [OF tx])
    fix s a assume e: "findSecret i st = Some s" "j = i" "tbl st' = tbl st"
      "secretsT st' = map (\<lambda>x. if s_id x = i \<and> \<not> s_deleted x then setSecret key c m actor (clock st) s else x) (secretsT st)"
      "auditT st' = auditT st @ [a]" "a_action a = ''update''" "a_resource a = i"
    note s = findSecret_Some [OF e(1)]
    let ?s' = "setSecret key c m actor (clock st) s"
    have id': "s_id ?s' = i" "\<not> s_deleted ?s'" using s by (simp_all add: setSecret_def)
    have flt: "filter (\<lambda>x. s_id x \<noteq> i) (map (\<lambda>x. if s_id x = i \<and> \<not> s_deleted x then ?s' else x) xs) =
        filter (\<lambda>x. s_id x \<noteq> i) xs" for xs
      using id' by (induction xs) auto
    have fnd: "findFirst (\<lambda>x. s_id x = i \<and> \<not> s_deleted x)
        (map (\<lambda>x. if s_id x = i \<and> \<not> s_deleted x then ?s' else x) xs) =
        map_option (\<lambda>_. ?s') (findFirst (\<lambda>x. s_id x = i \<and> \<not> s_deleted x) xs)" for xs
      using id' by (induction xs) auto
    have "findSecret i st' = Some ?s'"
      using e(1) fnd [of "secretsT st"] by (simp add: findSecret_def e(4))
    then show ?thesis
      using e flt [of "secretsT st"] r by (auto simp: setSecret_def)
  qed
qed

theorem updateSecret_effect_witness:
  "map_option s_version (findSecret ''t'' (snd (updateSecret ''t'' ''NEW'' [] ''al'' demoCipher demoStore))) = Some 2"
proof -
  let ?g = "updateSecret ''t'' ''NEW'' [] ''al'' demoCipher demoStore"
  have g: "?g = (fst ?g, snd ?g)" by simp
  have "length (auditT (snd ?g)) = 1" "length (auditT demoStore) = 0" by code_simp+
  then have ne: "snd ?g \<noteq> demoStore" by fastforce
  have v: "map_option s_version (findSecret ''t'' demoStore) = Some 1" by code_simp
  from updateSecret_effect [OF demo_schema g ne] v show ?thesis by auto
qed

section \<open>Comments\<close>

definition secretView :: "secretRow \<Rightarrow> str \<times> str \<times> str \<times> secretCiphertext \<times> int \<times> bool" where
  "secretView s = (s_id s, s_folder s, s_key s, s_cipher s, s_version s, s_deleted s)"

lemma preserves_view:
  assumes "distinct (map fst V)" "\<And>s. secretView (f s) = secretView s"
  shows "preserves (\<lambda>st. map secretView (secretsT st) = V) (updateSecretRow i f)"
proof (rule preservesI)
  fix st r st' assume v: "map secretView (secretsT st) = V" and up: "updateSecretRow i f st = Inr (r, st')"
  show "map secretView (secretsT st') = V"
  proof (cases r)
    case None
    then have "st' = st" using up by (auto simp: updateSecretRow_def Let_def split: option.splits if_splits)
    with v show ?thesis by simp
  next
    case (Some s')
    from updateSecretRow_Some [OF up [unfolded Some]] obtain s where s: "findSecret i st = Some s"
      and st': "st' = st\<lparr>secretsT := map (\<lambda>x. if s_id x = i \<and> \<not> s_deleted x then f s else x) (secretsT st)\<rparr>" by blast
    note m = findSecret_Some [OF s]
    have "map fst V = map s_id (secretsT st)" unfolding v [symmetric] by (simp add: secretView_def comp_def)
    with assms(1) have d: "distinct (map s_id (secretsT st))" by simp
    have "x = s" if "x \<in> set (secretsT st)" "s_id x = i" for x
      using distinct_map_inj [OF d that(1) conjunct1 [OF m]] that(2) m by simp
    then have "map secretView (map (\<lambda>x. if s_id x = i \<and> \<not> s_deleted x then f s else x) (secretsT st)) =
        map secretView (secretsT st)" using assms(2) by (auto intro!: map_cong)
    with v st' show ?thesis by simp
  qed
qed

lemma preserves_view_frame:
  "(\<And>st x st'. m st = Inr (x, st') \<Longrightarrow> secretsT st' = secretsT st) \<Longrightarrow>
   preserves (\<lambda>st. map secretView (secretsT st) = V) m"
  by (auto simp: preserves_def)

text \<open>Updating comments never touches values. Whatever \<open>BatchUpdateCommentByIds\<close> returns, every row of
  the secrets table keeps its identifier, folder, key, ciphertext, version and state.\<close>

theorem comment_update_keeps_values:
  assumes "schemaOk st" "batchUpdateCommentByIds idl m actor st = (r, st')"
  shows "map secretView (secretsT st') = map secretView (secretsT st)"
proof (cases "length idl = 0")
  case True
  with assms show ?thesis by (simp add: batchUpdateCommentByIds_def)
next
  case False
  let ?P = "\<lambda>s. map secretView (secretsT s) = map secretView (secretsT st)"
  have d: "distinct (map fst (map secretView (secretsT st)))"
    using assms(1) by (simp add: schemaOk_def secretsOk_def secretView_def comp_def)
  have up: "preserves ?P (updateSecretRow i (\<lambda>s. s\<lparr>s_comment := m, s_updatedBy := actor, s_updatedAt := k\<rparr>))" for i k
    by (rule preserves_view [OF d]) (simp add: secretView_def)
  have au: "preserves ?P (recordAuditTx a ty i act v)" for a ty i act v
    by (rule preserves_view_frame) (auto simp: recordAudit_Inr)
  have "preserves ?P (bindT (mapT (commentOneTx m actor) idl) (\<lambda>entries.
      recordAuditTx actor ''secret'' (hd idl) ''update_comment_batch'' (EntriesPayload entries)))"
    unfolding commentOneTx_def by (intro preserving up au)
  from preserves_runTx [where P = ?P, OF this refl] assms(2) False show ?thesis
    by (simp add: batchUpdateCommentByIds_def)
qed

theorem comment_update_keeps_values_witness:
  "map secretView (secretsT (snd (batchUpdateCommentByIds [''s'', ''t''] ''note'' ''al'' demoStore))) =
   map secretView (secretsT demoStore) \<and>
   map s_comment (secretsT (snd (batchUpdateCommentByIds [''s'', ''t''] ''note'' ''al'' demoStore))) = [''note'', ''note'']"
proof -
  have g: "batchUpdateCommentByIds [''s'', ''t''] ''note'' ''al'' demoStore =
    (fst (batchUpdateCommentByIds [''s'', ''t''] ''note'' ''al'' demoStore),
     snd (batchUpdateCommentByIds [''s'', ''t''] ''note'' ''al'' demoStore))" by simp
  have "map s_comment (secretsT (snd (batchUpdateCommentByIds [''s'', ''t''] ''note'' ''al'' demoStore))) = [''note'', ''note'']"
    by code_simp
  with comment_update_keeps_values [OF demo_schema g] show ?thesis by blast
qed

end
