(* ===== verification/ServiceProps.thy ===== *)
theory ServiceProps
  imports SecretBatch SecretWriteProps
begin

text \<open>
  Correctness of the secret service: encrypt-store-reveal round trips, the reveal audit, what a denied
  authorization leaves unchanged, paths, batches, and what the listings across environments and the search
  show.
\<close>

section \<open>Paths\<close>

lemma codePattern_chars:
  assumes "codePattern s" "c \<in> set s"
  shows "isLowerC c \<or> isDigitC c \<or> c = CHR ''-''"
proof -
  have "set s = set (joinWith CHR ''-'' (splitOn CHR ''-'' s))" by (simp add: joinWith_splitOn)
  also have "\<dots> \<subseteq> {CHR ''-''} \<union> \<Union> (set ` set (splitOn CHR ''-'' s))"
  proof -
    have "set (joinWith d xs) \<subseteq> {d} \<union> \<Union> (set ` set xs)" for d :: char and xs
      by (induction d xs rule: joinWith.induct) auto
    then show ?thesis .
  qed
  finally show ?thesis using assms by (auto simp: codePattern_def list_all_iff)
qed

lemma codePattern_nonempty: "codePattern s \<Longrightarrow> s \<noteq> []"
  by (auto simp: codePattern_def)

lemma codePattern_plain:
  assumes "codePattern s"
  shows "CHR ''.'' \<notin> set s" "\<forall>c \<in> set s. \<not> isSpace c"
  using codePattern_chars [OF assms] by (fastforce simp: isLowerC_def isDigitC_def isSpace_def)+

lemma keyPattern_plain:
  assumes "keyPattern s"
  shows "CHR ''.'' \<notin> set s" "\<forall>c \<in> set s. \<not> isSpace c" "s \<noteq> []"
proof -
  have c: "isUpperC c \<or> isDigitC c \<or> c = CHR ''_''" if "c \<in> set s" for c
    using assms that by (auto simp: keyPattern_def list_all_iff split: list.splits)
  show "CHR ''.'' \<notin> set s" "\<forall>c \<in> set s. \<not> isSpace c"
    using c by (fastforce simp: isUpperC_def isDigitC_def isSpace_def)+
  show "s \<noteq> []" using assms by (auto simp: keyPattern_def)
qed

lemma parseSecretPath_Inr:
  "parseSecretPath path = Inr (a, b, c, d, e) \<longleftrightarrow>
     splitOn CHR ''.'' (trimSpace path) = [a, b, c, d, e] \<and> list_all (\<lambda>p. trimSpace p \<noteq> []) [a, b, c, d, e]"
proof -
  have l: "length xs = 5 \<longleftrightarrow> (\<exists>a b c d e. xs = [a, b, c, d, e])" for xs :: "str list"
    by (auto simp: numeral_eq_Suc length_Suc_conv)
  show ?thesis
  proof (cases "length (splitOn CHR ''.'' (trimSpace path)) = 5")
    case True
    then obtain a' b' c' d' e' where "splitOn CHR ''.'' (trimSpace path) = [a', b', c', d', e']" using l by blast
    then show ?thesis by (auto simp: parseSecretPath_def Let_def numeral_eq_Suc)
  next
    case False
    then show ?thesis by (auto simp: parseSecretPath_def Let_def)
  qed
qed

text \<open>Paths parse back. The path of a secret, built from codes and a key that satisfy the patterns of the
  schema, parses to exactly these five parts; and whatever text parses to five parts is, up to surrounding
  white space, the path built from them, provided no part is empty.\<close>

theorem secret_path_roundtrip:
  assumes "codePattern o'" "codePattern p" "codePattern e" "codePattern f" "keyPattern k"
  shows "parseSecretPath (buildSecretPath o' p e f k) = Inr (o', p, e, f, k) \<and>
         (parseSecretPath path = Inr (o', p, e, f, k) \<longleftrightarrow> trimSpace path = buildSecretPath o' p e f k)"
proof -
  note ne = codePattern_nonempty [OF assms(1)] codePattern_nonempty [OF assms(2)]
    codePattern_nonempty [OF assms(3)] codePattern_nonempty [OF assms(4)] keyPattern_plain(3) [OF assms(5)]
  note pl = codePattern_plain [OF assms(1)] codePattern_plain [OF assms(2)] codePattern_plain [OF assms(3)]
    codePattern_plain [OF assms(4)] keyPattern_plain [OF assms(5)]
  let ?j = "joinWith CHR ''.'' [o', p, e, f, k]"
  have b: "buildSecretPath o' p e f k = ?j" using ne by (simp add: buildSecretPath_def)
  have s: "splitOn CHR ''.'' ?j = [o', p, e, f, k]" using pl by (intro splitOn_joinWith) simp_all
  have "\<not> isSpace CHR ''.''" by (simp add: isSpace_def)
  then have t: "trimSpace ?j = ?j" using pl by (intro trimSpace_nospace) auto
  have tr: "trimSpace o' = o'" "trimSpace p = p" "trimSpace e = e" "trimSpace f = f" "trimSpace k = k"
    using pl by (simp_all add: trimSpace_nospace)
  have "splitOn CHR ''.'' (trimSpace path) = [o', p, e, f, k] \<longleftrightarrow> trimSpace path = ?j"
    using s joinWith_splitOn [of "CHR ''.''" "trimSpace path"] by metis
  then show ?thesis unfolding parseSecretPath_Inr b t s using ne tr by simp
qed

theorem secret_path_roundtrip_witness:
  "parseSecretPath (buildSecretPath ''acme'' ''web-2'' ''dev'' ''pay'' ''API_KEY'') =
   Inr (''acme'', ''web-2'', ''dev'', ''pay'', ''API_KEY'')"
proof -
  have "codePattern ''acme''" "codePattern ''web-2''" "codePattern ''dev''" "codePattern ''pay''" "keyPattern ''API_KEY''"
    by code_simp+
  from secret_path_roundtrip [OF this] show ?thesis by blast
qed

section \<open>A concrete service\<close>

text \<open>The demo store with readable ciphertexts and a developer role that may read, reveal, create and update.\<close>

definition sealed :: "str \<Rightarrow> secretCiphertext" where
  "sealed v = \<lparr> sc_algorithm = aesAlgorithm, sc_nonce = [7], sc_data = 7 # map of_char v \<rparr>"

definition svcStore :: store where
  "svcStore = demoStore\<lparr>
     secretsT := [demoSecret ''s'' ''f'' ''K''\<lparr>s_cipher := sealed ''one''\<rparr>,
       demoSecret ''t'' ''g'' ''L''\<lparr>s_cipher := sealed ''two''\<rparr>],
     permsT := [demoPerm ''p1'' ''secret:read'', demoPerm ''p2'' ''rbac:role:manage'',
       demoPerm ''p3'' ''secret:reveal'', demoPerm ''p4'' ''secret:create'', demoPerm ''p5'' ''secret:search''],
     rolePermsT := [(''r1'', ''p1''), (''r1'', ''p3''), (''r1'', ''p4''), (''r1'', ''p5'')]\<rparr>"

definition demoSvc :: secretService where
  "demoSvc = \<lparr> ss_prefix = ''ev'', ss_enc = Some demoAead, ss_authz = storeAllow \<rparr>"

definition demoWorld :: world where
  "demoWorld = \<lparr> w_st = svcStore, w_rd = Some \<lparr> rd_up = True, rd_keys = [] \<rparr>, w_rand = [1, 2, 3, 4] \<rparr>"

section \<open>Surprising cases\<close>

text \<open>Revealing a folder by its codes reveals nothing: \<open>BatchRevealByCode\<close> hands a nil key slice to the
  query, whose condition on the keys is then NULL for every row, so for every caller and every store a
  well-formed call succeeds with the empty list and writes no audit record.\<close>

theorem batchRevealByCode_empty:
  assumes "trimSpace (ui_id u) \<noteq> []" "trimSpace orgCode \<noteq> []" "trimSpace projectCode \<noteq> []"
    "trimSpace envCode \<noteq> []" "trimSpace folderCode \<noteq> []"
  shows "batchRevealByCode svc u orgCode projectCode envCode folderCode actor w = (Inr [], w)"
proof -
  have "batchRevealSecretsByPath st uid act a b c d None = []" for st uid act a b c d
    by (simp add: batchRevealSecretsByPath_def keysCondition_def split_def)
  with assms show ?thesis by (simp add: batchRevealByCode_def requireS_def decryptAll_def)
qed

theorem batchRevealByCode_empty_witness:
  "fst (batchRevealByCode demoSvc (demoUI ''al'') ''org'' ''prj'' ''dev'' ''pay'' ''al'' demoWorld) = Inr [] \<and>
   map sec_value (fst (projr (fst (batchRevealByPath demoSvc (demoUI ''al'') ''org.prj.dev.pay'' None ''al'' demoWorld)))) =
     [''one'']"
proof -
  have "map sec_value (fst (projr (fst (batchRevealByPath demoSvc (demoUI ''al'') ''org.prj.dev.pay'' None ''al'' demoWorld)))) =
     [''one'']" by code_simp
  moreover have "trimSpace (ui_id (demoUI ''al'')) \<noteq> []" "trimSpace ''org'' \<noteq> []" "trimSpace ''prj'' \<noteq> []"
    "trimSpace ''dev'' \<noteq> []" "trimSpace ''pay'' \<noteq> []" by code_simp+
  ultimately show ?thesis
    using batchRevealByCode_empty [of "demoUI ''al''" "''org''" "''prj''" "''dev''" "''pay''" demoSvc "''al''" demoWorld]
    by simp
qed

text \<open>\<open>BatchUpdateByIDs\<close> ignores the authorizer: whatever authorizer the service is built with, the result
  and the state after it are the same, so it also updates for callers who may update nothing.\<close>

theorem batchUpdateByIDs_ignores_authorizer:
  "batchUpdateByIDs (svc\<lparr>ss_authz := az\<rparr>) u vals key comment actor w = batchUpdateByIDs svc u vals key comment actor w"
proof -
  have e: "encryptS (svc\<lparr>ss_authz := az\<rparr>) = encryptS svc" by (intro ext) (simp add: encryptS_def)
  have c: "cacheUpsert (svc\<lparr>ss_authz := az\<rparr>) = cacheUpsert svc" by (intro ext) (simp add: cacheUpsert_def)
  have "encryptSpecs (svc\<lparr>ss_authz := az\<rparr>) = encryptSpecs svc"
    by (intro ext) (simp add: encryptSpecs_def e)
  moreover have "storeAndCache (svc\<lparr>ss_authz := az\<rparr>) = storeAndCache svc"
    by (intro ext) (simp add: storeAndCache_def c)
  ultimately show ?thesis by (simp add: batchUpdateByIDs_def)
qed

text \<open>The grouping never has more groups than records.\<close>

lemma length_AList_update: "length (AList.update k v al) \<le> Suc (length al)"
  by (induction al) auto

lemma length_groupRecords: "length (groupRecords recs) \<le> length recs"
proof -
  have "length (fold addToGroup recs gs) \<le> length gs + length recs" for gs
  proof (induction recs arbitrary: gs)
    case (Cons r recs)
    have "length (addToGroup r gs) \<le> Suc (length gs)"
      by (simp add: addToGroup_def Let_def length_AList_update)
    with Cons [of "addToGroup r gs"] show ?case by simp
  qed simp
  from this [of "[]"] show ?thesis by (simp add: groupRecords_def)
qed

text \<open>A search over a project shows its first page only. The store has already cut out the requested page,
  and the grouping cuts out the same page again: from page 2 on the result is always empty, while the total
  still counts every match.\<close>

theorem project_search_pages_empty:
  assumes "trimSpace (lf_project fl) \<noteq> []" "trimSpace (lf_folder fl) = []" "trimSpace (lf_env fl) = []"
    and "trimSpace (ui_id u) \<noteq> []" "2 \<le> pageNum p"
  shows "\<exists>n. search svc u fl p w = (Inr \<lparr> pg_items = [], pg_total = n \<rparr>, w) \<and>
         n = pg_total (listSecretsWithCiphertext (w_st w) (ui_id u) ''secret:search'' (narrowSecretSearchScope fl) p)"
proof -
  let ?fl = "narrowSecretSearchScope fl"
  let ?r = "listSecretsWithCiphertext (w_st w) (ui_id u) ''secret:search'' ?fl p"
  have f: "lf_project ?fl \<noteq> []" using assms by (simp add: narrowSecretSearchScope_def Let_def)
  have "2 \<le> pageNum (normalize p)" using assms(5) by (simp add: normalize_def Let_def)
  then have off: "nat (limitOf p) \<le> nat (offsetOf p)"
    using normalize_bounds [of p] by (simp add: offsetOf_def limitOf_def nat_mono mult_le_cancel_right1)
  have len: "length (pg_items ?r) \<le> nat (limitOf p)"
    by (simp add: listSecretsWithCiphertext_def paginate_def length_pageOf)
  have ie: "pg_items (aggregateSecretsByProject ?r p) = []"
    using length_groupRecords [of "pg_items ?r"] len off
    by (simp add: aggregateSecretsByProject_def Let_def sliceFrom_def)
  have tot: "pg_total (aggregateSecretsByProject ?r p) = pg_total ?r"
  proof (cases "pg_total ?r = 0")
    case True
    then have "pg_items ?r = []"
      by (simp add: listSecretsWithCiphertext_def paginate_def pageOf_def sliceFrom_def)
    with True show ?thesis by (simp add: aggregateSecretsByProject_def Let_def groupRecords_def)
  qed (simp add: aggregateSecretsByProject_def Let_def)
  show ?thesis
    using assms(4) f ie tot by (simp add: search_def requireS_def Let_def)
qed

theorem project_search_pages_empty_witness:
  "pg_items (projr (fst (search demoSvc (demoUI ''al'') \<lparr>lf_env = [], lf_folder = [], lf_project = ''p'', lf_keyword = []\<rparr>
     \<lparr>pageNum = 2, pageSize = 1\<rparr> demoWorld))) = [] \<and>
   pg_total (projr (fst (search demoSvc (demoUI ''al'') \<lparr>lf_env = [], lf_folder = [], lf_project = ''p'', lf_keyword = []\<rparr>
     \<lparr>pageNum = 2, pageSize = 1\<rparr> demoWorld))) = 2"
proof -
  let ?fl = "\<lparr>lf_env = [], lf_folder = [], lf_project = ''p'', lf_keyword = []\<rparr>"
  let ?p = "\<lparr>pageNum = 2, pageSize = 1\<rparr>"
  have h: "trimSpace (lf_project ?fl) \<noteq> []" "trimSpace (lf_folder ?fl) = []" "trimSpace (lf_env ?fl) = []"
    "trimSpace (ui_id (demoUI ''al'')) \<noteq> []" by code_simp+
  have "pg_total (listSecretsWithCiphertext (w_st demoWorld) (ui_id (demoUI ''al'')) ''secret:search''
      (narrowSecretSearchScope ?fl) ?p) = 2" by code_simp
  with project_search_pages_empty [OF h, of ?p demoSvc demoWorld] show ?thesis by auto
qed

section \<open>Reveal\<close>

lemma storeS_iff [result_simps]:
  "storeS m w = (r, w') \<longleftrightarrow> (\<exists>st'. m (w_st w) = (r, st') \<and> w' = w\<lparr>w_st := st'\<rparr>)"
  by (auto simp: storeS_def split: prod.splits)

lemma recordAudit_cases:
  obtains e where "recordAudit actor ty i act v st = (Inl e, st)"
  | a l where "recordAudit actor ty i act v st = (Inr (), st\<lparr>ids := l, auditT := auditT st @ [a]\<rparr>)"
    "a_actor a = actor" "a_type a = ty" "a_resource a = i" "a_action a = act" "a_payload a = v"
proof (cases "recordAuditTx actor ty i act v st")
  case (Inl e)
  then show thesis using that(1) by (simp add: recordAudit_def runTx_def)
next
  case (Inr x)
  then obtain st' where x: "recordAuditTx actor ty i act v st = Inr ((), st')" by (cases x) auto
  then obtain a l where "st' = st\<lparr>ids := l, auditT := auditT st @ [a]\<rparr>" "a_actor a = actor" "a_type a = ty"
    "a_resource a = i" "a_action a = act" "a_payload a = v" by (auto simp: recordAudit_Inr)
  with x show thesis using that(2) by (simp add: recordAudit_def runTx_def)
qed

lemma getSecretCiphertext_Inr:
  "getSecretCiphertext st i = Inr (s, c) \<longleftrightarrow>
     (\<exists>row ch. findSecret i st = Some row \<and> joinFolder st (s_folder row) = Some ch \<and>
        s = scanSecret st 0 row ch \<and> c = s_cipher row)"
  by (auto simp: getSecretCiphertext_def split: option.splits)

lemma scanSecret_id [simp]: "sec_id (scanSecret st n s ch) = s_id s"
  by (cases ch) (simp add: scanSecret_def)

text \<open>C6. A plaintext leaves \<open>Reveal\<close> only audited. If the call succeeds, the authorizer allowed the caller
  \<open>secret:reveal\<close> on that secret, the value is the decryption of the stored ciphertext of the live secret with
  that identifier, exactly one audit record was appended, naming the actor, the secret and the action and
  holding no value, and nothing else of the tables, the cache or the random source changed. If it fails,
  nothing changed at all.\<close>

theorem reveal_audited:
  assumes "reveal svc u i actor w = (r, w')"
  shows "case r of
      Inl _ \<Rightarrow> w' = w
    | Inr s \<Rightarrow> ss_authz svc (w_st w) u ''secret:reveal'' (secretScope i) = Inr () \<and>
        (\<exists>row. findSecret i (w_st w) = Some row \<and> decryptS svc (s_cipher row) = Inr (sec_value s) \<and> sec_id s = i) \<and>
        (\<exists>a l. w' = w\<lparr>w_st := (w_st w)\<lparr>ids := l, auditT := auditT (w_st w) @ [a]\<rparr>\<rparr> \<and>
           a_actor a = actor \<and> a_type a = ''secret'' \<and> a_resource a = i \<and> a_action a = ''reveal'' \<and>
           a_payload a = NoPayload)"
proof (cases "ss_authz svc (w_st w) u ''secret:reveal'' (secretScope i)")
  case (Inl e)
  with assms show ?thesis by (auto simp: reveal_def allowS_def bindS_def)
next
  case allow: (Inr x)
  show ?thesis
  proof (cases "getSecretCiphertext (w_st w) i")
    case (Inl e)
    with allow assms show ?thesis by (auto simp: reveal_def allowS_def bindS_def)
  next
    case (Inr sc)
    obtain s c where sc: "sc = (s, c)" by (cases sc)
    from Inr sc obtain row ch where row: "findSecret i (w_st w) = Some row" "s = scanSecret (w_st w) 0 row ch"
      "c = s_cipher row" by (auto simp: getSecretCiphertext_Inr)
    have sid: "sec_id s = i" using row findSecret_Some [OF row(1)] by simp
    show ?thesis
    proof (cases "decryptS svc c")
      case (Inl e)
      with allow Inr sc assms show ?thesis by (auto simp: reveal_def allowS_def bindS_def)
    next
      case (Inr v)
      note got = \<open>getSecretCiphertext (w_st w) i = Inr sc\<close>
      have "reveal svc u i actor w =
          bindS (storeS (recordAudit actor ''secret'' i ''reveal'' NoPayload)) (\<lambda>_. retS (s\<lparr>sec_value := v\<rparr>)) w"
        using allow got sc Inr sid by (simp add: reveal_def allowS_def bindS_def)
      with assms have e: "bindS (storeS (recordAudit actor ''secret'' i ''reveal'' NoPayload))
          (\<lambda>_. retS (s\<lparr>sec_value := v\<rparr>)) w = (r, w')" by simp
      show ?thesis
      proof (rule recordAudit_cases [of actor "''secret''" i "''reveal''" NoPayload "w_st w"])
        fix e' assume "recordAudit actor ''secret'' i ''reveal'' NoPayload (w_st w) = (Inl e', w_st w)"
        with e show ?thesis by (auto simp: bindS_def storeS_def)
      next
        fix a l assume "recordAudit actor ''secret'' i ''reveal'' NoPayload (w_st w) =
            (Inr (), (w_st w)\<lparr>ids := l, auditT := auditT (w_st w) @ [a]\<rparr>)"
          and a: "a_actor a = actor" "a_type a = ''secret''" "a_resource a = i" "a_action a = ''reveal''"
            "a_payload a = NoPayload"
        with e have "r = Inr (s\<lparr>sec_value := v\<rparr>)" "w' = w\<lparr>w_st := (w_st w)\<lparr>ids := l, auditT := auditT (w_st w) @ [a]\<rparr>\<rparr>"
          by (auto simp: bindS_def storeS_def)
        with a allow row Inr sid show ?thesis by auto
      qed
    qed
  qed
qed

theorem reveal_audited_witness:
  "sec_value (projr (fst (reveal demoSvc (demoUI ''al'') ''s'' ''al'' demoWorld))) = ''one'' \<and>
   length (auditT (w_st (snd (reveal demoSvc (demoUI ''al'') ''s'' ''al'' demoWorld)))) = 1"
proof -
  let ?g = "reveal demoSvc (demoUI ''al'') ''s'' ''al'' demoWorld"
  have g: "?g = (fst ?g, snd ?g)" by simp
  have v: "is_ok (fst ?g)" "sec_value (projr (fst ?g)) = ''one''" by code_simp+
  have e: "length (auditT (w_st demoWorld)) = 0" by code_simp
  from v obtain s where s: "fst ?g = Inr s" by (cases "fst ?g") auto
  from reveal_audited [OF g] e have "length (auditT (w_st (snd ?g))) = 1" unfolding s by auto
  with v show ?thesis by blast
qed

text \<open>The value that \<open>Reveal\<close> returns for a secret that can be read, decrypted and audited.\<close>

lemma reveal_value:
  assumes "ss_authz svc (w_st w) u ''secret:reveal'' (secretScope i) = Inr ()"
    and "getSecret (w_st w) i = Inr s" "findSecret i (w_st w) = Some row" "decryptS svc (s_cipher row) = Inr v"
    and "ids (w_st w) = n # rest" "n \<notin> set (map a_id (auditT (w_st w)))"
  shows "\<exists>w'. reveal svc u i actor w = (Inr (s\<lparr>sec_value := v\<rparr>), w')"
proof -
  have g: "getSecretCiphertext (w_st w) i = Inr (s, s_cipher row)"
    using assms(2,3) by (auto simp: getSecret_def getSecretCiphertext_def split: option.splits)
  have "recordAuditTx actor ''secret'' (sec_id s) ''reveal'' NoPayload (w_st w) \<noteq> Inl e" for e
    using assms(5,6) by (auto simp: recordAuditTx_def bindT_def newUUID_def)
  then obtain x where "recordAuditTx actor ''secret'' (sec_id s) ''reveal'' NoPayload (w_st w) = Inr x"
    by (meson sum.exhaust)
  with assms(1,4) g show ?thesis
    by (cases x) (auto simp: reveal_def allowS_def bindS_def storeS_def recordAudit_def runTx_def)
qed

lemma encryptS_Inr:
  "encryptS svc v w = (Inr c, w') \<Longrightarrow> ss_enc svc = Some ae \<Longrightarrow> aeadOk ae \<Longrightarrow>
     decryptS svc c = Inr v \<and> w_st w' = w_st w \<and> w_rd w' = w_rd w"
  by (auto simp: encryptS_def decryptS_def decrypt_encrypt split: sum.splits)

lemma cacheUpsert_Inr: "cacheUpsert svc s c w = (r, w') \<Longrightarrow> r = Inr () \<and> w_st w' = w_st w \<and> w_rand w' = w_rand w"
  by (auto simp: cacheUpsert_def cacheS_def split: option.splits)

lemma createSecret_effect:
  assumes "createSecret fid key m actor c st = (Inr s, st')"
  obtains i row where "getSecret st' i = Inr s" "findSecret i st' = Some row" "s_cipher row = c" "s_folder row = fid"
    "s_key row = key" "s_comment row = m" "s_version row = 1" "tbl st' = tbl st" "secretsT st' = secretsT st @ [row]"
proof -
  from assms obtain i where tx: "createSecretTx fid key m actor c st = Inr (i, st')" and g: "getSecret st' i = Inr s"
    by (auto simp: createSecret_def runTx_Inr split: prod.splits sum.splits)
  from tx obtain s1 s2 u u' where n: "newUUID st = Inr (i, s1)"
    and ins: "insertSecret (newSecretRow i fid key c m actor (clock s1)) s1 = Inr (u, s2)"
    and au: "recordAuditTx actor ''secret'' i ''create'' (CipherPayload c) s2 = Inr (u', st')"
    by (auto simp: createSecretTx_def insertSecretTx_def bindT_Inr_iff translated_Inr)
  let ?row = "newSecretRow i fid key c m actor (clock s1)"
  from n have s1: "secretsT s1 = secretsT st" "tbl s1 = tbl st" by (auto simp: newUUID_Inr)
  from ins have s2: "secretsT s2 = secretsT st @ [?row]" "tbl s2 = tbl st" "i \<notin> set (map s_id (secretsT st))"
    using s1 by (auto simp: insertSecret_def split: if_splits)
  have fin: "secretsT st' = secretsT st @ [?row]" "tbl st' = tbl st" using recordAudit_frame [OF au] s2 by simp_all
  have "findFirst (\<lambda>s. s_id s = i \<and> \<not> s_deleted s) (xs @ [?row]) = Some ?row"
    if "i \<notin> set (map s_id xs)" for xs using that by (induction xs) auto
  from this [OF s2(3)] have "findSecret i st' = Some ?row" by (simp add: findSecret_def fin)
  with g fin show thesis by (intro that) simp_all
qed

text \<open>C26. What was stored is what is revealed. When \<open>Create\<close> succeeds with an encryptor whose AEAD opens what it
  seals, then any caller the authorizer allows \<open>secret:reveal\<close> on the returned secret gets, as long as the
  audit record can be written, exactly that secret with the value that was created, and the secret has the
  requested folder and key at version 1.\<close>

theorem create_then_reveal:
  assumes "create svc u fid key v m actor w = (Inr s, w1)" "ss_enc svc = Some ae" "aeadOk ae"
    and "ss_authz svc (w_st w1) u2 ''secret:reveal'' (secretScope (sec_id s)) = Inr ()"
    and "ids (w_st w1) = n # rest" "n \<notin> set (map a_id (auditT (w_st w1)))"
  shows "(\<exists>w2. reveal svc u2 (sec_id s) actor2 w1 = (Inr (s\<lparr>sec_value := v\<rparr>), w2)) \<and>
         sec_folderId s = fid \<and> sec_key s = key \<and> sec_comment s = m \<and> sec_version s = 1"
proof -
  from assms(1) obtain c wb st1 where en: "encryptS svc v w = (Inr c, wb)"
    and cr0: "createSecret fid key m actor c (w_st wb) = (Inr s, st1)"
    and cu: "cacheUpsert svc s c (wb\<lparr>w_st := st1\<rparr>) = (Inr (), w1)"
    by (auto simp: create_def bindS_Inr_iff allowS_def storeS_iff)
  have cr: "createSecret fid key m actor c (w_st wb) = (Inr s, w_st w1)" using cr0 cacheUpsert_Inr [OF cu] by simp
  have d: "decryptS svc c = Inr v" using encryptS_Inr [OF en assms(2,3)] by blast
  show ?thesis
  proof (rule createSecret_effect [OF cr])
    fix i row assume e: "getSecret (w_st w1) i = Inr s" "findSecret i (w_st w1) = Some row" "s_cipher row = c"
      "s_folder row = fid" "s_key row = key" "s_comment row = m" "s_version row = 1"
    from e(1,2) obtain ch where s: "s = scanSecret (w_st w1) 0 row ch"
      by (auto simp: getSecret_def split: option.splits)
    have sid: "sec_id s = i" using findSecret_Some [OF e(2)] s by simp
    have "\<exists>w2. reveal svc u2 i actor2 w1 = (Inr (s\<lparr>sec_value := v\<rparr>), w2)"
      by (rule reveal_value [OF assms(4) [unfolded sid] e(1,2) _ assms(5,6)]) (simp add: e(3) d)
    with sid s e show ?thesis by (cases ch) (simp add: scanSecret_def)
  qed
qed

theorem create_then_reveal_witness:
  "let w1 = snd (create demoSvc (demoUI ''al'') ''g'' ''DB_URL'' ''pg'' [] ''al'' demoWorld);
       s = projr (fst (create demoSvc (demoUI ''al'') ''g'' ''DB_URL'' ''pg'' [] ''al'' demoWorld))
   in sec_value (projr (fst (reveal demoSvc (demoUI ''al'') (sec_id s) ''al'' w1))) = ''pg''"
proof -
  let ?g = "create demoSvc (demoUI ''al'') ''g'' ''DB_URL'' ''pg'' [] ''al'' demoWorld"
  let ?s = "projr (fst ?g)"
  have "is_ok (fst ?g)" by code_simp
  then obtain s where s: "fst ?g = Inr s" by (cases "fst ?g") auto
  then have g: "?g = (Inr ?s, snd ?g)" by (simp add: prod_eq_iff)
  have a: "ss_authz demoSvc (w_st (snd ?g)) (demoUI ''al'') ''secret:reveal'' (secretScope (sec_id ?s)) = Inr ()"
    by code_simp
  have i: "ids (w_st (snd ?g)) = ''n3'' # [''n4'', ''n5'', ''n6'', ''n7'', ''n8'']"
    "''n3'' \<notin> set (map a_id (auditT (w_st (snd ?g))))" by code_simp+
  have e: "ss_enc demoSvc = Some demoAead" by (simp add: demoSvc_def)
  from create_then_reveal [OF g e demoAead_ok a i, of "''al''"] show ?thesis by (auto simp: Let_def)
qed

end
