(* ===== verification/BatchProps.thy ===== *)
theory BatchProps
  imports ServiceProps
begin

text \<open>
  The batch operations and the listings of the secret service against the authorizer: creating a batch is
  atomic and authorized per folder, and every value that a listing shows belongs to a secret on which the
  caller holds the permission that the listing stands for.
\<close>

section \<open>Handlers over lists\<close>

lemma mapS_Cons:
  "f x w = (Inl e, w1) \<Longrightarrow> mapS f (x # xs) w = (Inl e, w1)"
  "f x w = (Inr y, w1) \<Longrightarrow> mapS f xs w1 = (rt, w2) \<Longrightarrow>
     mapS f (x # xs) w = ((case rt of Inl e \<Rightarrow> Inl e | Inr ys \<Rightarrow> Inr (y # ys)), w2)"
  by (cases rt; simp)+

lemma encryptS_frame: "encryptS svc v w = (r, w') \<Longrightarrow> w_st w' = w_st w \<and> w_rd w' = w_rd w"
  by (auto simp: encryptS_def split: option.splits sum.splits)

lemma encryptTargets_effect:
  assumes "mapS (\<lambda>(item, e). bindS (encryptS svc (bt_value e)) (\<lambda>c. retS (item, e, c))) xs w = (r, w')"
    and "ss_enc svc = Some ae" "aeadOk ae"
  shows "w_st w' = w_st w \<and> w_rd w' = w_rd w \<and>
    (\<forall>ts. r = Inr ts \<longrightarrow> map (\<lambda>(i, e, c). (i, e)) ts = xs \<and> (\<forall>(i, e, c) \<in> set ts. decryptS svc c = Inr (bt_value e)))"
  using assms(1)
proof (induction xs arbitrary: w r w')
  case (Cons x xs)
  obtain i e where x: "x = (i, e)" by (cases x)
  let ?m = "mapS (\<lambda>(item, e). bindS (encryptS svc (bt_value e)) (\<lambda>c. retS (item, e, c)))"
  let ?f = "\<lambda>(item, e). bindS (encryptS svc (bt_value e)) (\<lambda>c. retS (item, e, c))"
  obtain re w1 where en: "encryptS svc (bt_value e) w = (re, w1)" by fastforce
  note fr = encryptS_frame [OF en]
  show ?case
  proof (cases re)
    case (Inl er)
    with x en have "?f x w = (Inl er, w1)" by simp
    from trans [OF Cons.prems [symmetric] mapS_Cons(1) [where f = ?f, OF this]] fr show ?thesis by simp
  next
    case (Inr c)
    obtain rt w2 where t: "?m xs w1 = (rt, w2)" by fastforce
    from x en Inr have "?f x w = (Inr (i, e, c), w1)" by simp
    from trans [OF Cons.prems [symmetric] mapS_Cons(2) [where f = ?f, OF this t]]
    have "w' = w2" "r = (case rt of Inl er \<Rightarrow> Inl er | Inr ts \<Rightarrow> Inr ((i, e, c) # ts))" by simp_all
    moreover have "decryptS svc c = Inr (bt_value e)" using encryptS_Inr [OF en [unfolded Inr] assms(2,3)] by blast
    ultimately show ?thesis using Cons.IH [OF t] fr x by (auto split: sum.splits)
  qed
qed simp

lemma allowAll_effect:
  assumes "mapS (\<lambda>x. allowS svc u act (f x)) xs w = (r, w')"
  shows "w' = w \<and> (case r of Inl e \<Rightarrow> True | Inr _ \<Rightarrow> \<forall>x \<in> set xs. ss_authz svc (w_st w) u act (f x) = Inr ())"
  using assms
proof (induction xs arbitrary: r w')
  case (Cons x xs)
  show ?case
  proof (cases "ss_authz svc (w_st w) u act (f x)")
    case (Inl e)
    with Cons.prems show ?thesis by (auto simp: bindS_def allowS_def)
  next
    case (Inr y)
    obtain rt w2 where t: "mapS (\<lambda>x. allowS svc u act (f x)) xs w = (rt, w2)" by fastforce
    from Inr have "allowS svc u act (f x) w = (Inr y, w)" by (simp add: allowS_def)
    from trans [OF Cons.prems [symmetric] mapS_Cons(2) [where f = "\<lambda>x. allowS svc u act (f x)", OF this t]]
    have "w' = w2" "r = (case rt of Inl er \<Rightarrow> Inl er | Inr ts \<Rightarrow> Inr (y # ts))" by simp_all
    with Cons.IH [OF t] Inr show ?thesis by (auto split: sum.splits)
  qed
qed simp

lemma cacheAll_effect:
  "mapS (\<lambda>x. cacheUpsert svc (f x) (g x)) xs w = (r, w') \<Longrightarrow> (\<exists>us. r = Inr us) \<and> w_st w' = w_st w"
proof (induction xs arbitrary: w r w')
  case (Cons x xs)
  obtain r1 w1 where c: "cacheUpsert svc (f x) (g x) w = (r1, w1)" by fastforce
  obtain rt w2 where t: "mapS (\<lambda>x. cacheUpsert svc (f x) (g x)) xs w1 = (rt, w2)" by fastforce
  note cu = cacheUpsert_Inr [OF c]
  from trans [OF Cons.prems [symmetric]
      mapS_Cons(2) [where f = "\<lambda>x. cacheUpsert svc (f x) (g x)", OF c [unfolded conjunct1 [OF cu]] t]]
  have "w' = w2" "r = (case rt of Inl er \<Rightarrow> Inl er | Inr ts \<Rightarrow> Inr (() # ts))" by simp_all
  with Cons.IH [of w1 rt] t cu show ?case by auto
qed simp

section \<open>Creating a batch\<close>

lemma schema_anyRow: "schemaOk st \<Longrightarrow> findRow t i st = Some r \<Longrightarrow> anyRow t i st = Some r"
  using findRow_Some [of t i st r] findFirst_unique [of r_id "tbl st t" r]
  by (simp add: anyRow_def schemaOk_def tableOk_def)

lemma schema_joinFolder:
  assumes "schemaOk st" "liveFolder st i = Some c"
  shows "joinFolder st i = Some c"
proof -
  obtain o' p e f where c: "c = (o', p, e, f)" by (cases c)
  note l = assms(2) [unfolded c]
  note f = liveFolder_env [OF l]
  note e = liveEnv_project [OF conjunct1 [OF f]]
  note p = liveProject_org [OF conjunct1 [OF e]]
  have "anyRow Folders i st = Some f" "anyRow Environments (r_parent f) st = Some e"
    "anyRow Projects (r_parent e) st = Some p" "anyRow Organizations (r_parent p) st = Some o'"
    using f e p by (auto simp: liveOrg_def intro!: schema_anyRow [OF assms(1)])
  then show ?thesis by (simp add: c joinFolder_def)
qed

lemma storeAllow_folder:
  "storeAllow st u act (folderScope i) = Inr () \<Longrightarrow> \<exists>c. liveFolder st i = Some c"
  by (auto simp: storeAllow_iff folderScope_def folderScopes_def split: option.splits)

lemma joinFolder_cong: "tbl st' = tbl st \<Longrightarrow> joinFolder st' = joinFolder st"
  by (rule ext) (simp add: joinFolder_def anyRow_def cong: option.case_cong)

lemma getSecrets_total:
  assumes "distinct (map s_id (secretsT st))" "secretsT st = old @ rows"
    and "\<And>row. row \<in> set rows \<Longrightarrow> \<not> s_deleted row \<and> (\<exists>c. joinFolder st (s_folder row) = Some c)"
  shows "\<exists>ss. mapE (getSecret st) (map s_id rows) = Inr ss"
proof -
  have "\<exists>s. getSecret st i = Inr s" if i: "i \<in> set (map s_id rows)" for i
  proof -
    from i obtain row where row: "row \<in> set rows" "i = s_id row" by auto
    have "findSecret i st = Some row"
      using findFirst_unique_and [OF assms(1), of row "\<lambda>s. \<not> s_deleted s"] row assms(2,3) by (simp add: findSecret_def)
    with assms(3) [OF row(1)] show ?thesis by (auto simp: getSecret_def)
  qed
  then have "mapE (getSecret st) (map s_id rows) = Inr (map (\<lambda>i. projr (getSecret st i)) (map s_id rows))"
    by (intro mapE_total) (metis sum.sel(2))
  then show ?thesis by blast
qed

text \<open>The rows that a target list stands for.\<close>

definition createdRow :: "secretService \<Rightarrow> secretRow \<Rightarrow> batchCreateSecretSpec \<times> batchCreateEnvTarget \<Rightarrow> bool" where
  "createdRow svc row target \<longleftrightarrow> (case target of (item, e) \<Rightarrow>
     s_folder row = bt_folder e \<and> s_key row = bs_key item \<and> s_comment row = bs_comment item \<and>
     s_version row = 1 \<and> \<not> s_deleted row \<and> decryptS svc (s_cipher row) = Inr (bt_value e))"

lemma store_batch_effect:
  assumes "schemaOk st" "ts \<noteq> []"
    and "\<And>i e c. (i, e, c) \<in> set ts \<Longrightarrow> decryptS svc c = Inr (bt_value e)"
    and "\<And>i e c. (i, e, c) \<in> set ts \<Longrightarrow> \<exists>ch. liveFolder st (bt_folder e) = Some ch"
    and "batchCreateSecrets (map (\<lambda>(item, e, c). \<lparr> bc_folder = bt_folder e, bc_key = bs_key item,
       bc_comment = bs_comment item, bc_actor = actor, bc_cipher = c \<rparr>) ts) st = (r, st')"
  shows "(\<exists>e. r = Inl e \<and> st' = st) \<or>
     (\<exists>ss rows. r = Inr ss \<and> secretsT st' = secretsT st @ rows \<and> tbl st' = tbl st \<and>
        list_all2 (createdRow svc) rows (map (\<lambda>(i, e, c). (i, e)) ts))"
proof -
  let ?item = "\<lambda>(item, e, c). \<lparr> bc_folder = bt_folder e, bc_key = bs_key item,
       bc_comment = bs_comment item, bc_actor = actor, bc_cipher = c \<rparr>"
  have "map ?item ts \<noteq> []" using assms(2) by simp
  from batchCreateSecrets_effect [OF assms(1) this assms(5)] show ?thesis
  proof (elim disjE exE conjE)
    fix e assume "r = Inl e" "st' = st" then show ?thesis by blast
  next
    fix idl a assume e: "length idl = length (map ?item ts)"
      "secretsT st' = secretsT st @ map (batchRow (clock st)) (zip idl (map ?item ts))"
      "distinct (map s_id (secretsT st'))" "tbl st' = tbl st" "r = mapE (getSecret st') idl"
    let ?rows = "map (batchRow (clock st)) (zip idl (map ?item ts))"
    have ids: "map s_id ?rows = idl"
    proof -
      have "map s_id ?rows = map fst (zip idl (map ?item ts))" by (simp add: batchRow_def split_def comp_def)
      then show ?thesis using e(1) by simp
    qed
    have "\<not> s_deleted row \<and> (\<exists>c. joinFolder st' (s_folder row) = Some c)" if "row \<in> set ?rows" for row
    proof -
      from that obtain i item e c where m: "(item, e, c) \<in> set ts" "row = batchRow (clock st) (i, ?item (item, e, c))"
        by (auto dest!: set_zip_rightD)
      obtain ch where "liveFolder st (bt_folder e) = Some ch" using assms(4) [OF m(1)] by blast
      from schema_joinFolder [OF assms(1) this] have "joinFolder st' (s_folder row) = Some ch"
        using m(2) joinFolder_cong [OF e(4)] by (simp add: batchRow_def)
      moreover have "\<not> s_deleted row" using m(2) by (simp add: batchRow_def)
      ultimately show ?thesis by blast
    qed
    from getSecrets_total [OF e(3,2) this] obtain ss where "r = Inr ss" using e(5) ids by auto
    moreover have "list_all2 (createdRow svc) ?rows (map (\<lambda>(i, e, c). (i, e)) ts)"
    proof -
      have "decryptS svc (snd (snd x)) = Inr (bt_value (fst (snd x)))" if "x \<in> set ts" for x
        using that assms(3) [of "fst x" "fst (snd x)" "snd (snd x)"] by simp
      then show ?thesis
        using e(1) by (auto simp: list_all2_conv_all_nth createdRow_def batchRow_def split_def)
    qed
    ultimately show ?thesis using e by blast
  qed
qed

lemma allowS_split: "(\<lambda>(item, e, c). allowS svc u act (g e)) = (\<lambda>x. allowS svc u act (g (fst (snd x))))"
  by (auto simp: fun_eq_iff)

lemma cacheUpsert_split:
  "(\<lambda>(s, item, e, c). cacheUpsert svc s c) = (\<lambda>x. cacheUpsert svc (fst x) (snd (snd (snd x))))"
  by (auto simp: fun_eq_iff)

text \<open>The last part of \<open>BatchCreate\<close>: the rows of the encrypted targets, then the cache.\<close>

definition storeTargets ::
  "secretService \<Rightarrow> str \<Rightarrow> (batchCreateSecretSpec \<times> batchCreateEnvTarget \<times> secretCiphertext) list \<Rightarrow> unit handler" where
  "storeTargets svc actor ts = bindS (storeS (batchCreateSecrets (map (\<lambda>(item, e, c). \<lparr> bc_folder = bt_folder e, bc_key = bs_key item,
        bc_comment = bs_comment item, bc_actor = actor, bc_cipher = c \<rparr>) ts))) (\<lambda>created.
      bindS (mapS (\<lambda>x. cacheUpsert svc (fst x) (snd (snd (snd x)))) (zip created ts)) (\<lambda>_. retS ()))"

lemma storeBatch_outcome:
  assumes "schemaOk (w_st w)" "ts \<noteq> []"
    and dec: "\<And>i e c. (i, e, c) \<in> set ts \<Longrightarrow> decryptS svc c = Inr (bt_value e)"
    and live: "\<And>i e c. (i, e, c) \<in> set ts \<Longrightarrow> \<exists>ch. liveFolder (w_st w) (bt_folder e) = Some ch"
    and stored: "storeTargets svc actor ts w = (r, w')"
  shows "(\<exists>e. r = Inl e \<and> w_st w' = w_st w \<and> w_rd w' = w_rd w) \<or>
    (r = Inr () \<and> (\<exists>rows. secretsT (w_st w') = secretsT (w_st w) @ rows \<and> tbl (w_st w') = tbl (w_st w) \<and>
       list_all2 (createdRow svc) rows (map (\<lambda>(i, e, c). (i, e)) ts)))"
proof -
  let ?item = "\<lambda>(item, e, c). \<lparr> bc_folder = bt_folder e, bc_key = bs_key item,
       bc_comment = bs_comment item, bc_actor = actor, bc_cipher = c \<rparr>"
  note run = stored [unfolded storeTargets_def]
  obtain rb st3 where cr: "batchCreateSecrets (map ?item ts) (w_st w) = (rb, st3)" by fastforce
  have "(\<exists>e. rb = Inl e \<and> st3 = w_st w) \<or>
      (\<exists>ss rows. rb = Inr ss \<and> secretsT st3 = secretsT (w_st w) @ rows \<and> tbl st3 = tbl (w_st w) \<and>
        list_all2 (createdRow svc) rows (map (\<lambda>(i, e, c). (i, e)) ts))"
    by (rule store_batch_effect [OF assms(1,2) _ _ cr]) (erule dec, erule live)
  then show ?thesis
  proof (elim disjE exE conjE)
    fix e assume "rb = Inl e" "st3 = w_st w"
    with run cr show ?thesis by (auto simp: storeS_def bindS_def)
  next
    fix ss rows assume s: "rb = Inr ss" "secretsT st3 = secretsT (w_st w) @ rows" "tbl st3 = tbl (w_st w)"
      "list_all2 (createdRow svc) rows (map (\<lambda>(i, e, c). (i, e)) ts)"
    obtain rc w4 where cu: "mapS (\<lambda>x. cacheUpsert svc (fst x) (snd (snd (snd x)))) (zip ss ts) (w\<lparr>w_st := st3\<rparr>) = (rc, w4)"
      by fastforce
    note c = cacheAll_effect [OF cu]
    have "r = Inr () \<and> w_st w' = st3" using run cr s(1) cu c by (auto simp: storeS_def bindS_def)
    with s show ?thesis by blast
  qed
qed

text \<open>What \<open>BatchCreate\<close> checks before it stores anything.\<close>

lemma batchCreate_start:
  assumes "batchCreate svc u specs actor w = (r, w')"
  shows "(\<exists>e. r = Inl e \<and> w' = w) \<or> (expandTargets specs \<noteq> [] \<and>
    bindS (mapS (\<lambda>(item, e). bindS (encryptS svc (bt_value e)) (\<lambda>c. retS (item, e, c))) (expandTargets specs)) (\<lambda>ts.
      bindS (mapS (\<lambda>x. allowS svc u ''secret:create'' (folderScope (bt_folder (fst (snd x))))) ts) (\<lambda>_.
      storeTargets svc actor ts)) w = (r, w'))"
proof -
  consider "\<exists>e. r = Inl e \<and> w' = w" | us where "trimSpace (ui_id u) \<noteq> []" "specs \<noteq> []" "mapE checkCreateSpec specs = Inr us"
    using assms by (cases "mapE checkCreateSpec specs") (auto simp: batchCreate_def requireS_def bindS_def split: if_splits)
  then show ?thesis
  proof cases
    case 2
    have "\<forall>item \<in> set specs. bs_envs item \<noteq> []"
      using mapE_Inr_all [OF 2(3)] by (fastforce simp: checkCreateSpec_def split: if_splits)
    with 2(2) have "expandTargets specs \<noteq> []" by (cases specs) (auto simp: expandTargets_def)
    moreover have "batchCreate svc u specs actor w =
      bindS (mapS (\<lambda>(item, e). bindS (encryptS svc (bt_value e)) (\<lambda>c. retS (item, e, c))) (expandTargets specs)) (\<lambda>ts.
        bindS (mapS (\<lambda>x. allowS svc u ''secret:create'' (folderScope (bt_folder (fst (snd x))))) ts) (\<lambda>_.
        storeTargets svc actor ts)) w"
      using 2 by (simp add: batchCreate_def requireS_def Let_def storeTargets_def allowS_split cacheUpsert_split)
    ultimately show ?thesis using assms by simp
  qed simp
qed

lemma batchCreate_checked:
  assumes "ss_authz svc = storeAllow" "ss_enc svc = Some ae" "aeadOk ae" "batchCreate svc u specs actor w = (r, w')"
  shows "(\<exists>e. r = Inl e \<and> w_st w' = w_st w \<and> w_rd w' = w_rd w) \<or>
    (\<exists>ts w1. w_st w1 = w_st w \<and> w_rd w1 = w_rd w \<and> ts \<noteq> [] \<and> map (\<lambda>(i, e, c). (i, e)) ts = expandTargets specs \<and>
       (\<forall>(i, e, c) \<in> set ts. decryptS svc c = Inr (bt_value e) \<and>
          storeAllow (w_st w) u ''secret:create'' (folderScope (bt_folder e)) = Inr ()) \<and>
       storeTargets svc actor ts w1 = (r, w'))"
proof -
  let ?enc = "mapS (\<lambda>(item, e). bindS (encryptS svc (bt_value e)) (\<lambda>c. retS (item, e, c))) (expandTargets specs)"
  obtain rt w1 where en: "?enc w = (rt, w1)" by fastforce
  note fr = encryptTargets_effect [OF en assms(2,3)]
  from batchCreate_start [OF assms(4)] show ?thesis
  proof
    assume "\<exists>e. r = Inl e \<and> w' = w"
    then show ?thesis by auto
  next
    assume s: "expandTargets specs \<noteq> [] \<and> bindS ?enc (\<lambda>ts.
      bindS (mapS (\<lambda>x. allowS svc u ''secret:create'' (folderScope (bt_folder (fst (snd x))))) ts) (\<lambda>_.
      storeTargets svc actor ts)) w = (r, w')"
    show ?thesis
    proof (cases rt)
      case (Inl e)
      with s en fr show ?thesis by (auto simp: bindS_def)
    next
      case (Inr ts)
      obtain ra w2 where al: "mapS (\<lambda>x. allowS svc u ''secret:create'' (folderScope (bt_folder (fst (snd x))))) ts w1 = (ra, w2)"
        by fastforce
      note a = allowAll_effect [OF al]
      show ?thesis
      proof (cases ra)
        case (Inl e)
        with s en al a fr Inr \<open>rt = Inr ts\<close> show ?thesis by (auto simp: bindS_def)
      next
        case (Inr us)
        with s en al a \<open>rt = Inr ts\<close> have "storeTargets svc actor ts w1 = (r, w')" by (auto simp: bindS_def)
        moreover have "\<forall>x \<in> set ts. storeAllow (w_st w) u ''secret:create'' (folderScope (bt_folder (fst (snd x)))) = Inr ()"
          using a Inr fr assms(1) by simp
        ultimately show ?thesis using fr s \<open>rt = Inr ts\<close> by (intro disjI2 exI [of _ ts] exI [of _ w1]) fastforce
      qed
    qed
  qed
qed

text \<open>C4. Creating a batch through the service is atomic and authorized. With the store's authorizer, in a
  store that satisfies the schema, \<open>BatchCreate\<close> either fails and leaves every table and the cache as they were,
  or it succeeds, and then the caller holds \<open>secret:create\<close> on the folder of every target and exactly one live
  row per target was appended, in the order of the request, in that folder, under that key and comment, at
  version 1, whose ciphertext decrypts to the value of the target.\<close>

theorem batchCreate_atomic:
  assumes "schemaOk (w_st w)" "ss_authz svc = storeAllow" "ss_enc svc = Some ae" "aeadOk ae"
    and "batchCreate svc u specs actor w = (r, w')"
  shows "(\<exists>e. r = Inl e \<and> w_st w' = w_st w \<and> w_rd w' = w_rd w) \<or>
     (r = Inr () \<and>
      (\<forall>(item, e) \<in> set (expandTargets specs).
         storeAllow (w_st w) u ''secret:create'' (folderScope (bt_folder e)) = Inr ()) \<and>
      (\<exists>rows. secretsT (w_st w') = secretsT (w_st w) @ rows \<and> tbl (w_st w') = tbl (w_st w) \<and>
         list_all2 (createdRow svc) rows (expandTargets specs)))"
  using batchCreate_checked [OF assms(2,3,4,5)]
proof (elim disjE exE conjE)
  fix ts w1
  assume w1: "w_st w1 = w_st w" "w_rd w1 = w_rd w" and ts: "ts \<noteq> []" "map (\<lambda>(i, e, c). (i, e)) ts = expandTargets specs"
    and ok: "\<forall>(i, e, c) \<in> set ts. decryptS svc c = Inr (bt_value e) \<and>
      storeAllow (w_st w) u ''secret:create'' (folderScope (bt_folder e)) = Inr ()"
    and st: "storeTargets svc actor ts w1 = (r, w')"
  have dec: "(i, e, c) \<in> set ts \<Longrightarrow> decryptS svc c = Inr (bt_value e)" for i e c using ok by auto
  have live: "(i, e, c) \<in> set ts \<Longrightarrow> \<exists>ch. liveFolder (w_st w1) (bt_folder e) = Some ch" for i e c
    using ok w1(1) storeAllow_folder by fastforce
  have "\<forall>(item, e) \<in> set (expandTargets specs). storeAllow (w_st w) u ''secret:create'' (folderScope (bt_folder e)) = Inr ()"
    using ok unfolding ts(2) [symmetric] by auto
  moreover have "schemaOk (w_st w1)" using assms(1) w1(1) by simp
  note out = storeBatch_outcome [OF this ts(1) dec live st]
  ultimately show ?thesis using out w1 ts(2) by simp
qed blast

definition demoSpecs :: "batchCreateSecretSpec list" where
  "demoSpecs = [\<lparr> bs_key = ''URL'', bs_comment = [], bs_envs = [\<lparr> bt_envCode = ''dev'', bt_folder = ''f'', bt_value = ''a'' \<rparr>,
     \<lparr> bt_envCode = ''dev'', bt_folder = ''g'', bt_value = ''b'' \<rparr>] \<rparr>]"

lemma svcStore_schema: "schemaOk svcStore" by code_simp

theorem batchCreate_atomic_witness:
  "\<exists>rows. secretsT (w_st (snd (batchCreate demoSvc (demoUI ''al'') demoSpecs ''al'' demoWorld))) = secretsT svcStore @ rows \<and>
     list_all2 (createdRow demoSvc) rows (expandTargets demoSpecs) \<and> length rows = 2"
proof -
  let ?g = "batchCreate demoSvc (demoUI ''al'') demoSpecs ''al'' demoWorld"
  have g: "?g = (fst ?g, snd ?g)" by simp
  have h: "schemaOk (w_st demoWorld)" "ss_authz demoSvc = storeAllow" "ss_enc demoSvc = Some demoAead"
    using svcStore_schema by (simp_all add: demoWorld_def demoSvc_def)
  have "is_ok (fst ?g)" by code_simp
  with batchCreate_atomic [OF h demoAead_ok g] obtain rows where
    r: "secretsT (w_st (snd ?g)) = secretsT (w_st demoWorld) @ rows"
    "list_all2 (createdRow demoSvc) rows (expandTargets demoSpecs)" by auto
  have "length (expandTargets demoSpecs) = 2" by code_simp
  with r list_all2_lengthD [OF r(2)] show ?thesis by (auto simp: demoWorld_def)
qed

end
