(* ===== verification/ListingProps.thy ===== *)
theory ListingProps
  imports BatchProps
begin

text \<open>
  What the listings of the secret service show, against the authorizer: revealing a folder needs
  \<open>secret:reveal\<close> on each secret, the listing across environments shows plaintexts under \<open>secret:read\<close>, a
  search shows a value only to those who may reveal it.
\<close>

section \<open>Rows of a narrowed query\<close>

lemma narrowed_row:
  "(s, c) \<in> set (narrowedSecrets st uid act) \<Longrightarrow>
     s \<in> set (secretsT st) \<and> \<not> s_deleted s \<and> joinFolder st (s_folder s) = Some c \<and> chainLive c"
  by (auto simp: narrowedSecrets_def Let_def joinedSecrets_iff)

lemma find_live_secret:
  "wfStore st \<Longrightarrow> s \<in> set (secretsT st) \<Longrightarrow> \<not> s_deleted s \<Longrightarrow> findSecret (s_id s) st = Some s"
  using findFirst_unique_and [of s_id "secretsT st" s "\<lambda>s. \<not> s_deleted s"]
  by (simp add: findSecret_def wfStore_def)

lemma narrowed_allowed:
  assumes "wfStore st" "trimSpace (ui_id u) \<noteq> []" "trimSpace act = act" "CHR '':'' \<in> set act"
    and "(s, c) \<in> set (narrowedSecrets st (ui_id u) act)"
  shows "storeAllow st u act (secretScope (s_id s)) = Inr ()"
proof -
  note row = narrowed_row [OF assms(5)]
  have f: "findSecret (s_id s) st = Some s" using row find_live_secret [OF assms(1)] by blast
  have "\<exists>c. (s, c) \<in> set (narrowedSecrets st (ui_id u) act)" using assms(5) by blast
  then have "storeAllow st u act (rsrc ''secret'' (s_id s)) = Inr ()"
    using listing_agrees [OF assms(1-4) f] by blast
  then show ?thesis by (simp only: secretScope_def rsrc_def)
qed

lemma allowed_narrowed:
  assumes "wfStore st" "trimSpace (ui_id u) \<noteq> []" "trimSpace act = act" "CHR '':'' \<in> set act"
    and "storeAllow st u act (secretScope i) = Inr ()" "findSecret i st = Some s"
  obtains c where "(s, c) \<in> set (narrowedSecrets st (ui_id u) act)"
proof -
  have "storeAllow st u act (rsrc ''secret'' i) = Inr ()" using assms(5) by (simp add: secretScope_def rsrc_def)
  then show thesis using listing_agrees [OF assms(1-4) assms(6)] that by blast
qed

lemma action_codes:
  "trimSpace ''secret:reveal'' = ''secret:reveal''" "CHR '':'' \<in> set ''secret:reveal''"
  "trimSpace ''secret:read'' = ''secret:read''" "CHR '':'' \<in> set ''secret:read''"
  by code_simp+

section \<open>Revealing a folder\<close>

lemma decryptAll_Inr:
  assumes "decryptAll svc rows = Inr rs"
  shows "list_all2 (\<lambda>(s, c) r. r = s\<lparr>sec_value := sec_value r\<rparr> \<and> decryptS svc c = Inr (sec_value r)) rows rs"
proof -
  have "list_all2 (\<lambda>x r. (case x of (s, c) \<Rightarrow> bindE (decryptS svc c) (\<lambda>plaintext. Inr (s\<lparr>sec_value := plaintext\<rparr>))) = Inr r)
      rows rs" using assms by (simp add: decryptAll_def mapE_Inr_iff)
  then show ?thesis by (rule list_all2_mono) (auto simp: bindE_Inr_iff)
qed

definition revealRows :: "store \<Rightarrow> str \<Rightarrow> str \<Rightarrow> str \<Rightarrow> str \<Rightarrow> str \<Rightarrow> str list \<Rightarrow> (secretRow \<times> chain) list" where
  "revealRows st uid o' p e f keys = sort_key (\<lambda>(s, c). s_key s) (filter (\<lambda>(s, c). onPath o' p e f c \<and>
     (keys = [] \<or> s_key s \<in> set keys)) (narrowedSecrets st uid ''secret:reveal''))"

lemma batchReveal_rows:
  "batchRevealSecretsByPath st uid ''secret:reveal'' o' p e f (Some keys) =
     map (\<lambda>(s, c). (scanSecret st 0 s c, s_cipher s)) (revealRows st uid o' p e f keys)"
  by (simp add: batchRevealSecretsByPath_def revealRows_def keysCondition_def)

lemma batchRevealByPath_effect:
  assumes "batchRevealByPath svc u path keys0 actor w = (Inr (rs, missing), w')"
  obtains o' p e f keys where "parseFolderPath path = Inr (o', p, e, f)" "trimSpace (ui_id u) \<noteq> []"
    "keys = (case keys0 of None \<Rightarrow> [] | Some ks \<Rightarrow> ks)"
    "list_all2 (\<lambda>(s, c) r. sec_id r = s_id s \<and> sec_key r = s_key s \<and> decryptS svc (s_cipher s) = Inr (sec_value r))
       (revealRows (w_st w) (ui_id u) o' p e f keys) rs"
    "missing = filter (\<lambda>k. k \<notin> set (map sec_key rs)) keys"
    "rs \<noteq> [] \<longrightarrow> (\<exists>a l. w' = w\<lparr>w_st := (w_st w)\<lparr>ids := l, auditT := auditT (w_st w) @ [a]\<rparr>\<rparr> \<and>
       a_actor a = actor \<and> a_action a = ''reveal_batch'')"
proof -
  define keys where "keys = (case keys0 of None \<Rightarrow> [] | Some ks \<Rightarrow> ks)"
  from assms obtain o' p e f w1 where q: "parseFolderPath path = Inr (o', p, e, f)" "trimSpace (ui_id u) \<noteq> []"
    and d: "decryptAll svc (batchRevealSecretsByPath (w_st w) (ui_id u) ''secret:reveal'' o' p e f (Some keys)) = Inr rs"
    and au: "(if length rs > 0 then let auditKeys = (if length keys = 0 then map sec_key rs else keys) in
        storeS (recordAudit actor ''folder'' (sec_folderId (hd rs)) ''reveal_batch'' (KeysPayload auditKeys))
        else retS ()) w = (Inr (), w1)"
    and fin: "missing = filter (\<lambda>k. k \<notin> set (map sec_key rs)) keys" "w' = w1"
    unfolding batchRevealByPath_def Let_def keys_def [symmetric]
    by (auto simp: bindS_Inr_iff requireS_Inr split: prod.splits)
  have rows: "list_all2 (\<lambda>(s, c) r. sec_id r = s_id s \<and> sec_key r = s_key s \<and> decryptS svc (s_cipher s) = Inr (sec_value r))
       (revealRows (w_st w) (ui_id u) o' p e f keys) rs"
    using decryptAll_Inr [OF d] unfolding batchReveal_rows list_all2_map1
    by (rule list_all2_mono) (auto simp: scanSecret_def split: prod.splits dest: arg_cong [where f = sec_id] arg_cong [where f = sec_key])
  have A: "\<exists>a l. w' = w\<lparr>w_st := (w_st w)\<lparr>ids := l, auditT := auditT (w_st w) @ [a]\<rparr>\<rparr> \<and>
       a_actor a = actor \<and> a_action a = ''reveal_batch''" if "rs \<noteq> []"
  proof -
    let ?k = "KeysPayload (if length keys = 0 then map sec_key rs else keys)"
    from au that fin obtain st' where "recordAudit actor ''folder'' (sec_folderId (hd rs)) ''reveal_batch'' ?k (w_st w) =
        (Inr (), st')" "w' = w\<lparr>w_st := st'\<rparr>" by (auto simp: Let_def storeS_iff)
    then show ?thesis
      by (rule_tac recordAudit_cases [of actor "''folder''" "sec_folderId (hd rs)" "''reveal_batch''" ?k "w_st w"]) auto
  qed
  show thesis
    by (rule that [OF q keys_def rows fin(1)]) (use A au fin in auto)
qed

lemma revealRows_narrowed:
  "(s, c) \<in> set (revealRows st uid o' p e f keys) \<longleftrightarrow> (s, c) \<in> set (narrowedSecrets st uid ''secret:reveal'') \<and>
      onPath o' p e f c \<and> (keys = [] \<or> s_key s \<in> set keys)"
  by (auto simp: revealRows_def)

lemma revealRows_exact:
  assumes "wfStore st" "trimSpace (ui_id u) \<noteq> []"
  shows "i \<in> set (map (\<lambda>(s, c). s_id s) (revealRows st (ui_id u) o' p e f keys)) \<longleftrightarrow>
        (\<exists>s c. findSecret i st = Some s \<and> joinFolder st (s_folder s) = Some c \<and> onPath o' p e f c \<and>
           (keys = [] \<or> s_key s \<in> set keys) \<and> storeAllow st u ''secret:reveal'' (secretScope i) = Inr ())"
    (is "?L \<longleftrightarrow> ?R")
proof
  assume ?L
  then obtain s c where sc: "(s, c) \<in> set (revealRows st (ui_id u) o' p e f keys)" "i = s_id s" by auto
  have n: "(s, c) \<in> set (narrowedSecrets st (ui_id u) ''secret:reveal'')" using sc revealRows_narrowed by blast
  note row = narrowed_row [OF n]
  have "findSecret i st = Some s" using row find_live_secret [OF assms(1)] sc(2) by blast
  moreover have "storeAllow st u ''secret:reveal'' (secretScope i) = Inr ()"
    using narrowed_allowed [OF assms(1) assms(2) action_codes(1,2) n] sc(2) by simp
  ultimately show ?R using row sc revealRows_narrowed by blast
next
  assume ?R
  then obtain s c where s: "findSecret i st = Some s" "joinFolder st (s_folder s) = Some c"
    "onPath o' p e f c" "keys = [] \<or> s_key s \<in> set keys"
    "storeAllow st u ''secret:reveal'' (secretScope i) = Inr ()" by blast
  obtain c' where n: "(s, c') \<in> set (narrowedSecrets st (ui_id u) ''secret:reveal'')"
    by (rule allowed_narrowed [OF assms(1) assms(2) action_codes(1,2) s(5) s(1)])
  have "c' = c" using narrowed_row [OF n] s(2) by simp
  then have "(s, c) \<in> set (revealRows st (ui_id u) o' p e f keys)" using n s revealRows_narrowed by blast
  moreover have "s_id s = i" using findSecret_Some [OF s(1)] by blast
  ultimately show ?L by force
qed

lemma revealed_rows_sound:
  assumes "wfStore st" "r \<in> set rs"
    and rows: "list_all2 (\<lambda>(s, c) r. sec_id r = s_id s \<and> sec_key r = s_key s \<and> decryptS svc (s_cipher s) = Inr (sec_value r))
       (revealRows st uid o' p e f keys) rs"
  shows "\<exists>s. findSecret (sec_id r) st = Some s \<and> sec_key r = s_key s \<and> decryptS svc (s_cipher s) = Inr (sec_value r)"
proof -
  from assms(2) obtain n where n: "n < length rs" "r = rs ! n" by (auto simp: in_set_conv_nth)
  obtain s c where p: "(revealRows st uid o' p e f keys) ! n = (s, c)" by (cases "(revealRows st uid o' p e f keys) ! n")
  have sc: "(s, c) \<in> set (revealRows st uid o' p e f keys)" "sec_id r = s_id s" "sec_key r = s_key s" "decryptS svc (s_cipher s) = Inr (sec_value r)"
    using list_all2_nthD2 [OF rows n(1)] nth_mem [of n "revealRows st uid o' p e f keys"] list_all2_lengthD [OF rows] n p by simp_all
  have n: "(s, c) \<in> set (narrowedSecrets st uid ''secret:reveal'')" using sc(1) revealRows_narrowed by blast
  have "findSecret (s_id s) st = Some s" using narrowed_row [OF n] find_live_secret [OF assms(1)] by blast
  then show ?thesis using sc by simp
qed

text \<open>C30. Revealing a folder is exact. When \<open>BatchRevealByPath\<close> succeeds on a well-formed store, the result
  contains the secret with a given identifier exactly if it is a live secret in a live chain with the codes of
  the path, its key is among the requested ones (any key for an empty request) and the authorizer allows the
  caller \<open>secret:reveal\<close> on it; each result carries the decryption of its stored ciphertext; the missing keys
  are the requested ones without result; and a non-empty result was audited.\<close>

theorem batch_reveal_exact:
  assumes "wfStore (w_st w)" "batchRevealByPath svc u path keys0 actor w = (Inr (rs, missing), w')"
  shows "\<exists>o' p e f. parseFolderPath path = Inr (o', p, e, f) \<and>
     (\<forall>i. i \<in> set (map sec_id rs) \<longleftrightarrow>
        (\<exists>s c. findSecret i (w_st w) = Some s \<and> joinFolder (w_st w) (s_folder s) = Some c \<and> onPath o' p e f c \<and>
           (keys0 = None \<or> keys0 = Some [] \<or> s_key s \<in> set (the keys0)) \<and>
           storeAllow (w_st w) u ''secret:reveal'' (secretScope i) = Inr ())) \<and>
     (\<forall>r \<in> set rs. \<exists>s. findSecret (sec_id r) (w_st w) = Some s \<and> sec_key r = s_key s \<and>
        decryptS svc (s_cipher s) = Inr (sec_value r)) \<and>
     missing = filter (\<lambda>k. k \<notin> set (map sec_key rs)) (case keys0 of None \<Rightarrow> [] | Some ks \<Rightarrow> ks) \<and>
     (rs \<noteq> [] \<longrightarrow> length (auditT (w_st w')) = Suc (length (auditT (w_st w))))"
proof -
  obtain o' p e f keys where ef: "parseFolderPath path = Inr (o', p, e, f)" "trimSpace (ui_id u) \<noteq> []"
    "keys = (case keys0 of None \<Rightarrow> [] | Some ks \<Rightarrow> ks)"
    and rows: "list_all2 (\<lambda>(s, c) r. sec_id r = s_id s \<and> sec_key r = s_key s \<and> decryptS svc (s_cipher s) = Inr (sec_value r))
       (revealRows (w_st w) (ui_id u) o' p e f keys) rs"
    and mi: "missing = filter (\<lambda>k. k \<notin> set (map sec_key rs)) keys"
    and au: "rs \<noteq> [] \<longrightarrow> (\<exists>a l. w' = w\<lparr>w_st := (w_st w)\<lparr>ids := l, auditT := auditT (w_st w) @ [a]\<rparr>\<rparr> \<and>
       a_actor a = actor \<and> a_action a = ''reveal_batch'')"
    by (rule batchRevealByPath_effect [OF assms(2)])
  let ?rows = "revealRows (w_st w) (ui_id u) o' p e f keys"
  have kc: "keys = [] \<or> k \<in> set keys \<longleftrightarrow> keys0 = None \<or> keys0 = Some [] \<or> k \<in> set (the keys0)" for k
    using ef(3) by (cases keys0) auto
  have ids: "map sec_id rs = map (\<lambda>(s, c). s_id s) ?rows"
    using rows by (induction rule: list_all2_induct) auto
  note each = revealed_rows_sound [OF assms(1) _ rows]
  note exact = revealRows_exact [OF assms(1) ef(2), of _ o' p e f keys, folded ids, unfolded kc]
  show ?thesis using ef mi au exact each by fastforce
qed

theorem batch_reveal_exact_witness:
  "let g = fst (batchRevealByPath demoSvc (demoUI ''al'') ''org.prj.dev.pay'' (Some [''K'', ''ZZ'']) ''al'' demoWorld)
   in map sec_value (fst (projr g)) = [''one''] \<and> snd (projr g) = [''ZZ''] \<and>
      storeAllow svcStore (demoUI ''al'') ''secret:reveal'' (secretScope ''s'') = Inr ()"
proof -
  let ?g = "batchRevealByPath demoSvc (demoUI ''al'') ''org.prj.dev.pay'' (Some [''K'', ''ZZ'']) ''al'' demoWorld"
  have wf: "wfStore (w_st demoWorld)" by code_simp
  have v: "is_ok (fst ?g)" "map sec_value (fst (projr (fst ?g))) = [''one'']" "snd (projr (fst ?g)) = [''ZZ'']"
    "map sec_id (fst (projr (fst ?g))) = [''s'']" by code_simp+
  from v(1) obtain x where x: "fst ?g = Inr x" by (cases "fst ?g") auto
  then have g: "?g = (Inr (fst x, snd x), snd ?g)" by (simp add: prod_eq_iff)
  from batch_reveal_exact [OF wf g] have "\<forall>i. i \<in> set (map sec_id (fst x)) \<longrightarrow>
      storeAllow (w_st demoWorld) (demoUI ''al'') ''secret:reveal'' (secretScope i) = Inr ()" by blast
  with v x have "storeAllow (w_st demoWorld) (demoUI ''al'') ''secret:reveal'' (secretScope ''s'') = Inr ()" by simp
  with v show ?thesis by (simp add: Let_def demoWorld_def)
qed

end
