(* ===== verification/TreeService.thy ===== *)
theory TreeService
  imports SecretService
begin

text \<open>
  The tree service of \<open>internal/service/tree_service.go\<close>.  The resource tree is read from the cache, or from
  the database when the cache has nothing, filtered node by node by the authorizer, assembled from maps of
  nodes and truncated to the requested depth.  The code links nodes through pointers but appends dereferenced
  copies to \<open>Children\<close>, so the model keeps the nodes as values in maps and a copy is the value at that moment.
  The warm-up of the cache runs in a goroutine; nothing after it in the request reads the cache, so it is a step
  of the request here.
\<close>

record treeService =
  tv_prefix :: str
  tv_authz :: "store \<Rightarrow> allowFn"

section \<open>Filtering\<close>

definition allowKeeps :: "treeService \<Rightarrow> userInfo \<Rightarrow> store \<Rightarrow> str \<Rightarrow> str \<Rightarrow> str \<Rightarrow> goErr + bool" where
  "allowKeeps svc u st action rtype i =
     (case tv_authz svc st u action \<lparr> res_type = rtype, res_id = i \<rparr> of
        Inl e \<Rightarrow> if e = ErrPermissionDenied \<or> e = ErrNotFound then Inr False else Inl e
      | Inr _ \<Rightarrow> Inr True)"

definition filterOrgsByAllow :: "treeService \<Rightarrow> userInfo \<Rightarrow> store \<Rightarrow> entity list \<Rightarrow> goErr + entity list" where
  "filterOrgsByAllow svc u st = filterE (\<lambda>x. allowKeeps svc u st ''org:read'' ''organization'' (e_id x))"

definition filterProjectsByAllow :: "treeService \<Rightarrow> userInfo \<Rightarrow> store \<Rightarrow> entity list \<Rightarrow> goErr + entity list" where
  "filterProjectsByAllow svc u st = filterE (\<lambda>x. allowKeeps svc u st ''project:read'' ''project'' (e_id x))"

definition filterEnvsByAllow :: "treeService \<Rightarrow> userInfo \<Rightarrow> store \<Rightarrow> entity list \<Rightarrow> goErr + entity list" where
  "filterEnvsByAllow svc u st = filterE (\<lambda>x. allowKeeps svc u st ''env:read'' ''environment'' (e_id x))"

definition filterFoldersByAllow ::
    "treeService \<Rightarrow> userInfo \<Rightarrow> store \<Rightarrow> folderTreeEntry list \<Rightarrow> goErr + folderTreeEntry list" where
  "filterFoldersByAllow svc u st =
     filterE (\<lambda>x. allowKeeps svc u st ''folder:read'' ''folder'' (e_id (fe_entity x)))"

section \<open>Projection to nodes\<close>

definition projectOrgNode :: "entity \<Rightarrow> treeNode" where
  "projectOrgNode e = TreeNode (e_id e) NodeOrganization 0 [] (e_code e) (e_name e) (e_comment e) []"

definition projectProjectNode :: "entity \<Rightarrow> treeNode" where
  "projectProjectNode e = TreeNode (e_id e) NodeProject 0 (e_parent e) (e_code e) (e_name e) (e_comment e) []"

definition projectEnvNode :: "entity \<Rightarrow> treeNode" where
  "projectEnvNode e = TreeNode (e_id e) NodeEnvironment 0 (e_parent e) (e_code e) (e_name e) (e_comment e) []"

definition parentIdForNode :: "folderTreeEntry \<Rightarrow> str" where
  "parentIdForNode f = (if fe_level f = 1 then fe_env f else fe_parent f)"

definition projectFolderNode :: "folderTreeEntry \<Rightarrow> treeNode" where
  "projectFolderNode f = (let e = fe_entity f in
     TreeNode (e_id e) NodeFolder (fe_level f) (parentIdForNode f) (e_code e) (e_name e) (e_comment e) [])"

section \<open>Assembly\<close>

type_synonym nodeMap = "str \<rightharpoonup> treeNode"

definition nodeMapOf :: "('a \<Rightarrow> str) \<Rightarrow> ('a \<Rightarrow> treeNode) \<Rightarrow> 'a list \<Rightarrow> nodeMap" where
  "nodeMapOf idOf proj items = fold (\<lambda>x m. m(idOf x \<mapsto> proj x)) items Map.empty"

fun addChild :: "treeNode \<Rightarrow> treeNode \<Rightarrow> treeNode" where
  "addChild c (TreeNode i t l p co n m cs) = TreeNode i t l p co n m (cs @ [c])"

text \<open>Append a node to the children of the node with identifier \<open>pid\<close>, which is present.\<close>

definition attach :: "str \<Rightarrow> treeNode \<Rightarrow> nodeMap \<Rightarrow> nodeMap" where
  "attach pid n m = (case m pid of None \<Rightarrow> m | Some p \<Rightarrow> m(pid \<mapsto> addChild n p))"

text \<open>The folder loop: the node maps of environments and folders, and the ids of the orphans so far.  Being a
  key of the node map is being visible.\<close>

definition folderStep :: "folderTreeEntry \<Rightarrow> nodeMap \<times> nodeMap \<times> str list \<Rightarrow> nodeMap \<times> nodeMap \<times> str list" where
  "folderStep f s = (case s of (envM, foldM, orph) \<Rightarrow>
     let i = e_id (fe_entity f); node = the (foldM i) in
     if fe_level f = 1 then
       (if envM (fe_env f) = None then (envM, foldM, orph @ [i])
        else (attach (fe_env f) node envM, foldM, orph))
     else
       (if foldM (fe_parent f) = None then (envM, foldM, orph @ [i])
        else (envM, attach (fe_parent f) node foldM, orph)))"

text \<open>The loops over environments and projects.\<close>

definition entityStep :: "nodeMap \<Rightarrow> entity \<Rightarrow> nodeMap \<times> str list \<Rightarrow> nodeMap \<times> str list" where
  "entityStep own e s = (case s of (parentM, orph) \<Rightarrow>
     if parentM (e_parent e) = None then (parentM, orph @ [e_id e])
     else (attach (e_parent e) (the (own (e_id e))) parentM, orph))"

definition orderedOrgIds :: "entity list \<Rightarrow> str list" where
  "orderedOrgIds orgs = map e_id orgs"

definition derefOrphans :: "nodeMap \<Rightarrow> str list \<Rightarrow> treeNode list" where
  "derefOrphans m idl = List.map_filter m idl"

definition orphanSentinelId :: str where "orphanSentinelId = ''__orphans__''"

definition buildTree ::
    "entity list \<Rightarrow> entity list \<Rightarrow> entity list \<Rightarrow> folderTreeEntry list \<Rightarrow> bool \<Rightarrow> treeNode list \<times> nat \<times> nat" where
  "buildTree orgs projects envs folders includeOrphans =
     (case fold folderStep folders (nodeMapOf e_id projectEnvNode envs,
         nodeMapOf (\<lambda>f. e_id (fe_entity f)) projectFolderNode folders, []) of (envM, foldM, orphanFolders) \<Rightarrow>
      case fold (entityStep envM) envs (nodeMapOf e_id projectProjectNode projects, []) of (projM, orphanEnvs) \<Rightarrow>
      case fold (entityStep projM) projects (nodeMapOf e_id projectOrgNode orgs, []) of (orgM, orphanProjects) \<Rightarrow>
      let roots = List.map_filter orgM (orderedOrgIds orgs);
          total = length orphanFolders + length orphanEnvs + length orphanProjects;
          orphan = TreeNode orphanSentinelId NodeFolder 0 [] ''__orphans__'' ''Orphan nodes (parent not accessible)'' []
            (derefOrphans foldM orphanFolders @ derefOrphans envM orphanEnvs @ derefOrphans projM orphanProjects)
      in (if includeOrphans \<and> total > 0 then roots @ [orphan] else roots, 0, total))"

section \<open>Depth\<close>

fun truncateChildren :: "int \<Rightarrow> int \<Rightarrow> treeNode \<Rightarrow> treeNode" where
  "truncateChildren maxDepth currentDepth (TreeNode i t l p co n m cs) =
     (if currentDepth \<ge> maxDepth then TreeNode i t l p co n m []
      else TreeNode i t l p co n m (map (truncateChildren maxDepth (currentDepth + 1)) cs))"

definition applyMaxDepth :: "int \<Rightarrow> treeNode list \<Rightarrow> treeNode list" where
  "applyMaxDepth maxDepth roots = (if maxDepth \<ge> 4 then roots else map (truncateChildren maxDepth 1) roots)"

section \<open>GetTree\<close>

definition cachedSnapshot :: "treeService \<Rightarrow> world \<Rightarrow> treeMetaSnapshot option" where
  "cachedSnapshot svc w = (case w_rd w of None \<Rightarrow> None
     | Some r \<Rightarrow> (case fst (listAllMeta (tv_prefix svc) r) of Inl _ \<Rightarrow> None
         | Inr s \<Rightarrow> if snapshotEmpty s then None else Some s))"

definition databaseSnapshot :: "store \<Rightarrow> str \<Rightarrow> treeMetaSnapshot" where
  "databaseSnapshot st uid = \<lparr> ts_orgs = listAllOrganizationsForTree st uid,
     ts_projects = listAllProjectsForTree st uid, ts_envs = listAllEnvironmentsForTree st uid,
     ts_folders = listAllFoldersForTree st uid \<rparr>"

definition loadSnapshot :: "treeService \<Rightarrow> userInfo \<Rightarrow> (treeMetaSnapshot \<times> bool) handler" where
  "loadSnapshot svc u w = (case cachedSnapshot svc w of
       Some s \<Rightarrow> (Inr (s, True), w)
     | None \<Rightarrow> (let s = databaseSnapshot (w_st w) (ui_id u) in
         bindS (cacheS (warmTree (tv_prefix svc) s)) (\<lambda>_. retS (s, False)) w))"

definition clampDepth :: "int \<Rightarrow> int" where
  "clampDepth d = (if d \<le> 0 \<or> d > 4 then 4 else d)"

definition assembleTree :: "treeService \<Rightarrow> userInfo \<Rightarrow> store \<Rightarrow> treeRequest \<Rightarrow> treeMetaSnapshot \<Rightarrow> bool \<Rightarrow> goErr + resourceTree" where
  "assembleTree svc u st req snap fromCache =
     bindE (filterOrgsByAllow svc u st (ts_orgs snap)) (\<lambda>orgs.
     bindE (filterProjectsByAllow svc u st (ts_projects snap)) (\<lambda>projects.
     bindE (filterEnvsByAllow svc u st (ts_envs snap)) (\<lambda>envs.
     bindE (filterFoldersByAllow svc u st (ts_folders snap)) (\<lambda>folders.
     case buildTree orgs projects envs folders (tq_includeOrphans req) of (roots, dropped, orphans) \<Rightarrow>
     Inr \<lparr> rt_roots = applyMaxDepth (clampDepth (tq_maxDepth req)) roots,
       rt_stats = \<lparr> st_orgs = length orgs, st_projects = length projects, st_envs = length envs,
         st_folders = length folders, st_dropped = dropped, st_orphans = orphans \<rparr>,
       rt_generatedAt = clock st, rt_source = (if fromCache then ''cache'' else ''database'') \<rparr>))))"

definition getTree :: "treeService \<Rightarrow> userInfo \<Rightarrow> treeRequest \<Rightarrow> resourceTree handler" where
  "getTree svc u req = bindS (loadSnapshot svc u) (\<lambda>(snap, fromCache).
     readS (\<lambda>st. assembleTree svc u st req snap fromCache))"

section \<open>GetProjectFolderTree\<close>

text \<open>The aggregation maps are association lists; they are only looked up and read in sorted order.  The
  \<open>envSet\<close> of an aggregate is the set of the ids in its list of environments.\<close>

definition envRefOf :: "folderInProject \<Rightarrow> envRef" where
  "envRefOf f = \<lparr> er_id = fp_env f, er_code = fp_envCode f, er_folderId = fp_id f \<rparr>"

definition addEnvRef :: "folderInProject \<Rightarrow> envRef list \<Rightarrow> envRef list" where
  "addEnvRef f refs = (if fp_env f \<in> set (map er_id refs) then refs else refs @ [envRefOf f])"

definition aggregateLevel1 :: "folderInProject \<Rightarrow> (str \<times> folderGroup) list \<Rightarrow> (str \<times> folderGroup) list" where
  "aggregateLevel1 f byCode = (let a = (case map_of byCode (fp_code f) of Some a \<Rightarrow> a
       | None \<Rightarrow> \<lparr> fg_id = fp_id f, fg_code = fp_code f, fg_name = fp_name f, fg_comment = fp_comment f,
           fg_envList = [], fg_subFolders = [] \<rparr>)
     in AList.update (fp_code f) (a\<lparr>fg_envList := addEnvRef f (fg_envList a)\<rparr>) byCode)"

definition aggregateLevel2 :: "(str \<times> str) list \<Rightarrow> folderInProject \<Rightarrow> ((str \<times> str) \<times> subFolderGroup) list \<Rightarrow>
    ((str \<times> str) \<times> subFolderGroup) list" where
  "aggregateLevel2 parentIdToCode f agg = (case map_of parentIdToCode (fp_parent f) of
       None \<Rightarrow> agg
     | Some parentCode \<Rightarrow> (let key = (parentCode, fp_code f);
           a = (case map_of agg key of Some a \<Rightarrow> a
             | None \<Rightarrow> \<lparr> sf_id = fp_id f, sf_code = fp_code f, sf_name = fp_name f, sf_comment = fp_comment f,
                 sf_envList = [] \<rparr>)
         in AList.update key (a\<lparr>sf_envList := addEnvRef f (sf_envList a)\<rparr>) agg))"

text \<open>The map \<open>parentIdToCode\<close>: the last entry of an id wins.\<close>

definition parentCodes :: "folderInProject list \<Rightarrow> (str \<times> str) list" where
  "parentCodes level1 = rev (map (\<lambda>f. (fp_id f, fp_code f)) level1)"

definition subFoldersOf :: "((str \<times> str) \<times> subFolderGroup) list \<Rightarrow> str \<Rightarrow> subFolderGroup list" where
  "subFoldersOf agg parentCode =
     sort_key sf_code (map snd (filter (\<lambda>((pc, _), _). pc = parentCode) agg))"

definition groupFolders :: "folderInProject list \<Rightarrow> folderGroup list" where
  "groupFolders visible =
     (let level1 = filter (\<lambda>f. fp_level f = 1) visible; level2 = filter (\<lambda>f. fp_level f \<noteq> 1) visible;
          byCode = fold aggregateLevel1 level1 []; agg = fold (aggregateLevel2 (parentCodes level1)) level2 []
      in map (\<lambda>(code, g). g\<lparr>fg_subFolders := subFoldersOf agg (fg_code g)\<rparr>) (sort_key fst byCode))"

definition getProjectFolderTree :: "treeService \<Rightarrow> userInfo \<Rightarrow> str \<Rightarrow> folderGroup list handler" where
  "getProjectFolderTree svc u projectId = readS (\<lambda>st.
     let rows = listFoldersInProject st (ui_id u) projectId in
     if length rows = 0 then Inr []
     else bindE (filterE (\<lambda>f. allowKeeps svc u st ''folder:read'' ''folder'' (fp_id f)) rows) (\<lambda>visible.
       Inr (groupFolders visible)))"

end
