(* ===== verification/TreeProps.thy ===== *)
theory TreeProps
  imports TreeService ListingProps
begin

text \<open>
  What the tree service returns: only nodes the caller may read, at most as deep as requested, and, as long as
  every sub-folder comes before its parent in the list of folders, exactly the tree of the visible nodes.
\<close>

section \<open>Nodes\<close>

fun withChildren :: "treeNode \<Rightarrow> treeNode list \<Rightarrow> treeNode" where
  "withChildren (TreeNode i t l p co n m _) cs = TreeNode i t l p co n m cs"

definition addChildren :: "treeNode \<Rightarrow> treeNode list \<Rightarrow> treeNode" where
  "addChildren n cs = withChildren n (tn_children n @ cs)"

lemma addChildren_simps [simp]:
  "addChildren n [] = n" "addChild c n = addChildren n [c]"
  "addChildren (addChildren n cs) ds = addChildren n (cs @ ds)"
  by (cases n; simp add: addChildren_def)+

lemma withChildren_sel [simp]:
  "tn_id (withChildren n cs) = tn_id n" "tn_type (withChildren n cs) = tn_type n"
  "tn_children (withChildren n cs) = cs" "withChildren (withChildren n cs) ds = withChildren n ds"
  by (cases n; simp)+

lemma addChildren_leaf: "tn_children n = [] \<Longrightarrow> addChildren n cs = withChildren n cs"
  by (simp add: addChildren_def)

lemma withChildren_leaf: "tn_children n = [] \<Longrightarrow> withChildren n [] = n"
  by (cases n) simp

lemma project_leaf [simp]:
  "tn_children (projectOrgNode e) = []" "tn_children (projectProjectNode e) = []"
  "tn_children (projectEnvNode e) = []" "tn_children (projectFolderNode f) = []"
  by (simp_all add: projectOrgNode_def projectProjectNode_def projectEnvNode_def projectFolderNode_def Let_def)

lemma project_ref [simp]:
  "tn_id (projectOrgNode e) = e_id e" "tn_type (projectOrgNode e) = NodeOrganization"
  "tn_id (projectProjectNode e) = e_id e" "tn_type (projectProjectNode e) = NodeProject"
  "tn_id (projectEnvNode e) = e_id e" "tn_type (projectEnvNode e) = NodeEnvironment"
  "tn_id (projectFolderNode f) = e_id (fe_entity f)" "tn_type (projectFolderNode f) = NodeFolder"
  by (simp_all add: projectOrgNode_def projectProjectNode_def projectEnvNode_def projectFolderNode_def Let_def)

abbreviation folderId :: "folderTreeEntry \<Rightarrow> str" where "folderId f \<equiv> e_id (fe_entity f)"

section \<open>Node maps\<close>

lemma fold_upd_apply:
  "fold (\<lambda>x m. m(k x \<mapsto> v x)) xs m i = (case findFirst (\<lambda>x. k x = i) (rev xs) of None \<Rightarrow> m i | Some x \<Rightarrow> Some (v x))"
  by (induction xs rule: rev_induct) auto

lemma nodeMapOf_None: "nodeMapOf k v xs i = None \<longleftrightarrow> i \<notin> k ` set xs"
  by (auto simp: nodeMapOf_def fold_upd_apply split: option.splits dest: findFirst_Some)

lemma nodeMapOf_Some: "nodeMapOf k v xs i = Some n \<Longrightarrow> \<exists>x \<in> set xs. k x = i \<and> n = v x"
  by (auto simp: nodeMapOf_def fold_upd_apply split: option.splits dest!: findFirst_Some)

lemma nodeMapOf_distinct:
  assumes "distinct (map k xs)" "x \<in> set xs"
  shows "nodeMapOf k v xs (k x) = Some (v x)"
proof -
  have "nodeMapOf k v xs (k x) \<noteq> None" using assms(2) by (simp add: nodeMapOf_None)
  then obtain n where n: "nodeMapOf k v xs (k x) = Some n" by auto
  then obtain y where "y \<in> set xs" "k y = k x" "n = v y" using nodeMapOf_Some by metis
  moreover have "y = x" using assms calculation by (metis distinct_map inj_onD)
  ultimately show ?thesis using n by simp
qed

lemma attach_apply:
  "m pid \<noteq> None \<Longrightarrow> attach pid n m = (\<lambda>i. if i = pid then map_option (\<lambda>p. addChildren p [n]) (m i) else m i)"
  by (auto simp: attach_def fun_eq_iff split: option.splits)

text \<open>The loops over environments and projects in closed form.\<close>

lemma entityStep_fold:
  "fold (entityStep own) es (M, orph) =
     ((\<lambda>p. map_option (\<lambda>n. addChildren n (map (\<lambda>e. the (own (e_id e))) (filter (\<lambda>e. e_parent e = p) es))) (M p)),
      orph @ map e_id (filter (\<lambda>e. M (e_parent e) = None) es))"
proof (induction es arbitrary: M orph)
  case (Cons e es)
  show ?case
  proof (cases "M (e_parent e) = None")
    case True
    have "(\<lambda>p. map_option (\<lambda>n. addChildren n (map (\<lambda>e. the (own (e_id e))) (filter (\<lambda>e. e_parent e = p) es))) (M p)) =
      (\<lambda>p. map_option (\<lambda>n. addChildren n (map (\<lambda>e. the (own (e_id e))) (filter (\<lambda>e. e_parent e = p) (e # es)))) (M p))"
      using True by (auto simp: fun_eq_iff)
    with True Cons show ?thesis by (simp add: entityStep_def)
  next
    case False
    then show ?thesis using Cons by (auto simp: entityStep_def attach_apply fun_eq_iff option.map_comp comp_def
        intro!: option.map_cong filter_cong arg_cong [where f = "map e_id"])
  qed
qed (simp add: option.map_ident)


text \<open>The children of a folder among the folders processed so far, and the top-level folders of an environment,
  each with the children it had when its own turn came.\<close>

definition subsIn :: "folderTreeEntry list \<Rightarrow> str \<Rightarrow> treeNode list" where
  "subsIn seen i = map projectFolderNode (filter (\<lambda>g. fe_level g \<noteq> 1 \<and> fe_parent g = i) seen)"

fun envFolders :: "folderTreeEntry list \<Rightarrow> folderTreeEntry list \<Rightarrow> str \<Rightarrow> treeNode list" where
  "envFolders seen [] e = []"
| "envFolders seen (f # fs) e =
     (if fe_level f = 1 \<and> fe_env f = e then [withChildren (projectFolderNode f) (subsIn seen (folderId f))] else []) @
     envFolders (seen @ [f]) fs e"

lemma envFolders_snoc:
  "envFolders seen (fs @ [f]) e = envFolders seen fs e @
     (if fe_level f = 1 \<and> fe_env f = e then [withChildren (projectFolderNode f) (subsIn (seen @ fs) (folderId f))] else [])"
  by (induction fs arbitrary: seen) simp_all

text \<open>Folder lists as the schema allows them: identifiers are unique and a sub-folder's parent is top-level.\<close>

definition foldersOk :: "folderTreeEntry list \<Rightarrow> bool" where
  "foldersOk fs \<longleftrightarrow> distinct (map folderId fs) \<and>
     (\<forall>g \<in> set fs. fe_level g \<noteq> 1 \<longrightarrow> (\<forall>f \<in> set fs. folderId f = fe_parent g \<longrightarrow> fe_level f = 1))"

definition folderOrphan :: "entity list \<Rightarrow> folderTreeEntry list \<Rightarrow> folderTreeEntry \<Rightarrow> bool" where
  "folderOrphan envs folders f \<longleftrightarrow>
     (if fe_level f = 1 then fe_env f \<notin> set (map e_id envs) else fe_parent f \<notin> set (map folderId folders))"

definition envMapAt :: "entity list \<Rightarrow> folderTreeEntry list \<Rightarrow> nodeMap" where
  "envMapAt envs seen = (\<lambda>e. map_option (\<lambda>n. withChildren n (envFolders [] seen e)) (nodeMapOf e_id projectEnvNode envs e))"

definition folderMapAt :: "folderTreeEntry list \<Rightarrow> folderTreeEntry list \<Rightarrow> nodeMap" where
  "folderMapAt folders seen = (\<lambda>i. map_option (\<lambda>n. withChildren n (subsIn seen i)) (nodeMapOf folderId projectFolderNode folders i))"

lemma folderMapAt_in:
  assumes "foldersOk folders" "f \<in> set folders"
  shows "folderMapAt folders seen (folderId f) = Some (withChildren (projectFolderNode f) (subsIn seen (folderId f)))"
proof -
  have "distinct (map folderId folders)" using assms(1) by (simp add: foldersOk_def)
  then show ?thesis using nodeMapOf_distinct [of folderId folders f projectFolderNode] assms(2)
    by (simp add: folderMapAt_def)
qed

lemma folderStep_at:
  assumes ok: "foldersOk folders" and f: "f \<in> set folders" "set seen \<subseteq> set folders"
  shows "folderStep f (envMapAt envs seen, folderMapAt folders seen, map folderId (filter (folderOrphan envs folders) seen)) =
     (envMapAt envs (seen @ [f]), folderMapAt folders (seen @ [f]),
      map folderId (filter (folderOrphan envs folders) (seen @ [f])))"
proof (cases "fe_level f = 1")
  case True
  have node: "the (folderMapAt folders seen (folderId f)) = withChildren (projectFolderNode f) (subsIn seen (folderId f))"
    using folderMapAt_in [OF ok f(1)] by simp
  have fm: "folderMapAt folders (seen @ [f]) = folderMapAt folders seen"
    using True by (simp add: folderMapAt_def subsIn_def)
  have em: "envMapAt envs (seen @ [f]) = (if fe_env f \<notin> e_id ` set envs then envMapAt envs seen
      else attach (fe_env f) (withChildren (projectFolderNode f) (subsIn seen (folderId f))) (envMapAt envs seen))"
    using True nodeMapOf_None [of e_id projectEnvNode envs "fe_env f"]
    by (cases "nodeMapOf e_id projectEnvNode envs (fe_env f)")
      (simp_all add: fun_eq_iff envMapAt_def envFolders_snoc attach_apply addChildren_def)
  show ?thesis using True node fm em
    by (auto simp: folderStep_def Let_def folderOrphan_def envMapAt_def nodeMapOf_None)
next
  case False
  have "\<not> (fe_level g \<noteq> 1 \<and> fe_parent g = folderId f)" if "g \<in> set seen" for g
  proof -
    have "g \<in> set folders" using that f(2) by blast
    then show ?thesis using ok f(1) False unfolding foldersOk_def by metis
  qed
  then have "subsIn seen (folderId f) = []" by (simp add: subsIn_def filter_empty_conv)
  then have node: "the (folderMapAt folders seen (folderId f)) = projectFolderNode f"
    using folderMapAt_in [OF ok f(1), of seen] by (simp only: withChildren_leaf project_leaf option.sel)
  have em: "envMapAt envs (seen @ [f]) = envMapAt envs seen"
    using False by (simp add: envMapAt_def envFolders_snoc)
  have fm: "folderMapAt folders (seen @ [f]) = (if fe_parent f \<notin> folderId ` set folders then folderMapAt folders seen
      else attach (fe_parent f) (projectFolderNode f) (folderMapAt folders seen))"
    using False nodeMapOf_None [of folderId projectFolderNode folders "fe_parent f"]
    by (cases "nodeMapOf folderId projectFolderNode folders (fe_parent f)")
      (simp_all add: fun_eq_iff folderMapAt_def subsIn_def attach_apply addChildren_def)
  show ?thesis using False node fm em
    by (auto simp: folderStep_def Let_def folderOrphan_def folderMapAt_def nodeMapOf_None)
qed

lemma folderFold_at:
  assumes ok: "foldersOk folders" and "set xs \<subseteq> set folders" "set seen \<subseteq> set folders"
  shows "fold folderStep xs (envMapAt envs seen, folderMapAt folders seen, map folderId (filter (folderOrphan envs folders) seen)) =
     (envMapAt envs (seen @ xs), folderMapAt folders (seen @ xs),
      map folderId (filter (folderOrphan envs folders) (seen @ xs)))"
  using assms(2,3)
proof (induction xs arbitrary: seen)
  case (Cons f xs)
  from Cons.prems have f: "f \<in> set folders" "set seen \<subseteq> set folders" by auto
  have "set (seen @ [f]) \<subseteq> set folders" "set xs \<subseteq> set folders" using Cons.prems by auto
  from Cons.IH [OF this(2,1)] show ?case using folderStep_at [OF ok f, of envs] by simp
qed simp


section \<open>The tree as the data define it\<close>

definition folderTree :: "folderTreeEntry list \<Rightarrow> folderTreeEntry \<Rightarrow> treeNode" where
  "folderTree folders f = withChildren (projectFolderNode f) (subsIn folders (folderId f))"

definition envTree :: "folderTreeEntry list \<Rightarrow> entity \<Rightarrow> treeNode" where
  "envTree folders e = withChildren (projectEnvNode e)
     (map (folderTree folders) (filter (\<lambda>f. fe_level f = 1 \<and> fe_env f = e_id e) folders))"

text \<open>The upper levels over a given tree \<open>eT\<close> of each environment.\<close>

definition projectTree :: "(entity \<Rightarrow> treeNode) \<Rightarrow> entity list \<Rightarrow> entity \<Rightarrow> treeNode" where
  "projectTree eT envs p = withChildren (projectProjectNode p) (map eT (filter (\<lambda>e. e_parent e = e_id p) envs))"

definition orgTree :: "(entity \<Rightarrow> treeNode) \<Rightarrow> entity list \<Rightarrow> entity list \<Rightarrow> entity \<Rightarrow> treeNode" where
  "orgTree eT projects envs o' = withChildren (projectOrgNode o')
     (map (projectTree eT envs) (filter (\<lambda>p. e_parent p = e_id o') projects))"

definition orphanNodes ::
    "(entity \<Rightarrow> treeNode) \<Rightarrow> entity list \<Rightarrow> entity list \<Rightarrow> entity list \<Rightarrow> folderTreeEntry list \<Rightarrow> treeNode list" where
  "orphanNodes eT orgs projects envs folders =
     map (folderTree folders) (filter (folderOrphan envs folders) folders) @
     map eT (filter (\<lambda>e. e_parent e \<notin> set (map e_id projects)) envs) @
     map (projectTree eT envs) (filter (\<lambda>p. e_parent p \<notin> set (map e_id orgs)) projects)"

definition sentinelNode :: "treeNode list \<Rightarrow> treeNode" where
  "sentinelNode = TreeNode orphanSentinelId NodeFolder 0 [] ''__orphans__'' ''Orphan nodes (parent not accessible)'' []"

definition resourceForest ::
    "(entity \<Rightarrow> treeNode) \<Rightarrow> entity list \<Rightarrow> entity list \<Rightarrow> entity list \<Rightarrow> folderTreeEntry list \<Rightarrow> bool \<Rightarrow> treeNode list" where
  "resourceForest eT orgs projects envs folders includeOrphans =
     (let orphans = orphanNodes eT orgs projects envs folders in
      map (orgTree eT projects envs) orgs @
      (if includeOrphans \<and> orphans \<noteq> [] then [sentinelNode orphans] else []))"

fun childrenFirst :: "folderTreeEntry list \<Rightarrow> bool" where
  "childrenFirst [] = True"
| "childrenFirst (f # fs) =
     ((fe_level f = 1 \<longrightarrow> list_all (\<lambda>g. \<not> (fe_level g \<noteq> 1 \<and> fe_parent g = folderId f)) fs) \<and> childrenFirst fs)"

lemma envFolders_childrenFirst:
  "childrenFirst fs \<Longrightarrow>
     envFolders seen fs e = map (folderTree (seen @ fs)) (filter (\<lambda>f. fe_level f = 1 \<and> fe_env f = e) fs)"
proof (induction fs arbitrary: seen)
  case (Cons f fs)
  have "subsIn (seen @ f # fs) (folderId f) = subsIn seen (folderId f)" if "fe_level f = 1"
  proof -
    have "filter (\<lambda>g. fe_level g \<noteq> 1 \<and> fe_parent g = folderId f) fs = []"
      using Cons.prems that by (simp add: filter_empty_conv list_all_iff)
    then show ?thesis using that by (simp add: subsIn_def)
  qed
  with Cons show ?case by (simp add: folderTree_def)
qed simp

lemma mapsAt_Nil:
  "envMapAt envs [] = nodeMapOf e_id projectEnvNode envs"
  "folderMapAt folders [] = nodeMapOf folderId projectFolderNode folders"
  by (auto simp: envMapAt_def folderMapAt_def subsIn_def fun_eq_iff map_option_case withChildren_leaf
      dest!: nodeMapOf_Some split: option.splits)

lemma derefOrphans_map:
  "(\<And>x. x \<in> set xs \<Longrightarrow> m (k x) = Some (t x)) \<Longrightarrow> derefOrphans m (map k xs) = map t xs"
  unfolding derefOrphans_def by (induction xs) (auto simp: List.map_filter_simps)

lemma map_filter_Some: "(\<And>x. x \<in> set xs \<Longrightarrow> m (k x) = Some (t x)) \<Longrightarrow> List.map_filter m (map k xs) = map t xs"
  by (induction xs) (auto simp: List.map_filter_simps)

text \<open>The tree of an environment as the loop builds it.\<close>

definition envTreeSeen :: "folderTreeEntry list \<Rightarrow> entity \<Rightarrow> treeNode" where
  "envTreeSeen folders e = withChildren (projectEnvNode e) (envFolders [] folders (e_id e))"

lemma envTreeSeen_childrenFirst: "childrenFirst folders \<Longrightarrow> envTreeSeen folders = envTree folders"
  by (simp add: fun_eq_iff envTreeSeen_def envTree_def envFolders_childrenFirst)

lemma buildTree_forest:
  assumes ok: "foldersOk folders"
    and d: "distinct (map e_id orgs)" "distinct (map e_id projects)" "distinct (map e_id envs)"
  shows "buildTree orgs projects envs folders inc =
     (resourceForest (envTreeSeen folders) orgs projects envs folders inc, 0,
      length (orphanNodes (envTreeSeen folders) orgs projects envs folders))"
proof -
  let ?eT = "envTreeSeen folders"
  let ?oF = "filter (folderOrphan envs folders) folders"
  let ?oE = "filter (\<lambda>e. e_parent e \<notin> set (map e_id projects)) envs"
  let ?oP = "filter (\<lambda>p. e_parent p \<notin> set (map e_id orgs)) projects"
  have fF: "fold folderStep folders (nodeMapOf e_id projectEnvNode envs, nodeMapOf folderId projectFolderNode folders, []) =
     (envMapAt envs folders, folderMapAt folders folders, map folderId ?oF)"
    using folderFold_at [OF ok, of folders "[]" envs] by (simp add: mapsAt_Nil)
  have F: "folderMapAt folders folders (folderId f) = Some (folderTree folders f)" if "f \<in> set folders" for f
    using folderMapAt_in [OF ok that] by (simp add: folderTree_def)
  have E: "envMapAt envs folders (e_id e) = Some (?eT e)" if "e \<in> set envs" for e
    using nodeMapOf_distinct [OF d(3) that, of projectEnvNode] by (simp add: envMapAt_def envTreeSeen_def)
  define projM where "projM = (\<lambda>p. map_option (\<lambda>n. addChildren n (map (\<lambda>e. the (envMapAt envs folders (e_id e)))
     (filter (\<lambda>e. e_parent e = p) envs))) (nodeMapOf e_id projectProjectNode projects p))"
  have fE: "fold (entityStep (envMapAt envs folders)) envs (nodeMapOf e_id projectProjectNode projects, []) = (projM, map e_id ?oE)"
    unfolding entityStep_fold projM_def by (simp add: nodeMapOf_None)
  have P: "projM (e_id p) = Some (projectTree ?eT envs p)" if "p \<in> set projects" for p
  proof -
    have m: "map (\<lambda>e. the (envMapAt envs folders (e_id e))) (filter (\<lambda>e. e_parent e = e_id p) envs) =
        map ?eT (filter (\<lambda>e. e_parent e = e_id p) envs)" using E by simp
    show ?thesis unfolding projM_def m nodeMapOf_distinct [OF d(2) that, of projectProjectNode]
      by (simp add: projectTree_def addChildren_leaf)
  qed
  define orgM where "orgM = (\<lambda>i. map_option (\<lambda>n. addChildren n (map (\<lambda>p. the (projM (e_id p)))
     (filter (\<lambda>p. e_parent p = i) projects))) (nodeMapOf e_id projectOrgNode orgs i))"
  have fP: "fold (entityStep projM) projects (nodeMapOf e_id projectOrgNode orgs, []) = (orgM, map e_id ?oP)"
    unfolding entityStep_fold orgM_def by (simp add: nodeMapOf_None)
  have O: "orgM (e_id o') = Some (orgTree ?eT projects envs o')" if "o' \<in> set orgs" for o'
  proof -
    have m: "map (\<lambda>p. the (projM (e_id p))) (filter (\<lambda>p. e_parent p = e_id o') projects) =
        map (projectTree ?eT envs) (filter (\<lambda>p. e_parent p = e_id o') projects)" using P by simp
    show ?thesis unfolding orgM_def m nodeMapOf_distinct [OF d(1) that, of projectOrgNode]
      by (simp add: orgTree_def addChildren_leaf)
  qed
  have roots: "List.map_filter orgM (orderedOrgIds orgs) = map (orgTree ?eT projects envs) orgs"
    unfolding orderedOrgIds_def by (rule map_filter_Some) (rule O)
  have dF: "derefOrphans (folderMapAt folders folders) (map folderId ?oF) = map (folderTree folders) ?oF"
    by (rule derefOrphans_map) (rule F, simp)
  have dE: "derefOrphans (envMapAt envs folders) (map e_id ?oE) = map ?eT ?oE"
    by (rule derefOrphans_map) (rule E, simp)
  have dP: "derefOrphans projM (map e_id ?oP) = map (projectTree ?eT envs) ?oP"
    by (rule derefOrphans_map) (rule P, simp)
  have "derefOrphans (folderMapAt folders folders) (map folderId ?oF) @ derefOrphans (envMapAt envs folders) (map e_id ?oE) @
      derefOrphans projM (map e_id ?oP) = orphanNodes ?eT orgs projects envs folders"
    unfolding dF dE dP orphanNodes_def by (rule refl)
  moreover have "length (map folderId ?oF) + length (map e_id ?oE) + length (map e_id ?oP) =
      length (orphanNodes ?eT orgs projects envs folders)" by (simp add: orphanNodes_def)
  ultimately show ?thesis
    unfolding buildTree_def fF fE fP prod.case roots Let_def resourceForest_def sentinelNode_def by simp
qed


text \<open>C21. The tree is assembled correctly if sub-folders come first. For lists with unique identifiers in which
  every sub-folder's parent is a top-level folder and every sub-folder stands before its parent, \<open>buildTree\<close>
  returns exactly the forest defined by the parent relation: under each organization its projects, under each
  project its environments, under each environment its top-level folders with all their sub-folders, in the
  order of the lists, and, if requested and there are any, a sentinel root with the nodes whose parent is not
  visible, the number of which is returned.\<close>

theorem buildTree_exact:
  assumes "foldersOk folders" "childrenFirst folders"
    and "distinct (map e_id orgs)" "distinct (map e_id projects)" "distinct (map e_id envs)"
  shows "buildTree orgs projects envs folders inc =
     (resourceForest (envTree folders) orgs projects envs folders inc, 0,
      length (orphanNodes (envTree folders) orgs projects envs folders))"
  using buildTree_forest [OF assms(1,3-5)] envTreeSeen_childrenFirst [OF assms(2)] by simp


definition demoEntity :: "str \<Rightarrow> str \<Rightarrow> entity" where
  "demoEntity i parent = readEntity emptyStore Projects (demoRow i parent i None 1)"

definition demoFolder :: "str \<Rightarrow> int \<Rightarrow> str \<Rightarrow> str \<Rightarrow> folderTreeEntry" where
  "demoFolder i lvl env parent = \<lparr> fe_entity = demoEntity i env, fe_level = lvl, fe_env = env, fe_parent = parent,
     fe_project = ''p'' \<rparr>"

text \<open>The references (type and identifier) of all nodes of a tree.\<close>

fun nodeRefs :: "treeNode \<Rightarrow> (treeNodeType \<times> str) list" where
  "nodeRefs (TreeNode i t l p co n m cs) = (t, i) # concat (map nodeRefs cs)"

definition forestRefs :: "treeNode list \<Rightarrow> (treeNodeType \<times> str) list" where
  "forestRefs ns = concat (map nodeRefs ns)"

theorem buildTree_exact_witness:
  "forestRefs (fst (buildTree [demoEntity ''o'' []] [demoEntity ''p'' ''o''] [demoEntity ''e'' ''p'', demoEntity ''x'' ''q'']
       [demoFolder ''s'' 2 ''e'' ''f'', demoFolder ''f'' 1 ''e'' []] True)) =
   [(NodeOrganization, ''o''), (NodeProject, ''p''), (NodeEnvironment, ''e''), (NodeFolder, ''f''), (NodeFolder, ''s''),
    (NodeFolder, orphanSentinelId), (NodeEnvironment, ''x'')]"
proof -
  have a: "foldersOk [demoFolder ''s'' 2 ''e'' ''f'', demoFolder ''f'' 1 ''e'' []]"
    "childrenFirst [demoFolder ''s'' 2 ''e'' ''f'', demoFolder ''f'' 1 ''e'' []]"
    "distinct (map e_id [demoEntity ''o'' []])" "distinct (map e_id [demoEntity ''p'' ''o''])"
    "distinct (map e_id [demoEntity ''e'' ''p'', demoEntity ''x'' ''q''])" by code_simp+
  show ?thesis unfolding buildTree_exact [OF a] by code_simp
qed

lemma nodeRefs_withChildren [simp]: "nodeRefs (withChildren n cs) = (tn_type n, tn_id n) # forestRefs cs"
  by (cases n) (simp add: forestRefs_def)

lemma nodeRefs_leaf: "tn_children n = [] \<Longrightarrow> nodeRefs n = [(tn_type n, tn_id n)]"
  by (cases n) simp

lemma forestRefs_simps [simp]:
  "forestRefs [] = []" "forestRefs (n # ns) = nodeRefs n @ forestRefs ns" "forestRefs (xs @ ys) = forestRefs xs @ forestRefs ys"
  by (simp_all add: forestRefs_def)

lemma set_forestRefs: "set (forestRefs ns) = (\<Union>n \<in> set ns. set (nodeRefs n))"
  by (simp add: forestRefs_def)

lemma refs_subsIn:
  "x \<in> set (forestRefs (subsIn seen i)) \<longleftrightarrow> (\<exists>k \<in> set seen. fe_level k \<noteq> 1 \<and> fe_parent k = i \<and> x = (NodeFolder, folderId k))"
  by (auto simp: set_forestRefs subsIn_def nodeRefs_leaf)

lemma refs_envFolders:
  "x \<in> set (forestRefs (envFolders seen fs e)) \<Longrightarrow>
     \<exists>a h b. fs = a @ h # b \<and> fe_level h = 1 \<and> fe_env h = e \<and> (x = (NodeFolder, folderId h) \<or>
       (\<exists>k \<in> set (seen @ a). fe_level k \<noteq> 1 \<and> fe_parent k = folderId h \<and> x = (NodeFolder, folderId k)))"
proof (induction fs arbitrary: seen)
  case (Cons f fs)
  show ?case
  proof (cases "x \<in> set (forestRefs (envFolders (seen @ [f]) fs e))")
    case True
    from Cons.IH [OF this] obtain a h b where "fs = a @ h # b" "fe_level h = 1" "fe_env h = e"
      "x = (NodeFolder, folderId h) \<or>
       (\<exists>k \<in> set ((seen @ [f]) @ a). fe_level k \<noteq> 1 \<and> fe_parent k = folderId h \<and> x = (NodeFolder, folderId k))" by blast
    then show ?thesis by (intro exI [of _ "f # a"] exI [of _ h] exI [of _ b]) simp
  next
    case False
    with Cons.prems have f: "fe_level f = 1" "fe_env f = e"
      "x \<in> set (nodeRefs (withChildren (projectFolderNode f) (subsIn seen (folderId f))))"
      by (auto split: if_splits)
    then have "x = (NodeFolder, folderId f) \<or>
       (\<exists>k \<in> set seen. fe_level k \<noteq> 1 \<and> fe_parent k = folderId f \<and> x = (NodeFolder, folderId k))"
      using refs_subsIn [of x seen "folderId f"] by simp
    with f show ?thesis by (intro exI [of _ "[]"] exI [of _ f] exI [of _ fs]) simp
  qed
qed simp

lemma refs_resourceForest:
  assumes "(NodeFolder, i) \<in> set (forestRefs (resourceForest eT orgs projects envs folders inc))" "i \<noteq> orphanSentinelId"
  shows "(\<exists>e \<in> set envs. (NodeFolder, i) \<in> set (nodeRefs (eT e))) \<or>
         (\<exists>f \<in> set folders. folderOrphan envs folders f \<and> (NodeFolder, i) \<in> set (nodeRefs (folderTree folders f)))"
proof -
  have p: "(NodeFolder, i) \<in> set (nodeRefs (projectTree eT envs p)) \<Longrightarrow> \<exists>e \<in> set envs. (NodeFolder, i) \<in> set (nodeRefs (eT e))"
    for p by (auto simp: projectTree_def set_forestRefs)
  have o': "(NodeFolder, i) \<in> set (nodeRefs (orgTree eT projects envs x)) \<Longrightarrow> \<exists>e \<in> set envs. (NodeFolder, i) \<in> set (nodeRefs (eT e))"
    for x using p by (auto simp: orgTree_def set_forestRefs)
  have s: "(NodeFolder, i) \<in> set (forestRefs [sentinelNode ns]) \<Longrightarrow> (NodeFolder, i) \<in> set (forestRefs ns)" for ns
    using assms(2) by (simp add: sentinelNode_def forestRefs_def)
  have or: "(NodeFolder, i) \<in> set (forestRefs (orphanNodes eT orgs projects envs folders)) \<Longrightarrow> ?thesis"
    using p by (auto simp: orphanNodes_def set_forestRefs)
  from assms(1) consider "(NodeFolder, i) \<in> set (forestRefs (map (orgTree eT projects envs) orgs))"
    | "(NodeFolder, i) \<in> set (forestRefs [sentinelNode (orphanNodes eT orgs projects envs folders)])"
    by (auto simp: resourceForest_def Let_def split: if_splits)
  then show ?thesis
  proof cases
    case 1
    then show ?thesis using o' by (auto simp: set_forestRefs)
  next
    case 2
    then show ?thesis using or s by blast
  qed
qed


lemma folder_split_unique:
  assumes "pre @ f # post = a @ h # b" "distinct (map folderId (pre @ f # post))" "folderId h = folderId f"
  shows "a = pre" "b = post"
proof -
  have inj: "inj_on folderId (set (pre @ f # post))" using assms(2) unfolding distinct_map by blast
  have "h \<in> set (pre @ f # post)" using assms(1) by simp
  then have h: "h = f" by (rule inj_onD [OF inj assms(3)]) simp
  have d: "distinct (pre @ f # post)" using assms(2) unfolding distinct_map by blast
  then have "distinct (a @ f # b)" using assms(1) h by simp
  then have "f \<notin> set a" by simp
  moreover have "f \<notin> set pre" "f \<notin> set post" using d by simp_all
  moreover have "pre @ f # post = a @ f # b" using assms(1) h by simp
  ultimately show "a = pre" "b = post" using append_Cons_eq_iff [of f pre post a b] by blast+
qed

text \<open>A sub-folder that comes after its parent disappears. If the list has a top-level folder \<open>f\<close> of a
  visible environment and, later, a sub-folder \<open>g\<close> of \<open>f\<close>, then \<open>g\<close> is nowhere in the result of
  \<open>buildTree\<close>: \<open>f\<close> was copied into its environment before \<open>g\<close> was attached to it. Yet \<open>g\<close> is no
  orphan, and the number of dropped nodes is reported as 0. Both sources list the folders in an order (by name,
  or that of a Redis set) that does not put sub-folders first.\<close>

theorem late_subfolder_lost:
  assumes "foldersOk folders" "folders = pre @ f # mid @ g # post"
    and "distinct (map e_id orgs)" "distinct (map e_id projects)" "distinct (map e_id envs)"
    and "fe_level f = 1" "fe_env f \<in> set (map e_id envs)" "fe_level g \<noteq> 1" "fe_parent g = e_id (fe_entity f)"
    and "e_id (fe_entity g) \<noteq> orphanSentinelId"
  shows "case buildTree orgs projects envs folders inc of (roots, dropped, orphans) \<Rightarrow>
     (NodeFolder, e_id (fe_entity g)) \<notin> set (forestRefs roots) \<and> \<not> folderOrphan envs folders g \<and> dropped = 0"
proof -
  have dist: "distinct (map folderId folders)" using assms(1) by (simp add: foldersOk_def)
  have inF: "f \<in> set folders" "g \<in> set folders" using assms(2) by auto
  have late: "g \<notin> set pre" using dist unfolding assms(2) by auto
  have same: "k = x" if "k \<in> set folders" "x \<in> set folders" "folderId k = folderId x" for k x
    using dist that by (metis distinct_map inj_onD)
  have no_orphan: "\<not> folderOrphan envs folders g" "\<not> folderOrphan envs folders f"
    using assms(6-9) inF by (auto simp: folderOrphan_def)
  have "(NodeFolder, folderId g) \<notin> set (nodeRefs (envTreeSeen folders e))" for e
  proof
    assume "(NodeFolder, folderId g) \<in> set (nodeRefs (envTreeSeen folders e))"
    then have "(NodeFolder, folderId g) \<in> set (forestRefs (envFolders [] folders (e_id e)))"
      by (auto simp: envTreeSeen_def)
    from refs_envFolders [OF this] obtain a h b where h: "folders = a @ h # b" "fe_level h = 1"
      "folderId g = folderId h \<or> (\<exists>k \<in> set a. fe_level k \<noteq> 1 \<and> fe_parent k = folderId h \<and> folderId g = folderId k)"
      by auto
    have inh: "h \<in> set folders" "set a \<subseteq> set folders" using h(1) by auto
    from h(3) show False
    proof
      assume "folderId g = folderId h"
      then have "g = h" using same inF inh by blast
      with h(2) assms(8) show False by simp
    next
      assume "\<exists>k \<in> set a. fe_level k \<noteq> 1 \<and> fe_parent k = folderId h \<and> folderId g = folderId k"
      then obtain k where k: "k \<in> set a" "fe_parent k = folderId h" "folderId g = folderId k" by blast
      then have "k = g" using same inF inh by blast
      then have hf: "folderId h = folderId f" using k(2) assms(9) by simp
      have "a = pre" by (rule folder_split_unique(1) [of pre f "mid @ g # post" a h b])
          (use h(1) assms(2) dist hf in simp_all)
      then have "g \<in> set pre" using k(1) \<open>k = g\<close> by simp
      with late show False by blast
    qed
  qed
  moreover have "(NodeFolder, folderId g) \<notin> set (nodeRefs (folderTree folders x))"
    if x: "x \<in> set folders" "folderOrphan envs folders x" for x
  proof
    assume "(NodeFolder, folderId g) \<in> set (nodeRefs (folderTree folders x))"
    then have "folderId g = folderId x \<or> (\<exists>k \<in> set folders. fe_parent k = folderId x \<and> folderId g = folderId k)"
      by (auto simp: folderTree_def refs_subsIn)
    then have "g = x \<or> fe_parent g = folderId x" using same inF x(1) by blast
    then have "g = x \<or> f = x" using assms(9) same inF(1) x(1) by auto
    with no_orphan x(2) show False by blast
  qed
  ultimately have "(NodeFolder, folderId g) \<notin> set (forestRefs (resourceForest (envTreeSeen folders) orgs projects envs folders inc))"
    using refs_resourceForest assms(10) by blast
  then show ?thesis using buildTree_forest [OF assms(1,3-5)] no_orphan by simp
qed

theorem late_subfolder_lost_witness:
  "forestRefs (fst (buildTree [demoEntity ''o'' []] [demoEntity ''p'' ''o''] [demoEntity ''e'' ''p'']
       [demoFolder ''a'' 1 ''e'' [], demoFolder ''b'' 2 ''e'' ''a''] True)) =
     [(NodeOrganization, ''o''), (NodeProject, ''p''), (NodeEnvironment, ''e''), (NodeFolder, ''a'')] \<and>
   (NodeFolder, ''b'') \<notin> set (forestRefs (fst (buildTree [demoEntity ''o'' []] [demoEntity ''p'' ''o''] [demoEntity ''e'' ''p'']
       [demoFolder ''a'' 1 ''e'' [], demoFolder ''b'' 2 ''e'' ''a''] True)))"
proof -
  have a: "foldersOk [demoFolder ''a'' 1 ''e'' [], demoFolder ''b'' 2 ''e'' ''a'']"
    "[demoFolder ''a'' 1 ''e'' [], demoFolder ''b'' 2 ''e'' ''a''] =
       [] @ demoFolder ''a'' 1 ''e'' [] # [] @ demoFolder ''b'' 2 ''e'' ''a'' # []"
    "distinct (map e_id [demoEntity ''o'' []])" "distinct (map e_id [demoEntity ''p'' ''o''])"
    "distinct (map e_id [demoEntity ''e'' ''p''])" "fe_level (demoFolder ''a'' 1 ''e'' []) = 1"
    "fe_env (demoFolder ''a'' 1 ''e'' []) \<in> set (map e_id [demoEntity ''e'' ''p''])"
    "fe_level (demoFolder ''b'' 2 ''e'' ''a'') \<noteq> 1"
    "fe_parent (demoFolder ''b'' 2 ''e'' ''a'') = e_id (fe_entity (demoFolder ''a'' 1 ''e'' []))"
    "e_id (fe_entity (demoFolder ''b'' 2 ''e'' ''a'')) \<noteq> orphanSentinelId" by code_simp+
  have b: "e_id (fe_entity (demoFolder ''b'' 2 ''e'' ''a'')) = ''b''" by code_simp
  have "(NodeFolder, ''b'') \<notin> set (forestRefs (fst (buildTree [demoEntity ''o'' []] [demoEntity ''p'' ''o''] [demoEntity ''e'' ''p'']
       [demoFolder ''a'' 1 ''e'' [], demoFolder ''b'' 2 ''e'' ''a''] True)))"
    using late_subfolder_lost [OF a, of True] b by (auto split: prod.splits)
  moreover have "forestRefs (fst (buildTree [demoEntity ''o'' []] [demoEntity ''p'' ''o''] [demoEntity ''e'' ''p'']
       [demoFolder ''a'' 1 ''e'' [], demoFolder ''b'' 2 ''e'' ''a''] True)) =
     [(NodeOrganization, ''o''), (NodeProject, ''p''), (NodeEnvironment, ''e''), (NodeFolder, ''a'')]" by code_simp
  ultimately show ?thesis by blast
qed


section \<open>Only what the caller may read\<close>

definition mapWithin :: "(treeNodeType \<times> str) set \<Rightarrow> nodeMap \<Rightarrow> bool" where
  "mapWithin K m \<longleftrightarrow> (\<forall>i n. m i = Some n \<longrightarrow> set (nodeRefs n) \<subseteq> K)"

lemma set_nodeRefs_addChildren: "set (nodeRefs (addChildren n cs)) = set (nodeRefs n) \<union> set (forestRefs cs)"
  by (cases n) (auto simp: addChildren_def forestRefs_def)

lemma attach_within:
  assumes "mapWithin K m" "set (nodeRefs n) \<subseteq> K"
  shows "mapWithin K (attach p n m)"
  using assms by (cases "m p = None")
    (auto simp: mapWithin_def attach_def set_nodeRefs_addChildren split: option.splits)

lemma dom_attach [simp]: "dom (attach p n m) = dom m"
  by (auto simp: attach_def dom_def split: option.splits)

lemma mapWithinD: "mapWithin K m \<Longrightarrow> m i = Some n \<Longrightarrow> x \<in> set (nodeRefs n) \<Longrightarrow> x \<in> K"
  unfolding mapWithin_def by blast

lemma mapWithin_the: "mapWithin K m \<Longrightarrow> i \<in> dom m \<Longrightarrow> set (nodeRefs (the (m i))) \<subseteq> K"
  by (auto dest: mapWithinD)

lemma mapWithin_nodeMapOf:
  "(\<And>x. x \<in> set xs \<Longrightarrow> set (nodeRefs (v x)) \<subseteq> K) \<Longrightarrow> mapWithin K (nodeMapOf k v xs)"
  by (auto simp: mapWithin_def dest!: nodeMapOf_Some)

lemma dom_nodeMapOf: "dom (nodeMapOf k v xs) = k ` set xs"
  using nodeMapOf_None [of k v xs] by (auto simp: dom_def)

definition folderInv :: "(treeNodeType \<times> str) set \<Rightarrow> str set \<Rightarrow> nodeMap \<times> nodeMap \<times> str list \<Rightarrow> bool" where
  "folderInv K D s \<longleftrightarrow> (case s of (envM, foldM, orph) \<Rightarrow> mapWithin K envM \<and> mapWithin K foldM \<and> dom foldM = D)"

lemma folderStep_inv: "folderInv K D s \<Longrightarrow> folderId f \<in> D \<Longrightarrow> folderInv K D (folderStep f s)"
  by (cases s) (auto simp: folderInv_def folderStep_def Let_def attach_within mapWithin_the simp del: domIff)

lemma folderFold_inv: "folderInv K D s \<Longrightarrow> folderId ` set fs \<subseteq> D \<Longrightarrow> folderInv K D (fold folderStep fs s)"
  by (induction fs arbitrary: s) (simp_all add: folderStep_inv)

lemma entityFold_within:
  assumes "mapWithin K own" "e_id ` set es \<subseteq> dom own" "mapWithin K M"
    and "fold (entityStep own) es (M, orph) = (M', orph')"
  shows "mapWithin K M'" "dom M' = dom M"
proof -
  have M': "M' = (\<lambda>p. map_option (\<lambda>n. addChildren n (map (\<lambda>e. the (own (e_id e))) (filter (\<lambda>e. e_parent e = p) es))) (M p))"
    using assms(4) unfolding entityStep_fold by simp
  have "set (nodeRefs (the (own (e_id e)))) \<subseteq> K" if "e \<in> set es" for e
    using mapWithin_the [OF assms(1)] assms(2) that by blast
  then have c: "set (forestRefs (map (\<lambda>e. the (own (e_id e))) (filter (\<lambda>e. e_parent e = p) es))) \<subseteq> K" for p
    by (auto simp: set_forestRefs)
  show "mapWithin K M'" unfolding mapWithin_def
  proof (intro allI impI)
    fix i n assume "M' i = Some n"
    then obtain n0 where "M i = Some n0" "n = addChildren n0 (map (\<lambda>e. the (own (e_id e))) (filter (\<lambda>e. e_parent e = i) es))"
      unfolding M' by auto
    then show "set (nodeRefs n) \<subseteq> K"
      using c [of i] assms(3) unfolding mapWithin_def by (simp add: set_nodeRefs_addChildren)
  qed
  show "dom M' = dom M" unfolding M' by (auto simp: dom_def)
qed

lemma map_filter_within: "mapWithin K m \<Longrightarrow> set (forestRefs (List.map_filter m xs)) \<subseteq> K"
  by (auto simp: set_forestRefs set_map_filter_iff dest: mapWithinD)

definition readableRefs ::
    "entity list \<Rightarrow> entity list \<Rightarrow> entity list \<Rightarrow> folderTreeEntry list \<Rightarrow> (treeNodeType \<times> str) set" where
  "readableRefs orgs projects envs folders =
     (\<lambda>e. (NodeOrganization, e_id e)) ` set orgs \<union> (\<lambda>e. (NodeProject, e_id e)) ` set projects \<union>
     (\<lambda>e. (NodeEnvironment, e_id e)) ` set envs \<union> (\<lambda>f. (NodeFolder, folderId f)) ` set folders"

lemma buildTree_refs:
  assumes "buildTree orgs projects envs folders inc = (roots, dropped, orphans)"
  shows "set (forestRefs roots) \<subseteq> insert (NodeFolder, orphanSentinelId) (readableRefs orgs projects envs folders)"
proof -
  let ?K = "readableRefs orgs projects envs folders"
  obtain envM foldM orph where f: "fold folderStep folders (nodeMapOf e_id projectEnvNode envs,
      nodeMapOf folderId projectFolderNode folders, []) = (envM, foldM, orph)" by (metis prod_cases3)
  obtain projM orphE where e: "fold (entityStep envM) envs (nodeMapOf e_id projectProjectNode projects, []) = (projM, orphE)"
    by (metis surj_pair)
  obtain orgM orphP where p: "fold (entityStep projM) projects (nodeMapOf e_id projectOrgNode orgs, []) = (orgM, orphP)"
    by (metis surj_pair)
  have w: "mapWithin ?K (nodeMapOf e_id projectOrgNode orgs)" "mapWithin ?K (nodeMapOf e_id projectProjectNode projects)"
    "mapWithin ?K (nodeMapOf e_id projectEnvNode envs)" "mapWithin ?K (nodeMapOf folderId projectFolderNode folders)"
    by (rule mapWithin_nodeMapOf, simp add: nodeRefs_leaf readableRefs_def)+
  have "folderInv ?K (folderId ` set folders) (envM, foldM, orph)"
    unfolding f [symmetric] by (rule folderFold_inv) (simp_all add: folderInv_def w dom_nodeMapOf)
  then have F: "mapWithin ?K envM" "mapWithin ?K foldM" by (simp_all add: folderInv_def)
  have domE: "dom (fst (fold folderStep fs (m, s))) = dom m" for fs :: "folderTreeEntry list" and m s
    by (induction fs arbitrary: m s) (auto simp: folderStep_def Let_def split: prod.splits)
  have "dom envM = e_id ` set envs" 
    using domE [of folders "nodeMapOf e_id projectEnvNode envs" "(nodeMapOf folderId projectFolderNode folders, [])"]
    unfolding f by (simp add: dom_nodeMapOf)
  then have E: "mapWithin ?K projM" "dom projM = e_id ` set projects"
    using entityFold_within [OF F(1) _ w(2) e] by (simp_all add: dom_nodeMapOf)
  have O: "mapWithin ?K orgM" using entityFold_within(1) [OF E(1) _ w(1) p] E(2) by simp
  let ?r = "List.map_filter orgM (orderedOrgIds orgs)"
  let ?cs = "derefOrphans foldM orph @ derefOrphans envM orphE @ derefOrphans projM orphP"
  have r: "set (forestRefs ?r) \<subseteq> ?K" by (rule map_filter_within [OF O])
  have cs: "set (forestRefs ?cs) \<subseteq> ?K"
    unfolding derefOrphans_def using map_filter_within [OF F(2)] map_filter_within [OF F(1)] map_filter_within [OF E(1)] by simp
  have "roots = ?r \<or> roots = ?r @ [sentinelNode ?cs]"
    using assms unfolding buildTree_def f e p prod.case Let_def sentinelNode_def by (simp split: if_splits)
  moreover have "set (forestRefs [sentinelNode ?cs]) = insert (NodeFolder, orphanSentinelId) (set (forestRefs ?cs))"
    by (simp add: sentinelNode_def forestRefs_def)
  ultimately show ?thesis using r cs by (elim disjE) (simp_all only: forestRefs_simps set_append, blast+)
qed

lemma truncate_refs: "set (nodeRefs (truncateChildren d c n)) \<subseteq> set (nodeRefs n)"
  by (induction d c n rule: truncateChildren.induct) auto

lemma applyMaxDepth_refs: "set (forestRefs (applyMaxDepth d roots)) \<subseteq> set (forestRefs roots)"
  using truncate_refs [of d 1] unfolding applyMaxDepth_def set_forestRefs by (auto simp del: nodeRefs.simps; blast)


definition readRequest :: "treeNodeType \<Rightarrow> str \<times> str" where
  "readRequest ty = (case ty of NodeOrganization \<Rightarrow> (''org:read'', ''organization'') | NodeProject \<Rightarrow> (''project:read'', ''project'')
     | NodeEnvironment \<Rightarrow> (''env:read'', ''environment'') | NodeFolder \<Rightarrow> (''folder:read'', ''folder''))"

lemma allowKeeps_True:
  "allowKeeps svc u st action rtype i = Inr True \<Longrightarrow> tv_authz svc st u action \<lparr> res_type = rtype, res_id = i \<rparr> = Inr ()"
  by (auto simp: allowKeeps_def split: sum.splits if_splits)

lemma filterE_Inr_holds: "filterE p xs = Inr ys \<Longrightarrow> y \<in> set ys \<Longrightarrow> p y = Inr True"
  using filterE_Inr_sound [of p xs ys] by auto

lemma getTree_cases:
  assumes "getTree svc u req w = (Inr t, w')"
  obtains snap b orgs projects envs folders roots dropped orphans where
    "loadSnapshot svc u w = (Inr (snap, b), w')" "w_st w' = w_st w"
    "filterOrgsByAllow svc u (w_st w) (ts_orgs snap) = Inr orgs"
    "filterProjectsByAllow svc u (w_st w) (ts_projects snap) = Inr projects"
    "filterEnvsByAllow svc u (w_st w) (ts_envs snap) = Inr envs"
    "filterFoldersByAllow svc u (w_st w) (ts_folders snap) = Inr folders"
    "buildTree orgs projects envs folders (tq_includeOrphans req) = (roots, dropped, orphans)"
    "rt_roots t = applyMaxDepth (clampDepth (tq_maxDepth req)) roots"
proof -
  from assms obtain snap b where l: "loadSnapshot svc u w = (Inr (snap, b), w')"
    and a: "assembleTree svc u (w_st w') req snap b = Inr t" by (auto simp: getTree_def bindS_Inr_iff)
  have st: "w_st w' = w_st w"
    using l by (auto simp: loadSnapshot_def cacheS_def bindS_def Let_def split: option.splits)
  from a obtain orgs projects envs folders where f:
    "filterOrgsByAllow svc u (w_st w) (ts_orgs snap) = Inr orgs"
    "filterProjectsByAllow svc u (w_st w) (ts_projects snap) = Inr projects"
    "filterEnvsByAllow svc u (w_st w) (ts_envs snap) = Inr envs"
    "filterFoldersByAllow svc u (w_st w) (ts_folders snap) = Inr folders"
    unfolding st assembleTree_def bindE_Inr_iff by blast
  obtain roots dropped orphans where b: "buildTree orgs projects envs folders (tq_includeOrphans req) = (roots, dropped, orphans)"
    by (cases "buildTree orgs projects envs folders (tq_includeOrphans req)")
  from a have "rt_roots t = applyMaxDepth (clampDepth (tq_maxDepth req)) roots"
    unfolding st assembleTree_def f bindE_simps b prod.case by auto
  with l st f b show thesis by (rule that)
qed

lemma getTree_store: "getTree svc u req w = (Inr t, w') \<Longrightarrow> w_st w' = w_st w"
  by (rule getTree_cases)

lemma filterE_allowed:
  "filterE (\<lambda>x. allowKeeps svc u st action rtype (k x)) xs = Inr ys \<Longrightarrow> y \<in> set ys \<Longrightarrow>
     tv_authz svc st u action \<lparr> res_type = rtype, res_id = k y \<rparr> = Inr ()"
  by (rule allowKeeps_True) (rule filterE_Inr_holds)

text \<open>C11. The tree shows nothing the caller may not read. Whatever the cache or the database returned, every node
  at any depth of a tree that \<open>GetTree\<close> returns, except the sentinel root, is a resource on which the authorizer
  allows the caller the read action of its type; the call does not change the store.\<close>

theorem getTree_authorized:
  assumes "getTree svc u req w = (Inr t, w')"
  shows "w_st w' = w_st w \<and> (\<forall>(ty, i) \<in> set (forestRefs (rt_roots t)). (ty, i) \<noteq> (NodeFolder, orphanSentinelId) \<longrightarrow>
     tv_authz svc (w_st w) u (fst (readRequest ty)) \<lparr> res_type = snd (readRequest ty), res_id = i \<rparr> = Inr ())"
proof (rule getTree_cases [OF assms])
  fix snap b orgs projects envs folders roots dropped orphans
  assume st: "w_st w' = w_st w"
    and f: "filterOrgsByAllow svc u (w_st w) (ts_orgs snap) = Inr orgs"
    "filterProjectsByAllow svc u (w_st w) (ts_projects snap) = Inr projects"
    "filterEnvsByAllow svc u (w_st w) (ts_envs snap) = Inr envs"
    "filterFoldersByAllow svc u (w_st w) (ts_folders snap) = Inr folders"
    and b: "buildTree orgs projects envs folders (tq_includeOrphans req) = (roots, dropped, orphans)"
    and r: "rt_roots t = applyMaxDepth (clampDepth (tq_maxDepth req)) roots"
  have ok: "tv_authz svc (w_st w) u (fst (readRequest ty)) \<lparr> res_type = snd (readRequest ty), res_id = i \<rparr> = Inr ()"
    if "(ty, i) \<in> readableRefs orgs projects envs folders" for ty i
    using that f [unfolded filterOrgsByAllow_def filterProjectsByAllow_def filterEnvsByAllow_def filterFoldersByAllow_def,
      THEN filterE_allowed] unfolding readableRefs_def by (elim UnE imageE) (simp_all add: readRequest_def)
  have "set (forestRefs (rt_roots t)) \<subseteq> insert (NodeFolder, orphanSentinelId) (readableRefs orgs projects envs folders)"
    unfolding r using buildTree_refs [OF b] applyMaxDepth_refs by blast
  with ok st show ?thesis by blast
qed

definition demoTreeSvc :: treeService where
  "demoTreeSvc = \<lparr> tv_prefix = ''ev'', tv_authz = storeAllow \<rparr>"

text \<open>A store for the tree: \<open>al\<close> reads one folder, \<open>bo\<close> everything.\<close>

definition treePerm :: "str \<Rightarrow> str \<Rightarrow> str \<Rightarrow> permissionRow" where
  "treePerm i c rt = \<lparr> p_id = i, p_code = c, p_resourceType = rt, p_action = ''read'', p_description = [] \<rparr>"

definition treeStore :: store where
  "treeStore = demoStore\<lparr>
     permsT := [treePerm ''p1'' ''org:read'' ''org'', treePerm ''p2'' ''project:read'' ''project'',
       treePerm ''p3'' ''env:read'' ''env'', treePerm ''p4'' ''folder:read'' ''folder''],
     rolePermsT := [(''r1'', ''p4''), (''r2'', ''p1''), (''r2'', ''p2''), (''r2'', ''p3''), (''r2'', ''p4'')],
     usersT := [demoUser ''al'' False, demoUser ''bo'' False],
     bindingsT := [mkBinding ''b1'' ''al'' ''r1'' ''folder'' (Some ''f'') ''x'' None 1,
       mkBinding ''b2'' ''bo'' ''r2'' ''global'' None ''x'' None 1]\<rparr>"

definition treeWorld :: world where
  "treeWorld = \<lparr> w_st = treeStore, w_rd = Some \<lparr> rd_up = True, rd_keys = [] \<rparr>, w_rand = [] \<rparr>"

definition treeReq :: "int \<Rightarrow> treeRequest" where
  "treeReq d = \<lparr> tq_includeOrphans = True, tq_maxDepth = d \<rparr>"

theorem getTree_authorized_witness:
  "forestRefs (rt_roots (projr (fst (getTree demoTreeSvc (demoUI ''al'') (treeReq 0) treeWorld)))) =
     [(NodeFolder, orphanSentinelId), (NodeFolder, ''f''), (NodeFolder, ''g'')] \<and>
   storeAllow treeStore (demoUI ''al'') ''folder:read'' \<lparr> res_type = ''folder'', res_id = ''f'' \<rparr> = Inr ()"
proof -
  let ?g = "getTree demoTreeSvc (demoUI ''al'') (treeReq 0) treeWorld"
  have "is_ok (fst ?g)" by code_simp
  then have g: "?g = (Inr (projr (fst ?g)), snd ?g)" by (cases "fst ?g") (simp_all add: prod_eq_iff)
  have v: "forestRefs (rt_roots (projr (fst ?g))) = [(NodeFolder, orphanSentinelId), (NodeFolder, ''f''), (NodeFolder, ''g'')]" by code_simp
  have n: "''f'' \<noteq> orphanSentinelId" by (simp add: orphanSentinelId_def)
  from getTree_authorized [OF g] v n show ?thesis
    by (simp add: demoTreeSvc_def treeWorld_def readRequest_def)
qed


section \<open>Depth\<close>

fun height :: "treeNode \<Rightarrow> nat" where
  "height (TreeNode i t l p co n m cs) = Suc (foldr max (map height cs) 0)"

lemma foldr_max_le: "(\<And>x. x \<in> set xs \<Longrightarrow> x \<le> (b::nat)) \<Longrightarrow> foldr max xs 0 \<le> b"
  by (induction xs) auto

lemma height_truncate: "c \<le> d \<Longrightarrow> height (truncateChildren d c n) \<le> Suc (nat (d - c))"
proof (induction d c n rule: truncateChildren.induct)
  case (1 d c i t l p co n m cs)
  show ?case
  proof (cases "c \<ge> d")
    case False
    have "height (truncateChildren d (c + 1) x) \<le> nat (d - c)" if "x \<in> set cs" for x
      using 1 (1) [OF False that] False by (simp add: nat_diff_distrib' Suc_nat_eq_nat_zadd1)
    then have "foldr max (map (height \<circ> truncateChildren d (c + 1)) cs) 0 \<le> nat (d - c)"
      by (intro foldr_max_le) auto
    with False show ?thesis by simp
  qed simp
qed

text \<open>The requested depth is kept, and nothing else changes. When \<open>GetTree\<close> with a depth of 1, 2 or 3
  succeeds, no root of its tree has more levels than requested; and the same request at full depth also
  succeeds, with the same statistics and a tree of which this one is the truncation, root by root.\<close>

theorem getTree_depth:
  assumes "getTree svc u req w = (Inr t, w')" "1 \<le> tq_maxDepth req" "tq_maxDepth req \<le> 3"
  shows "(\<forall>n \<in> set (rt_roots t). height n \<le> nat (tq_maxDepth req)) \<and>
    (\<exists>t4. getTree svc u (req\<lparr>tq_maxDepth := 4\<rparr>) w = (Inr t4, w') \<and> rt_stats t4 = rt_stats t \<and>
       rt_roots t = map (truncateChildren (tq_maxDepth req) 1) (rt_roots t4))"
proof -
  from assms(1) obtain snap b where l: "loadSnapshot svc u w = (Inr (snap, b), w')"
    and a: "assembleTree svc u (w_st w') req snap b = Inr t" by (auto simp: getTree_def bindS_Inr_iff)
  from a obtain orgs projects envs folders where f:
    "filterOrgsByAllow svc u (w_st w') (ts_orgs snap) = Inr orgs"
    "filterProjectsByAllow svc u (w_st w') (ts_projects snap) = Inr projects"
    "filterEnvsByAllow svc u (w_st w') (ts_envs snap) = Inr envs"
    "filterFoldersByAllow svc u (w_st w') (ts_folders snap) = Inr folders"
    unfolding assembleTree_def bindE_Inr_iff by blast
  obtain roots dropped orphans where bt: "buildTree orgs projects envs folders (tq_includeOrphans req) = (roots, dropped, orphans)"
    by (cases "buildTree orgs projects envs folders (tq_includeOrphans req)")
  have c: "clampDepth (tq_maxDepth req) = tq_maxDepth req" "clampDepth 4 = 4" using assms(2,3) by (simp_all add: clampDepth_def)
  have t: "rt_roots t = map (truncateChildren (tq_maxDepth req) 1) roots"
    "rt_stats t = \<lparr> st_orgs = length orgs, st_projects = length projects, st_envs = length envs,
       st_folders = length folders, st_dropped = dropped, st_orphans = orphans \<rparr>"
    using a assms(3) unfolding assembleTree_def f bindE_simps bt prod.case by (auto simp: c applyMaxDepth_def)
  have "height n \<le> nat (tq_maxDepth req)" if "n \<in> set (rt_roots t)" for n
    using that height_truncate [of 1 "tq_maxDepth req"] assms(2) unfolding t by (auto simp: nat_diff_distrib')
  moreover have "\<exists>t4. assembleTree svc u (w_st w') (req\<lparr>tq_maxDepth := 4\<rparr>) snap b = Inr t4 \<and> rt_stats t4 = rt_stats t \<and>
       rt_roots t4 = roots"
    unfolding assembleTree_def f bindE_simps by (simp add: bt c applyMaxDepth_def t)
  ultimately show ?thesis using l t(1) by (auto simp: getTree_def)
qed

theorem getTree_depth_witness:
  "let roots = rt_roots (projr (fst (getTree demoTreeSvc (demoUI ''bo'') (treeReq 2) treeWorld)))
   in forestRefs roots = [(NodeOrganization, ''o''), (NodeProject, ''p'')] \<and> (\<forall>n \<in> set roots. height n \<le> 2)"
proof -
  let ?g = "getTree demoTreeSvc (demoUI ''bo'') (treeReq 2) treeWorld"
  have "is_ok (fst ?g)" by code_simp
  then have g: "?g = (Inr (projr (fst ?g)), snd ?g)" by (cases "fst ?g") (simp_all add: prod_eq_iff)
  have d: "1 \<le> tq_maxDepth (treeReq 2)" "tq_maxDepth (treeReq 2) \<le> 3" by (simp_all add: treeReq_def)
  have "forestRefs (rt_roots (projr (fst ?g))) = [(NodeOrganization, ''o''), (NodeProject, ''p'')]" by code_simp
  with getTree_depth [OF g d] show ?thesis by (simp add: Let_def treeReq_def)
qed

section \<open>One cache for everybody\<close>

definition treeSummary :: "resourceTree \<Rightarrow> str \<times> (treeNodeType \<times> str) list \<times> nat \<times> nat" where
  "treeSummary t = (rt_source t, forestRefs (rt_roots t), st_orphans (rt_stats t), st_dropped (rt_stats t))"

text \<open>The tree cache is poisoned by the first caller. The cache holds one tree for all users, but a miss fills it
  with what the caller of that request may navigate to. In the world \<open>treeWorld\<close> with an empty cache, the user
  \<open>bo\<close>, who may read everything, gets the whole tree; after the user \<open>al\<close>, who may read one folder, has asked
  for his tree, \<open>bo\<close> gets a tree without the second environment, with no error and no hint that nodes are missing.\<close>

theorem tree_cache_poisoned:
  "let w1 = snd (getTree demoTreeSvc (demoUI ''al'') (treeReq 4) treeWorld);
       before = projr (fst (getTree demoTreeSvc (demoUI ''bo'') (treeReq 4) treeWorld));
       after = projr (fst (getTree demoTreeSvc (demoUI ''bo'') (treeReq 4) w1))
   in w_st w1 = treeStore \<and> rt_source before = ''database'' \<and> rt_source after = ''cache'' \<and>
      (NodeEnvironment, ''e2'') \<in> set (forestRefs (rt_roots before)) \<and>
      (NodeEnvironment, ''e2'') \<notin> set (forestRefs (rt_roots after)) \<and>
      storeAllow treeStore (demoUI ''bo'') ''env:read'' \<lparr> res_type = ''environment'', res_id = ''e2'' \<rparr> = Inr () \<and>
      st_orphans (rt_stats after) = 0 \<and> st_dropped (rt_stats after) = 0"
proof -
  let ?w1 = "snd (getTree demoTreeSvc (demoUI ''al'') (treeReq 4) treeWorld)"
  let ?before = "projr (fst (getTree demoTreeSvc (demoUI ''bo'') (treeReq 4) treeWorld))"
  let ?after = "projr (fst (getTree demoTreeSvc (demoUI ''bo'') (treeReq 4) ?w1))"
  have g: "is_ok (fst (getTree demoTreeSvc (demoUI ''al'') (treeReq 4) treeWorld))" by code_simp
  then have gt: "getTree demoTreeSvc (demoUI ''al'') (treeReq 4) treeWorld =
      (Inr (projr (fst (getTree demoTreeSvc (demoUI ''al'') (treeReq 4) treeWorld))), ?w1)"
    by (cases "fst (getTree demoTreeSvc (demoUI ''al'') (treeReq 4) treeWorld)") (simp_all add: prod_eq_iff)
  have 1: "w_st ?w1 = treeStore" using getTree_store [OF gt] by (simp add: treeWorld_def)
  have 2: "treeSummary ?before = (''database'', [(NodeOrganization, ''o''), (NodeProject, ''p''), (NodeEnvironment, ''e''),
      (NodeFolder, ''f''), (NodeEnvironment, ''e2'')], 0, 0)" by code_simp
  have 3: "treeSummary ?after = (''cache'', [(NodeOrganization, ''o''), (NodeProject, ''p''), (NodeEnvironment, ''e''),
      (NodeFolder, ''f'')], 0, 0)" by code_simp
  have 4: "storeAllow treeStore (demoUI ''bo'') ''env:read'' \<lparr> res_type = ''environment'', res_id = ''e2'' \<rparr> = Inr ()" by code_simp
  from 1 2 3 4 show ?thesis by (simp add: Let_def treeSummary_def)
qed

end
