(* ===== verification/NavigationProps.thy ===== *)
theory NavigationProps
  imports ListingProps TreeProps
begin

text \<open>
  Navigation: whoever holds a permission on a secret finds, in the listings of organizations, projects and
  environments, the way down to it.
\<close>

lemma roleResourceTypes_code:
  assumes "code \<in> set (roleCodes st rid)" "\<forall>p \<in> set (permsT st). p_code p = code \<longrightarrow> p_resourceType p = rt"
  shows "rt \<in> set (roleResourceTypes st rid)"
  using assms by (fastforce simp: roleCodes_def roleResourceTypes_def split: if_splits)

lemma grants_navigation:
  assumes "b \<in> set (bindingsT st)" "grantsCode st uid code b"
    and "\<forall>p \<in> set (permsT st). p_code p = code \<longrightarrow> p_resourceType p = rt"
  shows "(b_scopeType b, b_scope b, rt) \<in> set (navigationScopes st uid)"
  using assms(1,2) roleResourceTypes_code [OF _ assms(3)] by (auto simp: navigationScopes_def grantsCode_def)

lemma scopeIds_mem: "i \<in> set (scopeIds ns stp types) \<longleftrightarrow> (\<exists>rt \<in> set types. (stp, Some i, rt) \<in> set ns)"
  unfolding scopeIds_def set_map_filter_iff by (auto split: if_splits intro!: bexI [of _ "(stp, Some i, _)"])

lemma globalAllow_iff: "globalAllow ns types \<longleftrightarrow> (\<exists>i. \<exists>rt \<in> set types. (''global'', i, rt) \<in> set ns)"
  by (auto simp: globalAllow_def list_ex_iff)

lemma parentsOf_row:
  "findRow t i st = Some r \<Longrightarrow> i \<in> set idl \<Longrightarrow> r_parent r \<in> set (parentsOf st t idl)"
  using findRow_Some [of t i st r] by (auto simp: parentsOf_def liveWith_def)

lemma liveWith_row: "findRow t i st = Some r \<Longrightarrow> P r \<Longrightarrow> r \<in> set (liveWith st t P)"
  using findRow_Some [of t i st r] by (auto simp: liveWith_def)

lemma liveWith_id: "findRow t i st = Some r \<Longrightarrow> P r \<Longrightarrow> i \<in> set (map r_id (liveWith st t P))"
  using findRow_Some [of t i st r] by (force simp: liveWith_def)

text \<open>A navigation scope of resource type \<open>secret\<close> at any level of a live chain shows the levels above.\<close>

lemma navigation_visible:
  assumes l: "liveFolder st i = Some (o', p, e, f)" and b: "bindsChain b (o', p, e, f)"
    and ns: "(b_scopeType b, b_scope b, ''secret'') \<in> set (navigationScopes st uid)"
    and pf: "\<And>j. r_folder f = Some j \<Longrightarrow> \<exists>q. findRow Folders j st = Some q \<and> r_parent q = r_parent f"
  shows "r_id o' \<in> set (visibleOrganizations st uid) \<and> r_id p \<in> set (visibleProjects st uid) \<and>
         r_id e \<in> set (visibleEnvironments st uid)"
proof -
  let ?ns = "navigationScopes st uid"
  have rows: "findRow Folders i st = Some f" "findRow Environments (r_parent f) st = Some e"
    "findRow Projects (r_parent e) st = Some p" "findRow Organizations (r_parent p) st = Some o'"
    using liveFolder_env [OF l] liveEnv_project liveProject_org by (metis liveOrg_def)+
  note ids = liveFolder_ids(1-4) [OF l]
  have eP: "r_parent e \<in> set (parentsOf st Environments idl)" if "r_parent f \<in> set idl" for idl
    by (rule parentsOf_row [OF rows(2) that])
  have pP: "r_parent p \<in> set (parentsOf st Projects idl)" if "r_parent e \<in> set idl" for idl
    by (rule parentsOf_row [OF rows(3) that])
  from b consider "b_scopeType b = ''global''" | "b_scopeType b = ''organization''" "b_scope b = Some (r_id o')"
    | "b_scopeType b = ''project''" "b_scope b = Some (r_id p)" | "b_scopeType b = ''environment''" "b_scope b = Some (r_id e)"
    | j where "b_scopeType b = ''folder''" "b_scope b = Some j" "j = i \<or> r_folder f = Some j"
    by (auto simp: bindsChain_def ids)
  then show ?thesis
  proof cases
    case 1
    then have "globalAllow ?ns types" if "''secret'' \<in> set types" for types
      using ns that by (auto simp: globalAllow_iff)
    then show ?thesis using liveWith_id [OF rows(4)] liveWith_id [OF rows(3)] liveWith_id [OF rows(2)] ids
      by (simp add: visibleOrganizations_def visibleProjects_def visibleEnvironments_def Let_def)
  next
    case 2
    then have "r_id o' \<in> set (scopeIds ?ns ''organization'' types)" if "''secret'' \<in> set types" for types
      using ns that by (auto simp: scopeIds_mem)
    note o = this
    have p: "r_id p \<in> set (map r_id (liveWith st Projects (\<lambda>x. r_parent x \<in> set (scopeIds ?ns ''organization'' types))))"
      if "''secret'' \<in> set types" for types
      unfolding ids(3) by (rule liveWith_id [OF rows(3)]) (use o [OF that] ids in simp)
    have e: "r_id e \<in> set (map r_id (liveWith st Environments (\<lambda>y. r_parent y \<in> set (map r_id
        (liveWith st Projects (\<lambda>x. r_parent x \<in> set (scopeIds ?ns ''organization'' types)))))))"
      if "''secret'' \<in> set types" for types
      unfolding ids(2) by (rule liveWith_id [OF rows(2)]) (use p [OF that] ids in simp)
    show ?thesis using o p e
      unfolding visibleOrganizations_def visibleProjects_def visibleEnvironments_def Let_def by simp
  next
    case 3
    then have p: "r_id p \<in> set (scopeIds ?ns ''project'' types)" if "''secret'' \<in> set types" for types
      using ns that by (auto simp: scopeIds_mem)
    have o: "r_id o' \<in> set (parentsOf st Projects (scopeIds ?ns ''project'' types))" if "''secret'' \<in> set types" for types
      using pP [of "scopeIds ?ns ''project'' types"] p [OF that] ids by simp
    have e: "r_id e \<in> set (map r_id (liveWith st Environments (\<lambda>y. r_parent y \<in> set (scopeIds ?ns ''project'' types))))"
      if "''secret'' \<in> set types" for types
      unfolding ids(2) by (rule liveWith_id [OF rows(2)]) (use p [OF that] ids in simp)
    show ?thesis using o p e
      unfolding visibleOrganizations_def visibleProjects_def visibleEnvironments_def Let_def by simp
  next
    case 4
    then have e: "r_id e \<in> set (scopeIds ?ns ''environment'' types)" if "''secret'' \<in> set types" for types
      using ns that by (auto simp: scopeIds_mem)
    have p: "r_id p \<in> set (parentsOf st Environments (scopeIds ?ns ''environment'' types))" if "''secret'' \<in> set types" for types
      using eP [of "scopeIds ?ns ''environment'' types"] e [OF that] ids by simp
    have o: "r_id o' \<in> set (parentsOf st Projects (parentsOf st Environments (scopeIds ?ns ''environment'' types)))"
      if "''secret'' \<in> set types" for types using pP p [OF that] ids by simp
    show ?thesis using o p e
      unfolding visibleOrganizations_def visibleProjects_def visibleEnvironments_def Let_def by simp
  next
    case (5 j)
    have j: "j \<in> set (scopeIds ?ns ''folder'' types)" if "''secret'' \<in> set types" for types
      using 5 ns that by (auto simp: scopeIds_mem)
    obtain q where q: "findRow Folders j st = Some q" "r_parent q = r_parent f" using 5(3) rows(1) pf by auto
    have e: "r_id e \<in> set (parentsOf st Folders (scopeIds ?ns ''folder'' types))" if "''secret'' \<in> set types" for types
      using parentsOf_row [OF q(1) j [OF that]] q(2) ids by simp
    have p: "r_id p \<in> set (parentsOf st Environments (parentsOf st Folders (scopeIds ?ns ''folder'' types)))"
      if "''secret'' \<in> set types" for types using eP e [OF that] ids by simp
    have o: "r_id o' \<in> set (parentsOf st Projects (parentsOf st Environments (parentsOf st Folders (scopeIds ?ns ''folder'' types))))"
      if "''secret'' \<in> set types" for types using pP p [OF that] ids by simp
    show ?thesis using o p e
      unfolding visibleOrganizations_def visibleProjects_def visibleEnvironments_def Let_def by simp
  qed
qed

lemma secret_allow_binds:
  assumes wf: "wfStore st" and c: "trimSpace code = code" "CHR '':'' \<in> set code"
    and a: "storeAllow st u code (secretScope i) = Inr ()" and s: "findSecret i st = Some s"
  obtains b ch where "liveFolder st (s_folder s) = Some ch" "b \<in> set (bindingsT st)"
    "grantsCode st (ui_id u) code b" "bindsChain b ch"
proof -
  have "code \<noteq> []" using c(2) by auto
  then have pc: "permissionCode code ''secret'' = code" using permissionCode_colon [of code "''secret''"] c by simp
  from a obtain scopes b where r: "secretScopes st i = Inr scopes" and b: "b \<in> set (bindingsT st)"
    "grantsCode st (ui_id u) code b" "\<exists>x \<in> set scopes. scopeCond x b"
    unfolding storeAllow_iff secretScope_def by (auto simp: pc)
  from r s obtain ch where ch: "liveFolder st (s_folder s) = Some ch" "scopes = folderChain ch"
    by (auto simp: secretScopes_def split: option.splits)
  have bc: "bindingCheck b" "case b_scope b of None \<Rightarrow> True | Some i \<Rightarrow> trimSpace i \<noteq> []"
    using wf b(1) by (auto simp: wfStore_def list_all_iff)
  from b(3) ch(2) folderChain_binds [OF bc] have "bindsChain b ch" by blast
  with ch(1) b(1,2) show thesis by (rule that)
qed


text \<open>C24. Whoever may act on a secret can navigate to it. In a store that satisfies the schema, if the authorizer
  allows a user a permission of resource type \<open>secret\<close> on a live secret, then the organization, the project and
  the environment above it are in the lists that the tree queries return to this user, provided the parent folder,
  if the folder of the secret has one, is live.\<close>

theorem navigation_covers_access:
  assumes "schemaOk st" "wfStore st" "trimSpace code = code" "CHR '':'' \<in> set code"
    and "\<forall>p \<in> set (permsT st). p_code p = code \<longrightarrow> p_resourceType p = ''secret''"
    and "storeAllow st u code (secretScope i) = Inr ()" "findSecret i st = Some s"
    and "liveFolder st (s_folder s) = Some (o', p, e, f)"
    and "case r_folder f of None \<Rightarrow> True | Some j \<Rightarrow> findRow Folders j st \<noteq> None"
  shows "readEntity st Organizations o' \<in> set (listAllOrganizationsForTree st (ui_id u)) \<and>
         readEntity st Projects p \<in> set (listAllProjectsForTree st (ui_id u)) \<and>
         readEntity st Environments e \<in> set (listAllEnvironmentsForTree st (ui_id u))"
proof (rule secret_allow_binds [OF assms(2-4,6,7)])
  fix b ch assume "liveFolder st (s_folder s) = Some ch" and b: "b \<in> set (bindingsT st)"
    "grantsCode st (ui_id u) code b" "bindsChain b ch"
  then have ch: "ch = (o', p, e, f)" using assms(8) by simp
  have "\<exists>q. findRow Folders j st = Some q \<and> r_parent q = r_parent f" if j: "r_folder f = Some j" for j
  proof -
    from assms(9) j obtain q where q: "findRow Folders j st = Some q" by auto
    have "f \<in> set (tbl st Folders)" using liveFolder_env [OF assms(8)] findRow_Some by blast
    then have "parentOk st f" using assms(1) by (auto simp: schemaOk_def list_all_iff)
    then obtain q' where q': "q' \<in> set (tbl st Folders)" "r_id q' = j" "r_parent q' = r_parent f"
      using j by (auto simp: parentOk_def list_ex_iff)
    have "distinct (map r_id (tbl st Folders))" using assms(1) by (auto simp: schemaOk_def tableOk_def)
    then have "q = q'" using q' findRow_Some [OF q] by (metis distinct_map inj_onD)
    with q q' show ?thesis by blast
  qed
  note v = navigation_visible [OF assms(8) b(3) [unfolded ch] grants_navigation [OF b(1,2) assms(5)] this]
  have rows: "findRow Environments (r_parent f) st = Some e" "findRow Projects (r_parent e) st = Some p"
    "findRow Organizations (r_parent p) st = Some o'"
    using liveFolder_env [OF assms(8)] liveEnv_project liveProject_org by (metis liveOrg_def)+
  show ?thesis
    unfolding listAllOrganizationsForTree_def listAllProjectsForTree_def listAllEnvironmentsForTree_def set_map set_sort
    using v rows by (intro conjI imageI liveWith_row) (auto simp: liveProjectOf_def)
qed

text \<open>\<open>al\<close> may read the secrets of one folder and its sub-folder.\<close>

definition navStore :: store where
  "navStore = demoStore\<lparr>permsT := [(treePerm ''p1'' ''secret:read'' ''secret'')],
     rolePermsT := [(''r1'', ''p1'')], bindingsT := [mkBinding ''b1'' ''al'' ''r1'' ''folder'' (Some ''f'') ''x'' None 1]\<rparr>"

theorem navigation_covers_access_witness:
  "''o'' \<in> e_id ` set (listAllOrganizationsForTree navStore ''al'') \<and>
   ''p'' \<in> e_id ` set (listAllProjectsForTree navStore ''al'') \<and>
   ''e'' \<in> e_id ` set (listAllEnvironmentsForTree navStore ''al'') \<and>
   map e_id (listAllEnvironmentsForTree navStore ''al'') = [''e'']"
proof -
  let ?c = "the (liveFolder navStore ''g'')"
  have h: "schemaOk navStore" "wfStore navStore" "trimSpace ''secret:read'' = ''secret:read''"
    "\<forall>p \<in> set (permsT navStore). p_code p = ''secret:read'' \<longrightarrow> p_resourceType p = ''secret''"
    "storeAllow navStore (demoUI ''al'') ''secret:read'' (secretScope ''t'') = Inr ()"
    "findSecret ''t'' navStore = Some (demoSecret ''t'' ''g'' ''L'')"
    "liveFolder navStore (s_folder (demoSecret ''t'' ''g'' ''L'')) = Some (demoRow ''o'' [] ''org'' None 1,
       demoRow ''p'' ''o'' ''prj'' None 1, demoRow ''e'' ''p'' ''dev'' None 1, demoRow ''g'' ''e'' ''sub'' (Some ''f'') 2)"
    "case r_folder (demoRow ''g'' ''e'' ''sub'' (Some ''f'') 2) of None \<Rightarrow> True | Some j \<Rightarrow> findRow Folders j navStore \<noteq> None"
    by code_simp+
  have m: "CHR '':'' \<in> set ''secret:read''" by simp
  have e: "e_id (readEntity navStore t (demoRow x y z None 1)) = x" for t x y z
    by (simp add: readEntity_def fillEntityLabels_def scanEntity_def demoRow_def)
  have "map e_id (listAllEnvironmentsForTree navStore ''al'') = [''e'']" by code_simp
  then show ?thesis using navigation_covers_access [OF h(1-3) m h(4-8)] e unfolding demoUI_def
    by (metis image_eqI userInfo.select_convs(1))
qed

end
