(* ===== verification/FolderGroupProps.thy ===== *)
theory FolderGroupProps
  imports TreeProps
begin

text \<open>
  The folder view of a project, \<open>GetProjectFolderTree\<close>: the loops over maps compute the grouping by code that
  the data define.
\<close>

section \<open>Association lists\<close>

lemma distinct_map_sort: "distinct (map f xs) \<Longrightarrow> distinct (map f (sort_key g xs))"
  by (simp add: distinct_map)

lemma sort_key_fst_alist:
  assumes "distinct (map fst al)"
  shows "sort_key fst al = map (\<lambda>k. (k, the (map_of al k))) (sorted_list_of_set (fst ` set al))"
proof (rule map_sorted_distinct_set_unique [where f = fst])
  have d: "inj_on fst (set al)" "distinct al" using assms by (simp_all add: distinct_map)
  have s: "set (map (\<lambda>k. (k, the (map_of al k))) (sorted_list_of_set (fst ` set al))) = set al"
    using assms by (force simp: image_image)
  show "set (sort_key fst al) = set (map (\<lambda>k. (k, the (map_of al k))) (sorted_list_of_set (fst ` set al)))"
    unfolding s by simp
  show "inj_on fst (set (sort_key fst al) \<union> set (map (\<lambda>k. (k, the (map_of al k))) (sorted_list_of_set (fst ` set al))))"
    unfolding s using d by simp
  show "distinct (map fst (sort_key fst al))" using d by (simp add: distinct_map)
qed (simp_all add: comp_def)

section \<open>The grouping by code\<close>

text \<open>One reference per environment, the first one wins.\<close>

fun envRefs :: "folderInProject list \<Rightarrow> envRef list" where
  "envRefs [] = []"
| "envRefs (f # fs) = envRefOf f # filter (\<lambda>r. er_id r \<noteq> fp_env f) (envRefs fs)"

definition level1Of :: "folderInProject list \<Rightarrow> str \<Rightarrow> folderInProject list" where
  "level1Of vs code = filter (\<lambda>f. fp_level f = 1 \<and> fp_code f = code) vs"

text \<open>The sub-folders whose parent is a visible top-level folder with the code \<open>pc\<close>.\<close>

definition childrenOf :: "folderInProject list \<Rightarrow> str \<Rightarrow> folderInProject list" where
  "childrenOf vs pc = filter (\<lambda>f. fp_level f \<noteq> 1 \<and>
     list_ex (\<lambda>p. fp_level p = 1 \<and> fp_id p = fp_parent f \<and> fp_code p = pc) vs) vs"

definition subGroupOf :: "folderInProject list \<Rightarrow> str \<Rightarrow> str \<Rightarrow> subFolderGroup" where
  "subGroupOf vs pc code = (let fs = filter (\<lambda>f. fp_code f = code) (childrenOf vs pc) in
     \<lparr> sf_id = fp_id (hd fs), sf_code = code, sf_name = fp_name (hd fs), sf_comment = fp_comment (hd fs),
       sf_envList = envRefs fs \<rparr>)"

definition folderGroupOf :: "folderInProject list \<Rightarrow> str \<Rightarrow> folderGroup" where
  "folderGroupOf vs code = (let fs = level1Of vs code in
     \<lparr> fg_id = fp_id (hd fs), fg_code = code, fg_name = fp_name (hd fs), fg_comment = fp_comment (hd fs),
       fg_envList = envRefs fs,
       fg_subFolders = map (subGroupOf vs code) (sorted_list_of_set (fp_code ` set (childrenOf vs code))) \<rparr>)"

lemma envRefs_ids: "er_id ` set (envRefs fs) = fp_env ` set fs"
proof (induction fs)
  case (Cons f fs)
  have "er_id ` {r \<in> set (envRefs fs). er_id r \<noteq> fp_env f} = er_id ` set (envRefs fs) - {fp_env f}" by auto
  with Cons show ?case by (simp add: envRefOf_def)
qed simp

lemma envRefs_snoc: "envRefs (fs @ [f]) = addEnvRef f (envRefs fs)"
proof (induction fs)
  case (Cons g fs)
  have ids: "fp_env f \<in> set (map er_id (envRefs xs)) \<longleftrightarrow> fp_env f \<in> fp_env ` set xs" for xs
    using envRefs_ids [of xs] by simp
  have e: "er_id (envRefOf f) = fp_env f" by (simp add: envRefOf_def)
  show ?case
  proof (cases "fp_env f \<in> fp_env ` set fs \<or> fp_env f = fp_env g")
    case True
    then have "addEnvRef f (envRefs (g # fs)) = envRefs (g # fs)"
      unfolding addEnvRef_def ids by auto
    moreover have "filter (\<lambda>r. er_id r \<noteq> fp_env g) (addEnvRef f (envRefs fs)) = filter (\<lambda>r. er_id r \<noteq> fp_env g) (envRefs fs)"
      using True unfolding addEnvRef_def ids by (auto simp: e)
    ultimately show ?thesis using Cons by simp
  next
    case False
    then have "addEnvRef f (envRefs (g # fs)) = envRefs (g # fs) @ [envRefOf f]"
      "addEnvRef f (envRefs fs) = envRefs fs @ [envRefOf f]"
      unfolding addEnvRef_def ids by auto
    with Cons False show ?thesis by (simp add: e)
  qed
qed (simp add: addEnvRef_def)

lemma envRefs_distinct: "distinct (map er_id (envRefs fs))"
  by (induction fs) (auto simp: envRefOf_def distinct_map inj_on_def)

section \<open>The loops\<close>

lemma envRefs_appends:
  "envRefs [] = []" "envRefs [f] = addEnvRef f []" "envRefs (a # fs @ [f]) = addEnvRef f (envRefs (a # fs))"
  using envRefs_snoc [of "[]" f] envRefs_snoc [of "a # fs" f] by simp_all

declare envRefs.simps [simp del]

text \<open>The aggregates after the folders \<open>fs\<close> of one key.\<close>

definition aggregate1 :: "str \<Rightarrow> folderInProject list \<Rightarrow> folderGroup option" where
  "aggregate1 code fs = (if fs = [] then None else Some \<lparr> fg_id = fp_id (hd fs), fg_code = code,
     fg_name = fp_name (hd fs), fg_comment = fp_comment (hd fs), fg_envList = envRefs fs, fg_subFolders = [] \<rparr>)"

definition aggregate2 :: "str \<Rightarrow> folderInProject list \<Rightarrow> subFolderGroup option" where
  "aggregate2 code fs = (if fs = [] then None else Some \<lparr> sf_id = fp_id (hd fs), sf_code = code,
     sf_name = fp_name (hd fs), sf_comment = fp_comment (hd fs), sf_envList = envRefs fs \<rparr>)"

lemma level1_fold:
  "distinct (map fst (fold aggregateLevel1 fs [])) \<and>
   fst ` set (fold aggregateLevel1 fs []) = fp_code ` set fs \<and>
   map_of (fold aggregateLevel1 fs []) c = aggregate1 c (filter (\<lambda>f. fp_code f = c) fs)"
proof (induction fs arbitrary: c rule: rev_induct)
  case (snoc f fs)
  let ?m = "fold aggregateLevel1 fs []"
  note IH = snoc [of "fp_code f"] and IHc = snoc [of c]
  obtain g where st: "aggregateLevel1 f ?m = AList.update (fp_code f) g ?m"
    and g: "map_of ?m (fp_code f) = None \<Longrightarrow> g = \<lparr> fg_id = fp_id f, fg_code = fp_code f, fg_name = fp_name f,
        fg_comment = fp_comment f, fg_envList = addEnvRef f [], fg_subFolders = [] \<rparr>"
      "\<And>a. map_of ?m (fp_code f) = Some a \<Longrightarrow> g = a\<lparr>fg_envList := addEnvRef f (fg_envList a)\<rparr>"
    by (cases "map_of ?m (fp_code f)") (auto simp: aggregateLevel1_def Let_def)
  have dist: "distinct (map fst (aggregateLevel1 f ?m))" unfolding st using IH by (simp add: distinct_update)
  have keys: "fst ` set (aggregateLevel1 f ?m) = fp_code ` set (fs @ [f])"
    unfolding st dom_update using IH by auto
  have "map_of (aggregateLevel1 f ?m) c = (if c = fp_code f then Some g else map_of ?m c)"
    unfolding st by (simp add: update_conv')
  moreover have "Some g = aggregate1 (fp_code f) (filter (\<lambda>x. fp_code x = fp_code f) fs @ [f])"
    using IH g by (cases "filter (\<lambda>x. fp_code x = fp_code f) fs") (auto simp: aggregate1_def envRefs_appends)
  ultimately show ?case using dist keys IHc by simp
qed (simp add: aggregate1_def)


text \<open>Level 2: only folders whose parent id is known are grouped, under the code of that parent.\<close>

abbreviation parentCodeOf :: "(str \<times> str) list \<Rightarrow> folderInProject \<Rightarrow> str option" where
  "parentCodeOf pcs f \<equiv> map_of pcs (fp_parent f)"

definition childrenWith :: "(str \<times> str) list \<Rightarrow> folderInProject list \<Rightarrow> str \<times> str \<Rightarrow> folderInProject list" where
  "childrenWith pcs fs k = filter (\<lambda>f. parentCodeOf pcs f = Some (fst k) \<and> fp_code f = snd k) fs"

lemma level2_fold:
  "distinct (map fst (fold (aggregateLevel2 pcs) fs [])) \<and>
   map_of (fold (aggregateLevel2 pcs) fs []) k = aggregate2 (snd k) (childrenWith pcs fs k)"
proof (induction fs arbitrary: k rule: rev_induct)
  case (snoc f fs)
  let ?m = "fold (aggregateLevel2 pcs) fs []"
  note IHk = snoc [of k]
  show ?case
  proof (cases "parentCodeOf pcs f")
    case None
    then have "aggregateLevel2 pcs f ?m = ?m" "childrenWith pcs (fs @ [f]) k = childrenWith pcs fs k"
      by (simp_all add: aggregateLevel2_def childrenWith_def)
    then show ?thesis using IHk by simp
  next
    case (Some pc)
    let ?key = "(pc, fp_code f)"
    note IH = snoc [of ?key]
    obtain g where st: "aggregateLevel2 pcs f ?m = AList.update ?key g ?m"
      and g: "map_of ?m ?key = None \<Longrightarrow> g = \<lparr> sf_id = fp_id f, sf_code = fp_code f, sf_name = fp_name f,
          sf_comment = fp_comment f, sf_envList = addEnvRef f [] \<rparr>"
        "\<And>a. map_of ?m ?key = Some a \<Longrightarrow> g = a\<lparr>sf_envList := addEnvRef f (sf_envList a)\<rparr>"
      using Some by (cases "map_of ?m ?key") (auto simp: aggregateLevel2_def Let_def)
    have dist: "distinct (map fst (aggregateLevel2 pcs f ?m))" unfolding st using IH by (simp add: distinct_update)
    have snocK: "childrenWith pcs (fs @ [f]) k = childrenWith pcs fs k @ (if k = ?key then [f] else [])"
      using Some by (cases k) (auto simp: childrenWith_def)
    have "map_of (aggregateLevel2 pcs f ?m) k = (if k = ?key then Some g else map_of ?m k)"
      unfolding st by (simp add: update_conv')
    moreover have "Some g = aggregate2 (fp_code f) (childrenWith pcs fs ?key @ [f])"
      using IH g by (cases "childrenWith pcs fs ?key") (auto simp: aggregate2_def envRefs_appends)
    ultimately show ?thesis using dist IHk snocK by simp
  qed
qed (simp add: childrenWith_def aggregate2_def)


lemma subGroupOf_aggregate2:
  assumes "filter (\<lambda>f. fp_code f = c) (childrenOf vs pc) \<noteq> []"
  shows "aggregate2 c (filter (\<lambda>f. fp_code f = c) (childrenOf vs pc)) = Some (subGroupOf vs pc c)"
  using assms by (simp add: aggregate2_def subGroupOf_def Let_def)

lemma subFoldersOf_exact:
  assumes dist: "distinct (map fst agg)"
    and agg: "\<And>c. map_of agg (pc, c) = aggregate2 c (filter (\<lambda>f. fp_code f = c) (childrenOf vs pc))"
  shows "subFoldersOf agg pc = map (subGroupOf vs pc) (sorted_list_of_set (fp_code ` set (childrenOf vs pc)))"
proof (rule map_sorted_distinct_set_unique [where f = sf_code])
  let ?mine = "filter (\<lambda>((p, _), _). p = pc) agg"
  have code [simp]: "sf_code (subGroupOf vs pc c) = c" for c by (simp add: subGroupOf_def Let_def)
  have "((pc, c), g) \<in> set agg \<longleftrightarrow> c \<in> fp_code ` set (childrenOf vs pc) \<and> g = subGroupOf vs pc c" for c g
  proof -
    have "((pc, c), g) \<in> set agg \<longleftrightarrow> map_of agg (pc, c) = Some g" using dist by simp
    also have "\<dots> \<longleftrightarrow> filter (\<lambda>f. fp_code f = c) (childrenOf vs pc) \<noteq> [] \<and> g = subGroupOf vs pc c"
      unfolding agg by (cases "filter (\<lambda>f. fp_code f = c) (childrenOf vs pc) = []")
        (auto simp: subGroupOf_aggregate2 aggregate2_def [of _ "[]"])
    also have "\<dots> \<longleftrightarrow> c \<in> fp_code ` set (childrenOf vs pc) \<and> g = subGroupOf vs pc c" by (auto simp: filter_empty_conv)
    finally show ?thesis .
  qed
  note mem = this
  have s: "set (subFoldersOf agg pc) = subGroupOf vs pc ` fp_code ` set (childrenOf vs pc)"
    unfolding subFoldersOf_def using mem by (force simp: image_iff)
  then show "set (subFoldersOf agg pc) = set (map (subGroupOf vs pc) (sorted_list_of_set (fp_code ` set (childrenOf vs pc))))"
    by simp
  show "inj_on sf_code (set (subFoldersOf agg pc) \<union> set (map (subGroupOf vs pc) (sorted_list_of_set (fp_code ` set (childrenOf vs pc)))))"
    unfolding s by (auto simp: inj_on_def)
  have e: "map sf_code (map snd ?mine) = map (snd \<circ> fst) ?mine"
    using mem by (auto simp: comp_def)
  have "distinct (map fst ?mine)" using dist by (rule distinct_map_filter)
  then have "distinct (map (snd \<circ> fst) ?mine)"
    by (auto simp: distinct_map inj_on_def)
  then have "distinct (map sf_code (map snd ?mine))" unfolding e .
  then show "distinct (map sf_code (subFoldersOf agg pc))"
    unfolding subFoldersOf_def by (rule distinct_map_sort)
qed (simp_all add: subFoldersOf_def comp_def subGroupOf_def Let_def)

text \<open>C31. The folder view groups by code. For visible folders with unique identifiers, the result of the aggregation
  in \<open>GetProjectFolderTree\<close> is the list of the codes of the top-level folders in order, each with the data of its
  first folder, one reference per environment that has a folder of that code, and, in the order of their codes, the
  sub-folders whose parent has that code in any environment, grouped the same way. Sub-folders whose parent is not
  visible are left out.\<close>

theorem groupFolders_exact:
  assumes "distinct (map fp_id vs)"
  shows "groupFolders vs = map (folderGroupOf vs) (sorted_list_of_set (fp_code ` {f \<in> set vs. fp_level f = 1}))"
proof -
  let ?l1 = "filter (\<lambda>f. fp_level f = 1) vs"
  let ?l2 = "filter (\<lambda>f. fp_level f \<noteq> 1) vs"
  let ?by = "fold aggregateLevel1 ?l1 []"
  let ?pcs = "parentCodes ?l1"
  let ?agg = "fold (aggregateLevel2 ?pcs) ?l2 []"
  have d: "distinct (map fst ?pcs)" using assms by (simp add: parentCodes_def comp_def distinct_map_filter flip: rev_map)
  have pcs: "map_of ?pcs i = Some c \<longleftrightarrow> list_ex (\<lambda>p. fp_level p = 1 \<and> fp_id p = i \<and> fp_code p = c) vs" for i c
    using d by (auto simp: parentCodes_def list_ex_iff)
  have ch: "childrenWith ?pcs ?l2 (pc, c) = filter (\<lambda>f. fp_code f = c) (childrenOf vs pc)" for pc c
    by (auto simp: childrenWith_def childrenOf_def pcs intro: filter_cong)
  have subs: "subFoldersOf ?agg pc = map (subGroupOf vs pc) (sorted_list_of_set (fp_code ` set (childrenOf vs pc)))" for pc
  proof (rule subFoldersOf_exact)
    show "distinct (map fst ?agg)" using level2_fold [of ?pcs ?l2] by blast
    show "map_of ?agg (pc, c) = aggregate2 c (filter (\<lambda>f. fp_code f = c) (childrenOf vs pc))" for c
      using level2_fold [of ?pcs ?l2 "(pc, c)"] unfolding ch by simp
  qed
  have by1: "distinct (map fst ?by)" "fst ` set ?by = fp_code ` set ?l1" using level1_fold [of ?l1] by blast+
  have one: "(case (k, the (map_of ?by k)) of (code, g) \<Rightarrow> g\<lparr>fg_subFolders := subFoldersOf ?agg (fg_code g)\<rparr>) = folderGroupOf vs k"
    if "k \<in> fp_code ` set ?l1" for k
  proof -
    have "filter (\<lambda>f. fp_code f = k) ?l1 = level1Of vs k" by (auto simp: level1Of_def intro: filter_cong)
    moreover have "level1Of vs k \<noteq> []" using that by (auto simp: level1Of_def filter_empty_conv)
    ultimately show ?thesis using level1_fold [of ?l1 k] by (simp add: aggregate1_def folderGroupOf_def Let_def subs)
  qed
  have "groupFolders vs = map (\<lambda>k. case (k, the (map_of ?by k)) of (code, g) \<Rightarrow>
      g\<lparr>fg_subFolders := subFoldersOf ?agg (fg_code g)\<rparr>) (sorted_list_of_set (fp_code ` set ?l1))"
    unfolding groupFolders_def Let_def sort_key_fst_alist [OF by1(1)] by1(2) by (simp add: comp_def)
  also have "\<dots> = map (folderGroupOf vs) (sorted_list_of_set (fp_code ` set ?l1))"
    using one by (intro map_cong refl) (simp only: set_sorted_list_of_set finite_imageI finite_set)
  finally show ?thesis by simp
qed

definition demoFP :: "str \<Rightarrow> str \<Rightarrow> int \<Rightarrow> str \<Rightarrow> str \<Rightarrow> folderInProject" where
  "demoFP i c lvl env parent = \<lparr> fp_id = i, fp_code = c, fp_name = c, fp_comment = [], fp_level = lvl, fp_env = env,
     fp_envCode = env, fp_parent = parent, fp_project = ''p'' \<rparr>"

definition demoFPs :: "folderInProject list" where
  "demoFPs = [demoFP ''1'' ''pay'' 1 ''dev'' [], demoFP ''2'' ''pay'' 1 ''prod'' [], demoFP ''3'' ''app'' 1 ''dev'' [],
     demoFP ''4'' ''card'' 2 ''dev'' ''1'', demoFP ''5'' ''card'' 2 ''prod'' ''2'', demoFP ''6'' ''gone'' 2 ''prod'' ''9'']"

theorem groupFolders_exact_witness:
  "map fg_code (groupFolders demoFPs) = [''app'', ''pay''] \<and>
   map (\<lambda>g. map er_folderId (fg_envList g)) (groupFolders demoFPs) = [[''3''], [''1'', ''2'']] \<and>
   map (\<lambda>g. map (\<lambda>s. map er_folderId (sf_envList s)) (fg_subFolders g)) (groupFolders demoFPs) = [[], [[''4'', ''5'']]] \<and>
   groupFolders demoFPs = map (folderGroupOf demoFPs) (sorted_list_of_set (fp_code ` {f \<in> set demoFPs. fp_level f = 1}))"
proof -
  have d: "distinct (map fp_id demoFPs)" by code_simp
  have "map fg_code (groupFolders demoFPs) = [''app'', ''pay'']"
    "map (\<lambda>g. map er_folderId (fg_envList g)) (groupFolders demoFPs) = [[''3''], [''1'', ''2'']]"
    "map (\<lambda>g. map (\<lambda>s. map er_folderId (sf_envList s)) (fg_subFolders g)) (groupFolders demoFPs) = [[], [[''4'', ''5'']]]"
    by code_simp+
  then show ?thesis using groupFolders_exact [OF d] by blast
qed

end
