(* ===== verification/CacheProps.thy ===== *)
theory CacheProps
  imports NavigationProps FolderGroupProps
begin

text \<open>
  The secret half of the Redis cache as a map.  The interface \<open>secret_cache\<close> says what its clients rely on: an
  upsert stores the view of a secret under its identifier, a delete forgets it, a search returns exactly the
  stored views that match.  The interpretation shows that the commands of \<open>cache.go\<close> provide this on a running server,
  as long as identifiers do not collide with the names of the index keys.
\<close>

section \<open>The interface\<close>

text \<open>What the cache keeps of a secret: no value and no sort order, and labels that fall back to the user id.\<close>

definition cacheView :: "secret \<Rightarrow> secret" where
  "cacheView s = s\<lparr>sec_value := [], sec_values := [], sec_sort := 0,
     sec_createdByLabel := labelOrId (sec_createdByLabel s) (sec_createdBy s),
     sec_updatedByLabel := labelOrId (sec_updatedByLabel s) (sec_updatedBy s)\<rparr>"

definition secretMatches :: "listFilter \<Rightarrow> secret \<Rightarrow> bool" where
  "secretMatches fl s \<longleftrightarrow> (lf_env fl = [] \<or> sec_envId s = lf_env fl) \<and> (lf_folder fl = [] \<or> sec_folderId s = lf_folder fl) \<and>
     (lf_keyword fl = [] \<or> containsSub (toLower (lf_keyword fl)) (toLower (sec_key s)) \<or>
      containsSub (toLower (lf_keyword fl)) (toLower (sec_path s)))"

locale secret_cache =
  fixes ok :: "'c \<Rightarrow> bool"
    and view :: "'c \<Rightarrow> str \<Rightarrow> secret option"
    and idOk :: "str \<Rightarrow> bool"
    and put :: "secretCacheRecord \<Rightarrow> 'c \<Rightarrow> 'c"
    and del :: "str \<Rightarrow> 'c \<Rightarrow> 'c"
    and find :: "listFilter \<Rightarrow> 'c \<Rightarrow> secret list"
  assumes ok_put: "ok c \<Longrightarrow> idOk (sec_id (scr_secret rec)) \<Longrightarrow> ok (put rec c)"
    and view_put: "ok c \<Longrightarrow> idOk (sec_id (scr_secret rec)) \<Longrightarrow>
        view (put rec c) = (view c)(sec_id (scr_secret rec) \<mapsto> cacheView (scr_secret rec))"
    and ok_del: "ok c \<Longrightarrow> idOk i \<Longrightarrow> ok (del i c)"
    and view_del: "ok c \<Longrightarrow> idOk i \<Longrightarrow> view (del i c) = (view c)(i := None)"
    and find_exact: "ok c \<Longrightarrow> set (find fl c) = {s \<in> ran (view c). secretMatches fl s}"
begin

text \<open>A history of writes: \<open>Inl\<close> an upsert, \<open>Inr\<close> a delete.\<close>

definition applyOp :: "secretCacheRecord + str \<Rightarrow> 'c \<Rightarrow> 'c" where
  "applyOp op c = (case op of Inl rec \<Rightarrow> put rec c | Inr i \<Rightarrow> del i c)"

definition opId :: "secretCacheRecord + str \<Rightarrow> str" where
  "opId op = (case op of Inl rec \<Rightarrow> sec_id (scr_secret rec) | Inr i \<Rightarrow> i)"

definition opView :: "secretCacheRecord + str \<Rightarrow> secret option" where
  "opView op = (case op of Inl rec \<Rightarrow> Some (cacheView (scr_secret rec)) | Inr i \<Rightarrow> None)"

lemma applyOp_step: "ok c \<Longrightarrow> idOk (opId op) \<Longrightarrow> ok (applyOp op c) \<and> view (applyOp op c) = (view c)(opId op := opView op)"
  by (cases op) (simp_all add: applyOp_def opId_def opView_def ok_put view_put ok_del view_del)

lemma history:
  assumes "ok c" "\<forall>op \<in> set ops. idOk (opId op)"
  shows "ok (fold applyOp ops c) \<and>
    view (fold applyOp ops c) i = (case findFirst (\<lambda>op. opId op = i) (rev ops) of None \<Rightarrow> view c i | Some op \<Rightarrow> opView op)"
  using assms
proof (induction ops arbitrary: i rule: rev_induct)
  case (snoc op ops)
  then have "ok (fold applyOp ops c)" "idOk (opId op)" by auto
  note w = applyOp_step [OF this]
  show ?case using w snoc by (auto simp: fun_upd_def)
qed simp

text \<open>The last write of an identifier decides what a search can find.\<close>

lemma search_history:
  assumes "ok c" "view c = (\<lambda>_. None)" "\<forall>op \<in> set ops. idOk (opId op)"
  shows "s \<in> set (find fl (fold applyOp ops c)) \<longleftrightarrow>
    (\<exists>rec. findFirst (\<lambda>op. opId op = sec_id (scr_secret rec)) (rev ops) = Some (Inl rec) \<and> s = cacheView (scr_secret rec)) \<and>
    secretMatches fl s"
proof -
  have ok: "ok (fold applyOp ops c)" using history [OF assms(1,3)] by blast
  have "s \<in> ran (view (fold applyOp ops c)) \<longleftrightarrow>
    (\<exists>rec. findFirst (\<lambda>op. opId op = sec_id (scr_secret rec)) (rev ops) = Some (Inl rec) \<and> s = cacheView (scr_secret rec))"
  proof
    assume "s \<in> ran (view (fold applyOp ops c))"
    then obtain i where "view (fold applyOp ops c) i = Some s" by (auto simp: ran_def)
    then obtain op where op: "findFirst (\<lambda>op. opId op = i) (rev ops) = Some op" "opView op = Some s"
      using history [OF assms(1,3), of i] assms(2) by (auto split: option.splits)
    then obtain rec where r: "op = Inl rec" "s = cacheView (scr_secret rec)" by (cases op) (auto simp: opView_def)
    moreover have "sec_id (scr_secret rec) = i" using findFirst_Some [OF op(1)] r by (simp add: opId_def)
    ultimately show "\<exists>rec. findFirst (\<lambda>op. opId op = sec_id (scr_secret rec)) (rev ops) = Some (Inl rec) \<and> s = cacheView (scr_secret rec)"
      using op by blast
  next
    assume "\<exists>rec. findFirst (\<lambda>op. opId op = sec_id (scr_secret rec)) (rev ops) = Some (Inl rec) \<and> s = cacheView (scr_secret rec)"
    then obtain rec where "findFirst (\<lambda>op. opId op = sec_id (scr_secret rec)) (rev ops) = Some (Inl rec)"
      "s = cacheView (scr_secret rec)" by blast
    then have "view (fold applyOp ops c) (sec_id (scr_secret rec)) = Some s"
      using history [OF assms(1,3), of "sec_id (scr_secret rec)"] by (simp add: opView_def)
    then show "s \<in> ran (view (fold applyOp ops c))" by (auto simp: ran_def)
  qed
  then show ?thesis using find_exact [OF ok] by blast
qed

end

section \<open>Redis commands off the path keys\<close>

text \<open>The keys the searches read: everything but the path index.\<close>

definition offPath :: "str \<Rightarrow> redis \<Rightarrow> str \<Rightarrow> rval option" where
  "offPath pre r k = (if hasPrefix (pathKey pre []) k then None else map_of (rd_keys r) k)"

definition idOkR :: "str \<Rightarrow> bool" where
  "idOkR i \<longleftrightarrow> i \<noteq> ''ids'' \<and> \<not> hasPrefix ''path:'' i"

lemma key_facts:
  "hasPrefix (pathKey pre []) (pathKey pre p)" "\<not> hasPrefix (pathKey pre []) (idsKey pre)"
  "idOkR i \<Longrightarrow> \<not> hasPrefix (pathKey pre []) (secretKey pre i)"
  "idOkR i \<Longrightarrow> secretKey pre i \<noteq> idsKey pre" "secretKey pre i = secretKey pre j \<longleftrightarrow> i = j"
  by (auto simp: hasPrefix_iff pathKey_def idsKey_def secretKey_def idOkR_def)


lemma offPath_at: "\<not> hasPrefix (pathKey pre []) k \<Longrightarrow> map_of (rd_keys r) k = offPath pre r k"
  by (simp add: offPath_def)

lemma rd_bind: "m r = (Inr x, r') \<Longrightarrow> bindR m f r = f x r'"
  by (simp add: bindR_def)

lemma cmdHGet_up: "rd_up r \<Longrightarrow> hashAt (rd_keys r) k = Inr h \<Longrightarrow> cmdHGet k f r = (Inr (map_of h f), r)"
  by (simp add: cmdHGet_def command_def)

lemma cmdHGetAll_up: "rd_up r \<Longrightarrow> hashAt (rd_keys r) k = Inr h \<Longrightarrow> cmdHGetAll k r = (Inr h, r)"
  by (simp add: cmdHGetAll_def command_def)

lemma cmdSMembers_up: "rd_up r \<Longrightarrow> setAt (rd_keys r) k = Inr s \<Longrightarrow> cmdSMembers k r = (Inr s, r)"
  by (simp add: cmdSMembers_def command_def)

lemma map_of_filter_keys: "map_of (filter (\<lambda>(k, _). k \<notin> A) ks) k = (if k \<in> A then None else map_of ks k)"
  by (induction ks) auto

lemma cmdDel_up:
  assumes "rd_up r"
  obtains r' where "cmdDel ds r = (Inr (), r')" "rd_up r'"
    "map_of (rd_keys r') = (\<lambda>k. if k \<in> set ds then None else map_of (rd_keys r) k)"
proof (rule that)
  let ?r = "r\<lparr>rd_keys := filter (\<lambda>(k, _). k \<notin> set ds) (rd_keys r)\<rparr>"
  show "cmdDel ds r = (Inr (), ?r)" using assms by (simp add: cmdDel_def command_def)
  show "rd_up ?r" using assms by simp
  show "map_of (rd_keys ?r) = (\<lambda>k. if k \<in> set ds then None else map_of (rd_keys r) k)" by (rule ext) (simp add: map_of_filter_keys)
qed

definition mergeHash :: "(str \<times> field) list \<Rightarrow> (str \<times> field) list \<Rightarrow> (str \<times> field) list" where
  "mergeHash fs h = fold (\<lambda>(f, v). AList.update f v) fs h"

lemma map_of_mergeHash: "map_of (mergeHash fs h) f = (case map_of (rev fs) f of None \<Rightarrow> map_of h f | Some v \<Rightarrow> Some v)"
  unfolding mergeHash_def by (induction fs arbitrary: h) (auto simp: update_conv' split: option.splits)

lemma cmdHSet_up:
  assumes "rd_up r" "hashAt (rd_keys r) k = Inr h"
  obtains r' where "cmdHSet k fs r = (Inr (), r')" "rd_up r'" "map_of (rd_keys r') = (map_of (rd_keys r))(k \<mapsto> RHash (mergeHash fs h))"
  using assms by (simp add: cmdHSet_def command_def mergeHash_def update_conv')

lemma cmdSet_up:
  assumes "rd_up r"
  obtains r' where "cmdSet k v r = (Inr (), r')" "rd_up r'" "map_of (rd_keys r') = (map_of (rd_keys r))(k \<mapsto> RStr v)"
  using assms by (simp add: cmdSet_def command_def update_conv')

lemma cmdSAdd_up:
  assumes "rd_up r" "setAt (rd_keys r) k = Inr s"
  obtains r' where "cmdSAdd k m r = (Inr (), r')" "rd_up r'"
    "map_of (rd_keys r') = (map_of (rd_keys r))(k \<mapsto> RSet (if m \<in> set s then s else s @ [m]))"
  using assms by (simp add: cmdSAdd_def command_def update_conv')

lemma cmdSRem_up:
  assumes "rd_up r" "setAt (rd_keys r) k = Inr s"
  obtains r' where "cmdSRem k m r = (Inr (), r')" "rd_up r'"
    "map_of (rd_keys r') = (map_of (rd_keys r))(k := (case filter (\<lambda>x. x \<noteq> m) s of [] \<Rightarrow> None | s' \<Rightarrow> Some (RSet (filter (\<lambda>x. x \<noteq> m) s))))"
  using assms by (simp add: cmdSRem_def command_def Let_def update_conv' delete_conv' split: list.splits if_splits)

section \<open>The cache state\<close>

definition idsOf :: "str \<Rightarrow> redis \<Rightarrow> str list" where
  "idsOf pre r = (case offPath pre r (idsKey pre) of Some (RSet s) \<Rightarrow> s | _ \<Rightarrow> [])"

definition hashOf :: "str \<Rightarrow> redis \<Rightarrow> str \<Rightarrow> (str \<times> field) list" where
  "hashOf pre r i = (case offPath pre r (secretKey pre i) of Some (RHash h) \<Rightarrow> h | _ \<Rightarrow> [])"

text \<open>The server runs, the ids are a set, every member has a hash of its own, nothing else has one.\<close>

definition cacheOk :: "str \<Rightarrow> redis \<Rightarrow> bool" where
  "cacheOk pre r \<longleftrightarrow> rd_up r \<and> (offPath pre r (idsKey pre) = None \<or> (\<exists>s. offPath pre r (idsKey pre) = Some (RSet s))) \<and>
     list_all idOkR (idsOf pre r) \<and>
     (\<forall>i. idOkR i \<longrightarrow> (if i \<in> set (idsOf pre r)
        then \<exists>h. offPath pre r (secretKey pre i) = Some (RHash h) \<and> h \<noteq> []
        else offPath pre r (secretKey pre i) = None))"

definition cacheMap :: "str \<Rightarrow> redis \<Rightarrow> str \<Rightarrow> secret option" where
  "cacheMap pre r i = (if i \<in> set (idsOf pre r) then Some (hashToSecret (hashOf pre r i)) else None)"

lemma cacheOk_reads:
  assumes "cacheOk pre r"
  shows "rd_up r" "setAt (rd_keys r) (idsKey pre) = Inr (idsOf pre r)"
    "idOkR i \<Longrightarrow> hashAt (rd_keys r) (secretKey pre i) = Inr (hashOf pre r i)"
proof -
  show "rd_up r" using assms by (simp add: cacheOk_def)
  show "setAt (rd_keys r) (idsKey pre) = Inr (idsOf pre r)"
    using assms offPath_at [OF key_facts(2), of r pre] by (auto simp: cacheOk_def setAt_def idsOf_def)
  assume i: "idOkR i"
  have "offPath pre r (secretKey pre i) = None \<or> (\<exists>h. offPath pre r (secretKey pre i) = Some (RHash h))"
    using assms i by (cases "i \<in> set (idsOf pre r)") (auto simp: cacheOk_def)
  then show "hashAt (rd_keys r) (secretKey pre i) = Inr (hashOf pre r i)"
    using offPath_at [OF key_facts(3) [OF i], of r pre] by (auto simp: hashAt_def hashOf_def)
qed

lemma hashToSecret_merge:
  "hashToSecret (mergeHash (secretFields rec) h) = cacheView (scr_secret rec)"
  by (simp add: hashToSecret_def textOf_def atoi_def parseTime_def map_of_mergeHash secretFields_def Let_def cacheView_def)


section \<open>The operations\<close>

lemma offPath_path_upd:
  assumes "\<And>k. \<not> hasPrefix (pathKey pre []) k \<Longrightarrow> map_of (rd_keys r') k = map_of (rd_keys r) k"
  shows "offPath pre r' = offPath pre r"
  using assms by (simp add: offPath_def fun_eq_iff)

lemma offPath_upd:
  assumes "map_of (rd_keys r') = (map_of (rd_keys r))(k := v)" "\<not> hasPrefix (pathKey pre []) k"
  shows "offPath pre r' = (offPath pre r)(k := v)"
  using assms by (auto simp: offPath_def fun_eq_iff)

lemma hashAt_offPath:
  "\<not> hasPrefix (pathKey pre []) k \<Longrightarrow> offPath pre r' k = offPath pre r k \<Longrightarrow> hashAt (rd_keys r') k = hashAt (rd_keys r) k"
  "\<not> hasPrefix (pathKey pre []) k \<Longrightarrow> offPath pre r' k = offPath pre r k \<Longrightarrow> setAt (rd_keys r') k = setAt (rd_keys r) k"
  by (simp_all add: hashAt_def setAt_def offPath_def)

lemma optional_del:
  assumes "rd_up r"
  obtains r' where "(if b then cmdDel [pathKey pre p] else retR ()) r = (Inr (), r')" "rd_up r'" "offPath pre r' = offPath pre r"
proof (cases b)
  case True
  obtain r' where r': "cmdDel [pathKey pre p] r = (Inr (), r')" "rd_up r'"
    "map_of (rd_keys r') = (\<lambda>k. if k \<in> set [pathKey pre p] then None else map_of (rd_keys r) k)"
    by (rule cmdDel_up [OF assms])
  have o: "offPath pre r' = offPath pre r" by (rule offPath_path_upd) (use r'(3) key_facts(1) in auto)
  show thesis by (rule that [OF _ r'(2) o]) (simp only: True if_True r'(1))
qed (use assms in \<open>simp add: retR_def that\<close>)

lemma optional_set:
  assumes "rd_up r"
  obtains r' where "(if b then cmdSet (pathKey pre p) v else retR ()) r = (Inr (), r')" "rd_up r'" "offPath pre r' = offPath pre r"
proof (cases b)
  case True
  obtain r' where r': "cmdSet (pathKey pre p) v r = (Inr (), r')" "rd_up r'"
    "map_of (rd_keys r') = (map_of (rd_keys r))(pathKey pre p \<mapsto> RStr v)" by (rule cmdSet_up [OF assms])
  have o: "offPath pre r' = offPath pre r" by (rule offPath_path_upd) (use r'(3) key_facts(1) in auto)
  show thesis by (rule that [OF _ r'(2) o]) (simp only: True if_True r'(1))
qed (use assms in \<open>simp add: retR_def that\<close>)

lemma upsertSecret_effect:
  assumes ok: "cacheOk pre r" and i: "idOkR i" "sec_id (scr_secret rec) = i"
  obtains r' where "upsertSecret pre rec r = (Inr (), r')" "rd_up r'"
    "offPath pre r' = (offPath pre r)(secretKey pre i \<mapsto> RHash (mergeHash (secretFields rec) (hashOf pre r i)),
       idsKey pre \<mapsto> RSet (if i \<in> set (idsOf pre r) then idsOf pre r else idsOf pre r @ [i]))"
proof -
  let ?k = "secretKey pre i" and ?s = "scr_secret rec" and ?h = "hashOf pre r i"
  note rd = cacheOk_reads [OF ok]
  note k = key_facts(3) [OF i(1), of pre]
  let ?old = "case map_of ?h ''path'' of Some (Text p) \<Rightarrow> p | _ \<Rightarrow> []"
  obtain r1 where 1: "(if ?old \<noteq> [] \<and> ?old \<noteq> sec_path ?s then cmdDel [pathKey pre ?old] else retR ()) r = (Inr (), r1)"
    "rd_up r1" "offPath pre r1 = offPath pre r" 
    by (rule optional_del [OF rd(1), where b = "?old \<noteq> [] \<and> ?old \<noteq> sec_path ?s" and pre = pre and p = ?old])
  have h1: "hashAt (rd_keys r1) ?k = Inr ?h" 
    unfolding hashAt_offPath(1) [OF k, of r1 r, unfolded 1(3), OF refl] by (rule rd(3) [OF i(1)])
  obtain r2 where 2: "cmdHSet ?k (secretFields rec) r1 = (Inr (), r2)" "rd_up r2"
    "map_of (rd_keys r2) = (map_of (rd_keys r1))(?k \<mapsto> RHash (mergeHash (secretFields rec) ?h))"
    by (rule cmdHSet_up [OF 1(2) h1])
  have o2: "offPath pre r2 = (offPath pre r)(?k \<mapsto> RHash (mergeHash (secretFields rec) ?h))"
    using offPath_upd [OF 2(3) k] 1(3) by simp
  obtain r3 where 3: "(if sec_path ?s \<noteq> [] then cmdSet (pathKey pre (sec_path ?s)) (sec_id ?s) else retR ()) r2 = (Inr (), r3)"
    "rd_up r3" "offPath pre r3 = offPath pre r2" 
    by (rule optional_set [OF 2(2), where b = "sec_path ?s \<noteq> []" and pre = pre and p = "sec_path ?s" and v = "sec_id ?s"])
  have "offPath pre r3 (idsKey pre) = offPath pre r (idsKey pre)"
    using 3(3) o2 key_facts(4) [OF i(1), of pre] by simp
  then have s3: "setAt (rd_keys r3) (idsKey pre) = Inr (idsOf pre r)"
    using hashAt_offPath(2) [OF key_facts(2), of pre r3 r] rd(2) by simp
  obtain r4 where 4: "cmdSAdd (idsKey pre) i r3 = (Inr (), r4)" "rd_up r4"
    "map_of (rd_keys r4) = (map_of (rd_keys r3))(idsKey pre \<mapsto> RSet (if i \<in> set (idsOf pre r) then idsOf pre r else idsOf pre r @ [i]))"
    by (rule cmdSAdd_up [OF 3(2) s3])
  have 0: "cmdHGet ?k ''path'' r = (Inr (map_of ?h ''path''), r)" by (rule cmdHGet_up [OF rd(1) rd(3) [OF i(1)]])
  have "upsertSecret pre rec r = (Inr (), r4)"
    unfolding upsertSecret_def Let_def bindR_def i(2) 0 prod.case sum.case 1(1) 2(1) 3(1) [unfolded i(2)] by (rule 4(1))
  moreover have "offPath pre r4 = (offPath pre r)(?k \<mapsto> RHash (mergeHash (secretFields rec) ?h),
       idsKey pre \<mapsto> RSet (if i \<in> set (idsOf pre r) then idsOf pre r else idsOf pre r @ [i]))"
    unfolding offPath_upd [OF 4(3) key_facts(2)] 3(3) o2 by (rule refl)
  ultimately show thesis using 4(2) that by blast
qed

lemma mergeHash_ne: "fs \<noteq> [] \<Longrightarrow> mergeHash fs h \<noteq> []"
proof -
  assume "fs \<noteq> []"
  then obtain p where "p \<in> set fs" by (cases fs) auto
  then have "fst p \<in> fst ` set (rev fs)" by simp
  then have "map_of (rev fs) (fst p) \<noteq> None" by (metis map_of_eq_None_iff)
  then obtain f v where "map_of (rev fs) f = Some v" by auto
  then have "map_of (mergeHash fs h) f = Some v" by (simp add: map_of_mergeHash)
  then show ?thesis by auto
qed

lemma upsertSecret_cache:
  assumes ok: "cacheOk pre r" and i: "idOkR (sec_id (scr_secret rec))"
  shows "upsertSecret pre rec r = (Inr (), snd (upsertSecret pre rec r))" "cacheOk pre (snd (upsertSecret pre rec r))"
    "cacheMap pre (snd (upsertSecret pre rec r)) = (cacheMap pre r)(sec_id (scr_secret rec) \<mapsto> cacheView (scr_secret rec))"
proof -
  let ?i = "sec_id (scr_secret rec)"
  obtain r' where e: "upsertSecret pre rec r = (Inr (), r')" "rd_up r'"
    "offPath pre r' = (offPath pre r)(secretKey pre ?i \<mapsto> RHash (mergeHash (secretFields rec) (hashOf pre r ?i)),
       idsKey pre \<mapsto> RSet (if ?i \<in> set (idsOf pre r) then idsOf pre r else idsOf pre r @ [?i]))"
    by (rule upsertSecret_effect [OF ok i refl])
  have r': "snd (upsertSecret pre rec r) = r'" using e(1) by simp
  have ids: "idsOf pre r' = (if ?i \<in> set (idsOf pre r) then idsOf pre r else idsOf pre r @ [?i])"
    unfolding idsOf_def [of pre r'] e(3) by simp
  have key: "offPath pre r' (secretKey pre j) = (if j = ?i then Some (RHash (mergeHash (secretFields rec) (hashOf pre r ?i)))
      else offPath pre r (secretKey pre j))" if "idOkR j" for j
    using key_facts(4) [OF that, of pre] unfolding e(3) by (auto simp: key_facts(5))
  have ne: "mergeHash (secretFields rec) h \<noteq> []" for h by (rule mergeHash_ne) (simp add: secretFields_def Let_def)
  have idk: "\<exists>s. offPath pre r' (idsKey pre) = Some (RSet s)" unfolding e(3) by simp
  have all: "list_all idOkR (idsOf pre r')" using ok i unfolding ids cacheOk_def by (simp add: list_all_iff)
  have each: "if j \<in> set (idsOf pre r') then \<exists>h. offPath pre r' (secretKey pre j) = Some (RHash h) \<and> h \<noteq> []
      else offPath pre r' (secretKey pre j) = None" if j: "idOkR j" for j
  proof -
    have old: "if j \<in> set (idsOf pre r) then \<exists>h. offPath pre r (secretKey pre j) = Some (RHash h) \<and> h \<noteq> []
      else offPath pre r (secretKey pre j) = None" using ok j unfolding cacheOk_def by blast
    show ?thesis
    proof (cases "j = ?i")
      case True
      then show ?thesis using key [OF j] ids ne by simp
    next
      case False
      then show ?thesis using key [OF j] ids old by simp
    qed
  qed
  show "cacheOk pre (snd (upsertSecret pre rec r))" unfolding r' cacheOk_def using e(2) idk all each by blast
  have hash: "hashOf pre r' j = (if j = ?i then mergeHash (secretFields rec) (hashOf pre r ?i) else hashOf pre r j)" if "idOkR j" for j
    using key [OF that] by (simp add: hashOf_def)
  have okids: "j \<in> set (idsOf pre r) \<Longrightarrow> idOkR j" for j using ok by (auto simp: cacheOk_def list_all_iff)
  show "cacheMap pre (snd (upsertSecret pre rec r)) = (cacheMap pre r)(?i \<mapsto> cacheView (scr_secret rec))"
    unfolding r' by (rule ext) (use ids hash okids i in \<open>auto simp: cacheMap_def hashToSecret_merge\<close>)
  show "upsertSecret pre rec r = (Inr (), snd (upsertSecret pre rec r))" using e(1) by simp
qed


lemma deleteSecret_effect:
  assumes ok: "cacheOk pre r" and i: "idOkR i"
  obtains r' where "deleteSecretC pre i r = (Inr (), r')" "rd_up r'"
    "offPath pre r' = (offPath pre r)(secretKey pre i := None, idsKey pre :=
       (case filter (\<lambda>x. x \<noteq> i) (idsOf pre r) of [] \<Rightarrow> None | _ \<Rightarrow> Some (RSet (filter (\<lambda>x. x \<noteq> i) (idsOf pre r)))))"
proof -
  let ?k = "secretKey pre i" and ?h = "hashOf pre r i"
  let ?p = "case map_of ?h ''path'' of Some (Text p) \<Rightarrow> p | _ \<Rightarrow> []"
  let ?ds = "?k # (if ?p \<noteq> [] then [pathKey pre ?p] else [])"
  note rd = cacheOk_reads [OF ok]
  note k = key_facts(3) [OF i, of pre]
  have 0: "cmdHGet ?k ''path'' r = (Inr (map_of ?h ''path''), r)" by (rule cmdHGet_up [OF rd(1) rd(3) [OF i]])
  obtain r1 where 1: "cmdDel ?ds r = (Inr (), r1)" "rd_up r1"
    "map_of (rd_keys r1) = (\<lambda>k. if k \<in> set ?ds then None else map_of (rd_keys r) k)"
    by (rule cmdDel_up [OF rd(1), where ds = ?ds])
  have o1: "offPath pre r1 = (offPath pre r)(?k := None)"
    using k key_facts(1) [of pre] unfolding offPath_def fun_eq_iff 1(3) by auto
  have "offPath pre r1 (idsKey pre) = offPath pre r (idsKey pre)"
    using o1 key_facts(4) [OF i, of pre] by simp
  then have s1: "setAt (rd_keys r1) (idsKey pre) = Inr (idsOf pre r)"
    using hashAt_offPath(2) [OF key_facts(2), of pre r1 r] rd(2) by simp
  obtain r2 where 2: "cmdSRem (idsKey pre) i r1 = (Inr (), r2)" "rd_up r2"
    "map_of (rd_keys r2) = (map_of (rd_keys r1))(idsKey pre := (case filter (\<lambda>x. x \<noteq> i) (idsOf pre r) of [] \<Rightarrow> None
       | s' \<Rightarrow> Some (RSet (filter (\<lambda>x. x \<noteq> i) (idsOf pre r)))))"
    by (rule cmdSRem_up [OF 1(2) s1])
  have "deleteSecretC pre i r = (Inr (), r2)"
    unfolding deleteSecretC_def Let_def bindR_def 0 prod.case sum.case 1(1) by (rule 2(1))
  moreover have "offPath pre r2 = (offPath pre r)(?k := None, idsKey pre :=
       (case filter (\<lambda>x. x \<noteq> i) (idsOf pre r) of [] \<Rightarrow> None | _ \<Rightarrow> Some (RSet (filter (\<lambda>x. x \<noteq> i) (idsOf pre r)))))"
    unfolding offPath_upd [OF 2(3) key_facts(2)] o1 by (rule refl)
  ultimately show thesis using 2(2) that by blast
qed

lemma cacheOkI:
  assumes "rd_up r" "offPath pre r (idsKey pre) = None \<or> (\<exists>s. offPath pre r (idsKey pre) = Some (RSet s))"
    and "list_all idOkR (idsOf pre r)"
    and "\<And>i. idOkR i \<Longrightarrow> i \<in> set (idsOf pre r) \<Longrightarrow> \<exists>h. offPath pre r (secretKey pre i) = Some (RHash h) \<and> h \<noteq> []"
    and "\<And>i. idOkR i \<Longrightarrow> i \<notin> set (idsOf pre r) \<Longrightarrow> offPath pre r (secretKey pre i) = None"
  shows "cacheOk pre r"
  using assms unfolding cacheOk_def by simp

lemma cacheOk_entry:
  assumes "cacheOk pre r"
  shows "i \<in> set (idsOf pre r) \<Longrightarrow> idOkR i"
    "i \<in> set (idsOf pre r) \<Longrightarrow> \<exists>h. offPath pre r (secretKey pre i) = Some (RHash h) \<and> h \<noteq> []"
    "idOkR i \<Longrightarrow> i \<notin> set (idsOf pre r) \<Longrightarrow> offPath pre r (secretKey pre i) = None"
  using assms unfolding cacheOk_def list_all_iff by metis+

lemma deleteSecret_cache:
  assumes ok: "cacheOk pre r" and i: "idOkR i"
  shows "deleteSecretC pre i r = (Inr (), snd (deleteSecretC pre i r))" "cacheOk pre (snd (deleteSecretC pre i r))"
    "cacheMap pre (snd (deleteSecretC pre i r)) = (cacheMap pre r)(i := None)"
proof -
  let ?s = "filter (\<lambda>x. x \<noteq> i) (idsOf pre r)"
  obtain r' where e: "deleteSecretC pre i r = (Inr (), r')" "rd_up r'"
    "offPath pre r' = (offPath pre r)(secretKey pre i := None, idsKey pre := (case ?s of [] \<Rightarrow> None | _ \<Rightarrow> Some (RSet ?s)))"
    by (rule deleteSecret_effect [OF ok i])
  have r': "snd (deleteSecretC pre i r) = r'" using e(1) by simp
  have ids: "idsOf pre r' = ?s" unfolding idsOf_def [of pre r'] e(3) by (simp split: list.splits)
  have idk: "offPath pre r' (idsKey pre) = None \<or> (\<exists>s. offPath pre r' (idsKey pre) = Some (RSet s))"
    unfolding e(3) by (simp split: list.splits)
  have key: "offPath pre r' (secretKey pre j) = (if j = i then None else offPath pre r (secretKey pre j))" if "idOkR j" for j
    using key_facts(4) [OF that, of pre] unfolding e(3) by (simp add: key_facts(5))
  note old = cacheOk_entry [OF ok]
  show "cacheOk pre (snd (deleteSecretC pre i r))" unfolding r'
  proof (rule cacheOkI [OF e(2) idk])
    show "list_all idOkR (idsOf pre r')" unfolding ids list_all_iff using old(1) by simp
    show "\<exists>h. offPath pre r' (secretKey pre j) = Some (RHash h) \<and> h \<noteq> []" if "idOkR j" "j \<in> set (idsOf pre r')" for j
      using key [OF that(1)] that(2) old(2) [of j] unfolding ids by simp
    show "offPath pre r' (secretKey pre j) = None" if "idOkR j" "j \<notin> set (idsOf pre r')" for j
      using key [OF that(1)] that(2) old(3) [OF that(1)] unfolding ids by (cases "j = i") simp_all
  qed
  have "hashOf pre r' j = hashOf pre r j" if "j \<in> set (idsOf pre r)" "j \<noteq> i" for j
    using key [OF old(1) [OF that(1)]] that(2) by (simp add: hashOf_def)
  then show "cacheMap pre (snd (deleteSecretC pre i r)) = (cacheMap pre r)(i := None)"
    unfolding r' by (intro ext) (simp add: cacheMap_def ids)
  show "deleteSecretC pre i r = (Inr (), snd (deleteSecretC pre i r))" using e(1) by simp
qed

section \<open>Searching\<close>

lemma mapR_reads:
  "(\<And>x. x \<in> set xs \<Longrightarrow> f x r = (Inr (g x), r)) \<Longrightarrow> mapR f xs r = (Inr (map g xs), r)"
  by (induction xs) (simp_all add: retR_def bindR_def)

lemma matches_secret: "matches h fl (toLower (lf_keyword fl)) \<longleftrightarrow> secretMatches fl (hashToSecret h)"
  by (auto simp: matches_def secretMatches_def hashToSecret_def toLower_def)

lemma searchSecrets_exact:
  assumes ok: "cacheOk pre r"
  shows "searchSecrets pre fl r = (Inr (map (hashToSecret \<circ> hashOf pre r)
     (filter (\<lambda>i. secretMatches fl (hashToSecret (hashOf pre r i))) (idsOf pre r))), r)"
proof -
  note rd = cacheOk_reads [OF ok]
  have s: "cmdSMembers (idsKey pre) r = (Inr (idsOf pre r), r)" by (rule cmdSMembers_up [OF rd(1,2)])
  have h: "mapR (\<lambda>i. cmdHGetAll (secretKey pre i)) (idsOf pre r) r = (Inr (map (hashOf pre r) (idsOf pre r)), r)"
    by (rule mapR_reads) (rule cmdHGetAll_up [OF rd(1) rd(3)], rule cacheOk_entry(1) [OF ok])
  have ne: "hashOf pre r i \<noteq> []" if "i \<in> set (idsOf pre r)" for i
    using cacheOk_entry(2) [OF ok that] by (auto simp: hashOf_def)
  have f: "filter (\<lambda>h. h \<noteq> [] \<and> matches h fl (toLower (lf_keyword fl))) (map (hashOf pre r) (idsOf pre r)) =
      map (hashOf pre r) (filter (\<lambda>i. secretMatches fl (hashToSecret (hashOf pre r i))) (idsOf pre r))"
    unfolding filter_map comp_def matches_secret by (intro arg_cong [where f = "map _"] filter_cong refl) (simp add: ne)
  show ?thesis unfolding searchSecrets_def bindR_def s prod.case sum.case Let_def h f retR_def by simp
qed

interpretation cache: secret_cache "cacheOk pre" "cacheMap pre" idOkR "\<lambda>rec r. snd (upsertSecret pre rec r)"
  "\<lambda>i r. snd (deleteSecretC pre i r)" "\<lambda>fl r. projr (fst (searchSecrets pre fl r))" for pre
proof unfold_locales
  fix r fl assume "cacheOk pre r"
  then show "set (projr (fst (searchSecrets pre fl r))) = {s \<in> ran (cacheMap pre r). secretMatches fl s}"
    by (auto simp: searchSecrets_exact cacheMap_def ran_def)
qed (simp_all add: upsertSecret_cache(2,3) deleteSecret_cache(2,3))


text \<open>The writes of the model: an upsert or a delete.\<close>

definition cacheWrite :: "str \<Rightarrow> secretCacheRecord + str \<Rightarrow> redis \<Rightarrow> redis" where
  "cacheWrite pre op r = (case op of Inl rec \<Rightarrow> snd (upsertSecret pre rec r) | Inr i \<Rightarrow> snd (deleteSecretC pre i r))"

definition writtenId :: "secretCacheRecord + str \<Rightarrow> str" where
  "writtenId op = (case op of Inl rec \<Rightarrow> sec_id (scr_secret rec) | Inr i \<Rightarrow> i)"

lemma cacheWrite_fold: "fold (cacheWrite pre) ops = fold (cache.applyOp pre) ops"
proof -
  have "cacheWrite pre = cache.applyOp pre" by (intro ext) (simp add: cacheWrite_def cache.applyOp_def split: sum.splits)
  then show ?thesis by simp
qed

lemma writtenId_op: "cache.opId = writtenId"
  by (intro ext) (simp add: cache.opId_def writtenId_def)

lemma emptyCache_ok: "cacheOk pre \<lparr> rd_up = True, rd_keys = [] \<rparr>" "cacheMap pre \<lparr> rd_up = True, rd_keys = [] \<rparr> = (\<lambda>_. None)"
  by (simp_all add: cacheOk_def idsOf_def offPath_def cacheMap_def fun_eq_iff)

text \<open>C7. The cache answers from the last writes. After any history of \<open>UpsertSecret\<close> and \<open>DeleteSecret\<close> on a
  running, initially empty server, with identifiers that are not index names, \<open>SearchSecrets\<close> succeeds and
  returns exactly the secrets whose last write is an upsert and that match the filter, each as it was written last,
  without its value. Overwritten paths and deleted entries leave nothing behind that a search could find.\<close>

theorem cache_answers_last_writes:
  assumes "\<forall>op \<in> set ops. idOkR (writtenId op)"
  shows "\<exists>xs. searchSecrets pre fl (fold (cacheWrite pre) ops \<lparr> rd_up = True, rd_keys = [] \<rparr>) =
       (Inr xs, fold (cacheWrite pre) ops \<lparr> rd_up = True, rd_keys = [] \<rparr>) \<and>
     (\<forall>s. s \<in> set xs \<longleftrightarrow> secretMatches fl s \<and>
        (\<exists>rec. findFirst (\<lambda>op. writtenId op = sec_id (scr_secret rec)) (rev ops) = Some (Inl rec) \<and>
           s = cacheView (scr_secret rec)))"
proof -
  let ?r0 = "\<lparr> rd_up = True, rd_keys = [] \<rparr>"
  let ?r = "fold (cacheWrite pre) ops ?r0"
  have ids: "\<forall>op \<in> set ops. idOkR (cache.opId op)" using assms by (simp add: writtenId_op)
  have ok: "cacheOk pre ?r" using cache.history [OF emptyCache_ok(1) ids] by (simp add: cacheWrite_fold)
  have s: "s \<in> set (projr (fst (searchSecrets pre fl ?r))) \<longleftrightarrow>
      (\<exists>rec. findFirst (\<lambda>op. writtenId op = sec_id (scr_secret rec)) (rev ops) = Some (Inl rec) \<and> s = cacheView (scr_secret rec)) \<and>
      secretMatches fl s" for s
    using cache.search_history [OF emptyCache_ok ids, where s = s and fl = fl] by (simp add: cacheWrite_fold writtenId_op)
  show ?thesis using s searchSecrets_exact [OF ok, of fl] by auto
qed


definition demoRec :: "str \<Rightarrow> str \<Rightarrow> secretCacheRecord" where
  "demoRec i k = \<lparr> scr_secret = scanSecret demoStore 0 (demoSecret i ''f'' k)
     (demoRow ''o'' [] ''org'' None 1, demoRow ''p'' ''o'' ''prj'' None 1, demoRow ''e'' ''p'' ''dev'' None 1,
      demoRow ''f'' ''e'' ''pay'' None 1), scr_cipher = demoCipher \<rparr>"

definition demoFilter :: "str \<Rightarrow> listFilter" where
  "demoFilter k = \<lparr> lf_env = [], lf_folder = [], lf_project = [], lf_keyword = k \<rparr>"

theorem cache_answers_last_writes_witness:
  "let ops = [Inl (demoRec ''s'' ''URL''), Inl (demoRec ''t'' ''URL2''), Inl (demoRec ''s'' ''KEY''), Inr ''t''];
       r = fold (cacheWrite ''ev'') ops \<lparr> rd_up = True, rd_keys = [] \<rparr>
   in map sec_key (projr (fst (searchSecrets ''ev'' (demoFilter []) r))) = [''KEY''] \<and>
      (\<exists>xs. searchSecrets ''ev'' (demoFilter ''url'') r = (Inr xs, r) \<and> cacheView (scr_secret (demoRec ''s'' ''URL'')) \<notin> set xs)"
proof -
  let ?ops = "[Inl (demoRec ''s'' ''URL''), Inl (demoRec ''t'' ''URL2''), Inl (demoRec ''s'' ''KEY''), Inr ''t'']"
  have a: "\<forall>op \<in> set ?ops. idOkR (writtenId op)" by code_simp
  have b: "map sec_key (projr (fst (searchSecrets ''ev'' (demoFilter []) (fold (cacheWrite ''ev'') ?ops \<lparr> rd_up = True, rd_keys = [] \<rparr>)))) =
      [''KEY'']" by code_simp
  have c: "findFirst (\<lambda>op. writtenId op = ''s'') (rev ?ops) = Some (Inl (demoRec ''s'' ''KEY''))" by code_simp
  have d: "cacheView (scr_secret (demoRec ''s'' ''URL'')) \<noteq> cacheView (scr_secret (demoRec ''s'' ''KEY''))"
    "sec_id (cacheView (scr_secret (demoRec ''s'' ''URL''))) = ''s''" by code_simp+
  have e: "sec_id (cacheView s) = sec_id s" for s by (simp add: cacheView_def)
  obtain xs where "searchSecrets ''ev'' (demoFilter ''url'') (fold (cacheWrite ''ev'') ?ops \<lparr> rd_up = True, rd_keys = [] \<rparr>) =
      (Inr xs, fold (cacheWrite ''ev'') ?ops \<lparr> rd_up = True, rd_keys = [] \<rparr>)"
    "\<forall>s. s \<in> set xs \<longleftrightarrow> secretMatches (demoFilter ''url'') s \<and>
        (\<exists>rec. findFirst (\<lambda>op. writtenId op = sec_id (scr_secret rec)) (rev ?ops) = Some (Inl rec) \<and>
           s = cacheView (scr_secret rec))"
    using cache_answers_last_writes [OF a, of "''ev''" "demoFilter ''url''"] by blast
  moreover have "cacheView (scr_secret (demoRec ''s'' ''URL'')) \<notin> set xs"
  proof
    assume "cacheView (scr_secret (demoRec ''s'' ''URL'')) \<in> set xs"
    then obtain rec where rec: "findFirst (\<lambda>op. writtenId op = sec_id (scr_secret rec)) (rev ?ops) = Some (Inl rec)"
      "cacheView (scr_secret (demoRec ''s'' ''URL'')) = cacheView (scr_secret rec)" using calculation(2) by blast
    then have "sec_id (scr_secret rec) = ''s''" using d(2) e by metis
    with rec c d(1) show False by simp
  qed
  ultimately show ?thesis using b by (auto simp: Let_def)
qed

end
