(* ===== verification/RbacService.thy ===== *)
theory RbacService
  imports RbacViews
begin

text \<open>
  The RBAC service of \<open>internal/service/rbac_service.go\<close>: the checks in front of the RBAC store.  Every
  operation evaluates its checks on the store and, if they pass, runs one operation of the store; the checks
  read only, so they are functions of the store (\<open>goErr + unit\<close>).  A wrapped error (\<open>%w\<close>) is the error it
  wraps.
\<close>

type_synonym 'a rbacOp = "store \<Rightarrow> (goErr + 'a) \<times> store"

definition guarded :: "(store \<Rightarrow> goErr + unit) \<Rightarrow> 'a rbacOp \<Rightarrow> 'a rbacOp" where
  "guarded check op st = (case check st of Inl e \<Rightarrow> (Inl e, st) | Inr _ \<Rightarrow> op st)"

definition readOnly :: "(store \<Rightarrow> goErr + 'a) \<Rightarrow> 'a rbacOp" where
  "readOnly f st = (f st, st)"

text \<open>Several checks in a row: the first error is the result.\<close>

fun inTurn :: "(goErr + unit) list \<Rightarrow> goErr + unit" where
  "inTurn [] = Inr ()"
| "inTurn (c # cs) = bindE c (\<lambda>_. inTurn cs)"

lemma inTurn_iff [result_simps]: "inTurn cs = Inr () \<longleftrightarrow> (\<forall>c \<in> set cs. c = Inr ())"
  by (induction cs) (auto simp: bindE_Inr_iff)

lemma guarded_Inr: "guarded c op st = (Inr x, st') \<longleftrightarrow> c st = Inr () \<and> op st = (Inr x, st')"
  by (auto simp: guarded_def split: sum.splits)

lemma guarded_denied: "c st = Inl e \<Longrightarrow> guarded c op st = (Inl e, st)"
  by (simp add: guarded_def)

section \<open>Platform administrators\<close>

definition platformAdminRoleCode :: str where "platformAdminRoleCode = ''platform_admin''"

definition authzResource :: "str \<Rightarrow> str \<Rightarrow> resource" where
  "authzResource scopeType scopeId = \<lparr> res_type = scopeType, res_id = scopeId \<rparr>"

definition isPlatformAdmin :: "store \<Rightarrow> userInfo \<Rightarrow> bool" where
  "isPlatformAdmin st u = list_ex (\<lambda>g. rb_roleCode g = platformAdminRoleCode \<and> rb_scopeType g = ''global'')
     (pg_items (listUserGrants st (ui_id u) \<lparr> pageNum = 1, pageSize = 200 \<rparr>))"

section \<open>Coverage of permission codes\<close>

text \<open>\<open>strings.Index(code, ":")\<close> splits at the first colon; the code has none, or it is the first or last
  character, gives a pair of empty strings.\<close>

definition splitCode :: "str \<Rightarrow> str \<times> str" where
  "splitCode code0 = (let code = trimSpace code0 in
     if code = [] then ([], [])
     else if hasPrefix ''env:template:'' code then (''env_template'', drop (length ''env:template:'') code)
     else let resource = takeWhile (\<lambda>c. c \<noteq> CHR '':'') code; rest = drop (length resource) code in
       if rest = [] \<or> resource = [] \<or> length resource = length code - 1 then ([], [])
       else (resource, tl rest))"

definition hasSuffix :: "str \<Rightarrow> str \<Rightarrow> bool" where
  "hasSuffix suf s = hasPrefix (rev suf) (rev s)"

definition trimSuffix :: "str \<Rightarrow> str \<Rightarrow> str" where
  "trimSuffix suf s = (if hasSuffix suf s then take (length s - length suf) s else s)"

definition actionCovers :: "str \<Rightarrow> str \<Rightarrow> bool" where
  "actionCovers parent0 child0 = (let parent = trimSpace parent0; child = trimSpace child0 in
     if parent = [] then False
     else if parent = child then True
     else if parent = ''update'' \<and> child = ''read'' then True
     else hasSuffix '':manage'' parent \<and> hasSuffix '':read'' child \<and>
       trimSuffix '':manage'' parent = trimSuffix '':read'' child)"

definition ownActions :: "str list \<Rightarrow> str list" where
  "ownActions codes = filter (\<lambda>a. a \<noteq> []) (map (\<lambda>c. snd (splitCode c)) codes)"

text \<open>The set as a list: only membership is used.  What the second loop adds ends in \<open>:read\<close>, so it does not
  matter whether the iteration visits it.\<close>

definition expandCoveredCodes :: "str list \<Rightarrow> str list" where
  "expandCoveredCodes ownedCodes =
     (let own = ownActions ownedCodes; withRead = own @ (if ''update'' \<in> set own then [''read''] else [])
      in withRead @ map (\<lambda>a. trimSuffix '':manage'' a @ '':read'') (filter (hasSuffix '':manage'') withRead))"

definition parentScopeChain :: "store \<Rightarrow> str \<Rightarrow> str \<Rightarrow> goErr + scope list" where
  "parentScopeChain st scopeType scopeId = (let resourceType = trimSpace scopeType in
     if resourceType = [] then Inl (ErrMsg ''empty scope type'')
     else resourceScopes st \<lparr> res_type = resourceType, res_id = scopeId \<rparr>)"

definition covers :: "str list \<Rightarrow> str list \<Rightarrow> bool" where
  "covers owned requested = list_all (\<lambda>req. let a = snd (splitCode req) in
     a \<noteq> [] \<and> a \<in> set (expandCoveredCodes owned)) requested"

definition callerCoversAtScope :: "store \<Rightarrow> userInfo \<Rightarrow> str list \<Rightarrow> str \<Rightarrow> str \<Rightarrow> goErr + bool" where
  "callerCoversAtScope st u requestedCodes scopeType scopeId =
     (if length requestedCodes = 0 then Inr True
      else bindE (effectivePermissions st (ui_id u) scopeType scopeId) (\<lambda>eff. Inr (covers (fst eff) requestedCodes)))"

fun anyE :: "('a \<Rightarrow> goErr + bool) \<Rightarrow> 'a list \<Rightarrow> goErr + bool" where
  "anyE p [] = Inr False"
| "anyE p (x # xs) = bindE (p x) (\<lambda>b. if b then Inr True else anyE p xs)"

definition checkCallerParentCoverage :: "store \<Rightarrow> userInfo \<Rightarrow> str list \<Rightarrow> str \<Rightarrow> str \<Rightarrow> goErr + unit" where
  "checkCallerParentCoverage st u requestedCodes scopeType scopeId =
     (if length requestedCodes = 0 then Inr ()
      else bindE (parentScopeChain st scopeType scopeId) (\<lambda>scopes.
        bindE (anyE (\<lambda>sc. callerCoversAtScope st u requestedCodes (sc_type sc) (sc_id sc)) scopes) (\<lambda>ok.
        checkE ok ErrPermissionDenied)))"

section \<open>The other checks\<close>

definition rejectSelfGrant :: "userInfo \<Rightarrow> str \<Rightarrow> goErr + unit" where
  "rejectSelfGrant u targetUserId =
     (if trimSpace (ui_id u) = [] then Inl ErrPermissionDenied
      else if trimSpace (ui_id u) = trimSpace targetUserId then Inl ErrPermissionDenied
      else Inr ())"

definition checkGlobalScopeOnlyPlatform :: "store \<Rightarrow> userInfo \<Rightarrow> str \<Rightarrow> goErr + unit" where
  "checkGlobalScopeOnlyPlatform st u scopeType =
     checkE (scopeType \<noteq> ''global'' \<or> isPlatformAdmin st u) ErrPermissionDenied"

definition checkPlatformRole :: "store \<Rightarrow> userInfo \<Rightarrow> str \<Rightarrow> goErr + unit" where
  "checkPlatformRole st u code = checkE (code \<noteq> platformAdminRoleCode \<or> isPlatformAdmin st u) ErrPermissionDenied"

definition checkLastOrgOwner :: "str \<Rightarrow> str \<Rightarrow> int \<Rightarrow> goErr + unit" where
  "checkLastOrgOwner scopeType roleCode afterCount =
     (if roleCode \<noteq> ''org_owner'' \<or> scopeType \<noteq> ''organization'' then Inr ()
      else checkE (\<not> afterCount < 1) ErrConflict)"

definition validateRoleBindingScope :: "roleView \<Rightarrow> str \<Rightarrow> goErr + unit" where
  "validateRoleBindingScope role scopeType =
     (let roleScope = trimSpace (ro_scopeType (rv_role role)); bindingScope = trimSpace scopeType in
      checkE (roleScope = [] \<or> bindingScope = [] \<or> roleScope = bindingScope) ErrConflict)"

section \<open>Roles\<close>

definition getRoleS :: "allowFn \<Rightarrow> userInfo \<Rightarrow> str \<Rightarrow> str \<Rightarrow> store \<Rightarrow> goErr + roleView" where
  "getRoleS al u i code st = bindE (al u ''rbac:role:read'' (authzResource ''global'' [])) (\<lambda>_. getRole st i code)"

definition roleWriteCheck :: "(store \<Rightarrow> allowFn) \<Rightarrow> userInfo \<Rightarrow> str \<Rightarrow> str \<Rightarrow> str \<Rightarrow> str list \<Rightarrow> store \<Rightarrow> goErr + unit" where
  "roleWriteCheck authz u code scopeType scopeId permissions st = inTurn
     [checkGlobalScopeOnlyPlatform st u scopeType,
      authz st u ''rbac:role:manage'' (authzResource scopeType scopeId),
      checkPlatformRole st u code,
      checkCallerParentCoverage st u permissions scopeType scopeId]"

definition createRoleS ::
    "(store \<Rightarrow> allowFn) \<Rightarrow> userInfo \<Rightarrow> str \<Rightarrow> str \<Rightarrow> str \<Rightarrow> str \<Rightarrow> str \<Rightarrow> str list \<Rightarrow> str \<Rightarrow> roleView rbacOp" where
  "createRoleS authz u code name description scopeType scopeId permissions actor =
     guarded (roleWriteCheck authz u code scopeType scopeId permissions)
       (createRole code name description scopeType scopeId permissions actor)"

definition updateRoleS ::
    "(store \<Rightarrow> allowFn) \<Rightarrow> userInfo \<Rightarrow> str \<Rightarrow> str \<Rightarrow> str \<Rightarrow> str \<Rightarrow> str \<Rightarrow> str \<Rightarrow> str list \<Rightarrow> str \<Rightarrow> roleView rbacOp" where
  "updateRoleS authz u i code name description scopeType scopeId permissions actor =
     guarded (roleWriteCheck authz u code scopeType scopeId permissions)
       (updateRole i code name description scopeType scopeId permissions actor)"

definition deleteRoleS :: "(store \<Rightarrow> allowFn) \<Rightarrow> userInfo \<Rightarrow> str \<Rightarrow> str \<Rightarrow> unit rbacOp" where
  "deleteRoleS authz u i actor =
     guarded (\<lambda>st. authz st u ''rbac:role:manage'' (authzResource ''global'' [])) (deleteRole i actor)"

section \<open>Users\<close>

definition listUsersS :: "userInfo \<Rightarrow> str \<Rightarrow> pagination \<Rightarrow> store \<Rightarrow> goErr + user paginated" where
  "listUsersS u keyword p st =
     (if trimSpace (ui_id u) = [] then Inl ErrPermissionDenied
      else if \<not> userHasPermissionAnywhere st (ui_id u) ''rbac:role:manage'' then Inl ErrPermissionDenied
      else Inr (listUsers st (ui_id u) keyword p))"

section \<open>Bindings\<close>

definition listRoleBindingsS :: "userInfo \<Rightarrow> str \<Rightarrow> str \<Rightarrow> pagination \<Rightarrow> store \<Rightarrow> goErr + roleBinding paginated" where
  "listRoleBindingsS u scopeType scopeId p st =
     bindE (checkCallerParentCoverage st u [''rbac:binding:read''] scopeType scopeId) (\<lambda>_.
     listRoleBindingsCascading st scopeType scopeId p)"

definition listUserGrantsS :: "userInfo \<Rightarrow> str \<Rightarrow> pagination \<Rightarrow> store \<Rightarrow> goErr + roleBinding paginated" where
  "listUserGrantsS u userId p st =
     bindE (checkCallerParentCoverage st u [''rbac:binding:read''] ''global'' []) (\<lambda>_.
     Inr (listUserGrants st userId p))"

definition grantCheck :: "(store \<Rightarrow> allowFn) \<Rightarrow> userInfo \<Rightarrow> str \<Rightarrow> str \<Rightarrow> str \<Rightarrow> str \<Rightarrow> store \<Rightarrow> goErr + unit" where
  "grantCheck authz u userId roleCode scopeType scopeId st = bindE (inTurn
     [rejectSelfGrant u userId,
      checkGlobalScopeOnlyPlatform st u scopeType,
      authz st u ''rbac:binding:manage'' (authzResource scopeType scopeId),
      checkPlatformRole st u roleCode]) (\<lambda>_.
     bindE (getRole st [] roleCode) (\<lambda>role. inTurn
     [validateRoleBindingScope role scopeType,
      checkCallerParentCoverage st u (rv_permissions role) scopeType scopeId]))"

definition grantRoleS ::
    "(store \<Rightarrow> allowFn) \<Rightarrow> userInfo \<Rightarrow> str \<Rightarrow> str \<Rightarrow> str \<Rightarrow> str \<Rightarrow> str \<Rightarrow> str \<Rightarrow> nat option \<Rightarrow> str \<Rightarrow> roleBinding rbacOp" where
  "grantRoleS authz u userId name email roleCode scopeType scopeId expiresAt actor =
     guarded (grantCheck authz u userId roleCode scopeType scopeId)
       (grantRole userId name email roleCode scopeType scopeId expiresAt actor)"

definition ownerCount :: "store \<Rightarrow> str \<Rightarrow> str \<Rightarrow> int" where
  "ownerCount st scopeType scopeId = int (length (filter (\<lambda>b. rb_roleCode b = ''org_owner'')
     (pg_items (listRoleBindingsAt st scopeType scopeId \<lparr> pageNum = 1, pageSize = 200 \<rparr>))))"

definition revokeCheck :: "(store \<Rightarrow> allowFn) \<Rightarrow> userInfo \<Rightarrow> str \<Rightarrow> str \<Rightarrow> str \<Rightarrow> str \<Rightarrow> store \<Rightarrow> goErr + unit" where
  "revokeCheck authz u userId roleCode scopeType scopeId st = bindE (inTurn
     [rejectSelfGrant u userId,
      checkGlobalScopeOnlyPlatform st u scopeType,
      authz st u ''rbac:binding:manage'' (authzResource scopeType scopeId)]) (\<lambda>_.
     bindE (getRole st [] roleCode) (\<lambda>role. inTurn
     [validateRoleBindingScope role scopeType,
      if length (rv_permissions role) > 0
        then checkCallerParentCoverage st u (rv_permissions role) scopeType scopeId else Inr (),
      if roleCode = ''org_owner'' \<and> scopeType = ''organization''
        then checkLastOrgOwner scopeType roleCode (ownerCount st scopeType scopeId - 1) else Inr ()]))"

definition revokeRoleS :: "(store \<Rightarrow> allowFn) \<Rightarrow> userInfo \<Rightarrow> str \<Rightarrow> str \<Rightarrow> str \<Rightarrow> str \<Rightarrow> str \<Rightarrow> unit rbacOp" where
  "revokeRoleS authz u userId roleCode scopeType scopeId actor =
     guarded (revokeCheck authz u userId roleCode scopeType scopeId)
       (revokeRole userId roleCode scopeType scopeId actor)"

definition effectivePermissionsS ::
    "(store \<Rightarrow> allowFn) \<Rightarrow> userInfo \<Rightarrow> str \<Rightarrow> str \<Rightarrow> str \<Rightarrow> store \<Rightarrow> goErr + str list \<times> roleBinding list" where
  "effectivePermissionsS authz u userId scopeType scopeId st =
     (let caller = trimSpace (ui_id u); target = trimSpace userId in
      if caller = [] then Inl ErrPermissionDenied
      else bindE (if caller \<noteq> target
          then authz st u ''rbac:binding:read'' (authzResource scopeType scopeId) else Inr ()) (\<lambda>_.
        effectivePermissions st target scopeType scopeId))"

end
