(* ===== verification/RbacServiceProps.thy ===== *)
theory RbacServiceProps
  imports RbacService RbacProps SchemaProps
begin

text \<open>
  What the checks of the RBAC service achieve: the expansion of permission codes agrees with the rule it is
  documented by; looking along the scope chain decides like the target scope alone; a grant never gives away
  an action that the granting caller does not hold.  And what they miss: the scope that \<open>UpdateRole\<close> checks is
  the one in the request, and the protection of the last owner counts expired bindings.
\<close>

section \<open>Coverage\<close>

lemma hasSuffix_iff [gostr]: "hasSuffix suf s \<longleftrightarrow> (\<exists>t. s = t @ suf)"
proof -
  have "rev s = rev suf @ t \<longleftrightarrow> s = rev t @ suf" for t by (metis rev_append rev_rev_ident)
  then show ?thesis by (auto simp: hasSuffix_def hasPrefix_iff) (metis rev_rev_ident)
qed

lemma trimSuffix_append [simp]: "trimSuffix suf (t @ suf) = t"
  by (auto simp: trimSuffix_def hasSuffix_iff)

lemma manage_read_iff:
  "hasSuffix '':read'' a \<and> trimSuffix '':manage'' x = trimSuffix '':read'' a \<longleftrightarrow> a = trimSuffix '':manage'' x @ '':read''"
  by (auto simp: hasSuffix_iff)

lemma set_expandCoveredCodes:
  "a \<in> set (expandCoveredCodes codes) \<longleftrightarrow>
     (\<exists>x \<in> set (ownActions codes). x = a \<or> x = ''update'' \<and> a = ''read'' \<or>
        hasSuffix '':manage'' x \<and> a = trimSuffix '':manage'' x @ '':read'')"
proof -
  have "\<not> hasSuffix '':manage'' ''read''" by code_simp
  then show ?thesis by (auto simp: expandCoveredCodes_def Let_def)
qed

lemma actionCovers_trimmed:
  assumes "trimSpace x = x" "trimSpace a = a" "x \<noteq> []"
  shows "actionCovers x a \<longleftrightarrow> x = a \<or> x = ''update'' \<and> a = ''read'' \<or>
     hasSuffix '':manage'' x \<and> a = trimSuffix '':manage'' x @ '':read''"
  using assms manage_read_iff [of a x] by (auto simp: actionCovers_def)

text \<open>The expansion implements the rule. For codes whose actions have no surrounding blanks, an action is in the
  set that \<open>expandCoveredCodes\<close> computes exactly if the action of one of the codes covers it by the rule
  \<open>actionCovers\<close> that the comments state: the same action, \<open>update\<close> for \<open>read\<close>, or \<open>x:manage\<close> for \<open>x:read\<close>.\<close>

theorem coverage_matches_rule:
  assumes "\<forall>c \<in> set codes. trimSpace (snd (splitCode c)) = snd (splitCode c)" "trimSpace a = a"
  shows "a \<in> set (expandCoveredCodes codes) \<longleftrightarrow> (\<exists>c \<in> set codes. actionCovers (snd (splitCode c)) a)"
proof -
  have n: "\<not> actionCovers [] a" by (simp add: actionCovers_def)
  have "a \<in> set (expandCoveredCodes codes) \<longleftrightarrow> (\<exists>x \<in> set (ownActions codes). actionCovers x a)"
    unfolding set_expandCoveredCodes
    by (rule bex_cong [OF refl]) (use assms actionCovers_trimmed in \<open>auto simp: ownActions_def\<close>)
  also have "\<dots> \<longleftrightarrow> (\<exists>c \<in> set codes. actionCovers (snd (splitCode c)) a)" using n by (auto simp: ownActions_def) metis
  finally show ?thesis .
qed

theorem coverage_matches_rule_witness:
  "''binding:read'' \<in> set (expandCoveredCodes [''rbac:binding:manage'', ''org:update'']) \<and>
   ''create'' \<notin> set (expandCoveredCodes [''rbac:binding:manage'', ''org:update''])"
proof -
  let ?cs = "[''rbac:binding:manage'', ''org:update'']"
  have t: "\<forall>c \<in> set ?cs. trimSpace (snd (splitCode c)) = snd (splitCode c)"
    "trimSpace ''binding:read'' = ''binding:read''" "trimSpace ''create'' = ''create''" by code_simp+
  have "\<exists>c \<in> set ?cs. actionCovers (snd (splitCode c)) ''binding:read''"
    "\<not> (\<exists>c \<in> set ?cs. actionCovers (snd (splitCode c)) ''create'')" by code_simp+
  with coverage_matches_rule [OF t(1,2)] coverage_matches_rule [OF t(1,3)] show ?thesis by blast
qed

section \<open>The scope chain\<close>

definition scopeOf :: "store \<Rightarrow> scope \<Rightarrow> goErr + scope list" where
  "scopeOf st sc = (if sc_type sc \<noteq> ''global'' then resourceScopes st \<lparr> res_type = sc_type sc, res_id = sc_id sc \<rparr>
     else Inr [globalScope])"

lemma mkScope_sel [simp]: "sc_type (mkScope t i) = t" "sc_id (mkScope t i) = i"
  by (simp_all add: mkScope_def)

lemma globalScope_sel [simp]: "sc_type globalScope = ''global''" by (simp add: globalScope_def)

lemma scopeOf_global [simp]: "scopeOf st globalScope = Inr [globalScope]" by (simp add: scopeOf_def)

lemma scopeOf_mk [simp]:
  "scopeOf st (mkScope ''organization'' i) = organizationScopes st i"
  "scopeOf st (mkScope ''project'' i) = projectScopes st i"
  "scopeOf st (mkScope ''environment'' i) = environmentScopes st i"
  "scopeOf st (mkScope ''folder'' i) = folderScopes st i"
  by (simp_all add: scopeOf_def)

lemma liveOrg_id: "liveOrg st i = Some r \<Longrightarrow> r_id r = i" by (auto simp: liveOrg_def dest: findRow_Some)

lemma liveProject_eq:
  assumes "liveProject st i = Some (o', p)"
  shows "liveProject st (r_id p) = Some (o', p)" "liveOrg st (r_id o') = Some o'"
proof -
  have "r_id p = i" "liveOrg st (r_parent p) = Some o'" using liveProject_org [OF assms] findRow_Some by auto
  then show "liveProject st (r_id p) = Some (o', p)" "liveOrg st (r_id o') = Some o'"
    using assms liveOrg_id by auto
qed

lemma liveEnv_eq:
  assumes "liveEnv st i = Some (o', p, e)"
  shows "liveEnv st (r_id e) = Some (o', p, e)" "liveProject st (r_id p) = Some (o', p)" "liveOrg st (r_id o') = Some o'"
proof -
  note l = liveEnv_project [OF assms]
  then show "liveEnv st (r_id e) = Some (o', p, e)" using assms findRow_Some by auto
  show "liveProject st (r_id p) = Some (o', p)" "liveOrg st (r_id o') = Some o'"
    using liveProject_eq [OF conjunct1 [OF l]] by auto
qed

lemma schema_parent_row:
  assumes "schemaOk st" "f \<in> set (tbl st Folders)" "r_folder f = Some pf" "findRow Folders pf st = Some q"
  shows "r_parent q = r_parent f" "r_folder q = None"
proof -
  from assms(1,2) have "parentOk st f" by (auto simp: schemaOk_def list_all_iff)
  then obtain q' where q': "q' \<in> set (tbl st Folders)" "r_id q' = pf" "r_level q' = 1" "r_parent q' = r_parent f"
    using assms(3) by (auto simp: parentOk_def list_ex_iff)
  have q: "q \<in> set (tbl st Folders)" "r_id q = pf" using findRow_Some [OF assms(4)] by auto
  have t: "tableOk Folders (tbl st Folders)" using assms(1) by (simp add: schemaOk_def)
  then have "distinct (map r_id (tbl st Folders))" by (simp add: tableOk_def)
  with q q' have eq: "q' = q" by (metis distinct_map inj_onD)
  show "r_parent q = r_parent f" using q' eq by simp
  have "levelCheck q" using t q by (auto simp: tableOk_def list_all_iff checkOk_def)
  with q' eq show "r_folder q = None" by (auto simp: levelCheck_def)
qed

lemma folder_chain_down:
  assumes "schemaOk st" "liveFolder st i = Some c" "sc \<in> set (folderChain c)" "scopeOf st sc = Inr ss'"
  shows "set ss' \<subseteq> set (folderChain c)"
proof -
  obtain o' p e f where c: "c = (o', p, e, f)" by (cases c)
  note lf = assms(2) [unfolded c]
  have f: "findRow Folders i st = Some f" and le: "liveEnv st (r_parent f) = Some (o', p, e)"
    using liveFolder_env [OF lf] by auto
  have fi: "r_id f = i" and fm: "f \<in> set (tbl st Folders)" using findRow_Some [OF f] by auto
  have sub: "folderScopes st pf = Inr s2 \<Longrightarrow> r_folder f = Some pf \<Longrightarrow> pf \<noteq> [] \<Longrightarrow> set s2 \<subseteq> set (folderChain c)" for pf s2
  proof -
    assume a: "folderScopes st pf = Inr s2" "r_folder f = Some pf" "pf \<noteq> []"
    then obtain d where d: "liveFolder st pf = Some d" "s2 = folderChain d"
      by (auto simp: folderScopes_def split: option.splits)
    obtain o2 p2 e2 q where dd: "d = (o2, p2, e2, q)" by (cases d)
    from d dd have q: "findRow Folders pf st = Some q" "liveEnv st (r_parent q) = Some (o2, p2, e2)"
      using liveFolder_env by auto
    note pr = schema_parent_row [OF assms(1) fm a(2) q(1)]
    have "r_id q = pf" using findRow_Some [OF q(1)] by simp
    then show "set s2 \<subseteq> set (folderChain c)"
      using q(2) le pr a(2,3) d(2) by (simp add: dd c folderChain_def)
  qed
  note eqs = liveEnv_eq [OF le]
  from assms(3) consider "sc = globalScope" | "sc = mkScope ''organization'' (r_id o')" | "sc = mkScope ''project'' (r_id p)"
    | "sc = mkScope ''environment'' (r_id e)" | pf where "r_folder f = Some pf" "pf \<noteq> []" "sc = mkScope ''folder'' pf"
    | "sc = mkScope ''folder'' (r_id f)"
    by (cases "r_folder f") (auto simp: c folderChain_def split: if_splits)
  then show ?thesis
  proof cases
    case 1
    then have "ss' = [globalScope]" using assms(4) by simp
    then show ?thesis by (simp add: c folderChain_def)
  next
    case 2
    then have "ss' = [globalScope, mkScope ''organization'' (r_id o')]"
      using assms(4) eqs(3) by (simp add: organizationScopes_def)
    then show ?thesis by (simp add: c folderChain_def)
  next
    case 3
    then have "ss' = [globalScope, mkScope ''organization'' (r_id o'), mkScope ''project'' (r_id p)]"
      using assms(4) eqs(2) by (simp add: projectScopes_def)
    then show ?thesis by (simp add: c folderChain_def)
  next
    case 4
    then have "ss' = [globalScope, mkScope ''organization'' (r_id o'), mkScope ''project'' (r_id p), mkScope ''environment'' (r_id e)]"
      using assms(4) eqs(1) by (simp add: environmentScopes_def)
    then show ?thesis by (simp add: c folderChain_def)
  next
    case 5
    then show ?thesis using assms(4) sub by simp
  next
    case 6
    then show ?thesis using assms(4) lf fi by (simp add: folderScopes_def c)
  qed
qed

text \<open>The scopes of a member of a chain are in the chain.\<close>

lemma chain_down:
  assumes "schemaOk st" "resourceScopes st r = Inr ss" "sc \<in> set ss" "scopeOf st sc = Inr ss'"
  shows "set ss' \<subseteq> set ss"
proof -
  let ?t = "normalizeResourceType (res_type r)"
  note a2 = assms(2) [unfolded resourceScopes_def Let_def]
  consider "?t = ''global''" | "?t = ''organization''" | "?t = ''project''" | "?t = ''environment''" | "?t = ''folder''"
    | "?t = ''secret''" | "?t = ''env_template''"
    using a2 by (auto split: if_splits)
  then show ?thesis
  proof cases
    case 1
    with a2 assms(3,4) show ?thesis by auto
  next
    case 2
    with a2 assms(3,4) liveOrg_id show ?thesis
      by (auto simp: organizationScopes_def split: option.splits)
  next
    case 3
    with a2 obtain o' p where p: "liveProject st (res_id r) = Some (o', p)"
      "ss = [globalScope, mkScope ''organization'' (r_id o'), mkScope ''project'' (r_id p)]"
      by (auto simp: projectScopes_def split: option.splits)
    with assms(3,4) liveProject_eq [OF p(1)] show ?thesis by (auto simp: organizationScopes_def projectScopes_def)
  next
    case 4
    with a2 obtain o' p e where p: "liveEnv st (res_id r) = Some (o', p, e)"
      "ss = [globalScope, mkScope ''organization'' (r_id o'), mkScope ''project'' (r_id p), mkScope ''environment'' (r_id e)]"
      by (auto simp: environmentScopes_def split: option.splits)
    with assms(3,4) liveEnv_eq [OF p(1)] show ?thesis
      by (auto simp: organizationScopes_def projectScopes_def environmentScopes_def)
  next
    case 5
    with a2 obtain c where "liveFolder st (res_id r) = Some c" "ss = folderChain c"
      by (auto simp: folderScopes_def split: option.splits)
    with assms folder_chain_down show ?thesis by blast
  next
    case 6
    with a2 obtain i c where "liveFolder st i = Some c" "ss = folderChain c"
      by (auto simp: secretScopes_def split: option.splits)
    with assms folder_chain_down show ?thesis by blast
  next
    case 7
    with a2 obtain t where "findRow EnvironmentTemplates (res_id r) st = Some t"
      "ss = [globalScope, mkScope ''organization'' (r_parent t)]"
      by (auto simp: envTemplateScopes_def split: option.splits)
    with assms(3,4) liveOrg_id show ?thesis by (auto simp: organizationScopes_def split: option.splits)
  qed
qed


section \<open>Looking along the chain\<close>

lemma covers_mono: "covers ps req \<Longrightarrow> set ps \<subseteq> set qs \<Longrightarrow> covers qs req"
  by (auto simp: covers_def list_all_iff Let_def set_expandCoveredCodes ownActions_def)

lemma covers_mem: "covers ps req \<Longrightarrow> c \<in> set req \<Longrightarrow> covers ps [c]"
  by (simp add: covers_def list_all_iff)

lemma userPermissions_mono:
  assumes "set ss \<subseteq> set ss'" "userPermissions st i ss = Inr ps" "userPermissions st i ss' = Inr ps'"
  shows "set ps \<subseteq> set ps'"
  by (rule rbac.perms_mono [OF assms])

lemma callerCovers_eq:
  "codes \<noteq> [] \<Longrightarrow> callerCoversAtScope st u codes (sc_type sc) (sc_id sc) =
     bindE (scopeOf st sc) (\<lambda>ss. bindE (userPermissions st (ui_id u) ss) (\<lambda>ps. Inr (covers ps codes)))"
  by (auto simp: callerCoversAtScope_def effectivePermissions_def scopeOf_def bindE_def split: sum.splits)

lemma anyE_True: "anyE p xs = Inr True \<Longrightarrow> \<exists>x \<in> set xs. p x = Inr True"
  by (induction xs) (auto simp: bindE_Inr_iff split: if_splits)


lemma coverage_at_target:
  assumes "schemaOk st" "checkCallerParentCoverage st u codes stp sid = Inr ()" "codes \<noteq> []"
  obtains ss ps where "resourceScopes st (authzResource (trimSpace stp) sid) = Inr ss"
    "userPermissions st (ui_id u) ss = Inr ps" "covers ps codes"
proof -
  from assms(2,3) obtain ss where ss: "parentScopeChain st stp sid = Inr ss"
    and a: "anyE (\<lambda>sc. callerCoversAtScope st u codes (sc_type sc) (sc_id sc)) ss = Inr True"
    by (auto simp: checkCallerParentCoverage_def bindE_Inr_iff checkE_iff)
  from ss have r: "resourceScopes st (authzResource (trimSpace stp) sid) = Inr ss"
    by (simp add: parentScopeChain_def authzResource_def Let_def split: if_splits)
  from anyE_True [OF a] obtain sc where sc: "sc \<in> set ss" "callerCoversAtScope st u codes (sc_type sc) (sc_id sc) = Inr True" ..
  with callerCovers_eq [OF assms(3)] obtain ss' ps' where p: "scopeOf st sc = Inr ss'"
    "userPermissions st (ui_id u) ss' = Inr ps'" "covers ps' codes"
    by (auto simp: bindE_Inr_iff)
  obtain ps where ps: "userPermissions st (ui_id u) ss = Inr ps" using userPermissions_total by blast
  have "covers ps codes"
    by (rule covers_mono [OF p(3) userPermissions_mono [OF chain_down [OF assms(1) r sc(1) p(1)] p(2) ps]])
  with r ps show thesis by (rule that)
qed




section \<open>Grants\<close>

lemma role_lookups_agree:
  assumes "getRole st [] rc = Inr role" "roleIdByCodeTx rc st = Inr (rid, st)"
  shows "rv_permissions role = rolePermissionCodes st rid" "ro_id (rv_role role) = rid"
proof -
  let ?k = "\<lambda>r. if ro_system r then 0 else (1::nat)"
  have "findFirst (\<lambda>r. ro_code r = rc) (sort_key ?k (filter (\<lambda>r. \<not> ro_deleted r) (rolesT st))) =
      findFirst (\<lambda>r. ro_code r = rc \<and> \<not> ro_deleted r) (sort_key ?k (rolesT st))"
    by (simp add: findFirst_def filter_sort conj_commute)
  with assms show "rv_permissions role = rolePermissionCodes st rid" "ro_id (rv_role role) = rid"
    by (auto simp: getRole_def roleIdByCodeTx_def Let_def simp del: findFirst_None split: option.splits if_splits)
qed

lemma upsertUser_active:
  assumes "upsertUserByIdTx i n e st = Inr (uid, st1)" "uid \<in> u_id ` set (usersT st)"
  shows "userActive st1 uid = userActive st uid"
proof (cases "findUser (trimSpace i) st")
  case None
  then have "trimSpace i \<notin> u_id ` set (usersT st)" by (auto simp: findUser_def)
  with assms show ?thesis using upsertUser_effect [OF assms(1)] by metis
next
  case (Some u)
  let ?f = "\<lambda>x. if u_id x = trimSpace i
      then x\<lparr>u_name := keepNonEmpty n (u_name x), u_email := keepNonEmpty e (u_email x),
             u_lastSeenAt := Some (clock st)\<rparr> else x"
  from assms Some have *: "st1 = st\<lparr>usersT := map ?f (usersT st)\<rparr>"
    by (auto simp: upsertUserByIdTx_def Let_def translated_Inr split: if_splits)
  have "list_ex (\<lambda>u. u_id u = uid \<and> \<not> u_disabled u) (map ?f xs) =
          list_ex (\<lambda>u. u_id u = uid \<and> \<not> u_disabled u) xs" for xs
      by (induction xs) auto
  then show ?thesis by (simp add: * userActive_def)
qed

text \<open>What a grant adds: an access that is new comes from the new binding.\<close>

lemma grant_new_access:
  assumes "grantRole userId n e rc stp sid ex actor st = (Inr rb, st')"
    and "\<forall>b \<in> set (bindingsT st). b_user b \<in> u_id ` set (usersT st)"
    and "storeAllow st' v a r = Inr ()" "storeAllow st v a r \<noteq> Inr ()"
  obtains rid where "ui_id v = trimSpace userId" "roleIdByCodeTx rc st = Inr (rid, st)"
    "permissionCode a (res_type r) \<in> set (roleCodes st rid)"
proof -
  let ?c = "permissionCode a (res_type r)"
  obtain uid bid st1 l where g: "grantRoleTx userId n e rc stp sid ex actor st = Inr ((uid, bid), st1)"
    and st': "st' = st1\<lparr>labelsC := l\<rparr>" by (rule grantRole_effect [OF assms(1)])
  obtain st0 rid where up: "upsertUserByIdTx userId n e st = Inr (uid, st0)"
    and ro: "roleIdByCodeTx rc st = Inr (rid, st)"
    and cs: "activeBindingId st uid rid stp sid = Some bid \<and> st1 = st0 \<or>
     activeBindingId st uid rid stp sid = None \<and>
       (\<exists>i au. let b = mkBinding bid uid rid stp (nullif sid) actor ex (clock st) in
          bindingCheck b \<and> bid \<notin> set (map b_id (bindingsT st)) \<and>
          (b_scope b = None \<or> \<not> list_ex (\<lambda>x. \<not> b_deleted x \<and> sameBinding x b) (bindingsT st)) \<and>
          st1 = st0\<lparr>bindingsT := bindingsT st @ [b], ids := i, bindAuditT := au\<rparr>)"
    by (rule grantRoleTx_effect [OF g])
  obtain us where us: "uid = trimSpace userId" "st0 = st\<lparr>usersT := us\<rparr>"
    and act: "\<And>x. x \<noteq> uid \<Longrightarrow> userActive st0 x = userActive st x"
    using upsertUser_effect [OF up] by metis
  have same: "sameRbac st st'" and ua: "userActive st' = userActive st0"
    and bs: "set (bindingsT st') \<subseteq> set (bindingsT st) \<union> {mkBinding bid uid rid stp (nullif sid) actor ex (clock st)}"
    using cs us st' by (auto simp: sameRbac_def Let_def userActive_def fun_eq_iff)
  have rs: "resourceScopes st' = resourceScopes st" using same by (intro resourceScopes_cong) (simp_all add: sameRbac_def)
  have rc: "roleCodes st' = roleCodes st" using same by (intro roleCodes_cong) (simp_all add: sameRbac_def)
  from assms(3) obtain scopes b where b: "resourceScopes st r = Inr scopes" "b \<in> set (bindingsT st')"
    "grantsCode st' (ui_id v) ?c b" "\<exists>s \<in> set scopes. scopeCond s b"
    by (auto simp: storeAllow_iff rs)
  have new: "b = mkBinding bid uid rid stp (nullif sid) actor ex (clock st)"
  proof (rule ccontr)
    assume "b \<noteq> mkBinding bid uid rid stp (nullif sid) actor ex (clock st)"
    then have old: "b \<in> set (bindingsT st)" using bs b(2) by blast
    have u: "b_user b = ui_id v" using b(3) by (simp add: grantsCode_def)
    have "userActive st' (ui_id v) = userActive st (ui_id v)"
    proof (cases "ui_id v = uid")
      case True
      then have "uid \<in> u_id ` set (usersT st)" using assms(2) old u by force
      with upsertUser_active [OF up] ua True show ?thesis by simp
    qed (use act ua in simp)
    then have "grantsCode st (ui_id v) ?c b" using b(3) sameRbac_grants [OF same] by simp
    with old b(1,4) assms(3) have "storeAllow st v a r = Inr ()" by (auto simp: storeAllow_iff)
    with assms(4) show False by blast
  qed
  have "ui_id v = trimSpace userId" "?c \<in> set (roleCodes st rid)"
    using b(3) us(1) rc by (simp_all add: new grantsCode_def)
  then show thesis using ro by (intro that)
qed

text \<open>C5. A grant gives away nothing the granter lacks. If \<open>RBACService.GrantRole\<close> succeeds in a store that satisfies
  the schema and makes the authorizer allow something it refused before, then the one who gains is the target
  user, who is not the caller; the caller may manage bindings at the scope of the grant; and the action of the
  permission gained is covered by the actions of the permissions that the caller holds over the scope chain of
  the grant.\<close>

theorem grant_no_amplification:
  assumes "schemaOk st" "\<forall>b \<in> set (bindingsT st). b_user b \<in> u_id ` set (usersT st)"
    and "grantRoleS storeAllow u userId n e rc stp sid ex actor st = (Inr rb, st')"
    and "storeAllow st' v a r = Inr ()" "storeAllow st v a r \<noteq> Inr ()"
  shows "ui_id v = trimSpace userId \<and> ui_id v \<noteq> trimSpace (ui_id u) \<and>
    storeAllow st u ''rbac:binding:manage'' (authzResource stp sid) = Inr () \<and>
    (\<exists>ss ps. resourceScopes st (authzResource (trimSpace stp) sid) = Inr ss \<and>
       userPermissions st (ui_id u) ss = Inr ps \<and> covers ps [permissionCode a (res_type r)])"
proof -
  let ?c = "permissionCode a (res_type r)"
  from assms(3) have c: "grantCheck storeAllow u userId rc stp sid st = Inr ()"
    and g: "grantRole userId n e rc stp sid ex actor st = (Inr rb, st')"
    by (simp_all add: grantRoleS_def guarded_Inr)
  from c obtain role where self: "rejectSelfGrant u userId = Inr ()"
    and al: "storeAllow st u ''rbac:binding:manage'' (authzResource stp sid) = Inr ()"
    and role: "getRole st [] rc = Inr role"
    and cov: "checkCallerParentCoverage st u (rv_permissions role) stp sid = Inr ()"
    by (auto simp: grantCheck_def bindE_Inr_iff inTurn_iff)
  obtain rid where v: "ui_id v = trimSpace userId" and ro: "roleIdByCodeTx rc st = Inr (rid, st)"
    and code: "?c \<in> set (roleCodes st rid)"
    by (rule grant_new_access [OF g assms(2,4,5)])
  have m: "?c \<in> set (rv_permissions role)"
    using role_lookups_agree [OF role ro] code by (simp add: rolePermissionCodes_def)
  then have ne: "rv_permissions role \<noteq> []" by auto
  obtain ss ps where "resourceScopes st (authzResource (trimSpace stp) sid) = Inr ss"
    "userPermissions st (ui_id u) ss = Inr ps" "covers ps (rv_permissions role)"
    by (rule coverage_at_target [OF assms(1) cov ne])
  moreover have "trimSpace (ui_id u) \<noteq> trimSpace userId" using self by (auto simp: rejectSelfGrant_def split: if_splits)
  ultimately show ?thesis using v al m covers_mem by metis
qed

text \<open>Two tenants: \<open>al\<close> manages organization \<open>o\<close>, \<open>bo\<close> holds the custom role \<open>ops\<close> of organization \<open>q\<close>.\<close>

definition teamRole :: "str \<Rightarrow> str \<Rightarrow> str option \<Rightarrow> roleRow" where
  "teamRole i c own = \<lparr> ro_id = i, ro_code = c, ro_name = c, ro_description = [], ro_scopeType = ''organization'',
     ro_org = own, ro_project = None, ro_system = (own = None), ro_deleted = False \<rparr>"

definition teamStore :: store where
  "teamStore = emptyStore\<lparr>
     tbl := (\<lambda>_. [])(Organizations := [demoRow ''o'' [] ''org'' None 1, demoRow ''q'' [] ''other'' None 1],
       Projects := [demoRow ''p'' ''q'' ''prj'' None 1], Environments := [demoRow ''e'' ''p'' ''dev'' None 1],
       Folders := [demoRow ''f'' ''e'' ''pay'' None 1]),
     secretsT := [demoSecret ''s'' ''f'' ''K''],
     usersT := [demoUser ''al'' False, demoUser ''bo'' False, demoUser ''cy'' False],
     permsT := [demoPerm ''p1'' ''secret:read'', demoPerm ''p2'' ''secret:reveal'', demoPerm ''p3'' ''rbac:role:manage'',
       demoPerm ''p4'' ''rbac:binding:manage''],
     rolesT := [teamRole ''r1'' ''org_owner'' None, teamRole ''r2'' ''ops'' (Some ''q''), teamRole ''r3'' ''reader'' None],
     rolePermsT := [(''r1'', ''p1''), (''r1'', ''p2''), (''r1'', ''p3''), (''r1'', ''p4''), (''r2'', ''p1''), (''r3'', ''p1'')],
     bindingsT := [mkBinding ''b1'' ''al'' ''r1'' ''organization'' (Some ''o'') ''x'' None 1,
       mkBinding ''b2'' ''bo'' ''r2'' ''organization'' (Some ''q'') ''x'' None 1,
       mkBinding ''b3'' ''cy'' ''r1'' ''organization'' (Some ''o'') ''x'' (Some 5) 1],
     clock := 10, ids := [''n1'', ''n2'', ''n3'', ''n4'', ''n5'', ''n6'', ''n7'', ''n8'']\<rparr>"

theorem grant_no_amplification_witness:
  "\<exists>ps. userPermissions teamStore ''al'' [globalScope, mkScope ''organization'' ''o''] = Inr ps \<and>
     covers ps [''secret:read'']"
proof -
  let ?g = "grantRoleS storeAllow (demoUI ''al'') ''bo'' [] [] ''reader'' ''organization'' ''o'' None ''al'' teamStore"
  let ?r = "rsrc ''organization'' ''o''"
  have "is_ok (fst ?g)" by code_simp
  then obtain rb where g: "?g = (Inr rb, snd ?g)" by (cases ?g) (auto simp: is_ok_iff)
  have sch: "schemaOk teamStore" unfolding schemaOk_def by (rule conjI, code_simp)+ code_simp
  have fk: "\<forall>b \<in> set (bindingsT teamStore). b_user b \<in> u_id ` set (usersT teamStore)" by code_simp
  have h: "storeAllow (snd ?g) (demoUI ''bo'') ''secret:read'' ?r = Inr ()"
    "storeAllow teamStore (demoUI ''bo'') ''secret:read'' ?r \<noteq> Inr ()"
    "resourceScopes teamStore (authzResource (trimSpace ''organization'') ''o'') =
       Inr [globalScope, mkScope ''organization'' ''o'']"
    "ui_id (demoUI ''al'') = ''al''" "permissionCode ''secret:read'' (res_type ?r) = ''secret:read''"
    by code_simp+
  from grant_no_amplification [OF sch fk g h(1,2)] h(3-5) show ?thesis by auto
qed

section \<open>The last owner\<close>

lemma length_filter_view:
  "length (filter P (List.map_filter f xs)) = length (filter (\<lambda>x. \<exists>y. f x = Some y \<and> P y) xs)"
  by (induction xs) (auto simp: List.map_filter_simps split: option.splits)

lemma length_filter_page: "length (filter P (pageOf p xs)) \<le> length (filter P xs)"
proof -
  have "\<exists>a c. xs = a @ pageOf p xs @ c"
    unfolding pageOf_def Let_def sliceFrom_def by (metis append_take_drop_id)
  then obtain a c where "xs = a @ pageOf p xs @ c" by blast
  then have "filter P xs = filter P a @ filter P (pageOf p xs) @ filter P c" by (metis filter_append)
  then show ?thesis by simp
qed

lemma length_filter_sort: "length (filter P (sort_key f xs)) = length (filter P xs)"
  by (simp add: filter_sort)

text \<open>The bindings that the count of the owners can see.\<close>

definition ownerBinding :: "store \<Rightarrow> str \<Rightarrow> bindingRow \<Rightarrow> bool" where
  "ownerBinding st sid b \<longleftrightarrow> \<not> b_deleted b \<and> b_scopeType b = ''organization'' \<and> b_scope b = Some sid \<and>
     (\<exists>r \<in> set (rolesT st). ro_id r = b_role b \<and> ro_code r = ''org_owner'')"

lemma ownerCount_le:
  assumes "trimSpace sid \<noteq> []"
  shows "ownerCount st ''organization'' sid \<le> int (length (filter (ownerBinding st sid) (bindingsT st)))"
proof -
  let ?P = "\<lambda>b. rb_roleCode b = ''org_owner''"
  let ?c = "listCond [] [mkScope ''organization'' sid]"
  have c: "?c b \<longleftrightarrow> \<not> b_deleted b \<and> b_scopeType b = ''organization'' \<and> b_scope b = Some sid" for b
    using assms by (simp add: listCond_def scopeCond_def mkScope_def)
  have v: "(\<exists>y. bindingView st b = Some y \<and> ?P y) \<Longrightarrow> \<exists>r \<in> set (rolesT st). ro_id r = b_role b \<and> ro_code r = ''org_owner''" for b
    by (auto simp: bindingView_def split: option.splits dest: findFirst_Some)
  have "length (filter ?P (pg_items (listRoleBindingsAt st ''organization'' sid p))) \<le>
      length (filter (\<lambda>b. \<exists>y. bindingView st b = Some y \<and> ?P y) (filter ?c (bindingsT st)))" for p
    unfolding listRoleBindingsAt_def listRoleBindings_def queryRoleBindings_def paginate_def
    by (simp add: length_filter_view length_filter_sort order.trans [OF length_filter_page])
  also have "\<dots> \<le> length (filter (ownerBinding st sid) (bindingsT st))"
  proof -
    have "filter (\<lambda>b. \<exists>y. bindingView st b = Some y \<and> ?P y) (filter ?c (bindingsT st)) =
      filter (\<lambda>b. \<exists>y. bindingView st b = Some y \<and> ?P y) (filter ?c (filter (ownerBinding st sid) (bindingsT st)))"
      unfolding filter_filter by (rule filter_cong [OF refl]) (use v c in \<open>auto simp: ownerBinding_def\<close>)
    then show ?thesis by (simp only: order.trans [OF length_filter_le length_filter_le])
  qed
  finally show ?thesis by (simp add: ownerCount_def)
qed

text \<open>C25. The last owner binding is not revoked. If \<open>RBACService.RevokeRole\<close> takes the role \<open>org_owner\<close> of an
  organization from a user, then another binding of that role to that organization is left, not deleted.\<close>

theorem revoke_keeps_owner:
  assumes "bindingsOk st" "trimSpace sid \<noteq> []"
    and "revokeRoleS authz u userId ''org_owner'' ''organization'' sid actor st = (Inr x, st')"
  shows "\<exists>b \<in> set (bindingsT st'). ownerBinding st' sid b"
proof -
  from assms(3) have c: "revokeCheck authz u userId ''org_owner'' ''organization'' sid st = Inr ()"
    and r: "revokeRole userId ''org_owner'' ''organization'' sid actor st = (Inr x, st')"
    by (simp_all add: revokeRoleS_def guarded_Inr)
  from c have "ownerCount st ''organization'' sid \<ge> 2"
    by (auto simp: revokeCheck_def bindE_Inr_iff inTurn_iff checkLastOrgOwner_def checkE_iff)
  with ownerCount_le [OF assms(2), of st] have two: "length (filter (ownerBinding st sid) (bindingsT st)) \<ge> 2" by simp
  obtain b0 :: bindingRow and i au where st': "st' = st\<lparr>bindingsT := map (\<lambda>y. if b_id y = b_id b0 then y\<lparr>b_deleted := True\<rparr> else y) (bindingsT st),
              ids := i, bindAuditT := au\<rparr>"
    by (rule revokeRole_effect [OF r]) (erule that)
  have d: "distinct (map b_id (filter (ownerBinding st sid) (bindingsT st)))"
    using assms(1) by (simp add: bindingsOk_def distinct_map_filter)
  obtain b where b: "b \<in> set (bindingsT st)" "ownerBinding st sid b" "b_id b \<noteq> b_id b0"
  proof -
    obtain b1 b2 bs where l: "filter (ownerBinding st sid) (bindingsT st) = b1 # b2 # bs"
      using two by (metis One_nat_def Suc_1 Suc_le_length_iff)
    then have "b1 \<in> set (filter (ownerBinding st sid) (bindingsT st))" "b2 \<in> set (filter (ownerBinding st sid) (bindingsT st))"
      by simp_all
    then have m: "b1 \<in> set (bindingsT st)" "ownerBinding st sid b1" "b2 \<in> set (bindingsT st)" "ownerBinding st sid b2"
      by simp_all
    from d l have "b_id b1 \<noteq> b_id b2" by simp
    then have "b_id b1 \<noteq> b_id b0 \<or> b_id b2 \<noteq> b_id b0" by auto
    then show thesis
    proof
      assume "b_id b1 \<noteq> b_id b0"
      then show thesis by (rule that [OF m(1,2)])
    next
      assume "b_id b2 \<noteq> b_id b0"
      then show thesis by (rule that [OF m(3,4)])
    qed
  qed
  have "b \<in> set (bindingsT st')" using b(1,3) by (simp add: st' image_iff)
  moreover have "ownerBinding st' sid b" using b(2) by (simp add: ownerBinding_def st')
  ultimately show ?thesis by blast
qed

theorem revoke_keeps_owner_witness:
  "\<exists>b \<in> set (bindingsT (snd (revokeRoleS storeAllow (demoUI ''al'') ''cy'' ''org_owner'' ''organization'' ''o'' ''al'' teamStore))).
     ownerBinding (snd (revokeRoleS storeAllow (demoUI ''al'') ''cy'' ''org_owner'' ''organization'' ''o'' ''al'' teamStore)) ''o'' b"
proof -
  let ?g = "revokeRoleS storeAllow (demoUI ''al'') ''cy'' ''org_owner'' ''organization'' ''o'' ''al'' teamStore"
  have "is_ok (fst ?g)" by code_simp
  then obtain x where g: "?g = (Inr x, snd ?g)" by (cases ?g) (auto simp: is_ok_iff)
  have b: "bindingsOk teamStore" "trimSpace ''o'' \<noteq> []" by code_simp+
  show ?thesis by (rule revoke_keeps_owner [OF b g])
qed

text \<open>A world in which the organization has one active and one expired owner, and a platform administrator.\<close>

definition ownerStore :: store where
  "ownerStore = teamStore\<lparr>rolesT := rolesT teamStore @ [(teamRole ''r0'' ''platform_admin'' None)\<lparr>ro_scopeType := ''global''\<rparr>],
     rolePermsT := rolePermsT teamStore @ [(''r0'', ''p1''), (''r0'', ''p2''), (''r0'', ''p3''), (''r0'', ''p4'')],
     bindingsT := bindingsT teamStore @ [mkBinding ''b4'' ''bo'' ''r0'' ''global'' None ''x'' None 1]\<rparr>"

text \<open>The protection counts expired owners. In the world \<open>ownerStore\<close> organization \<open>o\<close> has the active owner \<open>al\<close>
  and the owner \<open>cy\<close>, whose binding has expired. The service lets a platform administrator revoke the ownership
  of \<open>al\<close>, after which no owner binding of \<open>o\<close> is active.\<close>

theorem last_active_owner_revoked:
  "list_ex (\<lambda>b. ownerBinding ownerStore ''o'' b \<and> bindingActive ownerStore b) (bindingsT ownerStore) \<and>
   (case revokeRoleS storeAllow (demoUI ''bo'') ''al'' ''org_owner'' ''organization'' ''o'' ''bo'' ownerStore of
      (res, st') \<Rightarrow> res = Inr () \<and>
        \<not> list_ex (\<lambda>b. ownerBinding st' ''o'' b \<and> bindingActive st' b) (bindingsT st'))"
  by (rule conjI; code_simp)

section \<open>Roles of other tenants\<close>

text \<open>UpdateRole does not look at whose role it changes. The service checks the caller against the scope in the
  request, the store changes the role with the given identifier whatever its owner. In the world
  \<open>teamStore\<close>, \<open>al\<close> may manage roles of organization \<open>o\<close> and nothing in \<open>q\<close>; yet he adds \<open>secret:reveal\<close> to the
  role \<open>ops\<close> that \<open>q\<close> owns, which from then on belongs to \<open>o\<close>, and \<open>bo\<close>, who holds it on \<open>q\<close>, may reveal
  the secrets of \<open>q\<close>.\<close>

theorem update_role_crosses_tenants:
  "map ro_org (filter (\<lambda>r. ro_id r = ''r2'') (rolesT teamStore)) = [Some ''q''] \<and>
   storeAllow teamStore (demoUI ''al'') ''rbac:role:manage'' (rsrc ''organization'' ''q'') = Inl ErrPermissionDenied \<and>
   storeAllow teamStore (demoUI ''bo'') ''secret:reveal'' (rsrc ''secret'' ''s'') = Inl ErrPermissionDenied \<and>
   (case updateRoleS storeAllow (demoUI ''al'') ''r2'' ''ops'' ''Ops'' [] ''organization'' ''o'' [''secret:read'', ''secret:reveal'']
      ''al'' teamStore of
      (res, st') \<Rightarrow> is_ok res \<and> map ro_org (filter (\<lambda>r. ro_id r = ''r2'') (rolesT st')) = [Some ''o''] \<and>
        storeAllow st' (demoUI ''bo'') ''secret:reveal'' (rsrc ''secret'' ''s'') = Inr ())"
  by (intro conjI; code_simp)

end
