(* ===== verification/Handlers.thy ===== *)
theory Handlers
  imports TreeService RbacService SecretBatch
begin

text \<open>
  The HTTP handlers of \<open>internal/http/controller\<close> for organizations, projects, environments, templates, folders
  and audit records, with their shared helpers (\<open>controller.go\<close>, \<open>resource_common.go\<close>, \<open>rbac_helpers.go\<close>) and
  \<open>internal/http/response\<close>.  These handlers call the repository directly, so the checks in front of it are
  theirs.  A handler is a function of the world and writes a list of replies: nothing in gin stops a second one.
  A request body that does not decode is \<open>None\<close>; the messages of replies and the log lines are left out.
\<close>

section \<open>Replies\<close>

text \<open>HTTP status, business code and data of \<open>response.Body\<close>.\<close>

datatype 'd reply = Reply (rp_status: nat) (rp_code: int) (rp_data: "'d option")

type_synonym 'd endpoint = "world \<Rightarrow> 'd reply list \<times> world"

definition codeSuccess :: int where "codeSuccess = 0"
definition codeFailure :: int where "codeFailure = -1"
definition codeStoreUnavailable :: int where "codeStoreUnavailable = 1001"
definition codeInvalidRequest :: int where "codeInvalidRequest = 1002"
definition codeForbidden :: int where "codeForbidden = 1403"
definition codeNotFound :: int where "codeNotFound = 1404"
definition codeConflict :: int where "codeConflict = 1409"
definition codeInternal :: int where "codeInternal = 1500"
definition codeServiceUnavailable :: int where "codeServiceUnavailable = 1503"

definition okR :: "'d \<Rightarrow> 'd reply" where "okR d = Reply 200 codeSuccess (Some d)"
definition failR' :: "nat \<Rightarrow> int \<Rightarrow> 'd reply" where "failR' status code = Reply status code None"
definition failWithMsg :: "'d reply" where "failWithMsg = Reply 200 codeFailure None"
definition badRequest :: "'d reply" where "badRequest = failR' 400 codeInvalidRequest"

text \<open>\<open>Controller.write\<close>.\<close>

definition writeR :: "goErr + 'd \<Rightarrow> 'd reply" where
  "writeR r = (case r of Inr d \<Rightarrow> okR d
     | Inl e \<Rightarrow> if e = ErrPermissionDenied then failR' 403 codeForbidden
         else if e = ErrNotFound then failR' 404 codeNotFound
         else if e = ErrConflict then failR' 409 codeConflict
         else failWithMsg)"

definition reply :: "'d reply \<Rightarrow> 'd endpoint" where "reply r w = ([r], w)"

text \<open>A guard is the reply that ends the request, or \<open>None\<close>.\<close>

definition guardH :: "(store \<Rightarrow> 'd reply option) \<Rightarrow> 'd endpoint \<Rightarrow> 'd endpoint" where
  "guardH g k w = (case g (w_st w) of Some r \<Rightarrow> ([r], w) | None \<Rightarrow> k w)"

definition checkH :: "bool \<Rightarrow> 'd reply \<Rightarrow> 'd endpoint \<Rightarrow> 'd endpoint" where
  "checkH ok r k = (if ok then k else reply r)"

section \<open>The controller\<close>

text \<open>\<open>ct_ready\<close>: repository and secret service are configured.\<close>

record controller =
  ct_ready :: bool
  ct_authz :: "(store \<Rightarrow> allowFn) option"
  ct_prefix :: str
  ct_secret :: secretService
  ct_tree :: "treeService option"
  ct_rbac :: "(store \<Rightarrow> allowFn) option"

definition bindReq :: "controller \<Rightarrow> 'r option \<Rightarrow> ('r \<Rightarrow> 'd endpoint) \<Rightarrow> 'd endpoint" where
  "bindReq ctl req k = (if \<not> ct_ready ctl then reply (failR' 503 codeStoreUnavailable)
     else case req of None \<Rightarrow> reply badRequest | Some r \<Rightarrow> k r)"

definition allowScope :: "controller \<Rightarrow> userInfo \<Rightarrow> str \<Rightarrow> str \<Rightarrow> str \<Rightarrow> store \<Rightarrow> 'd reply option" where
  "allowScope ctl u permission scopeType scopeId st = (case ct_authz ctl of
       None \<Rightarrow> Some (failR' 403 codeForbidden)
     | Some az \<Rightarrow> (let t = trimSpace scopeType; resourceType = (if t = [] then ''global'' else t) in
         case az st u permission \<lparr> res_type = resourceType, res_id = scopeId \<rparr> of
           Inr _ \<Rightarrow> None | Inl e \<Rightarrow> Some (writeR (Inl e))))"

definition actorH :: "userInfo \<Rightarrow> world \<Rightarrow> world" where
  "actorH u w = w\<lparr>w_st := cacheUserLabel (ui_id u) (ui_name u) (w_st w)\<rparr>"

text \<open>Cache operations whose failure is logged: each runs, whatever became of those before.\<close>

definition cacheAll :: "unit rd list \<Rightarrow> world \<Rightarrow> world" where
  "cacheAll ms w = w\<lparr>w_rd := map_option (\<lambda>r. fold (\<lambda>m r. snd (m r)) ms r) (w_rd w)\<rparr>"

definition cascadeOps :: "str \<Rightarrow> cascadeScope \<Rightarrow> unit rd list" where
  "cascadeOps pre c = (if cs_org c \<noteq> [] then [deleteOrg pre (cs_org c)] else []) @
     map (deleteProjectC pre) (cs_projects c) @ map (deleteEnvironmentC pre) (cs_envs c) @
     map (deleteFolderC pre) (cs_folders c)"

text \<open>A call of the repository with the actor's label cached first, the cache operations of a success, the reply.\<close>

definition repoCall :: "userInfo \<Rightarrow> (str \<Rightarrow> store \<Rightarrow> (goErr + 'a) \<times> store) \<Rightarrow> ('a \<Rightarrow> store \<Rightarrow> unit rd list) \<Rightarrow>
    ('a \<Rightarrow> 'd) \<Rightarrow> 'd endpoint" where
  "repoCall u op cacheOps proj w0 = (let w = actorH u w0 in
     case op (ui_id u) (w_st w) of
       (Inl e, st') \<Rightarrow> ([writeR (Inl e)], w\<lparr>w_st := st'\<rparr>)
     | (Inr x, st') \<Rightarrow> ([okR (proj x)], cacheAll (cacheOps x st') (w\<lparr>w_st := st'\<rparr>)))"

definition readReply :: "(store \<Rightarrow> goErr + 'd) \<Rightarrow> 'd endpoint" where
  "readReply f w = ([writeR (f (w_st w))], w)"

section \<open>Requests\<close>

record createEntityRequest =
  ce_parent :: str
  ce_code :: str
  ce_name :: str
  ce_comment :: str
  ce_envs :: "envSpec list"

record idOrCodeRequest =
  ic_parent :: str
  ic_id :: str
  ic_code :: str

record updateByIdOrCodeRequest =
  ub_parent :: str
  ub_id :: str
  ub_code :: str
  ub_name :: str
  ub_comment :: str

record listRequest =
  lr_page :: pagination
  lr_orgId :: str
  lr_projectId :: str
  lr_envId :: str
  lr_folderId :: str
  lr_folderParentId :: str
  lr_resourceType :: str
  lr_resourceId :: str
  lr_keyword :: str
  lr_includeSubfolders :: bool

definition validateCode :: "str \<Rightarrow> bool" where "validateCode code = codePattern code"

definition validateIdOrCode :: "str \<Rightarrow> str \<Rightarrow> bool" where
  "validateIdOrCode i code \<longleftrightarrow> \<not> (i = [] \<and> code = [])"

text \<open>\<open>resolveIdOrCode\<close>, with the look-up by code that follows it: the id wins over the code.\<close>

definition resolveId :: "str \<Rightarrow> goErr + entity \<Rightarrow> goErr + str" where
  "resolveId i byCode = (if i \<noteq> [] then Inr i else bindE byCode (\<lambda>x. Inr (e_id x)))"

section \<open>Pages\<close>

record 'd pageResp =
  pr_pageNum :: int
  pr_pageSize :: int
  pr_total :: nat
  pr_list :: "'d list"

definition paginationFromRequest :: "pagination \<Rightarrow> pagination" where
  "paginationFromRequest p = normalize p"

definition pageData :: "'d paginated \<Rightarrow> pagination \<Rightarrow> 'd pageResp" where
  "pageData res p = (let q = normalize p in
     if pg_items res = [] then \<lparr> pr_pageNum = 0, pr_pageSize = 0, pr_total = pg_total res, pr_list = [] \<rparr>
     else \<lparr> pr_pageNum = pageNum q, pr_pageSize = pageSize q, pr_total = pg_total res, pr_list = pg_items res \<rparr>)"

section \<open>The common shapes of the handlers\<close>

definition getBy :: "controller \<Rightarrow> userInfo \<Rightarrow> str \<Rightarrow> str \<Rightarrow> (store \<Rightarrow> str \<Rightarrow> goErr + entity) \<Rightarrow>
    (store \<Rightarrow> str \<Rightarrow> str \<Rightarrow> goErr + entity) \<Rightarrow> idOrCodeRequest option \<Rightarrow> entity endpoint" where
  "getBy ctl u permission rtype byId byCode req = bindReq ctl req (\<lambda>r.
     checkH (validateIdOrCode (ic_id r) (ic_code r)) badRequest (\<lambda>w.
     case (if ic_id r \<noteq> [] then byId (w_st w) (ic_id r) else byCode (w_st w) (ic_parent r) (ic_code r)) of
       Inl e \<Rightarrow> ([writeR (Inl e)], w)
     | Inr item \<Rightarrow> guardH (allowScope ctl u permission rtype (if ic_id r \<noteq> [] then ic_id r else e_id item))
         (reply (okR item)) w))"

definition updateBy :: "controller \<Rightarrow> userInfo \<Rightarrow> str \<Rightarrow> str \<Rightarrow> (store \<Rightarrow> str \<Rightarrow> str \<Rightarrow> goErr + entity) \<Rightarrow> tab \<Rightarrow>
    (entity \<Rightarrow> store \<Rightarrow> unit rd list) \<Rightarrow> updateByIdOrCodeRequest option \<Rightarrow> entity endpoint" where
  "updateBy ctl u permission rtype byCode t cacheOps req = bindReq ctl req (\<lambda>r.
     checkH (validateIdOrCode (ub_id r) (ub_code r)) badRequest (\<lambda>w.
     case resolveId (ub_id r) (byCode (w_st w) (ub_parent r) (ub_code r)) of
       Inl e \<Rightarrow> ([writeR (Inl e)], w)
     | Inr rid \<Rightarrow> guardH (allowScope ctl u permission rtype rid)
         (repoCall u (\<lambda>actor. updateEntity t rid (ub_name r) (ub_comment r) actor rtype) cacheOps id) w))"

definition deleteBy :: "controller \<Rightarrow> userInfo \<Rightarrow> (str \<times> str) list \<Rightarrow> (store \<Rightarrow> str \<Rightarrow> str \<Rightarrow> goErr + entity) \<Rightarrow>
    (str \<Rightarrow> str \<Rightarrow> store \<Rightarrow> (goErr + cascadeScope) \<times> store) \<Rightarrow> idOrCodeRequest option \<Rightarrow> unit endpoint" where
  "deleteBy ctl u permissions byCode del req = bindReq ctl req (\<lambda>r.
     checkH (validateIdOrCode (ic_id r) (ic_code r)) badRequest (\<lambda>w.
     case resolveId (ic_id r) (byCode (w_st w) (ic_parent r) (ic_code r)) of
       Inl e \<Rightarrow> ([writeR (Inl e)], w)
     | Inr rid \<Rightarrow> foldr (\<lambda>(permission, rtype). guardH (allowScope ctl u permission rtype rid)) permissions
         (repoCall u (del rid) (\<lambda>c _. cascadeOps (ct_prefix ctl) c) (\<lambda>_. ())) w))"

section \<open>Organizations\<close>

definition createOrganizationH :: "controller \<Rightarrow> userInfo \<Rightarrow> createEntityRequest option \<Rightarrow> entity endpoint" where
  "createOrganizationH ctl u req = bindReq ctl req (\<lambda>r.
     checkH (validateCode (ce_code r)) badRequest (
     guardH (allowScope ctl u ''org:create'' ''global'' []) (
     repoCall u (\<lambda>actor. createOrganization (ce_code r) (ce_name r) (ce_comment r) actor)
       (\<lambda>x _. [upsertOrg (ct_prefix ctl) x]) id)))"

definition listOrganizationsH :: "controller \<Rightarrow> userInfo \<Rightarrow> pagination option \<Rightarrow> entity pageResp endpoint" where
  "listOrganizationsH ctl u req = bindReq ctl req (\<lambda>p. let q = paginationFromRequest p in
     readReply (\<lambda>st. Inr (pageData (listOrganizations st (ui_id u) q) q)))"

definition getOrganizationH :: "controller \<Rightarrow> userInfo \<Rightarrow> idOrCodeRequest option \<Rightarrow> entity endpoint" where
  "getOrganizationH ctl u = getBy ctl u ''org:read'' ''organization''
     (\<lambda>st. getEntity st Organizations) (\<lambda>st _. getEntityByCode st Organizations)"

definition updateOrganizationH :: "controller \<Rightarrow> userInfo \<Rightarrow> updateByIdOrCodeRequest option \<Rightarrow> entity endpoint" where
  "updateOrganizationH ctl u = updateBy ctl u ''org:update'' ''organization''
     (\<lambda>st _. getEntityByCode st Organizations) Organizations (\<lambda>x _. [upsertOrg (ct_prefix ctl) x])"

definition deleteOrganizationH :: "controller \<Rightarrow> userInfo \<Rightarrow> bool \<Rightarrow> idOrCodeRequest option \<Rightarrow> unit endpoint" where
  "deleteOrganizationH ctl u force = deleteBy ctl u
     ((''org:delete'', ''organization'') # (if force then [(''org:force_delete'', ''organization'')] else []))
     (\<lambda>st _. getEntityByCode st Organizations) (\<lambda>i actor. deleteOrganization i actor force)"

section \<open>Projects\<close>

definition createProjectH :: "controller \<Rightarrow> userInfo \<Rightarrow> createEntityRequest option \<Rightarrow> entity endpoint" where
  "createProjectH ctl u req = bindReq ctl req (\<lambda>r.
     checkH (validateCode (ce_code r)) badRequest (
     guardH (allowScope ctl u ''project:create'' ''organization'' (ce_parent r)) (
     checkH (list_all (\<lambda>e. validateCode (es_code e)) (ce_envs r)) badRequest (
     repoCall u (\<lambda>actor. createProject (ce_parent r) (ce_code r) (ce_name r) (ce_comment r) actor (ce_envs r))
       (\<lambda>x _. [upsertProject (ct_prefix ctl) x]) id))))"

definition listProjectsH :: "controller \<Rightarrow> userInfo \<Rightarrow> listRequest option \<Rightarrow> entity pageResp endpoint" where
  "listProjectsH ctl u req = bindReq ctl req (\<lambda>r. checkH (lr_orgId r \<noteq> []) badRequest (
     let q = paginationFromRequest (lr_page r) in
     readReply (\<lambda>st. Inr (pageData (listProjects st (ui_id u) (lr_orgId r) q) q))))"

definition getProjectH :: "controller \<Rightarrow> userInfo \<Rightarrow> idOrCodeRequest option \<Rightarrow> entity endpoint" where
  "getProjectH ctl u = getBy ctl u ''project:read'' ''project''
     (\<lambda>st. getEntity st Projects) (\<lambda>st. getEntityByCodeWithParent st Projects)"

definition updateProjectH :: "controller \<Rightarrow> userInfo \<Rightarrow> updateByIdOrCodeRequest option \<Rightarrow> entity endpoint" where
  "updateProjectH ctl u = updateBy ctl u ''project:update'' ''project''
     (\<lambda>st. getEntityByCodeWithParent st Projects) Projects (\<lambda>x _. [upsertProject (ct_prefix ctl) x])"

definition deleteProjectH :: "controller \<Rightarrow> userInfo \<Rightarrow> idOrCodeRequest option \<Rightarrow> unit endpoint" where
  "deleteProjectH ctl u = deleteBy ctl u [(''project:delete'', ''project'')]
     (\<lambda>st. getEntityByCodeWithParent st Projects) deleteProject"

section \<open>Environments and templates\<close>

definition createEnvironmentH :: "controller \<Rightarrow> userInfo \<Rightarrow> createEntityRequest option \<Rightarrow> entity endpoint" where
  "createEnvironmentH ctl u req = bindReq ctl req (\<lambda>r.
     checkH (validateCode (ce_code r)) badRequest (
     guardH (allowScope ctl u ''env:create'' ''project'' (ce_parent r)) (
     repoCall u (\<lambda>actor. createEnvironment (ce_parent r) (ce_code r) (ce_name r) (ce_comment r) actor)
       (\<lambda>x _. [upsertEnvironment (ct_prefix ctl) x]) id)))"

definition listEnvironmentsH :: "controller \<Rightarrow> userInfo \<Rightarrow> listRequest option \<Rightarrow> entity pageResp endpoint" where
  "listEnvironmentsH ctl u req = bindReq ctl req (\<lambda>r. checkH (lr_projectId r \<noteq> []) badRequest (
     let q = paginationFromRequest (lr_page r) in
     readReply (\<lambda>st. Inr (pageData (listEnvironments st (ui_id u) (lr_projectId r) q) q))))"

definition getEnvironmentH :: "controller \<Rightarrow> userInfo \<Rightarrow> idOrCodeRequest option \<Rightarrow> entity endpoint" where
  "getEnvironmentH ctl u = getBy ctl u ''env:read'' ''environment''
     (\<lambda>st. getEntity st Environments) (\<lambda>st. getEntityByCodeWithParent st Environments)"

definition updateEnvironmentH :: "controller \<Rightarrow> userInfo \<Rightarrow> updateByIdOrCodeRequest option \<Rightarrow> entity endpoint" where
  "updateEnvironmentH ctl u = updateBy ctl u ''env:update'' ''environment''
     (\<lambda>st. getEntityByCodeWithParent st Environments) Environments (\<lambda>x _. [upsertEnvironment (ct_prefix ctl) x])"

definition deleteEnvironmentH :: "controller \<Rightarrow> userInfo \<Rightarrow> idOrCodeRequest option \<Rightarrow> unit endpoint" where
  "deleteEnvironmentH ctl u = deleteBy ctl u [(''env:delete'', ''environment'')]
     (\<lambda>st. getEntityByCodeWithParent st Environments) deleteEnvironment"

definition listEnvironmentTemplatesH :: "controller \<Rightarrow> userInfo \<Rightarrow> listRequest option \<Rightarrow> entity pageResp endpoint" where
  "listEnvironmentTemplatesH ctl u req = bindReq ctl req (\<lambda>r. checkH (lr_orgId r \<noteq> []) badRequest (
     let q = paginationFromRequest (lr_page r) in
     readReply (\<lambda>st. Inr (pageData (listEnvironmentTemplates st (ui_id u) (lr_orgId r) q) q))))"

definition getEnvironmentTemplateH :: "controller \<Rightarrow> userInfo \<Rightarrow> idOrCodeRequest option \<Rightarrow> entity endpoint" where
  "getEnvironmentTemplateH ctl u = getBy ctl u ''env:template:read'' ''env_template''
     getEnvironmentTemplate getEnvironmentTemplateByCode"

section \<open>Folders\<close>

record createFolderRequest =
  cf_level :: int
  cf_code :: str
  cf_name :: str
  cf_comment :: str
  cf_parentCode :: str
  cf_envList :: "str list"

definition isHex :: "char \<Rightarrow> bool" where
  "isHex c = (c \<in> set ''0123456789abcdefABCDEF'')"

definition uuidPattern :: "str \<Rightarrow> bool" where
  "uuidPattern s = (let ps = splitOn CHR ''-'' s in
     map length ps = [8, 4, 4, 4, 12] \<and> list_all isHex (concat ps))"

definition validateEnvIdsForCreate :: "str list \<Rightarrow> bool" where
  "validateEnvIdsForCreate envIds = list_all uuidPattern envIds"

text \<open>The cache operation for a folder: none if its context is gone.\<close>

definition folderCacheOps :: "str \<Rightarrow> entity \<Rightarrow> str \<Rightarrow> store \<Rightarrow> unit rd list" where
  "folderCacheOps pre item i st = (case getFolderContext st i of Inl _ \<Rightarrow> []
     | Inr (envId, projectId, parentId, level) \<Rightarrow> [upsertFolder pre item envId projectId parentId level])"

definition createFolderBatch :: "controller \<Rightarrow> userInfo \<Rightarrow> createFolderRequest \<Rightarrow> entity list endpoint" where
  "createFolderBatch ctl u r = repoCall u (\<lambda>actor.
       if cf_level r = 1 then createTopLevelFoldersInEnvs (cf_code r) (cf_name r) (cf_comment r) actor (cf_envList r)
       else createFoldersAcrossEnvs (cf_parentCode r) (cf_code r) (cf_name r) (cf_comment r) actor (cf_envList r))
     (\<lambda>created st. concat (map (\<lambda>x. folderCacheOps (ct_prefix ctl) x (e_id x) st) created)) id"

definition createFolderH :: "controller \<Rightarrow> userInfo \<Rightarrow> createFolderRequest option \<Rightarrow> entity list endpoint" where
  "createFolderH ctl u req = bindReq ctl req (\<lambda>r.
     checkH (validateCode (cf_code r)) badRequest (
     checkH (cf_level r = 1 \<or> cf_level r = 2) badRequest (
     checkH (length (cf_envList r) \<noteq> 0) failWithMsg (
     checkH (validateEnvIdsForCreate (cf_envList r)) badRequest (
     checkH (\<not> (cf_level r = 2 \<and> trimSpace (cf_parentCode r) = [])) badRequest (
     createFolderBatch ctl u r))))))"

definition listFoldersByProjectH :: "controller \<Rightarrow> userInfo \<Rightarrow> str option \<Rightarrow> folderGroup list endpoint" where
  "listFoldersByProjectH ctl u req = bindReq ctl req (\<lambda>projectId.
     checkH (trimSpace projectId \<noteq> []) badRequest (
     checkH (uuidPattern projectId) badRequest (\<lambda>w.
     case ct_tree ctl of None \<Rightarrow> reply (failR' 503 codeServiceUnavailable) w
     | Some svc \<Rightarrow> (case getProjectFolderTree svc u projectId w of (r, w') \<Rightarrow> ([writeR r], w')))))"

definition validateListFolders :: "listRequest \<Rightarrow> bool" where
  "validateListFolders r = (let envId = trimSpace (lr_envId r); parentId = trimSpace (lr_folderParentId r) in
     \<not> (envId = [] \<and> parentId = []) \<and> \<not> (envId \<noteq> [] \<and> parentId \<noteq> []))"

definition validateListFoldersIncludeSubfolders :: "listRequest \<Rightarrow> bool" where
  "validateListFoldersIncludeSubfolders r \<longleftrightarrow> \<not> lr_includeSubfolders r \<or> trimSpace (lr_envId r) \<noteq> []"

text \<open>A folder with its sub-folders; \<open>None\<close> where the reply has no \<open>subfolders\<close> field.\<close>

definition listFoldersH :: "controller \<Rightarrow> userInfo \<Rightarrow> listRequest option \<Rightarrow> (entity \<times> entity list option) pageResp endpoint" where
  "listFoldersH ctl u req = bindReq ctl req (\<lambda>r.
     checkH (validateListFolders r) badRequest (
     checkH (validateListFoldersIncludeSubfolders r) badRequest (
     let envId = trimSpace (lr_envId r); parentId = trimSpace (lr_folderParentId r);
         q = paginationFromRequest (lr_page r) in
     readReply (\<lambda>st. bindE (if parentId \<noteq> [] then bindE (getFolderEnvId st parentId) (\<lambda>_. Inr ()) else Inr ()) (\<lambda>_.
       bindE (listFolders st (ui_id u) envId parentId q) (\<lambda>res.
       let children = (if lr_includeSubfolders r then listFolderChildren st (ui_id u) (map e_id (pg_items res)) else []);
           sub = (\<lambda>x. if lr_includeSubfolders r
             then Some (case map_of children (e_id x) of None \<Rightarrow> [] | Some cs \<Rightarrow> cs) else None)
       in Inr (pageData \<lparr> pg_items = map (\<lambda>x. (x, sub x)) (pg_items res), pg_total = pg_total res \<rparr> q)))))))"

definition getFolderH :: "controller \<Rightarrow> userInfo \<Rightarrow> idOrCodeRequest option \<Rightarrow> entity endpoint" where
  "getFolderH ctl u = getBy ctl u ''folder:read'' ''folder''
     (\<lambda>st. getEntity st Folders) (\<lambda>st. getEntityByCodeWithParent st Folders)"

definition updateFolderH :: "controller \<Rightarrow> userInfo \<Rightarrow> updateByIdOrCodeRequest option \<Rightarrow> entity endpoint" where
  "updateFolderH ctl u = updateBy ctl u ''folder:update'' ''folder''
     (\<lambda>st. getEntityByCodeWithParent st Folders) Folders
     (\<lambda>x st. folderCacheOps (ct_prefix ctl) x (e_id x) st)"

definition deleteFolderH :: "controller \<Rightarrow> userInfo \<Rightarrow> idOrCodeRequest option \<Rightarrow> unit endpoint" where
  "deleteFolderH ctl u = deleteBy ctl u [(''folder:delete'', ''folder'')]
     (\<lambda>st. getEntityByCodeWithParent st Folders) deleteFolder"

section \<open>Batch update of folders\<close>

record batchUpdateFolderRequest =
  bf_idList :: "str list"
  bf_code :: str
  bf_name :: str
  bf_comment :: str

text \<open>The code that all folders have to have: the one in the request, or that of the first folder.\<close>

definition expectedCode :: "str \<Rightarrow> entity list \<Rightarrow> str" where
  "expectedCode reqCode infos = (let c = trimSpace reqCode in
     if c \<noteq> [] then c else case infos of [] \<Rightarrow> [] | x # _ \<Rightarrow> e_code x)"

text \<open>The updates run one transaction each; the first error ends the request and leaves those before.\<close>

fun updateFoldersInTurn :: "str \<Rightarrow> str \<Rightarrow> str \<Rightarrow> str list \<Rightarrow> store \<Rightarrow> (goErr + entity list) \<times> store" where
  "updateFoldersInTurn name comment actor [] st = (Inr [], st)"
| "updateFoldersInTurn name comment actor (i # is) st =
     (case updateEntity Folders i name comment actor ''folder'' st of
        (Inl e, st') \<Rightarrow> (Inl e, st')
      | (Inr x, st') \<Rightarrow> (case updateFoldersInTurn name comment actor is st' of
          (Inl e, st'') \<Rightarrow> (Inl e, st'') | (Inr xs, st'') \<Rightarrow> (Inr (x # xs), st'')))"

definition allowEach :: "(store \<Rightarrow> allowFn) option \<Rightarrow> userInfo \<Rightarrow> entity list \<Rightarrow> store \<Rightarrow> 'd reply option" where
  "allowEach authz u infos st = (case authz of None \<Rightarrow> Some (failR' 500 codeInternal)
     | Some az \<Rightarrow> (case mapE (\<lambda>x. az st u ''folder:update'' \<lparr> res_type = ''folder'', res_id = e_id x \<rparr>) infos of
         Inr _ \<Rightarrow> None | Inl e \<Rightarrow> Some (writeR (Inl e))))"

definition batchUpdateFoldersH :: "controller \<Rightarrow> userInfo \<Rightarrow> batchUpdateFolderRequest option \<Rightarrow> entity list endpoint" where
  "batchUpdateFoldersH ctl u req = bindReq ctl req (\<lambda>r.
     checkH (length (bf_idList r) \<noteq> 0) failWithMsg (
     checkH (\<not> length (bf_idList r) > 100) badRequest (
     checkH (list_all uuidPattern (bf_idList r)) badRequest (
     let ids = dedupe (filter (\<lambda>i. i \<noteq> []) (map trimSpace (bf_idList r))) in
     checkH (length ids \<noteq> 0) failWithMsg (\<lambda>w0. let w = actorH u w0 in
     case mapE (getEntity (w_st w) Folders) ids of
       Inl e \<Rightarrow> ([writeR (Inl e)], w)
     | Inr infos \<Rightarrow>
         checkH (list_all (\<lambda>x. e_code x = expectedCode (bf_code r) infos) infos) failWithMsg (
         guardH (allowEach (ct_authz ctl) u infos) (
         repoCall u (\<lambda>actor. updateFoldersInTurn (bf_name r) (bf_comment r) actor ids)
           (\<lambda>updated st. concat (map (\<lambda>x. folderCacheOps (ct_prefix ctl) x (e_id x) st) updated)) id)) w)))))"

section \<open>Audit records and the tree\<close>

definition listAuditRecordsH :: "controller \<Rightarrow> userInfo \<Rightarrow> listRequest option \<Rightarrow> auditRow pageResp endpoint" where
  "listAuditRecordsH ctl u req = bindReq ctl req (\<lambda>r.
     let t = trimSpace (lr_resourceType r); i = trimSpace (lr_resourceId r);
         (scopeType, scopeId) = (if t = [] \<or> i = [] then (''global'', []) else (t, i));
         q = paginationFromRequest (lr_page r) in
     guardH (allowScope ctl u ''audit:read'' scopeType scopeId) (
     readReply (\<lambda>st. Inr (pageData (listAuditRecords st (lr_resourceType r) (lr_resourceId r) q) q))))"

definition getResourceTreeH :: "controller \<Rightarrow> userInfo \<Rightarrow> treeRequest option \<Rightarrow> resourceTree endpoint" where
  "getResourceTreeH ctl u req = bindReq ctl req (\<lambda>r w. case ct_tree ctl of
       None \<Rightarrow> reply (failR' 503 codeServiceUnavailable) w
     | Some svc \<Rightarrow> (case getTree svc u r w of (res, w') \<Rightarrow> ([writeR res], w')))"

end
