(* ===== verification/HandlerProps.thy ===== *)
theory HandlerProps
  imports Handlers RbacProps
begin

text \<open>
  The checks of the entity handlers: a call changes the hierarchy only if the authorizer allows what the route
  needs, with one exception, the creation of folders.
\<close>

section \<open>Calls\<close>

datatype entityCall =
    CreateOrg createEntityRequest | UpdateOrg updateByIdOrCodeRequest | DeleteOrg bool idOrCodeRequest
  | CreateProject createEntityRequest | UpdateProject updateByIdOrCodeRequest | DeleteProject idOrCodeRequest
  | CreateEnv createEntityRequest | UpdateEnv updateByIdOrCodeRequest | DeleteEnv idOrCodeRequest
  | CreateFolder createFolderRequest | UpdateFolder updateByIdOrCodeRequest | DeleteFolder idOrCodeRequest
  | BatchUpdateFolders batchUpdateFolderRequest

text \<open>The world after a call with a request that decodes.\<close>

fun perform :: "controller \<Rightarrow> userInfo \<Rightarrow> entityCall \<Rightarrow> world \<Rightarrow> world" where
  "perform ctl u (CreateOrg r) w = snd (createOrganizationH ctl u (Some r) w)"
| "perform ctl u (UpdateOrg r) w = snd (updateOrganizationH ctl u (Some r) w)"
| "perform ctl u (DeleteOrg force r) w = snd (deleteOrganizationH ctl u force (Some r) w)"
| "perform ctl u (CreateProject r) w = snd (createProjectH ctl u (Some r) w)"
| "perform ctl u (UpdateProject r) w = snd (updateProjectH ctl u (Some r) w)"
| "perform ctl u (DeleteProject r) w = snd (deleteProjectH ctl u (Some r) w)"
| "perform ctl u (CreateEnv r) w = snd (createEnvironmentH ctl u (Some r) w)"
| "perform ctl u (UpdateEnv r) w = snd (updateEnvironmentH ctl u (Some r) w)"
| "perform ctl u (DeleteEnv r) w = snd (deleteEnvironmentH ctl u (Some r) w)"
| "perform ctl u (CreateFolder r) w = snd (createFolderH ctl u (Some r) w)"
| "perform ctl u (UpdateFolder r) w = snd (updateFolderH ctl u (Some r) w)"
| "perform ctl u (DeleteFolder r) w = snd (deleteFolderH ctl u (Some r) w)"
| "perform ctl u (BatchUpdateFolders r) w = snd (batchUpdateFoldersH ctl u (Some r) w)"

text \<open>The row that a request by id or by code is about.\<close>

definition target :: "str \<Rightarrow> goErr + entity \<Rightarrow> str" where
  "target i byCode = (case resolveId i byCode of Inl _ \<Rightarrow> [] | Inr rid \<Rightarrow> rid)"

text \<open>The permissions that a call has to have: code, resource type and resource id.\<close>

fun required :: "store \<Rightarrow> entityCall \<Rightarrow> (str \<times> str \<times> str) list" where
  "required st (CreateOrg r) = [(''org:create'', ''global'', [])]"
| "required st (UpdateOrg r) = [(''org:update'', ''organization'',
     target (ub_id r) (getEntityByCode st Organizations (ub_code r)))]"
| "required st (DeleteOrg force r) = (let i = target (ic_id r) (getEntityByCode st Organizations (ic_code r)) in
     (''org:delete'', ''organization'', i) # (if force then [(''org:force_delete'', ''organization'', i)] else []))"
| "required st (CreateProject r) = [(''project:create'', ''organization'', ce_parent r)]"
| "required st (UpdateProject r) = [(''project:update'', ''project'',
     target (ub_id r) (getEntityByCodeWithParent st Projects (ub_parent r) (ub_code r)))]"
| "required st (DeleteProject r) = [(''project:delete'', ''project'',
     target (ic_id r) (getEntityByCodeWithParent st Projects (ic_parent r) (ic_code r)))]"
| "required st (CreateEnv r) = [(''env:create'', ''project'', ce_parent r)]"
| "required st (UpdateEnv r) = [(''env:update'', ''environment'',
     target (ub_id r) (getEntityByCodeWithParent st Environments (ub_parent r) (ub_code r)))]"
| "required st (DeleteEnv r) = [(''env:delete'', ''environment'',
     target (ic_id r) (getEntityByCodeWithParent st Environments (ic_parent r) (ic_code r)))]"
| "required st (CreateFolder r) = []"
| "required st (UpdateFolder r) = [(''folder:update'', ''folder'',
     target (ub_id r) (getEntityByCodeWithParent st Folders (ub_parent r) (ub_code r)))]"
| "required st (DeleteFolder r) = [(''folder:delete'', ''folder'',
     target (ic_id r) (getEntityByCodeWithParent st Folders (ic_parent r) (ic_code r)))]"
| "required st (BatchUpdateFolders r) = map (\<lambda>i. (''folder:update'', ''folder'', i)) (bf_idList r)"

section \<open>What a guard lets through\<close>

definition sameData :: "world \<Rightarrow> world \<Rightarrow> bool" where
  "sameData w w' \<longleftrightarrow> tbl (w_st w') = tbl (w_st w) \<and> secretsT (w_st w') = secretsT (w_st w)"

lemma sameData_refl [simp]: "sameData w w" by (simp add: sameData_def)

lemma reply_state [simp]: "snd (reply r w) = w" by (simp add: reply_def)

lemma actorH_data [simp]: "sameData w (actorH u w)"
  using cacheUserLabel_frame [of "ui_id u" "ui_name u" "w_st w"] by (auto simp: sameData_def actorH_def)

lemma storeAllow_labels: "storeAllow (w_st (actorH u w)) = storeAllow (w_st w)"
proof -
  obtain l where "cacheUserLabel (ui_id u) (ui_name u) (w_st w) = (w_st w)\<lparr>labelsC := l\<rparr>" using cacheUserLabel_frame by blast
  then have e: "w_st (actorH u w) = (w_st w)\<lparr>labelsC := l\<rparr>" by (simp add: actorH_def)
  have r: "resourceScopes ((w_st w)\<lparr>labelsC := l\<rparr>) = resourceScopes (w_st w)" by (rule resourceScopes_cong) simp_all
  have c: "roleCodes ((w_st w)\<lparr>labelsC := l\<rparr>) = roleCodes (w_st w)" by (rule roleCodes_cong) simp_all
  have v: "roleLive ((w_st w)\<lparr>labelsC := l\<rparr>) = roleLive (w_st w)" by (rule roleLive_cong) simp_all
  have "userPermissions ((w_st w)\<lparr>labelsC := l\<rparr>) = userPermissions (w_st w)"
    by (rule ext)+ (simp add: userPermissions_def userPermissionsQuery_def userActive_def bindingActive_def c v cong: option.case_cong)
  then show ?thesis by (simp add: e storeAllow_def r)
qed

lemma uuid_nonempty: "uuidPattern i \<Longrightarrow> i \<noteq> []" by (auto simp: uuidPattern_def)

lemma uuid_chars:
  assumes "uuidPattern i" "c \<in> set i"
  shows "isHex c \<or> c = CHR ''-''"
proof -
  have "set (joinWith CHR ''-'' ps) \<subseteq> insert CHR ''-'' (set (concat ps))" for ps
    by (induction "CHR ''-''" ps rule: joinWith.induct) auto
  with joinWith_splitOn [of "CHR ''-''" i] assms(2)
  have "c = CHR ''-'' \<or> c \<in> set (concat (splitOn CHR ''-'' i))" by (metis insertE subsetD)
  with assms(1) show ?thesis by (auto simp: uuidPattern_def Let_def list_all_iff)
qed

lemma uuid_trimmed: "uuidPattern i \<Longrightarrow> trimSpace i = i"
proof (rule trimSpace_nospace, rule ballI)
  fix c
  assume "uuidPattern i" "c \<in> set i"
  then have "isHex c \<or> c = CHR ''-''" by (rule uuid_chars)
  moreover have "isHex d \<Longrightarrow> \<not> isSpace d" for d by (auto simp: isHex_def isSpace_def)
  moreover have "\<not> isSpace CHR ''-''" by code_simp
  ultimately show "\<not> isSpace c" by auto
qed

text \<open>A call that changes the data has passed its guards.\<close>

lemma bindReq_passed:
  assumes "\<not> sameData w (snd (bindReq ctl (Some r) k w))"
  shows "\<not> sameData w (snd (k r w))"
  using assms by (auto simp: bindReq_def split: if_splits)

lemma checkH_passed:
  assumes "\<not> sameData w (snd (checkH b r k w))"
  shows "\<not> sameData w (snd (k w))"
  using assms by (auto simp: checkH_def split: if_splits)

lemma guardH_passed:
  assumes "\<not> sameData w (snd (guardH g k w))"
  shows "g (w_st w) = None" "\<not> sameData w (snd (k w))"
  using assms by (auto simp: guardH_def split: option.splits)

lemma allowScope_None:
  assumes "ct_authz ctl = Some storeAllow" "allowScope ctl u p t i st = None" "trimSpace t = t" "t \<noteq> []"
  shows "storeAllow st u p \<lparr> res_type = t, res_id = i \<rparr> = Inr ()"
  using assms by (auto simp: allowScope_def Let_def split: sum.splits)

lemma updateBy_passed:
  assumes "\<not> sameData w (snd (updateBy ctl u p t byCode tb ops (Some r) w))" "ct_authz ctl = Some storeAllow"
    and "trimSpace t = t" "t \<noteq> []"
  shows "storeAllow (w_st w) u p \<lparr> res_type = t, res_id = target (ub_id r) (byCode (w_st w) (ub_parent r) (ub_code r)) \<rparr> = Inr ()"
proof (cases "resolveId (ub_id r) (byCode (w_st w) (ub_parent r) (ub_code r))")
  case (Inl e)
  with checkH_passed [OF bindReq_passed [OF assms(1) [unfolded updateBy_def]]] show ?thesis by simp
next
  case (Inr rid)
  with checkH_passed [OF bindReq_passed [OF assms(1) [unfolded updateBy_def]]]
  have "\<not> sameData w (snd (guardH (allowScope ctl u p t rid) (repoCall u (\<lambda>actor. updateEntity tb rid (ub_name r) (ub_comment r)
      actor t) ops id) w))" by simp
  from allowScope_None [OF assms(2) guardH_passed(1) [OF this] assms(3,4)] Inr show ?thesis by (simp add: target_def)
qed

lemma deleteBy_passed:
  assumes "\<not> sameData w (snd (deleteBy ctl u ps byCode del (Some r) w))" "ct_authz ctl = Some storeAllow"
    and "\<forall>(p, t) \<in> set ps. trimSpace t = t \<and> t \<noteq> []"
  shows "\<forall>(p, t) \<in> set ps. storeAllow (w_st w) u p
    \<lparr> res_type = t, res_id = target (ic_id r) (byCode (w_st w) (ic_parent r) (ic_code r)) \<rparr> = Inr ()"
proof (cases "resolveId (ic_id r) (byCode (w_st w) (ic_parent r) (ic_code r))")
  case (Inl e)
  with checkH_passed [OF bindReq_passed [OF assms(1) [unfolded deleteBy_def]]] show ?thesis by simp
next
  case (Inr rid)
  let ?k = "repoCall u (del rid) (\<lambda>c _. cascadeOps (ct_prefix ctl) c) (\<lambda>_. ())"
  have all: "\<forall>(p, t) \<in> set ps. allowScope ctl u p t rid (w_st w) = (None :: unit reply option)"
    if "\<not> sameData w (snd (foldr (\<lambda>(p, t). guardH (allowScope ctl u p t rid)) ps ?k w))" for ps
    using that
  proof (induction ps)
    case (Cons pt ps)
    obtain p t where pt: "pt = (p, t)" by (cases pt)
    note g = guardH_passed [OF Cons.prems [unfolded pt foldr.simps comp_apply prod.case]]
    from Cons.IH [OF g(2)] g(1) show ?case by (simp add: pt)
  qed simp
  from Inr checkH_passed [OF bindReq_passed [OF assms(1) [unfolded deleteBy_def]]]
  have "\<not> sameData w (snd (foldr (\<lambda>(p, t). guardH (allowScope ctl u p t rid)) ps ?k w))" by simp
  note a = all [OF this]
  show ?thesis
  proof (intro ballI, clarify)
    fix p t
    assume m: "(p, t) \<in> set ps"
    have "allowScope ctl u p t rid (w_st w) = (None :: unit reply option)" using bspec [OF a m] by simp
    moreover have "trimSpace t = t" "t \<noteq> []" using bspec [OF assms(3) m] by simp_all
    ultimately show "storeAllow (w_st w) u p
      \<lparr> res_type = t, res_id = target (ic_id r) (byCode (w_st w) (ic_parent r) (ic_code r)) \<rparr> = Inr ()"
      using allowScope_None [OF assms(2)] Inr by (simp add: target_def)
  qed
qed

lemma create_passed:
  assumes "\<not> sameData w (snd (guardH (allowScope ctl u p t i) k w))" "ct_authz ctl = Some storeAllow"
    and "trimSpace t = t" "t \<noteq> []"
  shows "storeAllow (w_st w) u p \<lparr> res_type = t, res_id = i \<rparr> = Inr ()"
  by (rule allowScope_None [OF assms(2) guardH_passed(1) [OF assms(1)] assms(3,4)])


lemma batchUpdate_passed:
  assumes "\<not> sameData w (snd (batchUpdateFoldersH ctl u (Some r) w))" "ct_authz ctl = Some storeAllow"
    and "i \<in> set (bf_idList r)"
  shows "storeAllow (w_st w) u ''folder:update'' \<lparr> res_type = ''folder'', res_id = i \<rparr> = Inr ()"
proof -
  let ?w = "actorH u w"
  let ?ids = "dedupe (filter (\<lambda>i. i \<noteq> []) (map trimSpace (bf_idList r)))"
  let ?k = "\<lambda>infos. checkH (list_all (\<lambda>x. e_code x = expectedCode (bf_code r) infos) infos) failWithMsg (
         guardH (allowEach (ct_authz ctl) u infos) (
         repoCall u (\<lambda>actor. updateFoldersInTurn (bf_name r) (bf_comment r) actor ?ids)
           (\<lambda>updated st. concat (map (\<lambda>x. folderCacheOps (ct_prefix ctl) x (e_id x) st) updated)) id))"
  note a1 = checkH_passed [OF checkH_passed [OF bindReq_passed [OF assms(1) [unfolded batchUpdateFoldersH_def]]]]
  have uu: "list_all uuidPattern (bf_idList r)"
    using a1 by (auto simp: checkH_def split: if_splits)
  note a2 = checkH_passed [OF checkH_passed [OF a1, unfolded Let_def]]
  obtain infos where infos: "mapE (getEntity (w_st ?w) Folders) ?ids = Inr infos" "\<not> sameData w (snd (?k infos ?w))"
    using a2 actorH_data by (auto split: sum.splits)
  have same: "sameData w x \<longleftrightarrow> sameData ?w x" for x using actorH_data [of w u] by (simp add: sameData_def)
  have g: "allowEach (ct_authz ctl) u infos (w_st ?w) = (None :: entity list reply option)"
    using guardH_passed(1) [OF checkH_passed [OF infos(2) [unfolded same]]] .
  have "uuidPattern i" using uu assms(3) by (simp add: list_all_iff)
  then have t: "trimSpace i = i" "i \<noteq> []" by (simp_all add: uuid_trimmed uuid_nonempty)
  then have "i \<in> set ?ids" using assms(3) by force
  then obtain x where x: "x \<in> set infos" "getEntity (w_st ?w) Folders i = Inr x"
    using mapE_Inr_all [OF infos(1)] by blast
  then have ei: "e_id x = i"
    by (auto simp: getEntity_def readEntity_def fillEntityLabels_def scanEntity_def split: option.splits dest: findRow_Some)
  from g assms(2) x(1) have "storeAllow (w_st ?w) u ''folder:update'' \<lparr> res_type = ''folder'', res_id = e_id x \<rparr> = Inr ()"
    by (auto simp: allowEach_def mapE_Inr_iff list_all2_conv_all_nth in_set_conv_nth split: sum.splits)
  then show ?thesis by (simp add: ei storeAllow_labels)
qed

section \<open>The properties\<close>

lemma required_types:
  "trimSpace ''organization'' = ''organization''" "trimSpace ''project'' = ''project''"
  "trimSpace ''environment'' = ''environment''" "trimSpace ''folder'' = ''folder''" "trimSpace ''global'' = ''global''"
  by code_simp+

text \<open>The permissions of each call, by the kind of the call.\<close>

definition permitted :: "controller \<Rightarrow> userInfo \<Rightarrow> entityCall \<Rightarrow> world \<Rightarrow> bool" where
  "permitted ctl u call w \<longleftrightarrow> sameData w (perform ctl u call w) \<or>
     (\<forall>(p, t, i) \<in> set (required (w_st w) call). storeAllow (w_st w) u p \<lparr> res_type = t, res_id = i \<rparr> = Inr ())"

lemma permittedI:
  assumes "\<And>p t i. \<not> sameData w (perform ctl u call w) \<Longrightarrow> (p, t, i) \<in> set (required (w_st w) call) \<Longrightarrow>
    storeAllow (w_st w) u p \<lparr> res_type = t, res_id = i \<rparr> = Inr ()"
  shows "permitted ctl u call w"
  using assms unfolding permitted_def by blast

lemma creates_permitted:
  assumes "ct_authz ctl = Some storeAllow"
  shows "permitted ctl u (CreateOrg r1) w"
    "permitted ctl u (CreateProject r2) w"
    "permitted ctl u (CreateEnv r3) w"
proof (rule_tac [!] permittedI)
  fix p t i assume c: "\<not> sameData w (perform ctl u (CreateOrg r1) w)" and m: "(p, t, i) \<in> set (required (w_st w) (CreateOrg r1))"
  from c have "\<not> sameData w (snd (createOrganizationH ctl u (Some r1) w))" by simp
  from create_passed [OF checkH_passed [OF bindReq_passed [OF this [unfolded createOrganizationH_def]]] assms]
  show "storeAllow (w_st w) u p \<lparr> res_type = t, res_id = i \<rparr> = Inr ()" using m by (simp add: required_types)
next
  fix p t i assume c: "\<not> sameData w (perform ctl u (CreateProject r2) w)" and m: "(p, t, i) \<in> set (required (w_st w) (CreateProject r2))"
  from c have "\<not> sameData w (snd (createProjectH ctl u (Some r2) w))" by simp
  from create_passed [OF checkH_passed [OF bindReq_passed [OF this [unfolded createProjectH_def]]] assms]
  show "storeAllow (w_st w) u p \<lparr> res_type = t, res_id = i \<rparr> = Inr ()" using m by (simp add: required_types)
next
  fix p t i assume c: "\<not> sameData w (perform ctl u (CreateEnv r3) w)" and m: "(p, t, i) \<in> set (required (w_st w) (CreateEnv r3))"
  from c have "\<not> sameData w (snd (createEnvironmentH ctl u (Some r3) w))" by simp
  from create_passed [OF checkH_passed [OF bindReq_passed [OF this [unfolded createEnvironmentH_def]]] assms]
  show "storeAllow (w_st w) u p \<lparr> res_type = t, res_id = i \<rparr> = Inr ()" using m by (simp add: required_types)
qed

lemma updates_permitted:
  assumes "ct_authz ctl = Some storeAllow"
  shows "permitted ctl u (UpdateOrg r1) w"
    "permitted ctl u (UpdateProject r2) w"
    "permitted ctl u (UpdateEnv r3) w"
    "permitted ctl u (UpdateFolder r4) w"
proof (rule_tac [!] permittedI)
  fix p t i assume c: "\<not> sameData w (perform ctl u (UpdateOrg r1) w)" and m: "(p, t, i) \<in> set (required (w_st w) (UpdateOrg r1))"
  from c have "\<not> sameData w (snd (updateOrganizationH ctl u (Some r1) w))" by simp
  from updateBy_passed [OF this [unfolded updateOrganizationH_def] assms]
  show "storeAllow (w_st w) u p \<lparr> res_type = t, res_id = i \<rparr> = Inr ()" using m by (simp add: required_types)
next
  fix p t i assume c: "\<not> sameData w (perform ctl u (UpdateProject r2) w)" and m: "(p, t, i) \<in> set (required (w_st w) (UpdateProject r2))"
  from c have "\<not> sameData w (snd (updateProjectH ctl u (Some r2) w))" by simp
  from updateBy_passed [OF this [unfolded updateProjectH_def] assms]
  show "storeAllow (w_st w) u p \<lparr> res_type = t, res_id = i \<rparr> = Inr ()" using m by (simp add: required_types)
next
  fix p t i assume c: "\<not> sameData w (perform ctl u (UpdateEnv r3) w)" and m: "(p, t, i) \<in> set (required (w_st w) (UpdateEnv r3))"
  from c have "\<not> sameData w (snd (updateEnvironmentH ctl u (Some r3) w))" by simp
  from updateBy_passed [OF this [unfolded updateEnvironmentH_def] assms]
  show "storeAllow (w_st w) u p \<lparr> res_type = t, res_id = i \<rparr> = Inr ()" using m by (simp add: required_types)
next
  fix p t i assume c: "\<not> sameData w (perform ctl u (UpdateFolder r4) w)" and m: "(p, t, i) \<in> set (required (w_st w) (UpdateFolder r4))"
  from c have "\<not> sameData w (snd (updateFolderH ctl u (Some r4) w))" by simp
  from updateBy_passed [OF this [unfolded updateFolderH_def] assms]
  show "storeAllow (w_st w) u p \<lparr> res_type = t, res_id = i \<rparr> = Inr ()" using m by (simp add: required_types)
qed

lemma deletes_permitted:
  assumes "ct_authz ctl = Some storeAllow"
  shows "permitted ctl u (DeleteProject r1) w"
    "permitted ctl u (DeleteEnv r2) w"
    "permitted ctl u (DeleteFolder r3) w"
proof (rule_tac [!] permittedI)
  fix p t i assume c: "\<not> sameData w (perform ctl u (DeleteProject r1) w)" and m: "(p, t, i) \<in> set (required (w_st w) (DeleteProject r1))"
  from c have "\<not> sameData w (snd (deleteProjectH ctl u (Some r1) w))" by simp
  from deleteBy_passed [OF this [unfolded deleteProjectH_def] assms]
  show "storeAllow (w_st w) u p \<lparr> res_type = t, res_id = i \<rparr> = Inr ()" using m by (simp add: required_types)
next
  fix p t i assume c: "\<not> sameData w (perform ctl u (DeleteEnv r2) w)" and m: "(p, t, i) \<in> set (required (w_st w) (DeleteEnv r2))"
  from c have "\<not> sameData w (snd (deleteEnvironmentH ctl u (Some r2) w))" by simp
  from deleteBy_passed [OF this [unfolded deleteEnvironmentH_def] assms]
  show "storeAllow (w_st w) u p \<lparr> res_type = t, res_id = i \<rparr> = Inr ()" using m by (simp add: required_types)
next
  fix p t i assume c: "\<not> sameData w (perform ctl u (DeleteFolder r3) w)" and m: "(p, t, i) \<in> set (required (w_st w) (DeleteFolder r3))"
  from c have "\<not> sameData w (snd (deleteFolderH ctl u (Some r3) w))" by simp
  from deleteBy_passed [OF this [unfolded deleteFolderH_def] assms]
  show "storeAllow (w_st w) u p \<lparr> res_type = t, res_id = i \<rparr> = Inr ()" using m by (simp add: required_types)
qed

lemma deleteOrg_permitted:
  assumes "ct_authz ctl = Some storeAllow"
  shows "permitted ctl u (DeleteOrg force r) w"
proof (rule permittedI)
  fix p t i assume c: "\<not> sameData w (perform ctl u (DeleteOrg force r) w)" and m: "(p, t, i) \<in> set (required (w_st w) (DeleteOrg force r))"
  from c have "\<not> sameData w (snd (deleteOrganizationH ctl u force (Some r) w))" by simp
  from deleteBy_passed [OF this [unfolded deleteOrganizationH_def] assms]
  show "storeAllow (w_st w) u p \<lparr> res_type = t, res_id = i \<rparr> = Inr ()"
    using m by (auto simp: required_types Let_def split: if_splits)
qed

lemma batch_permitted:
  assumes "ct_authz ctl = Some storeAllow"
  shows "permitted ctl u (BatchUpdateFolders r) w"
proof (rule permittedI)
  fix p t i assume c: "\<not> sameData w (perform ctl u (BatchUpdateFolders r) w)" and m: "(p, t, i) \<in> set (required (w_st w) (BatchUpdateFolders r))"
  from c have "\<not> sameData w (snd (batchUpdateFoldersH ctl u (Some r) w))" by simp
  from batchUpdate_passed [OF this assms] show "storeAllow (w_st w) u p \<lparr> res_type = t, res_id = i \<rparr> = Inr ()" using m by auto
qed

lemmas calls_permitted = creates_permitted updates_permitted deletes_permitted deleteOrg_permitted batch_permitted

text \<open>C12. No change without permission, except for new folders. Whatever entity call is made (create, update or
  delete of an organization, project or environment, update, batch update or deletion of folders), if it changes
  the hierarchy or the secrets at all, then the authorizer allows the caller every permission that the call needs:
  the action of its kind on the resource it names by id or by code, on each folder of a batch, and also
  \<open>org:force_delete\<close> for a forced deletion.\<close>

theorem entity_calls_authorized:
  assumes "ct_authz ctl = Some storeAllow" "\<forall>r. call \<noteq> CreateFolder r"
    and "\<not> sameData w (perform ctl u call w)" "(p, t, i) \<in> set (required (w_st w) call)"
  shows "storeAllow (w_st w) u p \<lparr> res_type = t, res_id = i \<rparr> = Inr ()"
proof -
  have "permitted ctl u call w"
    using assms(2) by (cases call) (simp_all add: calls_permitted [OF assms(1)])
  with assms(3,4) show ?thesis by (auto simp: permitted_def)
qed

text \<open>\<open>al\<close> may delete project \<open>p\<close>.\<close>

definition handlerStore :: store where
  "handlerStore = demoStore\<lparr>permsT := [demoPerm ''p1'' ''project:delete'']\<rparr>"

definition handlerWorld :: world where
  "handlerWorld = \<lparr> w_st = handlerStore, w_rd = None, w_rand = [] \<rparr>"

definition demoCtl :: controller where
  "demoCtl = \<lparr> ct_ready = True, ct_authz = Some storeAllow, ct_prefix = ''ev'',
     ct_secret = \<lparr> ss_prefix = ''ev'', ss_enc = None, ss_authz = storeAllow \<rparr>, ct_tree = None, ct_rbac = Some storeAllow \<rparr>"

definition byCodeReq :: "str \<Rightarrow> str \<Rightarrow> idOrCodeRequest" where
  "byCodeReq parent code = \<lparr> ic_parent = parent, ic_id = [], ic_code = code \<rparr>"

theorem entity_calls_authorized_witness:
  "storeAllow handlerStore (demoUI ''al'') ''project:delete'' \<lparr> res_type = ''project'', res_id = ''p'' \<rparr> = Inr ()"
proof -
  let ?c = "DeleteProject (byCodeReq ''o'' ''prj'')"
  have "findRow Projects ''p'' (w_st handlerWorld) \<noteq> None"
    "findRow Projects ''p'' (w_st (perform demoCtl (demoUI ''al'') ?c handlerWorld)) = None" by code_simp+
  then have ch: "\<not> sameData handlerWorld (perform demoCtl (demoUI ''al'') ?c handlerWorld)"
    by (auto simp: sameData_def findRow_def)
  have h: "\<forall>r. ?c \<noteq> CreateFolder r" by simp
  have m: "(''project:delete'', ''project'', ''p'') \<in> set (required (w_st handlerWorld) ?c)" by code_simp
  have a: "ct_authz demoCtl = Some storeAllow" by (simp add: demoCtl_def)
  from entity_calls_authorized [OF a h ch m] show ?thesis by (simp add: handlerWorld_def)
qed

definition demoFolderReq :: createFolderRequest where
  "demoFolderReq = \<lparr> cf_level = 1, cf_code = ''new'', cf_name = ''New'', cf_comment = [], cf_parentCode = [],
     cf_envList = [''0000000a-000a-000a-000a-00000000000a''] \<rparr>"

definition openWorld :: world where
  "openWorld = \<lparr> w_st = demoStore\<lparr>tbl := (tbl demoStore)(Environments :=
     [demoRow ''0000000a-000a-000a-000a-00000000000a'' ''p'' ''dev'' None 1])\<rparr>, w_rd = None, w_rand = [] \<rparr>"

text \<open>Anyone can create folders. The route \<open>/folder/create\<close> never consults the authorizer: its replies and its
  effect are the same whatever the authorizer says, even without one. In the world \<open>openWorld\<close> a user without any
  binding, to whom the authorizer refuses \<open>folder:create\<close> on the environment, creates a folder in it.\<close>

theorem create_folder_unchecked:
  "createFolderH (ctl\<lparr>ct_authz := a\<rparr>) u req w = createFolderH ctl u req w \<and>
   storeAllow (w_st openWorld) (demoUI ''zoe'') ''folder:create''
     \<lparr> res_type = ''environment'', res_id = ''0000000a-000a-000a-000a-00000000000a'' \<rparr> = Inl ErrPermissionDenied \<and>
   (case createFolderH demoCtl (demoUI ''zoe'') (Some demoFolderReq) openWorld of (rs, w') \<Rightarrow>
      map rp_status rs = [200] \<and> length (tbl (w_st w') Folders) = Suc (length (tbl (w_st openWorld) Folders)))"
proof (intro conjI)
  show "createFolderH (ctl\<lparr>ct_authz := a\<rparr>) u req w = createFolderH ctl u req w"
    by (simp add: createFolderH_def createFolderBatch_def bindReq_def)
  show "storeAllow (w_st openWorld) (demoUI ''zoe'') ''folder:create''
     \<lparr> res_type = ''environment'', res_id = ''0000000a-000a-000a-000a-00000000000a'' \<rparr> = Inl ErrPermissionDenied" by code_simp
  show "case createFolderH demoCtl (demoUI ''zoe'') (Some demoFolderReq) openWorld of (rs, w') \<Rightarrow>
      map rp_status rs = [200] \<and> length (tbl (w_st w') Folders) = Suc (length (tbl (w_st openWorld) Folders))" by code_simp
qed

end
