(* ===== verification/ApiHandlers.thy ===== *)
theory ApiHandlers
  imports Handlers
begin

text \<open>
  The HTTP handlers in front of the services: secrets (\<open>resource_secret.go\<close>, \<open>resource_secret_batch.go\<close>), the
  global search (\<open>search.go\<close>) and RBAC (\<open>rbac_*.go\<close>).  They validate the request, take the actor from the
  context and hand over to the service, which holds the checks; the global search filters the hits itself.
\<close>

section \<open>Calling a service\<close>

definition serviceCall :: "'d handler \<Rightarrow> 'd endpoint" where
  "serviceCall m w = (case m w of (r, w') \<Rightarrow> ([writeR r], w'))"

text \<open>With the actor's label cached while the arguments are evaluated.\<close>

definition actorCall :: "userInfo \<Rightarrow> (str \<Rightarrow> 'd handler) \<Rightarrow> 'd endpoint" where
  "actorCall u m w = serviceCall (m (ui_id u)) (actorH u w)"

definition validateSecretKey :: "str \<Rightarrow> bool" where "validateSecretKey key = keyPattern key"

section \<open>Secrets\<close>

record secretRequest =
  sq_id :: str
  sq_folderId :: str
  sq_key :: str
  sq_value :: str
  sq_comment :: str

definition createSecretH :: "controller \<Rightarrow> userInfo \<Rightarrow> secretRequest option \<Rightarrow> secret endpoint" where
  "createSecretH ctl u req = bindReq ctl req (\<lambda>r. checkH (validateSecretKey (sq_key r)) badRequest (
     actorCall u (create (ct_secret ctl) u (sq_folderId r) (sq_key r) (sq_value r) (sq_comment r))))"

definition updateSecretH :: "controller \<Rightarrow> userInfo \<Rightarrow> secretRequest option \<Rightarrow> secret endpoint" where
  "updateSecretH ctl u req = bindReq ctl req (\<lambda>r. checkH (validateSecretKey (sq_key r)) badRequest (
     actorCall u (update (ct_secret ctl) u (sq_id r) (sq_key r) (sq_value r) (sq_comment r))))"

definition revealSecretH :: "controller \<Rightarrow> userInfo \<Rightarrow> str option \<Rightarrow> secret endpoint" where
  "revealSecretH ctl u req = bindReq ctl req (\<lambda>i. actorCall u (reveal (ct_secret ctl) u i))"

definition getSecretH :: "controller \<Rightarrow> userInfo \<Rightarrow> str option \<Rightarrow> secret endpoint" where
  "getSecretH ctl u req = bindReq ctl req (\<lambda>i. serviceCall (get (ct_secret ctl) u i))"

text \<open>\<open>validateListSecrets\<close> and \<open>validateSearchSecrets\<close> trim a copy of the request, which the handler does not use.\<close>

definition filterOf :: "listRequest \<Rightarrow> listFilter" where
  "filterOf r = \<lparr> lf_env = lr_envId r, lf_folder = lr_folderId r, lf_project = lr_projectId r, lf_keyword = lr_keyword r \<rparr>"

definition pageCall :: "'d paginated handler \<Rightarrow> pagination \<Rightarrow> 'd pageResp endpoint" where
  "pageCall m q = serviceCall (bindS m (\<lambda>res. retS (pageData res q)))"

definition listSecretsH :: "controller \<Rightarrow> userInfo \<Rightarrow> listRequest option \<Rightarrow> secret pageResp endpoint" where
  "listSecretsH ctl u req = bindReq ctl req (\<lambda>r. let q = paginationFromRequest (lr_page r) in
     pageCall (listS (ct_secret ctl) u (filterOf r) q) q)"

definition searchSecretsH :: "controller \<Rightarrow> userInfo \<Rightarrow> listRequest option \<Rightarrow> searchItem pageResp endpoint" where
  "searchSecretsH ctl u req = bindReq ctl req (\<lambda>r. let q = paginationFromRequest (lr_page r) in
     pageCall (search (ct_secret ctl) u (filterOf r) q) q)"

definition deleteSecretH :: "controller \<Rightarrow> userInfo \<Rightarrow> str option \<Rightarrow> unit endpoint" where
  "deleteSecretH ctl u req = bindReq ctl req (\<lambda>i. actorCall u (delete (ct_secret ctl) u i))"

definition getSecretByPathH :: "controller \<Rightarrow> userInfo \<Rightarrow> str option \<Rightarrow> secret endpoint" where
  "getSecretByPathH ctl u req = bindReq ctl req (\<lambda>path. checkH (trimSpace path \<noteq> []) badRequest (
     serviceCall (getByPath (ct_secret ctl) u path)))"

definition revealSecretByPathH :: "controller \<Rightarrow> userInfo \<Rightarrow> str option \<Rightarrow> secret endpoint" where
  "revealSecretByPathH ctl u req = bindReq ctl req (\<lambda>path. checkH (trimSpace path \<noteq> []) badRequest (
     actorCall u (revealByPath (ct_secret ctl) u path)))"

text \<open>A missing \<open>keys\<close> is a nil slice.\<close>

definition batchRevealSecretByPathH ::
    "controller \<Rightarrow> userInfo \<Rightarrow> (str \<times> str list option) option \<Rightarrow> (str \<times> secret list \<times> str list) endpoint" where
  "batchRevealSecretByPathH ctl u req = bindReq ctl req (\<lambda>(path, keys). checkH (trimSpace path \<noteq> []) badRequest (
     actorCall u (\<lambda>actor. bindS (batchRevealByPath (ct_secret ctl) u path keys actor) (\<lambda>(items, notFound).
       retS (path, items, notFound)))))"

definition batchRevealSecretByCodeH ::
    "controller \<Rightarrow> userInfo \<Rightarrow> (str \<times> str \<times> str \<times> str) option \<Rightarrow> secret list endpoint" where
  "batchRevealSecretByCodeH ctl u req = bindReq ctl req (\<lambda>(orgCode, projectCode, envCode, folderCode).
     checkH (\<not> (trimSpace orgCode = [] \<or> trimSpace projectCode = [] \<or> trimSpace envCode = [] \<or>
       trimSpace folderCode = [])) badRequest (
     actorCall u (batchRevealByCode (ct_secret ctl) u orgCode projectCode envCode folderCode)))"

record secretListAcrossEnvsRequest =
  la_projectId :: str
  la_folderCode :: str
  la_keyList :: "str list"
  la_envList :: "str list"

definition listSecretsAcrossEnvsH ::
    "controller \<Rightarrow> userInfo \<Rightarrow> secretListAcrossEnvsRequest option \<Rightarrow> secretAcrossEnvs list endpoint" where
  "listSecretsAcrossEnvsH ctl u req = bindReq ctl req (\<lambda>r.
     checkH (trimSpace (la_projectId r) \<noteq> []) badRequest (
     checkH (list_all (\<lambda>k. validateSecretKey (trimSpace k)) (la_keyList r)) badRequest (
     checkH (\<not> (length (la_keyList r) > 0 \<and> trimSpace (la_folderCode r) = [])) badRequest (
     checkH (length (la_envList r) \<noteq> 0) badRequest (
     actorCall u (listAcrossEnvs (ct_secret ctl) u (la_projectId r) (la_folderCode r) (la_keyList r) (la_envList r)))))))"

section \<open>Batches of secrets\<close>

text \<open>All failures of the two batch routes answer with HTTP status 200 and business code -1.\<close>

definition batchReply :: "goErr + 'd \<Rightarrow> unit reply" where
  "batchReply r = (case r of Inl _ \<Rightarrow> failWithMsg | Inr _ \<Rightarrow> Reply 200 codeSuccess None)"

definition batchCall :: "userInfo \<Rightarrow> (str \<Rightarrow> unit handler) \<Rightarrow> unit endpoint" where
  "batchCall u m w = (case m (ui_id u) (actorH u w) of (r, w') \<Rightarrow> ([batchReply r], w'))"

definition checkEnvCodeUniqueness :: "batchCreateEnvTarget list \<Rightarrow> goErr + unit" where
  "checkEnvCodeUniqueness envs = checkE (distinct (map bt_envCode envs)) (ErrMsg ''envCode repeated'')"

definition checkFolderIdUniqueness :: "batchCreateEnvTarget list \<Rightarrow> goErr + unit" where
  "checkFolderIdUniqueness envs = checkE (distinct (map bt_folder envs)) (ErrMsg ''folderId shared'')"

definition extractEnvs :: "batchCreateEnvTarget list \<Rightarrow> goErr + batchCreateEnvTarget list" where
  "extractEnvs envList =
     (if length envList = 0 then Inl (ErrMsg ''envList'')
      else bindE (mapE (\<lambda>e. let envCode = trimSpace (bt_envCode e) in
          if envCode = [] then Inl (ErrMsg ''envCode'')
          else if trimSpace (bt_folder e) = [] then Inl (ErrMsg ''folderId'')
          else Inr (e\<lparr>bt_envCode := envCode\<rparr>)) envList) (\<lambda>envs.
        bindE (checkEnvCodeUniqueness envs) (\<lambda>_. bindE (checkFolderIdUniqueness envs) (\<lambda>_. Inr envs))))"

definition secretBatchCreateRequestToDomain :: "batchCreateSecretSpec list \<Rightarrow> goErr + batchCreateSecretSpec list" where
  "secretBatchCreateRequestToDomain secretList =
     (if length secretList = 0 then Inl (ErrMsg ''secretList'')
      else mapE (\<lambda>item. if \<not> keyPattern (bs_key item) then Inl (ErrMsg ''key'')
        else bindE (extractEnvs (bs_envs item)) (\<lambda>envs. Inr (item\<lparr>bs_envs := envs\<rparr>))) secretList)"

definition batchCreateSecretH :: "controller \<Rightarrow> userInfo \<Rightarrow> batchCreateSecretSpec list option \<Rightarrow> unit endpoint" where
  "batchCreateSecretH ctl u req = bindReq ctl req (\<lambda>r. case secretBatchCreateRequestToDomain r of
       Inl e \<Rightarrow> reply (batchReply (Inl e :: goErr + unit))
     | Inr specs \<Rightarrow> batchCall u (batchCreate (ct_secret ctl) u specs))"

record batchUpdateSecretRequest =
  bq_values :: "(str \<times> str) list"
  bq_key :: str
  bq_comment :: str

definition batchUpdateSecretH :: "controller \<Rightarrow> userInfo \<Rightarrow> batchUpdateSecretRequest option \<Rightarrow> unit endpoint" where
  "batchUpdateSecretH ctl u req = bindReq ctl req (\<lambda>r.
     checkH (trimSpace (bq_key r) \<noteq> []) badRequest (
     checkH (keyPattern (bq_key r)) badRequest (
     checkH (\<not> length (bq_values r) > 100) badRequest (
     checkH (list_all (\<lambda>(i, _). trimSpace i \<noteq> [] \<and> uuidPattern i) (bq_values r)) badRequest (
     checkH (\<not> (length (bq_values r) = 0 \<and> trimSpace (bq_comment r) = [])) badRequest (
     batchCall u (batchUpdateByIDs (ct_secret ctl) u (bq_values r) (bq_key r) (bq_comment r))))))))"

section \<open>Global search\<close>

record globalSearchRequest =
  gq_keyword :: str
  gq_types :: "str list"
  gq_limit :: int

definition searchTypes :: "str list" where
  "searchTypes = [''org'', ''project'', ''env'', ''folder'', ''secret'']"

definition normalizeSearchTypes :: "str list \<Rightarrow> str list" where
  "normalizeSearchTypes input = (if length input = 0 then searchTypes
     else dedupe (filter (\<lambda>t. t \<in> set searchTypes) input))"

definition containsType :: "str list \<Rightarrow> str \<Rightarrow> bool" where
  "containsType types t = list_ex (\<lambda>x. x = t) types"

text \<open>A filter keeps the hits that \<open>allowScope\<close> lets through; for each other hit \<open>allowScope\<close> has written a reply.\<close>

definition filterHits :: "controller \<Rightarrow> userInfo \<Rightarrow> store \<Rightarrow> str \<Rightarrow> str \<Rightarrow> globalSearchHit list \<Rightarrow>
    globalSearchHit list \<times> globalSearchResult reply list" where
  "filterHits ctl u st permission rtype hits =
     (filter (\<lambda>h. allowScope ctl u permission rtype (gh_id h) st = (None :: globalSearchResult reply option)) hits,
      List.map_filter (\<lambda>h. allowScope ctl u permission rtype (gh_id h) st) hits)"

definition filterOrgHits where "filterOrgHits ctl u st = filterHits ctl u st ''org:read'' ''organization''"
definition filterProjectHits where "filterProjectHits ctl u st = filterHits ctl u st ''project:read'' ''project''"
definition filterEnvHits where "filterEnvHits ctl u st = filterHits ctl u st ''env:read'' ''environment''"
definition filterFolderHits where "filterFolderHits ctl u st = filterHits ctl u st ''folder:read'' ''folder''"
definition filterSecretHits where "filterSecretHits ctl u st = filterHits ctl u st ''secret:read'' ''secret''"

definition whenType :: "str list \<Rightarrow> str \<Rightarrow> globalSearchHit list \<times> globalSearchResult reply list \<Rightarrow>
    globalSearchHit list \<times> globalSearchResult reply list" where
  "whenType types t r = (if containsType types t then r else ([], []))"

definition emptySearchResult :: globalSearchResult where
  "emptySearchResult = \<lparr> gs_orgs = [], gs_projects = [], gs_envs = [], gs_folders = [], gs_secrets = [] \<rparr>"

definition clampLimit :: "int \<Rightarrow> int" where
  "clampLimit n = (let l = (if n \<le> 0 then 50 else n) in if l > 200 then 200 else l)"

definition filterResult :: "controller \<Rightarrow> userInfo \<Rightarrow> store \<Rightarrow> str list \<Rightarrow> globalSearchResult \<Rightarrow>
    globalSearchResult reply list" where
  "filterResult ctl u st types res =
     (case whenType types ''org'' (filterOrgHits ctl u st (gs_orgs res)) of (os, r1) \<Rightarrow>
      case whenType types ''project'' (filterProjectHits ctl u st (gs_projects res)) of (ps, r2) \<Rightarrow>
      case whenType types ''env'' (filterEnvHits ctl u st (gs_envs res)) of (es, r3) \<Rightarrow>
      case whenType types ''folder'' (filterFolderHits ctl u st (gs_folders res)) of (fs, r4) \<Rightarrow>
      case whenType types ''secret'' (filterSecretHits ctl u st (gs_secrets res)) of (ss, r5) \<Rightarrow>
      r1 @ r2 @ r3 @ r4 @ r5 @
      [okR \<lparr> gs_orgs = os, gs_projects = ps, gs_envs = es, gs_folders = fs, gs_secrets = ss \<rparr>])"

definition globalSearchH :: "controller \<Rightarrow> userInfo \<Rightarrow> globalSearchRequest option \<Rightarrow> globalSearchResult endpoint" where
  "globalSearchH ctl u req = bindReq ctl req (\<lambda>r. let keyword = trimSpace (gq_keyword r) in
     checkH (keyword \<noteq> []) badRequest (\<lambda>w.
     let res = (case w_rd w of None \<Rightarrow> emptySearchResult
         | Some rd \<Rightarrow> globalSearch (ct_prefix ctl) (ss_enc (ct_secret ctl)) rd keyword (clampLimit (gq_limit r)))
     in (filterResult ctl u (w_st w) (normalizeSearchTypes (gq_types r)) res, w)))"

section \<open>RBAC\<close>

record roleGrantRequest =
  rg_externalUserId :: str
  rg_name :: str
  rg_email :: str
  rg_roleCode :: str
  rg_scopeType :: str
  rg_scopeId :: str
  rg_expiresAt :: "nat option"
  rg_userId :: str
  rg_roleType :: str
  rg_resourceType :: str
  rg_resourceId :: str

record resolvedRoleGrant =
  rr_userId :: str
  rr_name :: str
  rr_email :: str
  rr_roleCode :: str
  rr_scopeType :: str
  rr_scopeId :: str
  rr_expiresAt :: "nat option"

definition pickAlias :: "str \<Rightarrow> str \<Rightarrow> str" where
  "pickAlias newVal oldVal = (if trimSpace newVal \<noteq> [] then trimSpace newVal else trimSpace oldVal)"

definition resolve :: "roleGrantRequest \<Rightarrow> resolvedRoleGrant" where
  "resolve r = \<lparr> rr_userId = pickAlias (rg_userId r) (rg_externalUserId r), rr_name = rg_name r, rr_email = rg_email r,
     rr_roleCode = pickAlias (rg_roleType r) (rg_roleCode r), rr_scopeType = pickAlias (rg_resourceType r) (rg_scopeType r),
     rr_scopeId = pickAlias (rg_resourceId r) (rg_scopeId r), rr_expiresAt = rg_expiresAt r \<rparr>"

text \<open>\<open>ensureRBAC\<close>, before the request is read.\<close>

definition ensureRBAC :: "controller \<Rightarrow> ((store \<Rightarrow> allowFn) \<Rightarrow> 'd endpoint) \<Rightarrow> 'd endpoint" where
  "ensureRBAC ctl k = (case ct_rbac ctl of None \<Rightarrow> reply (failR' 503 codeStoreUnavailable) | Some az \<Rightarrow> k az)"

definition rbacRead :: "(store \<Rightarrow> goErr + 'd) \<Rightarrow> 'd endpoint" where "rbacRead f = serviceCall (readS f)"
definition rbacWrite :: "userInfo \<Rightarrow> (str \<Rightarrow> 'd rbacOp) \<Rightarrow> 'd endpoint" where
  "rbacWrite u m = actorCall u (\<lambda>actor. storeS (m actor))"

definition listPermissionsH :: "controller \<Rightarrow> permissionRow list endpoint" where
  "listPermissionsH ctl = ensureRBAC ctl (\<lambda>_. rbacRead (\<lambda>st. Inr (listPermissions st)))"

definition listRolesH :: "controller \<Rightarrow> roleView list endpoint" where
  "listRolesH ctl = ensureRBAC ctl (\<lambda>_. rbacRead (\<lambda>st. Inr (listRoles st)))"

definition getRoleH :: "controller \<Rightarrow> userInfo \<Rightarrow> (str \<times> str) option \<Rightarrow> roleView endpoint" where
  "getRoleH ctl u req = ensureRBAC ctl (\<lambda>az. bindReq ctl req (\<lambda>(i, code). rbacRead (\<lambda>st. getRoleS (az st) u i code st)))"

record roleRequest =
  rq_id :: str
  rq_scopeType :: str
  rq_scopeId :: str
  rq_code :: str
  rq_name :: str
  rq_description :: str
  rq_permissions :: "str list"

definition createRoleH :: "controller \<Rightarrow> userInfo \<Rightarrow> roleRequest option \<Rightarrow> roleView endpoint" where
  "createRoleH ctl u req = ensureRBAC ctl (\<lambda>az. bindReq ctl req (\<lambda>r. rbacWrite u (createRoleS az u (rq_code r) (rq_name r)
     (rq_description r) (rq_scopeType r) (rq_scopeId r) (rq_permissions r))))"

definition updateRoleH :: "controller \<Rightarrow> userInfo \<Rightarrow> roleRequest option \<Rightarrow> roleView endpoint" where
  "updateRoleH ctl u req = ensureRBAC ctl (\<lambda>az. bindReq ctl req (\<lambda>r. rbacWrite u (updateRoleS az u (rq_id r) (rq_code r)
     (rq_name r) (rq_description r) (rq_scopeType r) (rq_scopeId r) (rq_permissions r))))"

definition deleteRoleH :: "controller \<Rightarrow> userInfo \<Rightarrow> str option \<Rightarrow> unit endpoint" where
  "deleteRoleH ctl u req = ensureRBAC ctl (\<lambda>az. bindReq ctl req (\<lambda>i. rbacWrite u (deleteRoleS az u i)))"

definition grantRoleH :: "controller \<Rightarrow> userInfo \<Rightarrow> roleGrantRequest option \<Rightarrow> roleBinding endpoint" where
  "grantRoleH ctl u req = ensureRBAC ctl (\<lambda>az. bindReq ctl req (\<lambda>r0. let r = resolve r0 in
     rbacWrite u (grantRoleS az u (rr_userId r) (rr_name r) (rr_email r) (rr_roleCode r) (rr_scopeType r) (rr_scopeId r)
       (rr_expiresAt r))))"

definition revokeRoleH :: "controller \<Rightarrow> userInfo \<Rightarrow> roleGrantRequest option \<Rightarrow> unit endpoint" where
  "revokeRoleH ctl u req = ensureRBAC ctl (\<lambda>az. bindReq ctl req (\<lambda>r0. let r = resolve r0 in
     rbacWrite u (revokeRoleS az u (rr_userId r) (rr_roleCode r) (rr_scopeType r) (rr_scopeId r))))"

definition listRoleBindingsH :: "controller \<Rightarrow> userInfo \<Rightarrow> (str \<times> str \<times> pagination) option \<Rightarrow> roleBinding pageResp endpoint" where
  "listRoleBindingsH ctl u req = ensureRBAC ctl (\<lambda>_. bindReq ctl req (\<lambda>(scopeType, scopeId, p).
     let q = paginationFromRequest p in pageCall (readS (listRoleBindingsS u scopeType scopeId q)) q))"

definition listUserGrantsH :: "controller \<Rightarrow> userInfo \<Rightarrow> (str \<times> str \<times> pagination) option \<Rightarrow> roleBinding pageResp endpoint" where
  "listUserGrantsH ctl u req = ensureRBAC ctl (\<lambda>_. bindReq ctl req (\<lambda>(userId, externalUserId, p).
     let q = paginationFromRequest p in pageCall (readS (listUserGrantsS u (pickAlias userId externalUserId) q)) q))"

definition listRBACUsersH :: "controller \<Rightarrow> userInfo \<Rightarrow> (str \<times> pagination) option \<Rightarrow> user pageResp endpoint" where
  "listRBACUsersH ctl u req = ensureRBAC ctl (\<lambda>_. bindReq ctl req (\<lambda>(keyword, p).
     let q = paginationFromRequest p in pageCall (readS (listUsersS u keyword q)) q))"

definition getCurrentRBACUserH :: "controller \<Rightarrow> userInfo \<Rightarrow> pagination option \<Rightarrow> roleBinding pageResp endpoint" where
  "getCurrentRBACUserH ctl u req = ensureRBAC ctl (\<lambda>_. bindReq ctl req (\<lambda>p. let q = paginationFromRequest p in
     pageCall (bindS (storeS (syncUser (ui_id u) (ui_name u) [])) (\<lambda>_. readS (listUserGrantsS u (ui_id u) q))) q))"

definition getUserEffectivePermissionsH ::
    "controller \<Rightarrow> userInfo \<Rightarrow> (str \<times> str \<times> str \<times> str) option \<Rightarrow> (str list \<times> roleBinding list) endpoint" where
  "getUserEffectivePermissionsH ctl u req = ensureRBAC ctl (\<lambda>az. bindReq ctl req (\<lambda>(userId, externalUserId, scopeType, scopeId).
     rbacRead (effectivePermissionsS az u (pickAlias userId externalUserId) scopeType scopeId)))"

definition getMyPermissionsH :: "controller \<Rightarrow> userInfo \<Rightarrow> (str \<times> str) option \<Rightarrow> str list endpoint" where
  "getMyPermissionsH ctl u req = ensureRBAC ctl (\<lambda>az. bindReq ctl req (\<lambda>(scopeType, scopeId).
     rbacRead (\<lambda>st. bindE (effectivePermissionsS az u (ui_id u) scopeType scopeId st) (\<lambda>(ps, _). Inr ps))))"

end
