(* ===== verification/ApiProps.thy ===== *)
theory ApiProps
  imports ApiHandlers ServiceProps
begin

text \<open>
  The global search: what it shows, how it answers, and what it gives away; and the route that tells a user their
  own bindings.
\<close>

section \<open>Global search\<close>

definition allHits :: "controller \<Rightarrow> globalSearchRequest \<Rightarrow> world \<Rightarrow> globalSearchResult" where
  "allHits ctl r w = (case w_rd w of None \<Rightarrow> emptySearchResult
     | Some rd \<Rightarrow> globalSearch (ct_prefix ctl) (ss_enc (ct_secret ctl)) rd (trimSpace (gq_keyword r)) (clampLimit (gq_limit r)))"

definition readable :: "allowFn \<Rightarrow> userInfo \<Rightarrow> str \<Rightarrow> str \<Rightarrow> globalSearchHit list \<Rightarrow> globalSearchHit list" where
  "readable al u permission rtype = filter (\<lambda>h. al u permission \<lparr> res_type = rtype, res_id = gh_id h \<rparr> = Inr ())"

definition readableHits :: "allowFn \<Rightarrow> userInfo \<Rightarrow> globalSearchResult \<Rightarrow> globalSearchResult" where
  "readableHits al u res = \<lparr> gs_orgs = readable al u ''org:read'' ''organization'' (gs_orgs res),
     gs_projects = readable al u ''project:read'' ''project'' (gs_projects res),
     gs_envs = readable al u ''env:read'' ''environment'' (gs_envs res),
     gs_folders = readable al u ''folder:read'' ''folder'' (gs_folders res),
     gs_secrets = readable al u ''secret:read'' ''secret'' (gs_secrets res) \<rparr>"

definition hitCount :: "globalSearchResult \<Rightarrow> nat" where
  "hitCount res = length (gs_orgs res) + length (gs_projects res) + length (gs_envs res) + length (gs_folders res) +
     length (gs_secrets res)"

lemma writeR_error [simp]: "rp_data (writeR (Inl e)) = None" "rp_code (writeR (Inl e)) \<noteq> codeSuccess"
  by (simp_all add: writeR_def failR'_def failWithMsg_def codeSuccess_def codeFailure_def codeForbidden_def
      codeNotFound_def codeConflict_def)

lemma filterHits_split:
  assumes "ct_authz ctl = Some az" "trimSpace t = t" "t \<noteq> []"
  obtains ds where "filterHits ctl u st p t hits = (readable (az st) u p t hits, ds)"
    "length hits = length (readable (az st) u p t hits) + length ds" "\<forall>x \<in> set ds. rp_code x \<noteq> codeSuccess"
proof -
  let ?a = "\<lambda>h. allowScope ctl u p t (gh_id h) st :: globalSearchResult reply option"
  let ?ds = "List.map_filter ?a hits"
  have a: "(?a h = None) = (az st u p \<lparr> res_type = t, res_id = gh_id h \<rparr> = Inr ())" for h
    using assms by (auto simp: allowScope_def Let_def split: sum.splits)
  have e: "?a h = Some x \<Longrightarrow> rp_code x \<noteq> codeSuccess" for h x
    using assms by (auto simp: allowScope_def Let_def split: sum.splits)
  have f: "filterHits ctl u st p t hits = (readable (az st) u p t hits, ?ds)"
    by (simp add: filterHits_def readable_def a)
  have l: "length hits = length (filter (\<lambda>h. ?a h = None) hits) + length (List.map_filter ?a hits)" for hits
    by (induction hits) (auto simp: List.map_filter_simps split: option.splits)
  have "\<forall>x \<in> set ?ds. rp_code x \<noteq> codeSuccess"
  proof
    fix x assume "x \<in> set ?ds"
    then have "\<exists>h \<in> set hits. ?a h = Some x" by (simp only: set_map_filter_iff)
    then show "rp_code x \<noteq> codeSuccess" by (rule bexE) (rule e)
  qed
  with f l [of hits] show thesis by (intro that [of ?ds]) (simp_all add: readable_def a)
qed

lemma search_type_names:
  "trimSpace ''organization'' = ''organization''" "trimSpace ''project'' = ''project''"
  "trimSpace ''environment'' = ''environment''" "trimSpace ''folder'' = ''folder''" "trimSpace ''secret'' = ''secret''"
  by code_simp+

lemma globalSearchH_replies:
  assumes "ct_ready ctl" "ct_authz ctl = Some az" "trimSpace (gq_keyword r) \<noteq> []" "gq_types r = []"
  shows "\<exists>refusals. globalSearchH ctl u (Some r) w = (refusals @ [okR (readableHits (az (w_st w)) u (allHits ctl r w))], w) \<and>
     hitCount (allHits ctl r w) = hitCount (readableHits (az (w_st w)) u (allHits ctl r w)) + length refusals \<and>
     (\<forall>x \<in> set refusals. rp_code x \<noteq> codeSuccess)"
proof -
  let ?res = "allHits ctl r w"
  let ?st = "w_st w"
  note f = filterHits_split [OF assms(2), where u = u and st = ?st]
  obtain d1 where d1: "filterOrgHits ctl u ?st (gs_orgs ?res) = (readable (az ?st) u ''org:read'' ''organization'' (gs_orgs ?res), d1)"
    "length (gs_orgs ?res) = length (readable (az ?st) u ''org:read'' ''organization'' (gs_orgs ?res)) + length d1"
    "\<forall>x \<in> set d1. rp_code x \<noteq> codeSuccess"
    unfolding filterOrgHits_def by (rule f [OF search_type_names(1), where p = "''org:read''" and hits = "gs_orgs ?res"]) auto
  obtain d2 where d2: "filterProjectHits ctl u ?st (gs_projects ?res) = (readable (az ?st) u ''project:read'' ''project'' (gs_projects ?res), d2)"
    "length (gs_projects ?res) = length (readable (az ?st) u ''project:read'' ''project'' (gs_projects ?res)) + length d2"
    "\<forall>x \<in> set d2. rp_code x \<noteq> codeSuccess"
    unfolding filterProjectHits_def by (rule f [OF search_type_names(2), where p = "''project:read''" and hits = "gs_projects ?res"]) auto
  obtain d3 where d3: "filterEnvHits ctl u ?st (gs_envs ?res) = (readable (az ?st) u ''env:read'' ''environment'' (gs_envs ?res), d3)"
    "length (gs_envs ?res) = length (readable (az ?st) u ''env:read'' ''environment'' (gs_envs ?res)) + length d3"
    "\<forall>x \<in> set d3. rp_code x \<noteq> codeSuccess"
    unfolding filterEnvHits_def by (rule f [OF search_type_names(3), where p = "''env:read''" and hits = "gs_envs ?res"]) auto
  obtain d4 where d4: "filterFolderHits ctl u ?st (gs_folders ?res) = (readable (az ?st) u ''folder:read'' ''folder'' (gs_folders ?res), d4)"
    "length (gs_folders ?res) = length (readable (az ?st) u ''folder:read'' ''folder'' (gs_folders ?res)) + length d4"
    "\<forall>x \<in> set d4. rp_code x \<noteq> codeSuccess"
    unfolding filterFolderHits_def by (rule f [OF search_type_names(4), where p = "''folder:read''" and hits = "gs_folders ?res"]) auto
  obtain d5 where d5: "filterSecretHits ctl u ?st (gs_secrets ?res) = (readable (az ?st) u ''secret:read'' ''secret'' (gs_secrets ?res), d5)"
    "length (gs_secrets ?res) = length (readable (az ?st) u ''secret:read'' ''secret'' (gs_secrets ?res)) + length d5"
    "\<forall>x \<in> set d5. rp_code x \<noteq> codeSuccess"
    unfolding filterSecretHits_def by (rule f [OF search_type_names(5), where p = "''secret:read''" and hits = "gs_secrets ?res"]) auto
  have t: "whenType (normalizeSearchTypes []) x = id" if "x \<in> set searchTypes" for x
    using that by (auto simp: whenType_def normalizeSearchTypes_def containsType_def list_ex_iff)
  have "globalSearchH ctl u (Some r) w = (filterResult ctl u ?st (normalizeSearchTypes []) ?res, w)"
    using assms by (simp add: globalSearchH_def bindReq_def checkH_def Let_def allHits_def)
  also have "filterResult ctl u ?st (normalizeSearchTypes []) ?res =
      (d1 @ d2 @ d3 @ d4 @ d5) @ [okR (readableHits (az ?st) u ?res)]"
    by (simp add: filterResult_def t searchTypes_def d1(1) d2(1) d3(1) d4(1) d5(1) readableHits_def)
  finally show ?thesis
    using d1(2,3) d2(2,3) d3(2,3) d4(2,3) d5(2,3)
    by (intro exI [of _ "d1 @ d2 @ d3 @ d4 @ d5"]) (auto simp: hitCount_def readableHits_def)
qed

text \<open>C39. The global search shows only what the caller may read, and spoils its answer if there is more. For a
  search over all types the handler changes nothing and writes, as its last reply, a success with exactly those hits
  of the cache on which the authorizer allows the caller the read action of their type. But before it, it
  writes one reply with an error code for each hit that it filters out, so the body and the status that the
  client gets are those of a refusal whenever there is a hit the caller may not see.\<close>

theorem global_search_replies:
  assumes "ct_ready ctl" "ct_authz ctl = Some az" "trimSpace (gq_keyword r) \<noteq> []" "gq_types r = []"
  shows "\<exists>refusals. globalSearchH ctl u (Some r) w = (refusals @ [okR (readableHits (az (w_st w)) u (allHits ctl r w))], w) \<and>
     hitCount (allHits ctl r w) = hitCount (readableHits (az (w_st w)) u (allHits ctl r w)) + length refusals \<and>
     (\<forall>x \<in> set refusals. rp_code x \<noteq> codeSuccess)"
  by (rule globalSearchH_replies [OF assms])

text \<open>\<open>al\<close> may read secrets below project \<open>p\<close>, but not reveal them; one secret in the cache is his, one is elsewhere.\<close>

definition searchRec :: "str \<Rightarrow> str \<Rightarrow> str \<Rightarrow> secretCacheRecord" where
  "searchRec i key v = \<lparr> scr_secret = scanSecret demoStore 0 (demoSecret i ''f'' key)
     (demoRow ''o'' [] ''org'' None 1, demoRow ''p'' ''o'' ''prj'' None 1, demoRow ''e'' ''p'' ''dev'' None 1,
      demoRow ''f'' ''e'' ''pay'' None 1),
     scr_cipher = (case encrypt demoAead v [7] of Inr (c, _) \<Rightarrow> c | Inl _ \<Rightarrow> demoCipher) \<rparr>"

definition searchWorld :: world where
  "searchWorld = \<lparr> w_st = demoStore,
     w_rd = Some (snd (upsertSecret ''ev'' (searchRec ''x'' ''B'' ''hunter2'')
       (snd (upsertSecret ''ev'' (searchRec ''s'' ''K'' ''hunter2'') \<lparr> rd_up = True, rd_keys = [] \<rparr>)))),
     w_rand = [] \<rparr>"

definition searchCtl :: controller where
  "searchCtl = \<lparr> ct_ready = True, ct_authz = Some storeAllow, ct_prefix = ''ev'', ct_secret = demoSvc, ct_tree = None,
     ct_rbac = Some storeAllow \<rparr>"

definition searchReq :: "str \<Rightarrow> globalSearchRequest" where
  "searchReq k = \<lparr> gq_keyword = k, gq_types = [], gq_limit = 0 \<rparr>"

theorem global_search_replies_witness:
  "rp_code (hd (fst (globalSearchH searchCtl (demoUI ''al'') (Some (searchReq ''hunter'')) searchWorld))) \<noteq> codeSuccess"
proof -
  let ?r = "searchReq ''hunter''"
  let ?k = "readableHits (storeAllow (w_st searchWorld)) (demoUI ''al'') (allHits searchCtl ?r searchWorld)"
  have h: "ct_ready searchCtl" "ct_authz searchCtl = Some storeAllow" "trimSpace (gq_keyword ?r) \<noteq> []" "gq_types ?r = []"
    by (simp_all add: searchCtl_def searchReq_def) code_simp
  have c: "hitCount (allHits searchCtl ?r searchWorld) = 2" "hitCount ?k = 1" by code_simp+
  obtain refusals where g: "globalSearchH searchCtl (demoUI ''al'') (Some ?r) searchWorld = (refusals @ [okR ?k], searchWorld)"
    "hitCount (allHits searchCtl ?r searchWorld) = hitCount ?k + length refusals"
    "\<forall>x \<in> set refusals. rp_code x \<noteq> codeSuccess"
    using global_search_replies [OF h, of "demoUI ''al''" searchWorld] by blast
  with c have "refusals \<noteq> []" by auto
  with g(1,3) show ?thesis by simp
qed

text \<open>The secrets in the last reply, with the field that matched.\<close>

definition lastSecrets :: "globalSearchResult reply list \<Rightarrow> (str \<times> str) list" where
  "lastSecrets rs = (case last rs of Reply s c d \<Rightarrow> (case d of None \<Rightarrow> []
     | Some res \<Rightarrow> map (\<lambda>h. (gh_id h, gh_matchField h)) (gs_secrets res)))"

definition foundBy :: "str \<Rightarrow> (str \<times> str) list" where
  "foundBy k = lastSecrets (fst (globalSearchH searchCtl (demoUI ''al'') (Some (searchReq k)) searchWorld))"

lemma foundBy_eq:
  assumes "trimSpace k \<noteq> []"
  shows "foundBy k = map (\<lambda>h. (gh_id h, gh_matchField h)) (readable (storeAllow (w_st searchWorld)) (demoUI ''al'')
    ''secret:read'' ''secret'' (gs_secrets (allHits searchCtl (searchReq k) searchWorld)))"
proof -
  have h: "ct_ready searchCtl" "ct_authz searchCtl = Some storeAllow" "trimSpace (gq_keyword (searchReq k)) \<noteq> []"
    "gq_types (searchReq k) = []"
    using assms by (simp_all add: searchCtl_def searchReq_def)
  show ?thesis
    using globalSearchH_replies [OF h, of "demoUI ''al''" searchWorld]
    by (auto simp: foundBy_def lastSecrets_def okR_def readableHits_def)
qed

text \<open>The global search tells values to those who may not reveal them. The cache search matches the keyword
  against the decrypted values, the handler asks for \<open>secret:read\<close> only. In the world \<open>searchWorld\<close> the user
  \<open>al\<close> may read the secret \<open>s\<close> but is refused \<open>secret:reveal\<close> on it; yet by searching for \<open>hunter2\<close>, \<open>hunter\<close>
  or \<open>hunted\<close> he learns from the hits, which name \<open>value\<close> as the field that matched, whether the text is part of
  the value. The name of the key, on the other hand, finds nothing.\<close>

theorem value_search_oracle:
  "storeAllow demoStore (demoUI ''al'') ''secret:reveal'' (secretScope ''s'') = Inl ErrPermissionDenied \<and>
   foundBy ''hunter2'' = [(''s'', ''value'')] \<and> foundBy ''hunter'' = [(''s'', ''value'')] \<and>
   foundBy ''hunted'' = [] \<and> foundBy ''K'' = []"
proof (intro conjI)
  show "storeAllow demoStore (demoUI ''al'') ''secret:reveal'' (secretScope ''s'') = Inl ErrPermissionDenied" by code_simp
  have k: "trimSpace ''hunter2'' \<noteq> []" "trimSpace ''hunter'' \<noteq> []" "trimSpace ''hunted'' \<noteq> []" "trimSpace ''K'' \<noteq> []"
    by code_simp+
  show "foundBy ''hunter2'' = [(''s'', ''value'')]" unfolding foundBy_eq [OF k(1)] by code_simp
  show "foundBy ''hunter'' = [(''s'', ''value'')]" unfolding foundBy_eq [OF k(2)] by code_simp
  show "foundBy ''hunted'' = []" unfolding foundBy_eq [OF k(3)] by code_simp
  show "foundBy ''K'' = []" unfolding foundBy_eq [OF k(4)] by code_simp
qed

section \<open>The own bindings\<close>

text \<open>The route of the current user refuses ordinary users. \<open>/rbac/user/me\<close> is meant for every authenticated user;
  it first records the user and then lists their bindings through \<open>ListUserGrants\<close>, which wants
  \<open>rbac:binding:read\<close> on the global scope. In the store \<open>demoStore\<close> the member \<open>al\<close> has a binding, the call writes
  his row in the user table, and the answer is a refusal.\<close>

theorem current_user_refused:
  "case getCurrentRBACUserH searchCtl (demoUI ''al'') (Some \<lparr> pageNum = 1, pageSize = 20 \<rparr>) searchWorld of (rs, w') \<Rightarrow>
     map rp_status rs = [403] \<and>
     map u_lastSeenAt (filter (\<lambda>x. u_id x = ''al'') (usersT (w_st w'))) = [Some (clock demoStore)] \<and>
     length (pg_items (listUserGrants demoStore ''al'' \<lparr> pageNum = 1, pageSize = 20 \<rparr>)) = 1"
  by code_simp

end
