(* ===== verification/AuthStore.thy ===== *)
theory AuthStore
  imports RbacAdmin
begin

text \<open>
  The account half of the PostgreSQL store: users with credentials (\<open>internal/store/postgres/auth.go\<close>) and
  personal access tokens (\<open>pat.go\<close>).  The clock counts microseconds, the resolution of \<open>timestamptz\<close>; the
  default \<open>'epoch'\<close> of \<open>tokens_valid_after\<close> is 0.  The table \<open>login_attempts\<close> is a list of its own, as nothing
  refers to it.
\<close>

section \<open>Users\<close>

definition getUserByEmail :: "store \<Rightarrow> str \<Rightarrow> goErr + user" where
  "getUserByEmail st email0 = (let email = trimSpace email0 in
     if email = [] then Inl ErrNotFound
     else optE ErrNotFound (findFirst (\<lambda>u. u_email u = email \<and> u_email u \<noteq> []) (usersT st)))"

definition getUserByIdA :: "store \<Rightarrow> str \<Rightarrow> goErr + user" where
  "getUserByIdA st i0 = (let i = trimSpace i0 in if i = [] then Inl ErrNotFound else optE ErrNotFound (findUser i st))"

definition findExternal :: "str \<Rightarrow> store \<Rightarrow> user option" where
  "findExternal e st = findFirst (\<lambda>u. u_ext u = e) (usersT st)"

definition getUserByExternalIdA :: "store \<Rightarrow> str \<Rightarrow> goErr + user" where
  "getUserByExternalIdA st e0 = (let e = trimSpace e0 in
     if e = [] then Inl ErrNotFound else optE ErrNotFound (findExternal e st))"

definition passwordUser :: "str \<Rightarrow> str \<Rightarrow> str \<Rightarrow> str \<Rightarrow> str \<Rightarrow> str \<Rightarrow> nat \<Rightarrow> user" where
  "passwordUser i ext email name hash algo now = \<lparr> u_id = i, u_ext = ext, u_name = name, u_email = email,
     u_source = ''password'', u_disabled = False, u_lastSeenAt = Some now, u_hash = hash, u_algo = algo, u_tva = Some 0 \<rparr>"

definition insertPasswordUserTx :: "str \<Rightarrow> str \<Rightarrow> str \<Rightarrow> str \<Rightarrow> str \<Rightarrow> str tx" where
  "insertPasswordUserTx ext email name hash algo = bindT newUUID (\<lambda>i. bindT getT (\<lambda>st.
     bindT (translated (insertUser (passwordUser i ext email name hash algo (clock st)))) (\<lambda>_. retT i)))"

text \<open>The \<open>insert ... select\<close> that makes the only user a platform administrator; its conflicts are ignored.\<close>

definition firstUserGrant :: "str \<Rightarrow> str \<Rightarrow> str \<Rightarrow> unit tx" where
  "firstUserGrant bid uid rid st =
     (if length (usersT st) = 1 \<and> list_ex (\<lambda>r. ro_code r = ''platform_admin'') (rolesT st)
      then case insertBinding (mkBinding bid uid rid ''global'' None ''register'' None (clock st)) st of
          Inl e \<Rightarrow> if e = pgUnique then Inr ((), st) else Inl e
        | Inr r \<Rightarrow> Inr r
      else Inr ((), st))"

text \<open>The audit of the registration: its failure is ignored. The one failure here is that of \<open>NewUUID\<close>, before any
  statement is sent; a statement that failed would abort the transaction.\<close>

definition ignoreErr :: "unit tx \<Rightarrow> unit tx" where
  "ignoreErr m st = (case m st of Inl e \<Rightarrow> Inr ((), st) | Inr r \<Rightarrow> Inr r)"

definition createPasswordUserTx :: "str \<Rightarrow> str \<Rightarrow> str \<Rightarrow> str \<Rightarrow> str tx" where
  "createPasswordUserTx email name hash algo =
     bindT (insertPasswordUserTx (''email:'' @ email) email name hash algo) (\<lambda>uid.
     bindT getT (\<lambda>st. case roleIdByCodeTx ''platform_admin'' st of
       Inl e \<Rightarrow> if e = ErrNotFound then retT uid else failT e
     | Inr (rid, _) \<Rightarrow> bindT newUUID (\<lambda>bid.
         bindT (firstUserGrant bid uid rid) (\<lambda>_.
         bindT (ignoreErr (recordRoleBindingAuditTx ''register'' ''grant_role'' uid rid ''global'' [])) (\<lambda>_.
         retT uid)))))"

definition createPasswordUser :: "str \<Rightarrow> str \<Rightarrow> str \<Rightarrow> str \<Rightarrow> store \<Rightarrow> (goErr + user) \<times> store" where
  "createPasswordUser email0 name0 hash algo st = (let email = trimSpace (toLower email0); name = trimSpace name0 in
     if email = [] \<or> name = [] then (Inl (ErrMsg ''email and name are required''), st)
     else case runTx (createPasswordUserTx email name hash algo) st of
         (Inl e, st') \<Rightarrow> (Inl e, st')
       | (Inr _, st') \<Rightarrow> (case getUserByEmail st' email of
           Inl e \<Rightarrow> (Inl e, st')
         | Inr u \<Rightarrow> (Inr u, cacheUserLabel (u_id u) (u_name u) st')))"

definition updateUsers :: "(user \<Rightarrow> bool) \<Rightarrow> (user \<Rightarrow> user) \<Rightarrow> store \<Rightarrow> store" where
  "updateUsers p f st = st\<lparr>usersT := map (\<lambda>u. if p u then f u else u) (usersT st)\<rparr>"

definition newCredentials :: "str \<Rightarrow> str \<Rightarrow> nat \<Rightarrow> user \<Rightarrow> user" where
  "newCredentials hash algo now u = u\<lparr>u_hash := hash, u_algo := algo, u_tva := Some now\<rparr>"

definition updatePasswordHash :: "str \<Rightarrow> str \<Rightarrow> str \<Rightarrow> store \<Rightarrow> (goErr + user) \<times> store" where
  "updatePasswordHash userId hash algo st = (let i = trimSpace userId in
     if i = [] then (Inl ErrNotFound, st)
     else let st' = updateUsers (\<lambda>u. u_id u = i) (newCredentials hash algo (clock st)) st in (getUserByIdA st' i, st'))"

definition updatePasswordHashByExternalId :: "str \<Rightarrow> str \<Rightarrow> str \<Rightarrow> store \<Rightarrow> (goErr + user) \<times> store" where
  "updatePasswordHashByExternalId ext0 hash algo st = (let e = trimSpace ext0 in
     if e = [] then (Inl ErrNotFound, st)
     else let st' = updateUsers (\<lambda>u. u_ext u = e) (newCredentials hash algo (clock st)) st
       in (getUserByExternalIdA st' e, st'))"

text \<open>\<open>update ... returning tokens_valid_after\<close>; no row is \<open>ErrNotFound\<close>.\<close>

definition bumpWhere :: "(user \<Rightarrow> bool) \<Rightarrow> store \<Rightarrow> (goErr + nat) \<times> store" where
  "bumpWhere p st = (if list_ex p (usersT st)
     then (Inr (clock st), updateUsers p (\<lambda>u. u\<lparr>u_tva := Some (clock st)\<rparr>) st) else (Inl ErrNotFound, st))"

definition bumpTokensValidAfter :: "str \<Rightarrow> store \<Rightarrow> (goErr + nat) \<times> store" where
  "bumpTokensValidAfter userId st = (let i = trimSpace userId in
     if i = [] then (Inl ErrNotFound, st) else bumpWhere (\<lambda>u. u_id u = i) st)"

definition bumpTokensValidAfterByExternalId :: "str \<Rightarrow> store \<Rightarrow> (goErr + nat) \<times> store" where
  "bumpTokensValidAfterByExternalId ext0 st = (let e = trimSpace ext0 in
     if e = [] then (Inl ErrNotFound, st) else bumpWhere (\<lambda>u. u_ext u = e) st)"

definition tvaOf :: "user \<Rightarrow> nat" where
  "tvaOf u = (case u_tva u of None \<Rightarrow> 0 | Some t \<Rightarrow> t)"

definition getTokensValidAfter :: "store \<Rightarrow> str \<Rightarrow> goErr + nat" where
  "getTokensValidAfter st userId = (let i = trimSpace userId in
     if i = [] then Inl ErrNotFound else bindE (optE ErrNotFound (findUser i st)) (\<lambda>u. Inr (tvaOf u)))"

definition listUsersWithTokensValidAfter :: "store \<Rightarrow> (str \<times> nat) list" where
  "listUsersWithTokensValidAfter st = map (\<lambda>u. (u_id u, tvaOf u)) (usersT st)"

definition touchLastSeen :: "str \<Rightarrow> store \<Rightarrow> store" where
  "touchLastSeen userId st = (let i = trimSpace userId in
     if i = [] then st else updateUsers (\<lambda>u. u_id u = i) (\<lambda>u. u\<lparr>u_lastSeenAt := Some (clock st)\<rparr>) st)"

text \<open>The user of a company token, found by the external identifier or created. A disabled user is not found, and
  then the insertion violates the unique index.\<close>

definition companyUser :: "str \<Rightarrow> str \<Rightarrow> str \<Rightarrow> str \<Rightarrow> nat \<Rightarrow> user" where
  "companyUser i ext name email now = (jwtUser i name email now)\<lparr>u_ext := ext\<rparr>"

definition ensureJWTUser :: "str \<Rightarrow> str \<Rightarrow> str \<Rightarrow> store \<Rightarrow> (goErr + str \<times> str) \<times> store" where
  "ensureJWTUser staff0 name0 email0 st =
     (let staff = trimSpace staff0; name = trimSpace name0; email = trimSpace (toLower email0) in
      if staff = [] then (Inl (ErrMsg ''staffUserId is required''), st)
      else case findFirst (\<lambda>u. u_ext u = staff \<and> \<not> u_disabled u) (usersT st) of
        Some u \<Rightarrow> (Inr (u_id u, if u_name u = [] then name else u_name u),
          updateUsers (\<lambda>x. u_id x = u_id u) (\<lambda>x. x\<lparr>u_lastSeenAt := Some (clock st)\<rparr>) st)
      | None \<Rightarrow> (case newUUID st of Inl e \<Rightarrow> (Inl e, st)
          | Inr (i, st1) \<Rightarrow> let shown = (if name = [] then staff else name) in
              (case insertUser (companyUser i staff shown email (clock st1)) st1 of
                 Inl e \<Rightarrow> (Inl e, st1)
               | Inr (_, st2) \<Rightarrow> (Inr (i, shown), cacheUserLabel i shown st2))))"

section \<open>Login attempts\<close>

record loginAttempt =
  la_email :: str
  la_ip :: str
  la_success :: bool
  la_user :: "str option"
  la_at :: nat

definition loginAttemptRow :: "str \<Rightarrow> str \<Rightarrow> bool \<Rightarrow> str \<Rightarrow> nat \<Rightarrow> loginAttempt" where
  "loginAttemptRow email ip success userId now = \<lparr> la_email = email, la_ip = ip, la_success = success,
     la_user = (if trimSpace userId \<noteq> [] then Some userId else None), la_at = now \<rparr>"

text \<open>The insertion draws an identifier; the callers ignore its failure.\<close>

definition recordLoginAttempt :: "str \<Rightarrow> str \<Rightarrow> bool \<Rightarrow> str \<Rightarrow> store \<times> loginAttempt list \<Rightarrow> store \<times> loginAttempt list" where
  "recordLoginAttempt email ip success userId s = (case newUUID (fst s) of
       Inl e \<Rightarrow> s
     | Inr (_, st') \<Rightarrow> (st', snd s @ [loginAttemptRow email ip success userId (clock (fst s))]))"

text \<open>The interval is the window in whole seconds.\<close>

definition countRecentFailedByIP :: "str \<Rightarrow> nat \<Rightarrow> nat \<Rightarrow> loginAttempt list \<Rightarrow> nat" where
  "countRecentFailedByIP ip0 window now rows = (let ip = trimSpace ip0 in
     if ip = [] then 0
     else length (filter (\<lambda>r. la_ip r = ip \<and> \<not> la_success r \<and> now < la_at r + window div 1000000 * 1000000) rows))"

section \<open>Personal access tokens\<close>

definition accessTokenOf :: "tokenRow \<Rightarrow> accessToken" where
  "accessTokenOf t = \<lparr> at_id = t_id t, at_userId = t_user t, at_name = t_name t, at_prefix = t_prefix t,
     at_expiresAt = t_expires t, at_lastUsedAt = t_lastUsed t, at_createdAt = t_createdAt t \<rparr>"

definition insertToken :: "tokenRow \<Rightarrow> unit tx" where
  "insertToken t st =
     (if t_id t \<in> set (map t_id (tokensT st)) then Inl pgUnique
      else if list_ex (\<lambda>x. t_hash x = t_hash t \<and> t_deletedAt x = None) (tokensT st) then Inl pgUnique
      else if findUser (t_user t) st = None then Inl pgForeignKey
      else Inr ((), st\<lparr>tokensT := tokensT st @ [t]\<rparr>))"

definition createToken :: "str \<Rightarrow> str \<Rightarrow> str \<Rightarrow> str \<Rightarrow> nat option \<Rightarrow> store \<Rightarrow> (goErr + accessToken) \<times> store" where
  "createToken userId name tokenHash tokenPrefix expiresAt st = (case newUUID st of
       Inl e \<Rightarrow> (Inl e, st)
     | Inr (i, st1) \<Rightarrow> let row = \<lparr> t_id = i, t_user = userId, t_name = name, t_hash = tokenHash, t_prefix = tokenPrefix,
           t_expires = expiresAt, t_lastUsed = None, t_createdAt = clock st1, t_deletedAt = None \<rparr> in
         (case insertToken row st1 of Inl e \<Rightarrow> (Inl e, st1) | Inr (_, st2) \<Rightarrow> (Inr (accessTokenOf row), st2)))"

definition listTokensByUser :: "store \<Rightarrow> str \<Rightarrow> accessToken list" where
  "listTokensByUser st userId = map accessTokenOf
     (sort_key (\<lambda>t. - int (t_createdAt t)) (filter (\<lambda>t. t_user t = userId \<and> t_deletedAt t = None) (tokensT st)))"

definition updateTokens :: "(tokenRow \<Rightarrow> bool) \<Rightarrow> (tokenRow \<Rightarrow> tokenRow) \<Rightarrow> store \<Rightarrow> store" where
  "updateTokens p f st = st\<lparr>tokensT := map (\<lambda>t. if p t then f t else t) (tokensT st)\<rparr>"

definition softDeleteToken :: "str \<Rightarrow> str \<Rightarrow> store \<Rightarrow> (goErr + unit) \<times> store" where
  "softDeleteToken tokenId userId st =
     (let p = (\<lambda>t. t_id t = tokenId \<and> t_user t = userId \<and> t_deletedAt t = None) in
      if list_ex p (tokensT st) then (Inr (), updateTokens p (\<lambda>t. t\<lparr>t_deletedAt := Some (clock st)\<rparr>) st)
      else (Inl ErrNotFound, st))"

definition validatePAT :: "str \<Rightarrow> store \<Rightarrow> (goErr + str) \<times> store" where
  "validatePAT tokenHash st = (let p = (\<lambda>t. t_hash t = tokenHash \<and> t_deletedAt t = None) in
     case findFirst p (tokensT st) of
       None \<Rightarrow> (Inl ErrNotFound, st)
     | Some t \<Rightarrow> (case t_expires t of
           Some e \<Rightarrow> if e < clock st then (Inl ErrNotFound, st)
             else (Inr (t_user t), updateTokens p (\<lambda>t. t\<lparr>t_lastUsed := Some (clock st)\<rparr>) st)
         | None \<Rightarrow> (Inr (t_user t), updateTokens p (\<lambda>t. t\<lparr>t_lastUsed := Some (clock st)\<rparr>) st)))"

end
