(* ===== verification/Tokens.thy ===== *)
theory Tokens
  imports AuthStore
begin

text \<open>
  JSON web tokens and their revocation: the process-local cache of \<open>tokens_valid_after\<close>
  (\<open>internal/auth/tokens_cache.go\<close>), claims, keys and the middleware of \<open>jwt.go\<close>.  Parameters stand for
  \<open>crypto/x509\<close> with \<open>encoding/pem\<close> (\<open>keyLib\<close>) and \<open>github.com/golang-jwt/jwt\<close> (\<open>jwtLib\<close>).  Times are
  microseconds.
\<close>

section \<open>The cache of revocation times\<close>

text \<open>A nil cache is \<open>None\<close>; the loader reads the database.\<close>

type_synonym tokensCache = "str \<rightharpoonup> nat"

definition cacheGet :: "(str \<Rightarrow> goErr + nat) option \<Rightarrow> str \<Rightarrow> tokensCache \<Rightarrow> nat option \<times> tokensCache" where
  "cacheGet loader userId c =
     (if userId = [] then (None, c)
      else case c userId of
        Some tva \<Rightarrow> (Some tva, c)
      | None \<Rightarrow> (case loader of None \<Rightarrow> (None, c)
          | Some load \<Rightarrow> (case load userId of Inl e \<Rightarrow> (None, c) | Inr v \<Rightarrow> (Some v, c(userId \<mapsto> v)))))"

definition cacheSet :: "str \<Rightarrow> nat \<Rightarrow> tokensCache \<Rightarrow> tokensCache" where
  "cacheSet userId tva c = (if userId = [] then c else c(userId \<mapsto> tva))"

definition cacheInvalidate :: "str \<Rightarrow> tokensCache \<Rightarrow> tokensCache" where
  "cacheInvalidate userId c = (if userId = [] then c else c(userId := None))"

definition setBatch :: "(str \<times> nat) list \<Rightarrow> tokensCache \<Rightarrow> tokensCache" where
  "setBatch values c = map_of (rev values)"

section \<open>Keys\<close>

datatype publicKey = RSAPublic str | ECDSAPublic str | Ed25519Public str | OtherPublic

datatype privateKey = RSAPrivate str | ECDSAPrivate nat str | Ed25519Private str | OtherPrivate

datatype signingMethod = RS nat | PS nat | ES nat | EdDSA | HS nat | NoneMethod

record keyLib =
  kl_pem :: "str \<Rightarrow> str option"
  kl_certificate :: "str \<Rightarrow> publicKey option"
  kl_pkix :: "str \<Rightarrow> publicKey option"
  kl_pkcs1Public :: "str \<Rightarrow> publicKey option"
  kl_pkcs8 :: "str \<Rightarrow> privateKey option"
  kl_pkcs1 :: "str \<Rightarrow> privateKey option"
  kl_ec :: "str \<Rightarrow> privateKey option"

text \<open>\<open>strings.ReplaceAll\<close> of a backslash followed by \<open>n\<close> by a line break.\<close>

fun unescapeNewlines :: "str \<Rightarrow> str" where
  "unescapeNewlines (c # d # s) =
     (if c = CHR 0x5C \<and> d = CHR ''n'' then CHR 0x0A # unescapeNewlines s else c # unescapeNewlines (d # s))"
| "unescapeNewlines s = s"

fun firstKey :: "(str \<Rightarrow> 'k option) list \<Rightarrow> str \<Rightarrow> 'k option" where
  "firstKey [] block = None"
| "firstKey (p # ps) block = (case p block of Some k \<Rightarrow> Some k | None \<Rightarrow> firstKey ps block)"

definition parsePublicKey :: "keyLib \<Rightarrow> str \<Rightarrow> goErr + publicKey" where
  "parsePublicKey kl value0 = (let value = trimSpace (unescapeNewlines value0) in
     if value = [] then Inl ErrMissingPublicKey
     else case kl_pem kl value of None \<Rightarrow> Inl ErrInvalidPublicKey
       | Some block \<Rightarrow> optE ErrInvalidPublicKey
           (firstKey [kl_certificate kl, kl_pkix kl, kl_pkcs1Public kl] block))"

definition parsePrivateKey :: "keyLib \<Rightarrow> str \<Rightarrow> goErr + privateKey" where
  "parsePrivateKey kl value0 = (let value = trimSpace (unescapeNewlines value0) in
     if value = [] then Inl ErrMissingPrivateKey
     else case kl_pem kl value of None \<Rightarrow> Inl ErrInvalidPrivateKey
       | Some block \<Rightarrow> optE ErrInvalidPrivateKey (firstKey [kl_pkcs8 kl, kl_pkcs1 kl, kl_ec kl] block))"

fun matchesPublicKeySigningMethod :: "signingMethod \<Rightarrow> publicKey \<Rightarrow> bool" where
  "matchesPublicKeySigningMethod m (RSAPublic k) = (case m of RS n \<Rightarrow> True | PS n \<Rightarrow> True | _ \<Rightarrow> False)"
| "matchesPublicKeySigningMethod m (ECDSAPublic k) = (case m of ES n \<Rightarrow> True | _ \<Rightarrow> False)"
| "matchesPublicKeySigningMethod m (Ed25519Public k) = (m = EdDSA)"
| "matchesPublicKeySigningMethod m OtherPublic = False"

fun signingMethodForPrivateKey :: "privateKey \<Rightarrow> goErr + signingMethod" where
  "signingMethodForPrivateKey (RSAPrivate k) = Inr (RS 256)"
| "signingMethodForPrivateKey (ECDSAPrivate bits k) =
     (if bits = 256 then Inr (ES 256) else if bits = 384 then Inr (ES 384)
      else if bits = 521 then Inr (ES 512) else Inl ErrInvalidPrivateKey)"
| "signingMethodForPrivateKey (Ed25519Private k) = Inr EdDSA"
| "signingMethodForPrivateKey OtherPrivate = Inl ErrInvalidPrivateKey"

section \<open>Claims\<close>

record claims =
  cl_userId :: str
  cl_name :: str
  cl_staffUserId :: str
  cl_staffEmail :: str
  cl_jwt :: str
  cl_cookie :: str
  cl_subject :: str
  cl_issuedAt :: "nat option"
  cl_expiresAt :: "nat option"

definition noClaims :: claims where
  "noClaims = \<lparr> cl_userId = [], cl_name = [], cl_staffUserId = [], cl_staffEmail = [], cl_jwt = [], cl_cookie = [],
     cl_subject = [], cl_issuedAt = None, cl_expiresAt = None \<rparr>"

text \<open>\<open>tva\<close> is \<open>None\<close> for the zero time.\<close>

definition isRevokedBy :: "claims \<Rightarrow> nat option \<Rightarrow> bool" where
  "isRevokedBy c tva = (case tva of None \<Rightarrow> False
     | Some t \<Rightarrow> (case cl_issuedAt c of None \<Rightarrow> False | Some iat \<Rightarrow> iat < t))"

text \<open>\<open>jl_numericDate\<close> is \<open>jwt.NewNumericDate\<close>, \<open>jl_sign\<close> is \<open>NewWithClaims(...).SignedString\<close>, and \<open>jl_parse\<close> is
  \<open>ParseWithClaims\<close> at a time, with the key function that maps the method of the token to the key.\<close>

record jwtLib =
  jl_numericDate :: "nat \<Rightarrow> nat"
  jl_sign :: "signingMethod \<Rightarrow> privateKey \<Rightarrow> claims \<Rightarrow> goErr + str"
  jl_parse :: "(signingMethod \<Rightarrow> goErr + publicKey) \<Rightarrow> nat \<Rightarrow> str \<Rightarrow> goErr + claims"

definition signToken :: "keyLib \<Rightarrow> jwtLib \<Rightarrow> str \<Rightarrow> claims \<Rightarrow> goErr + str" where
  "signToken kl jl privateKeyPEM c = bindE (parsePrivateKey kl privateKeyPEM) (\<lambda>k.
     bindE (signingMethodForPrivateKey k) (\<lambda>m. jl_sign jl m k c))"

definition jwtRegisteredClaimsAt :: "jwtLib \<Rightarrow> nat \<Rightarrow> nat \<Rightarrow> str \<Rightarrow> claims \<Rightarrow> claims" where
  "jwtRegisteredClaimsAt jl issuedAt expiresAt subject c = c\<lparr>cl_subject := subject,
     cl_issuedAt := Some (jl_numericDate jl issuedAt), cl_expiresAt := Some (jl_numericDate jl expiresAt)\<rparr>"

section \<open>The middleware\<close>

definition bearerToken :: "str \<Rightarrow> goErr + str" where
  "bearerToken header =
     (if header = [] then Inl ErrMissingBearerToken
      else if \<not> hasPrefix ''Bearer '' header then Inl ErrMissingBearerToken
      else let token = trimSpace (drop (length ''Bearer '') header) in
        if token = [] then Inl ErrMissingBearerToken else Inr token)"

definition isHexRune :: "char \<Rightarrow> bool" where
  "isHexRune c = (c \<in> set ''0123456789abcdefABCDEF'')"

definition isUUID :: "str \<Rightarrow> bool" where
  "isUUID value0 = (let value = trimSpace value0 in length value = 36 \<and>
     list_all (\<lambda>(i, ch). if i \<in> {8, 13, 18, 23} then ch = CHR ''-'' else isHexRune ch) (enumerate 0 value))"

text \<open>The state that a request to a protected route meets: the database and the cache. An abort is the HTTP status
  with the error.\<close>

record session =
  se_st :: store
  se_tokens :: "tokensCache option"

type_synonym resolver = "str \<Rightarrow> claims \<Rightarrow> store \<Rightarrow> (goErr + str \<times> str) \<times> store"

record jwtConfig =
  jc_publicKey :: str
  jc_resolver :: "resolver option"

definition resolveUser :: "jwtConfig \<Rightarrow> claims \<Rightarrow> store \<Rightarrow> (goErr + claims) \<times> store" where
  "resolveUser cfg c st = (case (if cl_staffUserId c = [] then None else jc_resolver cfg) of
       Some res \<Rightarrow> (case res (cl_staffUserId c) c st of
           (Inl e, st') \<Rightarrow> (Inl (ErrMsg ''user resolution failed''), st')
         | (Inr (i, name), st') \<Rightarrow>
             if \<not> isUUID i then (Inl ErrInvalidUserID, st')
             else (Inr (c\<lparr>cl_userId := i, cl_name := (if name \<noteq> [] then name else cl_name c)\<rparr>), st'))
     | None \<Rightarrow> (if isUUID (cl_userId c) then Inr c else Inl ErrInvalidUserID, st))"

definition checkRevoked :: "claims \<Rightarrow> session \<Rightarrow> bool \<times> session" where
  "checkRevoked c s = (case se_tokens s of
       None \<Rightarrow> (False, s)
     | Some tc \<Rightarrow> (case cacheGet (Some (getTokensValidAfter (se_st s))) (cl_userId c) tc of
         (tva, tc') \<Rightarrow> (isRevokedBy c tva, s\<lparr>se_tokens := Some tc'\<rparr>)))"

definition keyFunc :: "publicKey \<Rightarrow> signingMethod \<Rightarrow> goErr + publicKey" where
  "keyFunc k m = (if matchesPublicKeySigningMethod m k then Inr k else Inl (ErrMsg ''token signature is invalid''))"

definition jwtMiddleware :: "keyLib \<Rightarrow> jwtLib \<Rightarrow> jwtConfig \<Rightarrow> str \<Rightarrow> session \<Rightarrow> ((nat \<times> goErr) + claims) \<times> session" where
  "jwtMiddleware kl jl cfg header s = (case parsePublicKey kl (jc_publicKey cfg) of
       Inl e \<Rightarrow> (Inl (503, e), s)
     | Inr k \<Rightarrow> (case bearerToken header of
         Inl e \<Rightarrow> (Inl (401, e), s)
       | Inr token \<Rightarrow> (case jl_parse jl (keyFunc k) (clock (se_st s)) token of
           Inl e \<Rightarrow> (Inl (401, ErrMsg ''token has invalid claims''), s)
         | Inr c0 \<Rightarrow> (case resolveUser cfg c0 (se_st s) of
             (Inl e, st') \<Rightarrow> (Inl (401, e), s\<lparr>se_st := st'\<rparr>)
           | (Inr c, st') \<Rightarrow> (case checkRevoked c (s\<lparr>se_st := st'\<rparr>) of
               (True, s') \<Rightarrow> (Inl (401, ErrTokenRevoked), s')
             | (False, s') \<Rightarrow> (Inr c, s'))))))"

definition staticUserMiddleware :: "userInfo \<Rightarrow> (nat \<times> goErr) + claims" where
  "staticUserMiddleware u = (if \<not> isUUID (ui_id u) then Inl (503, ErrInvalidUserID)
     else Inr (noClaims\<lparr>cl_userId := ui_id u, cl_name := ui_name u\<rparr>))"

definition userFromContext :: "claims option \<Rightarrow> userInfo" where
  "userFromContext value = (let c = (case value of None \<Rightarrow> noClaims | Some c \<Rightarrow> c) in
     \<lparr> ui_id = cl_userId c, ui_name = cl_name c, ui_jwt = cl_jwt c, ui_cookie = cl_cookie c \<rparr>)"

section \<open>Personal access tokens in the middleware\<close>

definition patPrefix :: str where "patPrefix = ''envvault-''"

definition isPAT :: "str \<Rightarrow> bool" where "isPAT authHeader = hasPrefix (''Bearer '' @ patPrefix) authHeader"

definition extractPAT :: "str \<Rightarrow> str" where
  "extractPAT authHeader = (if hasPrefix ''Bearer '' authHeader then drop (length ''Bearer '') authHeader else authHeader)"

end
