(* ===== verification/Password.thy ===== *)
theory Password
  imports Crypto "HOL-Library.Word"
begin

text \<open>
  Password hashes, \<open>internal/auth/password.go\<close>, with what it uses of the standard library: unpadded base64
  (\<open>encoding/base64\<close>) and the formatting and scanning of \<open>%d\<close> (\<open>fmt\<close>).  The key derivation of
  \<open>golang.org/x/crypto/argon2\<close> is the parameter \<open>argon\<close>.  A byte of a Go string is a \<open>char\<close>, a byte of a slice
  from \<open>rand.Read\<close> a number below 256.  \<open>argon2.IDKey\<close> panics for zero rounds or zero threads, which is left
  out.
\<close>

section \<open>Base64 without padding\<close>

definition stdAlphabet :: str where
  "stdAlphabet = ''ABCDEFGHIJKLMNOPQRSTUVWXYZabcdefghijklmnopqrstuvwxyz0123456789+/''"

definition urlAlphabet :: str where
  "urlAlphabet = ''ABCDEFGHIJKLMNOPQRSTUVWXYZabcdefghijklmnopqrstuvwxyz0123456789-_''"

fun sextets :: "nat list \<Rightarrow> nat list" where
  "sextets [] = []"
| "sextets [a] = [a div 4, a mod 4 * 16]"
| "sextets [a, b] = [a div 4, a mod 4 * 16 + b div 16, b mod 16 * 4]"
| "sextets (a # b # c # bs) = a div 4 # (a mod 4 * 16 + b div 16) # (b mod 16 * 4 + c div 64) # c mod 64 # sextets bs"

fun octets :: "nat list \<Rightarrow> nat list option" where
  "octets [] = Some []"
| "octets [v] = None"
| "octets [v, w] = Some [v * 4 + w div 16]"
| "octets [v, w, x] = Some [v * 4 + w div 16, w mod 16 * 16 + x div 4]"
| "octets (v # w # x # y # vs) =
     map_option (\<lambda>bs. (v * 4 + w div 16) # (w mod 16 * 16 + x div 4) # (x mod 4 * 64 + y) # bs) (octets vs)"

definition encodeToString :: "str \<Rightarrow> str \<Rightarrow> str" where
  "encodeToString alphabet bs = map (\<lambda>v. alphabet ! v) (sextets (map of_char bs))"

text \<open>Decoding skips line breaks and does not look at the unused bits of the last character.\<close>

definition decodeString :: "str \<Rightarrow> str \<Rightarrow> str option" where
  "decodeString alphabet s =
     (let vs = map (map_of (zip alphabet [0..<64])) (filter (\<lambda>c. c \<notin> {CHR 0x0A, CHR 0x0D}) s) in
      if None \<in> set vs then None else map_option (map char_of) (octets (map the vs)))"

lemma sextets_below: "\<forall>b \<in> set bs. b < 256 \<Longrightarrow> v \<in> set (sextets bs) \<Longrightarrow> v < 64"
  by (induction bs rule: sextets.induct) (auto simp: less_mult_imp_div_less)

lemma octets_sextets: "\<forall>b \<in> set bs. b < 256 \<Longrightarrow> octets (sextets bs) = Some bs"
  by (induction bs rule: sextets.induct) auto

lemma map_of_zip_index:
  assumes "distinct xs" "i < length xs" "length ys = length xs"
  shows "map_of (zip xs ys) (xs ! i) = Some (ys ! i)"
proof -
  have "(xs ! i, ys ! i) \<in> set (zip xs ys)" using assms by (auto simp: set_zip)
  then show ?thesis using assms by (simp add: map_of_is_SomeI)
qed

definition alphabetOk :: "str \<Rightarrow> bool" where
  "alphabetOk al \<longleftrightarrow> distinct al \<and> length al = 64 \<and> list_all (\<lambda>c. c \<notin> {CHR 0x0A, CHR 0x0D, CHR ''$''}) al"

lemma alphabets_ok: "alphabetOk stdAlphabet" "alphabetOk urlAlphabet"
  by code_simp+

lemma encode_chars:
  assumes "alphabetOk al" "c \<in> set (encodeToString al bs)"
  shows "c \<in> set al"
proof -
  from assms(2) obtain v where v: "v \<in> set (sextets (map of_char bs))" "c = al ! v"
    by (auto simp: encodeToString_def)
  have "v < 64" by (rule sextets_below [OF _ v(1)]) (auto simp: of_char_eq_iff)
  with v(2) assms(1) show ?thesis by (simp add: alphabetOk_def)
qed

lemma decode_encode:
  assumes al: "alphabetOk al"
  shows "decodeString al (encodeToString al bs) = Some bs"
proof -
  let ?ss = "sextets (map of_char bs)"
  have b: "\<forall>b \<in> set (map of_char bs :: nat list). b < 256" by auto
  have keep: "filter (\<lambda>c. c \<notin> {CHR 0x0A, CHR 0x0D}) (encodeToString al bs) = encodeToString al bs"
  proof (rule filter_True, rule ballI)
    fix c assume "c \<in> set (encodeToString al bs)"
    then have "c \<in> set al" by (rule encode_chars [OF al])
    then show "c \<notin> {CHR 0x0A, CHR 0x0D}" using al by (auto simp: alphabetOk_def list_all_iff)
  qed
  have m: "map (map_of (zip al [0..<64])) (encodeToString al bs) = map Some ?ss"
    unfolding encodeToString_def map_map
  proof (rule map_cong [OF refl])
    fix v assume "v \<in> set ?ss"
    then have "v < 64" using sextets_below [OF b] by blast
    then show "(map_of (zip al [0..<64]) \<circ> (!) al) v = Some v"
      using al map_of_zip_index [of al v "[0..<64]"] by (simp add: alphabetOk_def)
  qed
  show ?thesis unfolding decodeString_def keep m Let_def using octets_sextets [OF b] by (simp add: comp_def)
qed

section \<open>Formatting and scanning\<close>

definition digitC :: "nat \<Rightarrow> char" where "digitC d = char_of (48 + d)"

fun decimal :: "nat \<Rightarrow> str" where
  "decimal n = (if n < 10 then [digitC n] else decimal (n div 10) @ [digitC (n mod 10)])"

declare decimal.simps [simp del]

definition numeral_of :: "str \<Rightarrow> nat" where
  "numeral_of s = foldl (\<lambda>n c. n * 10 + (of_char c - 48)) 0 s"

text \<open>A format is a list of literal characters and \<open>%d\<close> verbs; a verb is signed (\<open>int\<close>) or unsigned, of some width.
  \<open>Sscanf\<close> skips blanks before a number, stops at a line break with an error, and leaves the rest of the input.\<close>

datatype verb = Lit char | SignedD nat | UnsignedD nat

definition scanNumber :: "str \<Rightarrow> goErr + nat \<times> str" where
  "scanNumber s = (let ds = takeWhile isDigitC s in
     if ds = [] then Inl (ErrMsg ''expected integer'') else Inr (numeral_of ds, dropWhile isDigitC s))"

definition skipSpace :: "str \<Rightarrow> goErr + str" where
  "skipSpace s = (let t = dropWhile (\<lambda>c. isSpace c \<and> c \<noteq> CHR 0x0A) s in
     case t of [] \<Rightarrow> Inl (ErrMsg ''EOF'') | c # _ \<Rightarrow> if c = CHR 0x0A then Inl (ErrMsg ''unexpected newline'') else Inr t)"

definition scanSign :: "str \<Rightarrow> int \<times> str" where
  "scanSign s = (case s of [] \<Rightarrow> (1, s)
     | c # t \<Rightarrow> if c = CHR ''-'' then (-1, t) else if c = CHR ''+'' then (1, t) else (1, s))"

fun sscanf :: "verb list \<Rightarrow> str \<Rightarrow> goErr + int list" where
  "sscanf [] s = Inr []"
| "sscanf (Lit c # f) s = (case s of [] \<Rightarrow> Inl (ErrMsg ''unexpected EOF'')
     | x # t \<Rightarrow> if x = c then sscanf f t else Inl (ErrMsg ''input does not match format''))"
| "sscanf (SignedD w # f) s = bindE (skipSpace s) (\<lambda>s. case scanSign s of (sg, s) \<Rightarrow>
     bindE (scanNumber s) (\<lambda>(n, s). let v = sg * int n in
       if - (2 ^ (w - 1)) \<le> v \<and> v < 2 ^ (w - 1) then bindE (sscanf f s) (\<lambda>vs. Inr (v # vs))
       else Inl (ErrMsg ''integer overflow'')))"
| "sscanf (UnsignedD w # f) s = bindE (skipSpace s) (\<lambda>s.
     bindE (scanNumber s) (\<lambda>(n, s).
       if n < 2 ^ w then bindE (sscanf f s) (\<lambda>vs. Inr (int n # vs)) else Inl (ErrMsg ''unsigned integer overflow'')))"

lemma digitC_facts: "d < 10 \<Longrightarrow> isDigitC (digitC d)" "d < 10 \<Longrightarrow> (of_char (digitC d) :: nat) = 48 + d"
  by (simp_all add: digitC_def isDigitC_def)

lemma decimal_digits: "c \<in> set (decimal n) \<Longrightarrow> isDigitC c"
  by (induction n rule: decimal.induct) (subst (asm) (2) decimal.simps, auto simp: digitC_facts split: if_splits)

lemma decimal_ne: "decimal n \<noteq> []" by (subst decimal.simps) simp

lemma numeral_of_decimal: "numeral_of (decimal n) = n"
proof (induction n rule: decimal.induct)
  case (1 n)
  then show ?case by (subst decimal.simps) (auto simp: numeral_of_def digitC_facts)
qed

lemma isDigitC_other: "isDigitC c \<Longrightarrow> \<not> isSpace c \<and> c \<notin> set ''$,=+-''"
  by (auto simp: isDigitC_def isSpace_def)

lemma scan_decimal:
  assumes "s = [] \<or> \<not> isDigitC (hd s)"
  shows "scanNumber (decimal n @ s) = Inr (n, s)" "skipSpace (decimal n @ s) = Inr (decimal n @ s)"
    "scanSign (decimal n @ s) = (1, decimal n @ s)"
proof -
  have t: "takeWhile isDigitC (decimal n @ s) = decimal n" "dropWhile isDigitC (decimal n @ s) = s"
    using assms decimal_digits by (cases s; auto simp: takeWhile_append dropWhile_append)+
  then show "scanNumber (decimal n @ s) = Inr (n, s)" by (simp add: scanNumber_def decimal_ne numeral_of_decimal)
  obtain c u where c: "decimal n = c # u" using decimal_ne by (cases "decimal n") auto
  then have d: "isDigitC c" using decimal_digits [of c n] by simp
  show "skipSpace (decimal n @ s) = Inr (decimal n @ s)" using isDigitC_other [OF d] c
    by (auto simp: skipSpace_def isSpace_def)
  show "scanSign (decimal n @ s) = (1, decimal n @ s)" using isDigitC_other [OF d] c
    by (auto simp: scanSign_def)
qed

lemma sscanf_decimal [gostr]:
  assumes "s = [] \<or> \<not> isDigitC (hd s)"
  shows "n < 2 ^ w \<Longrightarrow> sscanf (UnsignedD w # f) (decimal n @ s) = bindE (sscanf f s) (\<lambda>vs. Inr (int n # vs))"
    "int n < 2 ^ (w - 1) \<Longrightarrow> sscanf (SignedD w # f) (decimal n @ s) = bindE (sscanf f s) (\<lambda>vs. Inr (int n # vs))"
proof -
  have "- (2 ^ (w - 1)) \<le> int n" by (rule order.trans [of _ 0]) auto
  then show "int n < 2 ^ (w - 1) \<Longrightarrow> sscanf (SignedD w # f) (decimal n @ s) = bindE (sscanf f s) (\<lambda>vs. Inr (int n # vs))"
    by (simp add: scan_decimal [OF assms])
qed (simp add: scan_decimal [OF assms])

section \<open>Argon2id hashes\<close>

record passwordParams =
  pp_memory :: "32 word"
  pp_iterations :: "32 word"
  pp_parallelism :: "8 word"
  pp_saltLength :: "32 word"
  pp_keyLength :: "32 word"

text \<open>\<open>ar_key password salt time memory threads keyLen\<close> is \<open>argon2.IDKey\<close>.\<close>

record argon =
  ar_version :: nat
  ar_key :: "str \<Rightarrow> str \<Rightarrow> 32 word \<Rightarrow> 32 word \<Rightarrow> 8 word \<Rightarrow> 32 word \<Rightarrow> str"

definition argonOk :: "argon \<Rightarrow> bool" where
  "argonOk ar \<longleftrightarrow> ar_version ar < 2 ^ 63 \<and>
     (\<forall>p salt t m th n. length (ar_key ar p salt t m th n) = unat n)"

definition algoArgon2id :: str where "algoArgon2id = ''argon2id''"

definition defaultPasswordParams :: passwordParams where
  "defaultPasswordParams = \<lparr> pp_memory = 64 * 1024, pp_iterations = 3, pp_parallelism = 2, pp_saltLength = 16,
     pp_keyLength = 32 \<rparr>"

definition newArgon2idHasher :: "passwordParams \<Rightarrow> passwordParams" where
  "newArgon2idHasher params0 =
     (let p1 = (if pp_memory params0 = 0 \<and> pp_iterations params0 = 0 \<and> pp_parallelism params0 = 0
                then defaultPasswordParams else params0);
          p2 = (if pp_saltLength p1 = 0 then p1\<lparr>pp_saltLength := pp_saltLength defaultPasswordParams\<rparr> else p1)
      in if pp_keyLength p2 = 0 then p2\<lparr>pp_keyLength := pp_keyLength defaultPasswordParams\<rparr> else p2)"

definition encodedHash :: "nat \<Rightarrow> passwordParams \<Rightarrow> str \<Rightarrow> str \<Rightarrow> str" where
  "encodedHash version pp saltB64 hashB64 =
     ''$argon2id$v='' @ decimal version @ ''$m='' @ decimal (unat (pp_memory pp)) @ '',t='' @
     decimal (unat (pp_iterations pp)) @ '',p='' @ decimal (unat (pp_parallelism pp)) @ ''$'' @ saltB64 @ ''$'' @ hashB64"

definition hashPassword :: "argon \<Rightarrow> passwordParams \<Rightarrow> str \<Rightarrow> nat list \<Rightarrow> goErr + str \<times> nat list" where
  "hashPassword ar pp password rand =
     (if password = [] then Inl (ErrMsg ''password must not be empty'')
      else bindE (readNonce (unat (pp_saltLength pp)) rand) (\<lambda>(saltBytes, rest).
        let salt = map char_of saltBytes;
            hash = ar_key ar password salt (pp_iterations pp) (pp_memory pp) (pp_parallelism pp) (pp_keyLength pp)
        in Inr (encodedHash (ar_version ar) pp (encodeToString stdAlphabet salt) (encodeToString stdAlphabet hash), rest)))"

definition versionFormat :: "verb list" where "versionFormat = [Lit CHR ''v'', Lit CHR ''='', SignedD 64]"

definition paramsFormat :: "verb list" where
  "paramsFormat = [Lit CHR ''m'', Lit CHR ''='', UnsignedD 32, Lit CHR '','', Lit CHR ''t'', Lit CHR ''='', UnsignedD 32,
     Lit CHR '','', Lit CHR ''p'', Lit CHR ''='', UnsignedD 8]"

definition verifyPassword :: "argon \<Rightarrow> str \<Rightarrow> str \<Rightarrow> goErr + bool" where
  "verifyPassword ar encoded password = (let parts = splitOn CHR ''$'' encoded in
     if length parts \<noteq> 6 then Inl (ErrMsg ''expected 6 segments'')
     else if parts ! 1 \<noteq> algoArgon2id then Inl (ErrMsg ''unsupported algo'')
     else bindE (sscanf versionFormat (parts ! 2)) (\<lambda>vs.
       if vs ! 0 \<noteq> int (ar_version ar) then Inl (ErrMsg ''unsupported argon2 version'')
       else bindE (sscanf paramsFormat (parts ! 3)) (\<lambda>ps.
       bindE (optE (ErrMsg ''decode salt'') (decodeString stdAlphabet (parts ! 4))) (\<lambda>salt.
       bindE (optE (ErrMsg ''decode hash'') (decodeString stdAlphabet (parts ! 5))) (\<lambda>expected.
       Inr (ar_key ar password salt (word_of_int (ps ! 1)) (word_of_int (ps ! 0)) (word_of_int (ps ! 2))
         (of_nat (length expected)) = expected))))))"

lemma newArgon2idHasher_lengths: "pp_saltLength (newArgon2idHasher p) \<noteq> 0" "pp_keyLength (newArgon2idHasher p) \<noteq> 0"
  by (auto simp: newArgon2idHasher_def Let_def defaultPasswordParams_def)

lemma encoded_no_dollar: "CHR ''$'' \<notin> set (encodeToString stdAlphabet bs)"
  using encode_chars [OF alphabets_ok(1)] alphabets_ok(1) by (auto simp: alphabetOk_def list_all_iff)

lemma decimal_no_dollar: "CHR ''$'' \<notin> set (decimal n)"
  using decimal_digits isDigitC_other by fastforce

lemma encodedHash_parts:
  assumes "CHR ''$'' \<notin> set s" "CHR ''$'' \<notin> set h"
  shows "splitOn CHR ''$'' (encodedHash v pp s h) =
    [[], algoArgon2id, ''v='' @ decimal v,
     ''m='' @ decimal (unat (pp_memory pp)) @ '',t='' @ decimal (unat (pp_iterations pp)) @ '',p='' @
       decimal (unat (pp_parallelism pp)), s, h]"
proof -
  let ?ps = "[[], algoArgon2id, ''v='' @ decimal v,
     ''m='' @ decimal (unat (pp_memory pp)) @ '',t='' @ decimal (unat (pp_iterations pp)) @ '',p='' @
       decimal (unat (pp_parallelism pp)), s, h]"
  have "encodedHash v pp s h = joinWith CHR ''$'' ?ps"
    by (simp add: encodedHash_def algoArgon2id_def)
  moreover have "splitOn CHR ''$'' (joinWith CHR ''$'' ?ps) = ?ps"
    by (rule splitOn_joinWith) (use assms decimal_no_dollar in \<open>auto simp: algoArgon2id_def\<close>)
  ultimately show ?thesis by simp
qed

lemma scan_version: "v < 2 ^ 63 \<Longrightarrow> sscanf versionFormat (''v='' @ decimal v) = Inr [int v]"
  using sscanf_decimal(2) [of "[]" v 64 "[]"] by (simp add: versionFormat_def)

lemma scan_params:
  "sscanf paramsFormat (''m='' @ decimal (unat m) @ '',t='' @ decimal (unat t) @ '',p='' @ decimal (unat p)) =
     Inr [uint m, uint t, uint p]" for m t :: "32 word" and p :: "8 word"
proof -
  have b: "unat m < 2 ^ 32" "unat t < 2 ^ 32" "unat p < 2 ^ 8"
    using unsigned_less [of m] unsigned_less [of t] unsigned_less [of p] by simp_all
  have c: "\<not> isDigitC CHR '',''" by code_simp
  show ?thesis
    using b c by (simp add: paramsFormat_def scan_decimal scan_decimal [of "[]", simplified])
qed

text \<open>C27. A stored password hash accepts exactly the passwords with the same key. If \<open>Hash\<close> succeeds, then
  \<open>Verify\<close> parses what it has returned without an error, whatever the parameters, and accepts a password exactly
  if Argon2 derives from it, with the salt drawn for the hash, the key it derived from the original one; in
  particular it accepts the original.\<close>

theorem password_roundtrip:
  assumes "argonOk ar" "hashPassword ar pp password rand = Inr (enc, rest)"
  shows "verifyPassword ar enc password = Inr True \<and> verifyPassword ar enc other = Inr
      (let key = (\<lambda>p. ar_key ar p (map char_of (take (unat (pp_saltLength pp)) rand)) (pp_iterations pp) (pp_memory pp)
          (pp_parallelism pp) (pp_keyLength pp)) in key other = key password)"
proof -
  let ?salt = "map char_of (take (unat (pp_saltLength pp)) rand) :: str"
  let ?key = "\<lambda>p. ar_key ar p ?salt (pp_iterations pp) (pp_memory pp) (pp_parallelism pp) (pp_keyLength pp)"
  have enc: "enc = encodedHash (ar_version ar) pp (encodeToString stdAlphabet ?salt) (encodeToString stdAlphabet (?key password))"
    using assms(2) by (auto simp: hashPassword_def readNonce_def Let_def bindE_Inr_iff split: if_splits)
  have l: "of_nat (length (?key password)) = pp_keyLength pp" using assms(1) by (simp add: argonOk_def)
  have v: "ar_version ar < 2 ^ 63" using assms(1) by (simp add: argonOk_def)
  have all: "verifyPassword ar enc q = Inr (?key q = ?key password)" for q
    unfolding verifyPassword_def enc encodedHash_parts [OF encoded_no_dollar encoded_no_dollar] Let_def
    by (simp add: scan_version [OF v, simplified] scan_params [simplified] decode_encode [OF alphabets_ok(1)] l
        eval_nat_numeral)
  show ?thesis by (simp add: all Let_def)
qed

text \<open>A transparent key derivation for concrete runs: the key starts with the password.\<close>

definition demoArgon :: argon where
  "demoArgon = \<lparr> ar_version = 19, ar_key = (\<lambda>p salt t m th n. take (unat n) (p @ salt) @ replicate (unat n - length (p @ salt)) CHR ''.'') \<rparr>"

definition demoParams :: passwordParams where
  "demoParams = \<lparr> pp_memory = 64, pp_iterations = 3, pp_parallelism = 2, pp_saltLength = 2, pp_keyLength = 8 \<rparr>"

lemma demoArgon_ok: "argonOk demoArgon"
  by (auto simp: argonOk_def demoArgon_def min_def)

theorem password_roundtrip_witness:
  "is_ok (hashPassword demoArgon demoParams ''correct'' [7, 250]) \<and>
   (case hashPassword demoArgon demoParams ''correct'' [7, 250] of Inl e \<Rightarrow> False
    | Inr (enc, rest) \<Rightarrow> verifyPassword demoArgon enc ''correct'' = Inr True \<and>
        verifyPassword demoArgon enc ''corect'' = Inr False)"
proof -
  obtain enc rest where h: "hashPassword demoArgon demoParams ''correct'' [7, 250] = Inr (enc, rest)"
    by (simp add: hashPassword_def readNonce_def demoParams_def Let_def)
  have d: "ar_key demoArgon ''corect'' s t m th 8 \<noteq> ar_key demoArgon ''correct'' s t m th 8" for s t m th
    by (cases s) (auto simp: demoArgon_def)
  have "verifyPassword demoArgon enc ''correct'' = Inr True \<and> verifyPassword demoArgon enc ''corect'' = Inr False"
    using password_roundtrip [OF demoArgon_ok h, of "''corect''"] d by (simp add: Let_def demoParams_def)
  then show ?thesis by (simp add: h)
qed

end
