(* ===== verification/RateLimit.thy ===== *)
theory RateLimit
  imports Password
begin

text \<open>
  The login limiter of \<open>internal/auth/ratelimit\<close> over the part of a Redis server that it uses: sorted sets, and
  string keys with a time to live.  Times are microseconds; a score is the time in milliseconds.  The server
  answers or is down (\<open>ls_up\<close>).  A failed attempt is a member of the sorted set of its address, made unique by
  random bytes.
\<close>

record limitServer =
  ls_up :: bool
  ls_zsets :: "str \<Rightarrow> (int \<times> str) list"
  ls_strings :: "str \<Rightarrow> nat option"
  ls_rand :: "nat list"

type_synonym 'a ls = "limitServer \<Rightarrow> (goErr + 'a) \<times> limitServer"

section \<open>The Redis commands\<close>

definition whenUp :: "'a ls \<Rightarrow> 'a ls" where
  "whenUp m s = (if ls_up s then m s else (Inl ErrCache, s))"

definition zAdd :: "str \<Rightarrow> int \<Rightarrow> str \<Rightarrow> unit ls" where
  "zAdd key score member = whenUp (\<lambda>s. (Inr (), s\<lparr>ls_zsets := (ls_zsets s)(key :=
     filter (\<lambda>(_, m). m \<noteq> member) (ls_zsets s key) @ [(score, member)])\<rparr>))"

definition zRemRangeByScore :: "str \<Rightarrow> int \<Rightarrow> int \<Rightarrow> unit ls" where
  "zRemRangeByScore key lo hi = whenUp (\<lambda>s. (Inr (), s\<lparr>ls_zsets := (ls_zsets s)(key :=
     filter (\<lambda>(x, _). \<not> (lo \<le> x \<and> x \<le> hi)) (ls_zsets s key))\<rparr>))"

definition zCard :: "str \<Rightarrow> nat ls" where
  "zCard key = whenUp (\<lambda>s. (Inr (length (ls_zsets s key)), s))"

definition delKeys :: "str list \<Rightarrow> unit ls" where
  "delKeys keys = whenUp (\<lambda>s. (Inr (), s\<lparr>ls_zsets := (\<lambda>k. if k \<in> set keys then [] else ls_zsets s k),
     ls_strings := (\<lambda>k. if k \<in> set keys then None else ls_strings s k)\<rparr>))"

text \<open>A string key is there until its time to live is over.\<close>

definition live :: "nat \<Rightarrow> limitServer \<Rightarrow> str \<Rightarrow> bool" where
  "live now s key = (case ls_strings s key of None \<Rightarrow> False | Some till \<Rightarrow> now < till)"

definition setNX :: "nat \<Rightarrow> str \<Rightarrow> nat \<Rightarrow> bool ls" where
  "setNX now key ttl = whenUp (\<lambda>s. if live now s key then (Inr False, s)
     else (Inr True, s\<lparr>ls_strings := (ls_strings s)(key := Some (now + ttl))\<rparr>))"

definition existsKey :: "nat \<Rightarrow> str \<Rightarrow> nat ls" where
  "existsKey now key = whenUp (\<lambda>s. (Inr (if live now s key then 1 else 0), s))"

section \<open>The limiter\<close>

record limitOptions =
  lo_window :: nat
  lo_maxAttempts :: nat
  lo_lockoutPeriod :: nat
  lo_keyPrefix :: str

definition withDefaults :: "limitOptions \<Rightarrow> limitOptions" where
  "withDefaults opt = \<lparr> lo_window = (if lo_window opt = 0 then 60 * 1000000 else lo_window opt),
     lo_maxAttempts = (if lo_maxAttempts opt = 0 then 5 else lo_maxAttempts opt),
     lo_lockoutPeriod = (if lo_lockoutPeriod opt = 0 then 15 * 60 * 1000000 else lo_lockoutPeriod opt),
     lo_keyPrefix = (if lo_keyPrefix opt = [] then ''ratelimit:login'' else lo_keyPrefix opt) \<rparr>"

definition failuresKey :: "limitOptions \<Rightarrow> str \<Rightarrow> str" where
  "failuresKey opt ip = lo_keyPrefix opt @ '':ip:'' @ ip @ '':failures''"

definition lockoutKey :: "limitOptions \<Rightarrow> str \<Rightarrow> str" where
  "lockoutKey opt ip = lo_keyPrefix opt @ '':ip:'' @ ip @ '':lockout''"

definition checkLimit :: "limitOptions \<Rightarrow> nat \<Rightarrow> str \<Rightarrow> unit ls" where
  "checkLimit opt now ip s =
     (if ip = [] then (Inr (), s)
      else case existsKey now (lockoutKey opt ip) s of
        (Inl e, s1) \<Rightarrow> (Inl e, s1)
      | (Inr n, s1) \<Rightarrow>
          if n > 0 then (Inl ErrRateLimited, s1)
          else case zCard (failuresKey opt ip) s1 of
            (Inl e, s2) \<Rightarrow> (Inl e, s2)
          | (Inr count, s2) \<Rightarrow>
              if count \<ge> lo_maxAttempts opt
              then (Inl ErrRateLimited, snd (setNX now (lockoutKey opt ip) (lo_lockoutPeriod opt) s2))
              else (Inr (), s2))"

definition hexDigit :: "nat \<Rightarrow> char" where "hexDigit d = ''0123456789abcdef'' ! d"

definition hexString :: "nat list \<Rightarrow> str" where
  "hexString bs = concat (map (\<lambda>b. [hexDigit (b div 16 mod 16), hexDigit (b mod 16)]) bs)"

definition randHex :: "nat \<Rightarrow> limitServer \<Rightarrow> str \<times> limitServer" where
  "randHex n s = (hexString (take n (ls_rand s @ replicate n 0)), s\<lparr>ls_rand := drop n (ls_rand s)\<rparr>)"

definition milli :: "int \<Rightarrow> int" where "milli t = t div 1000"

definition recordLimit :: "limitOptions \<Rightarrow> nat \<Rightarrow> str \<Rightarrow> bool \<Rightarrow> unit ls" where
  "recordLimit opt now ip success s =
     (if ip = [] then (Inr (), s)
      else if success then delKeys [failuresKey opt ip, lockoutKey opt ip] s
      else case randHex 8 s of (r, s1) \<Rightarrow>
        case zAdd (failuresKey opt ip) (milli (int now)) (decimal (now * 1000) @ ''-'' @ r) s1 of
          (Inl e, s2) \<Rightarrow> (Inl e, s2)
        | (Inr _, s2) \<Rightarrow> zRemRangeByScore (failuresKey opt ip) 0 (milli (int now - int (lo_window opt))) s2)"

lemma limit_keys:
  "failuresKey opt ip = failuresKey opt ip' \<longleftrightarrow> ip = ip'" "lockoutKey opt ip = lockoutKey opt ip' \<longleftrightarrow> ip = ip'"
  "failuresKey opt ip \<noteq> lockoutKey opt ip'"
proof -
  show "failuresKey opt ip \<noteq> lockoutKey opt ip'"
  proof
    assume "failuresKey opt ip = lockoutKey opt ip'"
    then have "rev (failuresKey opt ip) = rev (lockoutKey opt ip')" by simp
    then show False by (simp add: failuresKey_def lockoutKey_def)
  qed
qed (simp_all add: failuresKey_def lockoutKey_def)

section \<open>A lockout never ends\<close>

text \<open>The failures of \<open>ip\<close> have reached the maximum.\<close>

definition exhausted :: "limitOptions \<Rightarrow> str \<Rightarrow> limitServer \<Rightarrow> bool" where
  "exhausted opt ip s \<longleftrightarrow> ip \<noteq> [] \<and> ls_up s \<and> lo_maxAttempts opt \<le> length (ls_zsets s (failuresKey opt ip))"

lemma check_exhausted:
  "exhausted opt ip s \<Longrightarrow> fst (checkLimit opt now ip s) = Inl ErrRateLimited"
  by (auto simp: exhausted_def checkLimit_def existsKey_def zCard_def whenUp_def)

lemma check_failures: "ls_zsets (snd (checkLimit opt now ip' s)) = ls_zsets s \<and> ls_up (snd (checkLimit opt now ip' s)) = ls_up s"
  by (auto simp: checkLimit_def existsKey_def zCard_def whenUp_def setNX_def split: prod.splits sum.splits)

lemma check_keeps_exhausted: "exhausted opt ip s \<Longrightarrow> exhausted opt ip (snd (checkLimit opt now ip' s))"
  by (simp add: exhausted_def check_failures)

lemma record_other:
  "ip' \<noteq> ip \<Longrightarrow> ls_zsets (snd (recordLimit opt now ip' ok s)) (failuresKey opt ip) = ls_zsets s (failuresKey opt ip) \<and>
     ls_up (snd (recordLimit opt now ip' ok s)) = ls_up s"
  by (auto simp: recordLimit_def delKeys_def whenUp_def zAdd_def zRemRangeByScore_def randHex_def limit_keys
      split: prod.splits sum.splits)

lemma record_keeps_exhausted: "ip' \<noteq> ip \<Longrightarrow> exhausted opt ip s \<Longrightarrow> exhausted opt ip (snd (recordLimit opt now ip' ok s))"
  by (simp add: exhausted_def record_other)

text \<open>What \<open>Login\<close> relies on: an address that is blocked is refused, and stays blocked unless its own attempts are
  recorded.\<close>

locale limiter_contract =
  fixes check :: "nat \<Rightarrow> str \<Rightarrow> 'l \<Rightarrow> (goErr + unit) \<times> 'l"
    and record_outcome :: "nat \<Rightarrow> str \<Rightarrow> bool \<Rightarrow> 'l \<Rightarrow> (goErr + unit) \<times> 'l"
    and blocked :: "str \<Rightarrow> 'l \<Rightarrow> bool"
  assumes blocked_refused: "blocked ip s \<Longrightarrow> fst (check now ip s) = Inl ErrRateLimited"
    and blocked_check: "blocked ip s \<Longrightarrow> blocked ip (snd (check now ip' s))"
    and blocked_record: "ip' \<noteq> ip \<Longrightarrow> blocked ip s \<Longrightarrow> blocked ip (snd (record_outcome now ip' ok s))"

interpretation redis_limiter: limiter_contract "checkLimit opt" "recordLimit opt" "exhausted opt" for opt
  by unfold_locales (simp_all add: check_exhausted check_keeps_exhausted record_keeps_exhausted)

section \<open>The sliding window\<close>

text \<open>An attempt is a time, an address and whether the credentials are right.  As in \<open>Login\<close>, the limiter is asked
  first, and if it lets the attempt pass the credentials are looked at and the outcome recorded.\<close>

type_synonym attempt = "nat \<times> str \<times> bool"

fun passed :: "limitOptions \<Rightarrow> attempt list \<Rightarrow> limitServer \<Rightarrow> attempt list" where
  "passed opt [] s = []"
| "passed opt ((now, ip, ok) # as) s =
     (case checkLimit opt now ip s of
        (Inl e, s1) \<Rightarrow> passed opt as s1
      | (Inr _, s1) \<Rightarrow> (now, ip, ok) # passed opt as (snd (recordLimit opt now ip ok s1)))"

text \<open>The times of the failures of an address since its last success.\<close>

fun failuresOf :: "str \<Rightarrow> nat list \<Rightarrow> attempt list \<Rightarrow> nat list" where
  "failuresOf ip fs [] = fs"
| "failuresOf ip fs ((t, i, ok) # as) =
     failuresOf ip (if i \<noteq> ip then fs else if ok then [] else fs @ [t]) as"

definition within :: "nat \<Rightarrow> nat \<Rightarrow> nat list \<Rightarrow> nat list" where
  "within w a fs = filter (\<lambda>f. a \<le> f \<and> f + 1000 \<le> a + w) fs"

definition failMember :: "nat \<Rightarrow> str \<Rightarrow> str" where "failMember t r = decimal (t * 1000) @ ''-'' @ r"

definition windowInv :: "limitOptions \<Rightarrow> str \<Rightarrow> nat \<Rightarrow> nat list \<Rightarrow> limitServer \<Rightarrow> bool" where
  "windowInv opt ip prev fs s \<longleftrightarrow> distinct fs \<and> (\<forall>f \<in> set fs. f \<le> prev) \<and>
     (\<forall>f \<in> set fs. milli (int prev - int (lo_window opt)) < milli (int f) \<longrightarrow>
        (\<exists>r. (milli (int f), failMember f r) \<in> set (ls_zsets s (failuresKey opt ip)))) \<and>
     (\<forall>a. length (within (lo_window opt) a fs) \<le> lo_maxAttempts opt)"

lemma failMember_inj: "failMember t r = failMember t' r' \<Longrightarrow> t = t'"
proof -
  assume e: "failMember t r = failMember t' r'"
  have "takeWhile isDigitC (failMember x y) = decimal (x * 1000)" for x y
    unfolding failMember_def using decimal_digits by (subst takeWhile_append2) (auto simp: isDigitC_def)
  with e have "decimal (t * 1000) = decimal (t' * 1000)" by metis
  then show ?thesis using numeral_of_decimal by (metis mult_cancel2 zero_neq_numeral)
qed

lemma milli_mono: "x \<le> y \<Longrightarrow> milli x \<le> milli y" by (simp add: milli_def zdiv_mono1)
lemma milli_step: "milli (x + 1000) = milli x + 1" by (simp add: milli_def)

text \<open>The failures that the set still has to hold are at most its size.\<close>

lemma window_card:
  assumes "windowInv opt ip prev fs s"
  shows "length (filter (\<lambda>f. milli (int prev - int (lo_window opt)) < milli (int f)) fs) \<le>
    length (ls_zsets s (failuresKey opt ip))"
proof -
  let ?F = "filter (\<lambda>f. milli (int prev - int (lo_window opt)) < milli (int f)) fs"
  let ?z = "ls_zsets s (failuresKey opt ip)"
  have "\<forall>f \<in> set ?F. \<exists>r. (milli (int f), failMember f r) \<in> set ?z" using assms by (auto simp: windowInv_def)
  then obtain r where r: "\<And>f. f \<in> set ?F \<Longrightarrow> (milli (int f), failMember f (r f)) \<in> set ?z" by metis
  have "inj_on (\<lambda>f. (milli (int f), failMember f (r f))) (set ?F)" by (auto intro!: inj_onI dest: failMember_inj)
  then have "card (set ?F) \<le> card (set ?z)" by (rule card_inj_on_le) (use r in auto)
  moreover have "distinct ?F" using assms by (simp add: windowInv_def)
  then have "length ?F = card (set ?F)" by (simp only: distinct_card)
  ultimately show ?thesis using card_length [of ?z] by linarith
qed

lemma within_later: "\<forall>f \<in> set fs. f < a \<Longrightarrow> within w a fs = []"
  by (auto simp: within_def filter_empty_conv)

lemma window_fail:
  assumes inv: "windowInv opt ip prev fs s" and later: "prev < now" and ip: "ip \<noteq> []"
    and chk: "checkLimit opt now ip s = (Inr u, s1)"
  shows "windowInv opt ip now (fs @ [now]) (snd (recordLimit opt now ip False s1))"
proof -
  let ?k = "failuresKey opt ip" and ?w = "lo_window opt"
  have up: "ls_up s1" and z1: "ls_zsets s1 ?k = ls_zsets s ?k" and lt: "length (ls_zsets s ?k) < lo_maxAttempts opt"
    using chk ip by (auto simp: checkLimit_def existsKey_def zCard_def whenUp_def setNX_def split: if_splits)
  obtain r where z: "ls_zsets (snd (recordLimit opt now ip False s1)) ?k =
      filter (\<lambda>(x, _). \<not> (0 \<le> x \<and> x \<le> milli (int now - int ?w)))
        (filter (\<lambda>(_, m). m \<noteq> failMember now r) (ls_zsets s ?k) @ [(milli (int now), failMember now r)])"
    using ip up z1 by (auto simp: recordLimit_def randHex_def zAdd_def zRemRangeByScore_def whenUp_def failMember_def)
  have old: "f < now" if "f \<in> set fs" for f using that inv later by (auto simp: windowInv_def)
  have cut: "milli (int prev - int ?w) \<le> milli (int now - int ?w)" using later by (intro milli_mono) simp
  have kept: "\<exists>r. (milli (int f), failMember f r) \<in> set (ls_zsets (snd (recordLimit opt now ip False s1)) ?k)"
    if f: "f \<in> set (fs @ [now])" "milli (int now - int ?w) < milli (int f)" for f
  proof (cases "f = now")
    case False
    with f have "f \<in> set fs" "milli (int prev - int ?w) < milli (int f)" using cut by auto
    then obtain r' where m: "(milli (int f), failMember f r') \<in> set (ls_zsets s ?k)" using inv by (auto simp: windowInv_def)
    have "failMember f r' \<noteq> failMember now r" using False failMember_inj by blast
    with m f(2) show ?thesis unfolding z by auto
  qed (use f(2) z in auto)
  have bound: "length (within ?w a (fs @ [now])) \<le> lo_maxAttempts opt" for a
  proof (cases "a \<le> now \<and> now + 1000 \<le> a + ?w")
    case False
    then have "within ?w a (fs @ [now]) = within ?w a fs" by (auto simp: within_def)
    then show ?thesis using inv by (simp add: windowInv_def)
  next
    case True
    have "milli (int prev - int ?w) < milli (int f)" if "a \<le> f" for f
    proof -
      have "int prev - int ?w + 1000 \<le> int f" using True later that by linarith
      then show ?thesis using milli_mono milli_step by (metis add1_zle_eq)
    qed
    then have "length (within ?w a fs) \<le> length (filter (\<lambda>f. milli (int prev - int ?w) < milli (int f)) fs)"
      unfolding within_def by (induction fs) auto
    also have "\<dots> < lo_maxAttempts opt" using window_card [OF inv] lt by linarith
    finally show ?thesis using True by (simp add: within_def)
  qed
  have "distinct (fs @ [now])" using inv old by (auto simp: windowInv_def)
  then show ?thesis using kept bound old by (fastforce simp: windowInv_def)
qed

lemma windowInv_cong:
  "ls_zsets s' (failuresKey opt ip) = ls_zsets s (failuresKey opt ip) \<Longrightarrow> prev \<le> now \<Longrightarrow>
   windowInv opt ip prev fs s \<Longrightarrow> windowInv opt ip now fs s'"
  using milli_mono [of "int prev - int (lo_window opt)" "int now - int (lo_window opt)"]
  by (fastforce simp: windowInv_def)

lemma windowInv_empty: "windowInv opt ip now [] s"
  by (simp add: windowInv_def within_def)

lemma failures_bounded:
  assumes "sorted_wrt (<) (map fst as)" "\<forall>a \<in> set as. prev < fst a" "windowInv opt ip prev fs s" "ip \<noteq> []"
  shows "length (within (lo_window opt) a (failuresOf ip fs (passed opt as s))) \<le> lo_maxAttempts opt"
  using assms(1-3)
proof (induction as arbitrary: prev fs s)
  case Nil
  then show ?case by (simp add: windowInv_def)
next
  case (Cons x as)
  obtain now i ok where x: "x = (now, i, ok)" by (cases x)
  have srt: "sorted_wrt (<) (map fst as)" "\<forall>a \<in> set as. now < fst a" "prev < now" using Cons.prems x by auto
  let ?c = "checkLimit opt now i s"
  have c: "windowInv opt ip now fs (snd ?c)"
    by (rule windowInv_cong [OF _ less_imp_le [OF srt(3)] Cons.prems(3)]) (simp add: check_failures)
  show ?case
  proof (cases "fst ?c")
    case (Inl e)
    then have "passed opt (x # as) s = passed opt as (snd ?c)" by (cases ?c) (simp add: x)
    then show ?thesis using Cons.IH [OF srt(1,2) c] by simp
  next
    case (Inr u)
    let ?s2 = "snd (recordLimit opt now i ok (snd ?c))"
    let ?fs = "if i \<noteq> ip then fs else if ok then [] else fs @ [now]"
    have p: "passed opt (x # as) s = x # passed opt as ?s2" using Inr by (cases ?c) (simp add: x)
    have "windowInv opt ip now ?fs ?s2"
    proof (cases "i = ip")
      case True
      have e: "?c = (Inr u, snd ?c)" using Inr by (cases ?c) simp
      show ?thesis using window_fail [OF Cons.prems(3) srt(3) assms(4)] e windowInv_empty True by auto
    next
      case False
      then show ?thesis using windowInv_cong [OF _ order.refl c] record_other by simp
    qed
    from Cons.IH [OF srt(1,2) this] show ?thesis unfolding p by (simp only: x failuresOf.simps)
  qed
qed

text \<open>C33. The limiter bounds guessing. Take any sequence of login attempts from any addresses, at most one per
  microsecond, against any state of the server. Whatever the window, among the attempts that the limiter lets
  through to the password check, at most \<open>MaxAttempts\<close> failures of \<open>ip\<close> since its last success lie within
  one window of time (less the millisecond that the scores round away).\<close>

theorem guesses_bounded:
  assumes "sorted_wrt (<) (map fst as)" "\<forall>x \<in> set as. 0 < fst x" "ip \<noteq> []"
  shows "length (within (lo_window opt) a (failuresOf ip [] (passed opt as s))) \<le> lo_maxAttempts opt"
  by (rule failures_bounded [OF assms(1,2) windowInv_empty assms(3)])

definition demoLimit :: limitOptions where
  "demoLimit = \<lparr> lo_window = 60000000, lo_maxAttempts = 2, lo_lockoutPeriod = 900000000, lo_keyPrefix = ''rl'' \<rparr>"

definition freshServer :: limitServer where
  "freshServer = \<lparr> ls_up = True, ls_zsets = (\<lambda>_. []), ls_strings = (\<lambda>_. None), ls_rand = [] \<rparr>"

definition guessing :: "attempt list" where
  "guessing = map (\<lambda>t. (t * 1000000, ''10.0.0.1'', False)) [1, 2, 3, 4, 70]"

theorem guesses_bounded_witness:
  "length (within 60000000 1000000 (failuresOf ''10.0.0.1'' [] (passed demoLimit guessing freshServer))) \<le> 2"
proof -
  have h: "sorted_wrt (<) (map fst guessing)" "\<forall>x \<in> set guessing. 0 < fst x" "''10.0.0.1'' \<noteq> []"
    by (simp_all add: guessing_def)
  show ?thesis using guesses_bounded [OF h, of demoLimit 1000000 freshServer] by (simp add: demoLimit_def)
qed

end
