(* ===== verification/AuthService.thy ===== *)
theory AuthService
  imports Tokens RateLimit RbacService
begin

text \<open>
  Accounts: registration, login, logout and password change (\<open>internal/service/auth_service.go\<close>), and personal
  access tokens (\<open>internal/service/pat_service.go\<close>, \<open>internal/auth/pat.go\<close>).  The limiter is an interface, a
  record of its two methods over a state of its own; \<open>RateLimit\<close> provides one.  \<open>crypto/sha256\<close> is the
  parameter of \<open>hashPAT\<close>.  The clock does not move during a call.
\<close>

section \<open>State and interfaces\<close>

record 'l authWorld =
  aw_st :: store
  aw_attempts :: "loginAttempt list"
  aw_tokens :: "tokensCache option"
  aw_lim :: 'l
  aw_rand :: "nat list"

type_synonym ('l, 'a) authOp = "'l authWorld \<Rightarrow> (goErr + 'a) \<times> 'l authWorld"

record 'l limiter =
  li_check :: "nat \<Rightarrow> str \<Rightarrow> 'l \<Rightarrow> (goErr + unit) \<times> 'l"
  li_record :: "nat \<Rightarrow> str \<Rightarrow> bool \<Rightarrow> 'l \<Rightarrow> (goErr + unit) \<times> 'l"

definition noopLimiter :: "'l limiter" where
  "noopLimiter = \<lparr> li_check = (\<lambda>now ip s. (Inr (), s)), li_record = (\<lambda>now ip ok s. (Inr (), s)) \<rparr>"

definition redisLimiter :: "limitOptions \<Rightarrow> limitServer limiter" where
  "redisLimiter opt = \<lparr> li_check = checkLimit (withDefaults opt), li_record = recordLimit (withDefaults opt) \<rparr>"

record 'l authService =
  as_argon :: argon
  as_params :: passwordParams
  as_limiter :: "'l limiter option"
  as_keys :: keyLib
  as_jwt :: jwtLib
  as_privateKey :: str
  as_ttl :: nat
  as_minLen :: nat

definition newAuthService :: "'l authService \<Rightarrow> 'l authService" where
  "newAuthService o' = o'\<lparr>as_ttl := (if as_ttl o' = 0 then 24 * 3600 * 1000000 else as_ttl o'),
     as_minLen := (if as_minLen o' = 0 then 12 else as_minLen o')\<rparr>"

record authToken =
  tk_userId :: str
  tk_email :: str
  tk_name :: str
  tk_token :: str
  tk_issuedAt :: nat
  tk_expiresAt :: nat

section \<open>Helpers\<close>

definition reSpace :: "char \<Rightarrow> bool" where
  "reSpace c = (c \<in> {CHR 0x09, CHR 0x0A, CHR 0x0C, CHR 0x0D, CHR '' ''})"

text \<open>\<open>^[^\s@]+@[^\s@]+\.[^\s@]+$\<close>.\<close>

definition validateEmail :: "str \<Rightarrow> goErr + unit" where
  "validateEmail email = checkE (case splitOn CHR ''@'' email of
       [l, d] \<Rightarrow> l \<noteq> [] \<and> CHR ''.'' \<in> set (butlast (tl d)) \<and> list_all (\<lambda>c. \<not> reSpace c) (l @ d)
     | _ \<Rightarrow> False) ErrInvalidArgument"

definition validatePassword :: "str \<Rightarrow> nat \<Rightarrow> goErr + unit" where
  "validatePassword password minLen = checkE (\<not> length password < minLen) ErrInvalidArgument"

definition issueToken :: "'l authService \<Rightarrow> user \<Rightarrow> nat \<Rightarrow> goErr + authToken" where
  "issueToken svc u now = (let exp = now + as_ttl svc;
     c = jwtRegisteredClaimsAt (as_jwt svc) now exp (u_id u) (noClaims\<lparr>cl_userId := u_id u, cl_name := u_name u\<rparr>) in
     bindE (signToken (as_keys svc) (as_jwt svc) (as_privateKey svc) c) (\<lambda>t.
     Inr \<lparr> tk_userId = u_id u, tk_email = u_email u, tk_name = u_name u, tk_token = t, tk_issuedAt = now,
       tk_expiresAt = exp \<rparr>))"

definition recordAttempt :: "str \<Rightarrow> str \<Rightarrow> bool \<Rightarrow> str \<Rightarrow> 'l authWorld \<Rightarrow> 'l authWorld" where
  "recordAttempt email ip ok uid w = (case recordLoginAttempt email ip ok uid (aw_st w, aw_attempts w) of
     (st', rows) \<Rightarrow> w\<lparr>aw_st := st', aw_attempts := rows\<rparr>)"

definition limitRecord :: "'l authService \<Rightarrow> str \<Rightarrow> bool \<Rightarrow> 'l authWorld \<Rightarrow> 'l authWorld" where
  "limitRecord svc ip ok w = (case as_limiter svc of None \<Rightarrow> w
     | Some l \<Rightarrow> w\<lparr>aw_lim := snd (li_record l (clock (aw_st w)) ip ok (aw_lim w))\<rparr>)"

definition limitCheck :: "'l authService \<Rightarrow> str \<Rightarrow> ('l, unit) authOp" where
  "limitCheck svc ip w = (case as_limiter svc of None \<Rightarrow> (Inr (), w)
     | Some l \<Rightarrow> (case li_check l (clock (aw_st w)) ip (aw_lim w) of (r, s) \<Rightarrow> (r, w\<lparr>aw_lim := s\<rparr>)))"

definition hashS :: "'l authService \<Rightarrow> str \<Rightarrow> ('l, str) authOp" where
  "hashS svc password w = (case hashPassword (as_argon svc) (as_params svc) password (aw_rand w) of
       Inl e \<Rightarrow> (Inl e, w) | Inr (enc, rest) \<Rightarrow> (Inr enc, w\<lparr>aw_rand := rest\<rparr>))"

section \<open>Registration and login\<close>

definition register :: "'l authService \<Rightarrow> str \<Rightarrow> str \<Rightarrow> str \<Rightarrow> ('l, authToken) authOp" where
  "register svc email0 name0 password w =
     (let email = toLower (trimSpace email0); name = trimSpace name0 in
      case inTurn [validateEmail email, checkE (name \<noteq> []) ErrInvalidArgument, validatePassword password (as_minLen svc)] of
        Inl e \<Rightarrow> (Inl e, w)
      | Inr _ \<Rightarrow> (case hashS svc password w of
          (Inl e, w1) \<Rightarrow> (Inl e, w1)
        | (Inr hash, w1) \<Rightarrow> (case createPasswordUser email name hash algoArgon2id (aw_st w1) of
            (Inl e, st') \<Rightarrow> (Inl (if e = ErrConflict then ErrEmailAlreadyExists else e), w1\<lparr>aw_st := st'\<rparr>)
          | (Inr u, st') \<Rightarrow> let w2 = recordAttempt email [] True (u_id u) (w1\<lparr>aw_st := st'\<rparr>)
              in (issueToken svc u (clock (aw_st w2)), w2))))"

definition refuse :: "'l authService \<Rightarrow> str \<Rightarrow> str \<Rightarrow> str \<Rightarrow> ('l, authToken) authOp" where
  "refuse svc email ip uid w = (Inl ErrBadCredentials, limitRecord svc ip False (recordAttempt email ip False uid w))"

definition login :: "'l authService \<Rightarrow> str \<Rightarrow> str \<Rightarrow> str \<Rightarrow> ('l, authToken) authOp" where
  "login svc email0 password ip w = (let email = toLower (trimSpace email0) in
     if email = [] \<or> password = [] then (Inl ErrBadCredentials, w)
     else case limitCheck svc ip w of
       (Inl e, w1) \<Rightarrow> (Inl e, w1)
     | (Inr _, w1) \<Rightarrow> (case getUserByEmail (aw_st w1) email of
         Inl e \<Rightarrow> if e = ErrNotFound then refuse svc email ip [] w1 else (Inl e, w1)
       | Inr u \<Rightarrow>
           if u_source u \<noteq> ''password'' \<or> u_hash u = [] then refuse svc email ip (u_id u) w1
           else if verifyPassword (as_argon svc) (u_hash u) password \<noteq> Inr True then refuse svc email ip (u_id u) w1
           else if u_disabled u then (Inl ErrBadCredentials, recordAttempt email ip False (u_id u) w1)
           else let w2 = recordAttempt email ip True (u_id u) (limitRecord svc ip True w1);
                    w3 = w2\<lparr>aw_st := touchLastSeen (u_id u) (aw_st w2)\<rparr>
             in (issueToken svc u (clock (aw_st w3)), w3)))"

definition setToken :: "str \<Rightarrow> nat \<Rightarrow> 'l authWorld \<Rightarrow> 'l authWorld" where
  "setToken userId tva w = w\<lparr>aw_tokens := map_option (cacheSet userId tva) (aw_tokens w)\<rparr>"

definition logout :: "str \<Rightarrow> ('l, unit) authOp" where
  "logout userId w =
     (if userId = [] then (Inl ErrInvalidArgument, w)
      else case bumpTokensValidAfter userId (aw_st w) of
        (Inl e, st') \<Rightarrow> (Inl e, w\<lparr>aw_st := st'\<rparr>)
      | (Inr tva, st') \<Rightarrow> (Inr (), setToken userId tva (w\<lparr>aw_st := st'\<rparr>)))"

definition changePassword :: "'l authService \<Rightarrow> str \<Rightarrow> str \<Rightarrow> str \<Rightarrow> ('l, unit) authOp" where
  "changePassword svc userId oldPassword newPassword w =
     (if userId = [] \<or> oldPassword = [] \<or> newPassword = [] then (Inl ErrInvalidArgument, w)
      else case validatePassword newPassword (as_minLen svc) of Inl e \<Rightarrow> (Inl e, w)
      | Inr _ \<Rightarrow> (case getUserByIdA (aw_st w) userId of
          Inl e \<Rightarrow> (Inl (if e = ErrNotFound then ErrInvalidArgument else e), w)
        | Inr u \<Rightarrow> (case verifyPassword (as_argon svc) (u_hash u) oldPassword of
            Inl e \<Rightarrow> (Inl e, w)
          | Inr ok \<Rightarrow> if \<not> ok then (Inl ErrBadCredentials, w)
              else case hashS svc newPassword w of
                (Inl e, w1) \<Rightarrow> (Inl e, w1)
              | (Inr newHash, w1) \<Rightarrow> (case updatePasswordHash userId newHash algoArgon2id (aw_st w1) of
                  (Inl e, st') \<Rightarrow> (Inl e, w1\<lparr>aw_st := st'\<rparr>)
                | (Inr updated, st') \<Rightarrow> let w2 = w1\<lparr>aw_st := st'\<rparr> in
                    (Inr (), case u_tva updated of None \<Rightarrow> w2 | Some t \<Rightarrow> setToken userId t w2)))))"

section \<open>Personal access tokens\<close>

text \<open>\<open>sha\<close> is \<open>sha256.Sum256\<close>, the bytes of the digest.\<close>

definition hashPAT :: "(str \<Rightarrow> nat list) \<Rightarrow> str \<Rightarrow> str" where
  "hashPAT sha plain = hexString (sha plain)"

definition tokenDisplayPrefixLen :: nat where "tokenDisplayPrefixLen = length patPrefix + 8"

definition displayPrefix :: "str \<Rightarrow> str" where
  "displayPrefix plain = (if length plain \<le> tokenDisplayPrefixLen then plain @ ''...''
     else take tokenDisplayPrefixLen plain @ ''...'')"

definition generateToken :: "nat list \<Rightarrow> goErr + str \<times> nat list" where
  "generateToken rand = bindE (readNonce 32 rand) (\<lambda>(b, rest).
     Inr (patPrefix @ encodeToString urlAlphabet (map char_of b), rest))"

definition createPAT :: "(str \<Rightarrow> nat list) \<Rightarrow> str \<Rightarrow> str \<Rightarrow> nat option \<Rightarrow> ('l, accessToken \<times> str) authOp" where
  "createPAT sha userId name0 expiresAt w = (let name = trimSpace name0 in
     if name = [] then (Inl (ErrMsg ''token name is required''), w)
     else if userId = [] then (Inl (ErrMsg ''userId is required''), w)
     else case generateToken (aw_rand w) of
       Inl e \<Rightarrow> (Inl e, w)
     | Inr (plain, rest) \<Rightarrow>
         (case createToken userId name (hashPAT sha plain) (displayPrefix plain) expiresAt (aw_st w) of
            (Inl e, st') \<Rightarrow> (Inl e, w\<lparr>aw_st := st', aw_rand := rest\<rparr>)
          | (Inr tok, st') \<Rightarrow> (Inr (tok, plain), w\<lparr>aw_st := st', aw_rand := rest\<rparr>)))"

definition listPATs :: "store \<Rightarrow> str \<Rightarrow> goErr + accessToken list" where
  "listPATs st userId = (if userId = [] then Inl (ErrMsg ''userId is required'') else Inr (listTokensByUser st userId))"

definition deletePAT :: "str \<Rightarrow> str \<Rightarrow> ('l, unit) authOp" where
  "deletePAT userId tokenId w =
     (if userId = [] \<or> tokenId = [] then (Inl (ErrMsg ''userId and tokenId are required''), w)
      else case softDeleteToken tokenId userId (aw_st w) of (r, st') \<Rightarrow> (r, w\<lparr>aw_st := st'\<rparr>))"

section \<open>Authentication of a request\<close>

text \<open>\<open>pc_names\<close> is \<open>UserNameLoader\<close>; the validator is \<open>PATStore.ValidatePAT\<close>, or missing.\<close>

record patConfig =
  pc_sha :: "str \<Rightarrow> nat list"
  pc_configured :: bool
  pc_names :: "(store \<Rightarrow> str \<Rightarrow> str) option"

definition patMiddleware :: "patConfig \<Rightarrow> str \<Rightarrow> session \<Rightarrow> ((nat \<times> goErr) + claims) \<times> session" where
  "patMiddleware cfg authHeader s =
     (if \<not> pc_configured cfg then (Inl (503, ErrMissingPublicKey), s)
      else case validatePAT (hashPAT (pc_sha cfg) (extractPAT authHeader)) (se_st s) of
        (Inl e, st') \<Rightarrow> (Inl (401, ErrInvalidPAT), s\<lparr>se_st := st'\<rparr>)
      | (Inr userId, st') \<Rightarrow> (Inr (noClaims\<lparr>cl_userId := userId,
          cl_name := (case pc_names cfg of None \<Rightarrow> [] | Some f \<Rightarrow> f st' userId)\<rparr>), s\<lparr>se_st := st'\<rparr>))"

definition combinedAuthMiddleware :: "patConfig \<Rightarrow> keyLib \<Rightarrow> jwtLib \<Rightarrow> jwtConfig \<Rightarrow> str \<Rightarrow> session \<Rightarrow>
    ((nat \<times> goErr) + claims) \<times> session" where
  "combinedAuthMiddleware pcfg kl jl jcfg authHeader s =
     (if isPAT authHeader then patMiddleware pcfg authHeader s else jwtMiddleware kl jl jcfg authHeader s)"

end
