(* ===== verification/AuthHandlers.thy ===== *)
theory AuthHandlers
  imports AuthService Handlers
begin

text \<open>
  The HTTP handlers of accounts: \<open>internal/http/controller/auth.go\<close>, \<open>pat.go\<close>, \<open>auth_dev.go\<close> and \<open>user.go\<close>.  They run
  over the world of \<open>AuthService\<close>; a service that is not configured is \<open>None\<close>, a body that does not decode is
  \<open>None\<close>.  The routes of a user take the claims that the middleware has left in the context.
\<close>

type_synonym ('l, 'd) authEndpoint = "'l authWorld \<Rightarrow> 'd reply \<times> 'l authWorld"

definition codeRateLimited :: int where "codeRateLimited = 1429"
definition codeUnauthorized :: int where "codeUnauthorized = 1401"

definition writeAuthError :: "goErr \<Rightarrow> 'd reply" where
  "writeAuthError e =
     (if e = ErrRateLimited then failR' 429 codeRateLimited
      else if e = ErrInvalidArgument then badRequest
      else if e = ErrEmailAlreadyExists then failR' 409 codeConflict
      else if e = ErrBadCredentials then failR' 401 codeUnauthorized
      else failWithMsg)"

definition authReply :: "goErr + 'd \<Rightarrow> 'd reply" where
  "authReply r = (case r of Inl e \<Rightarrow> writeAuthError e | Inr d \<Rightarrow> okR d)"

text \<open>\<open>ready\<close> is the check of the shared \<open>bind\<close>, that repository and secret service are configured.\<close>

definition authBind :: "'s option \<Rightarrow> bool \<Rightarrow> int \<Rightarrow> 'r option \<Rightarrow> ('s \<Rightarrow> 'r \<Rightarrow> ('l, 'd) authEndpoint) \<Rightarrow> ('l, 'd) authEndpoint" where
  "authBind svc ready missing req k w = (case svc of None \<Rightarrow> (failR' 503 missing, w)
     | Some s \<Rightarrow> if \<not> ready then (failR' 503 codeStoreUnavailable, w)
         else (case req of None \<Rightarrow> (badRequest, w) | Some r \<Rightarrow> k s r w))"

definition authCall :: "('l, 'd) authOp \<Rightarrow> ('l, 'd) authEndpoint" where
  "authCall m w = (case m w of (r, w') \<Rightarrow> (authReply r, w'))"

definition registerH :: "'l authService option \<Rightarrow> bool \<Rightarrow> (str \<times> str \<times> str) option \<Rightarrow> ('l, authToken) authEndpoint" where
  "registerH svc ready req = authBind svc ready codeStoreUnavailable req
     (\<lambda>s (email, name, password). authCall (register s email name password))"

definition loginH :: "'l authService option \<Rightarrow> bool \<Rightarrow> str \<Rightarrow> (str \<times> str) option \<Rightarrow> ('l, authToken) authEndpoint" where
  "loginH svc ready ip req = authBind svc ready codeStoreUnavailable req
     (\<lambda>s (email, password). authCall (login s email password ip))"

text \<open>A success of \<open>Logout\<close> is status 204 without a body.\<close>

definition logoutH :: "'l authService option \<Rightarrow> claims option \<Rightarrow> ('l, unit) authEndpoint" where
  "logoutH svc ctx w = (case svc of None \<Rightarrow> (failR' 503 codeStoreUnavailable, w)
     | Some s \<Rightarrow> (case logout (ui_id (userFromContext ctx)) w of
         (Inl e, w') \<Rightarrow> (writeAuthError e, w') | (Inr _, w') \<Rightarrow> (Reply 204 codeSuccess None, w')))"

definition changePasswordH :: "'l authService option \<Rightarrow> bool \<Rightarrow> claims option \<Rightarrow> (str \<times> str) option \<Rightarrow> ('l, unit) authEndpoint" where
  "changePasswordH svc ready ctx req = authBind svc ready codeStoreUnavailable req
     (\<lambda>s (old, new). authCall (changePassword s (ui_id (userFromContext ctx)) old new))"

section \<open>Access tokens\<close>

definition writePATEror :: "goErr \<Rightarrow> 'd reply" where
  "writePATEror e = (if e = ErrNotFound then failR' 404 codeNotFound else failWithMsg)"

definition patReply :: "goErr + 'd \<Rightarrow> 'd reply" where
  "patReply r = (case r of Inl e \<Rightarrow> writePATEror e | Inr d \<Rightarrow> okR d)"

definition patCall :: "('l, 'd) authOp \<Rightarrow> ('l, 'd) authEndpoint" where
  "patCall m w = (case m w of (r, w') \<Rightarrow> (patReply r, w'))"

text \<open>The binding tag \<open>required\<close> refuses an empty name or identifier. The service is its hash function.\<close>

definition createPATH :: "(str \<Rightarrow> nat list) option \<Rightarrow> bool \<Rightarrow> claims option \<Rightarrow> (str \<times> nat option) option \<Rightarrow>
    ('l, accessToken \<times> str) authEndpoint" where
  "createPATH svc ready ctx req = authBind svc ready codeServiceUnavailable req
     (\<lambda>sha (name, expiresAt). if name = [] then (\<lambda>w. (badRequest, w))
        else patCall (createPAT sha (ui_id (userFromContext ctx)) name expiresAt))"

definition listPATsH :: "(str \<Rightarrow> nat list) option \<Rightarrow> claims option \<Rightarrow> ('l, accessToken list) authEndpoint" where
  "listPATsH svc ctx w = (case svc of None \<Rightarrow> (failR' 503 codeServiceUnavailable, w)
     | Some s \<Rightarrow> (case listPATs (aw_st w) (ui_id (userFromContext ctx)) of
         Inl e \<Rightarrow> (failWithMsg, w) | Inr ts \<Rightarrow> (okR ts, w)))"

definition deletePATH :: "(str \<Rightarrow> nat list) option \<Rightarrow> bool \<Rightarrow> claims option \<Rightarrow> str option \<Rightarrow> ('l, unit) authEndpoint" where
  "deletePATH svc ready ctx req = authBind svc ready codeServiceUnavailable req
     (\<lambda>sha i. if i = [] then (\<lambda>w. (badRequest, w)) else patCall (deletePAT (ui_id (userFromContext ctx)) i))"

section \<open>The development token and the own identity\<close>

record devConfig =
  dc_enabled :: bool
  dc_userId :: str
  dc_userName :: str
  dc_privateKey :: str

text \<open>A request without a body keeps the defaults of the configuration; \<open>None\<close> inside is a body that does not decode.
  The reply has the token with its time of expiry.\<close>

definition clampExpiry :: "int \<Rightarrow> int" where
  "clampExpiry s = (let t = (if s \<le> 0 then 3600 else s) in if t > 86400 then 86400 else t)"

definition createDevJWT :: "keyLib \<Rightarrow> jwtLib \<Rightarrow> devConfig \<Rightarrow> (str \<times> str \<times> int) option option \<Rightarrow> nat \<Rightarrow> (str \<times> nat) reply" where
  "createDevJWT kl jl cfg body now =
     (if \<not> dc_enabled cfg then failR' 404 codeNotFound
      else case (case body of None \<Rightarrow> Some (dc_userId cfg, dc_userName cfg, 3600) | Some r \<Rightarrow> r) of
        None \<Rightarrow> badRequest
      | Some (userId, name, seconds) \<Rightarrow>
          if userId = [] then badRequest
          else if \<not> isUUID userId then badRequest
          else let exp = now + nat (clampExpiry seconds) * 1000000;
                   c = jwtRegisteredClaimsAt jl now exp userId (noClaims\<lparr>cl_userId := userId, cl_name := name\<rparr>)
            in (case signToken kl jl (dc_privateKey cfg) c of
                  Inl e \<Rightarrow> failR' 503 codeServiceUnavailable | Inr t \<Rightarrow> okR (t, exp)))"

definition me :: "claims option \<Rightarrow> userInfo reply" where "me ctx = okR (userFromContext ctx)"

end
