(* ===== verification/SessionProps.thy ===== *)
theory SessionProps
  imports AuthHandlers
begin

text \<open>
  Sessions: which JSON web tokens the middleware accepts, what a logout does to them, and personal access tokens.
\<close>

section \<open>The token library\<close>

definition floorSec :: "nat \<Rightarrow> nat" where "floorSec t = t div 1000000 * 1000000"

lemma floorSec_le: "floorSec t \<le> t"
  by (simp add: floorSec_def)

lemma floorSec_less: "t < u \<Longrightarrow> floorSec t < u"
  using floorSec_le by (rule le_less_trans)

text \<open>The documented behaviour that the code relies on. A numeric date is a whole second. A token signed with the
  private key is a nonempty word without blanks around it, and parsing it with a key function that yields the
  public key for its method gives its claims until it expires.\<close>

definition keyPair :: "keyLib \<Rightarrow> jwtLib \<Rightarrow> str \<Rightarrow> str \<Rightarrow> bool" where
  "keyPair kl jl privatePEM publicPEM \<longleftrightarrow> (\<forall>t. jl_numericDate jl t = floorSec t) \<and>
     (\<exists>k m pk. parsePrivateKey kl privatePEM = Inr k \<and> signingMethodForPrivateKey k = Inr m \<and>
        parsePublicKey kl publicPEM = Inr pk \<and> matchesPublicKeySigningMethod m pk \<and>
        (\<forall>c t. jl_sign jl m k c = Inr t \<longrightarrow> t \<noteq> [] \<and> trimSpace t = t \<and>
           (\<forall>iat exp kf now. cl_issuedAt c = Some (floorSec iat) \<longrightarrow> cl_expiresAt c = Some (floorSec exp) \<longrightarrow>
              kf m = Inr pk \<longrightarrow>
              jl_parse jl kf now t = (if now < floorSec exp then Inr c else Inl (ErrMsg ''token is expired'')))))"

definition issuedClaims :: "user \<Rightarrow> nat \<Rightarrow> nat \<Rightarrow> claims" where
  "issuedClaims u iat exp = noClaims\<lparr>cl_userId := u_id u, cl_name := u_name u, cl_subject := u_id u,
     cl_issuedAt := Some (floorSec iat), cl_expiresAt := Some (floorSec exp)\<rparr>"

definition bearer :: "str \<Rightarrow> str" where "bearer t = ''Bearer '' @ t"

lemma issueToken_parse:
  assumes "keyPair (as_keys svc) (as_jwt svc) (as_privateKey svc) pub" "issueToken svc u t0 = Inr tok"
  obtains pk where "parsePublicKey (as_keys svc) pub = Inr pk" "bearerToken (bearer (tk_token tok)) = Inr (tk_token tok)"
    "tk_expiresAt tok = t0 + as_ttl svc"
    "\<And>now. jl_parse (as_jwt svc) (keyFunc pk) now (tk_token tok) =
       (if now < floorSec (t0 + as_ttl svc) then Inr (issuedClaims u t0 (t0 + as_ttl svc)) else Inl (ErrMsg ''token is expired''))"
proof -
  let ?c = "issuedClaims u t0 (t0 + as_ttl svc)"
  from assms(1) obtain k m pk where nd: "\<And>t. jl_numericDate (as_jwt svc) t = floorSec t"
    and k: "parsePrivateKey (as_keys svc) (as_privateKey svc) = Inr k" and m: "signingMethodForPrivateKey k = Inr m"
    and pk: "parsePublicKey (as_keys svc) pub = Inr pk" "matchesPublicKeySigningMethod m pk"
    and sig: "\<And>c t. jl_sign (as_jwt svc) m k c = Inr t \<Longrightarrow> t \<noteq> [] \<and> trimSpace t = t \<and>
       (\<forall>iat exp kf now. cl_issuedAt c = Some (floorSec iat) \<longrightarrow> cl_expiresAt c = Some (floorSec exp) \<longrightarrow>
          kf m = Inr pk \<longrightarrow>
          jl_parse (as_jwt svc) kf now t = (if now < floorSec exp then Inr c else Inl (ErrMsg ''token is expired'')))"
    by (auto simp: keyPair_def)
  from assms(2) have s: "jl_sign (as_jwt svc) m k ?c = Inr (tk_token tok)" and e: "tk_expiresAt tok = t0 + as_ttl svc"
    by (auto simp: issueToken_def signToken_def jwtRegisteredClaimsAt_def issuedClaims_def k m nd Let_def bindE_Inr_iff noClaims_def)
  have kf: "keyFunc pk m = Inr pk" using pk(2) by (simp add: keyFunc_def)
  have i: "cl_issuedAt ?c = Some (floorSec t0)" "cl_expiresAt ?c = Some (floorSec (t0 + as_ttl svc))"
    by (simp_all add: issuedClaims_def)
  show thesis
  proof (rule that [OF pk(1) _ e])
    show "bearerToken (bearer (tk_token tok)) = Inr (tk_token tok)"
      using sig [OF s] by (simp add: bearerToken_def bearer_def hasPrefix_def Let_def)
    show "\<And>now. jl_parse (as_jwt svc) (keyFunc pk) now (tk_token tok) =
       (if now < floorSec (t0 + as_ttl svc) then Inr ?c else Inl (ErrMsg ''token is expired''))"
      using sig [OF s] i kf by blast
  qed
qed

section \<open>Which tokens are accepted\<close>

text \<open>The cache agrees with the database about a user, or does not know the user yet.\<close>

definition agrees :: "session \<Rightarrow> user \<Rightarrow> bool" where
  "agrees s u \<longleftrightarrow> findUser (u_id u) (se_st s) = Some u \<and>
     (\<exists>tc. se_tokens s = Some tc \<and> (tc (u_id u) = None \<or> tc (u_id u) = Some (tvaOf u)))"

lemma checkRevoked_agrees:
  assumes "agrees s u" "trimSpace (u_id u) = u_id u" "u_id u \<noteq> []" "cl_userId c = u_id u" "cl_issuedAt c = Some iat"
  shows "fst (checkRevoked c s) = (iat < tvaOf u)"
proof -
  from assms(1) obtain tc where tc: "se_tokens s = Some tc" "tc (u_id u) = None \<or> tc (u_id u) = Some (tvaOf u)"
    "findUser (u_id u) (se_st s) = Some u" by (auto simp: agrees_def)
  have "fst (cacheGet (Some (getTokensValidAfter (se_st s))) (u_id u) tc) = Some (tvaOf u)"
    using tc assms(2,3) by (auto simp: cacheGet_def getTokensValidAfter_def Let_def)
  then show ?thesis using tc(1) assms(4,5)
    by (cases "cacheGet (Some (getTokensValidAfter (se_st s))) (u_id u) tc") (simp add: checkRevoked_def isRevokedBy_def)
qed

text \<open>The user as it was when the token was issued, and as it is now.\<close>

lemma middleware_issued:
  assumes "keyPair (as_keys svc) (as_jwt svc) (as_privateKey svc) (jc_publicKey cfg)" "issueToken svc u0 t0 = Inr tok"
    and "u_id u0 = u_id u" "isUUID (u_id u)" "trimSpace (u_id u) = u_id u" "agrees s u"
  shows "fst (jwtMiddleware (as_keys svc) (as_jwt svc) cfg (bearer (tk_token tok)) s) =
    (if floorSec (tk_expiresAt tok) \<le> clock (se_st s) then Inl (401, ErrMsg ''token has invalid claims'')
     else if floorSec t0 < tvaOf u then Inl (401, ErrTokenRevoked)
     else Inr (issuedClaims u0 t0 (tk_expiresAt tok)))"
proof -
  from issueToken_parse [OF assms(1,2)] obtain pk where pk: "parsePublicKey (as_keys svc) (jc_publicKey cfg) = Inr pk"
    "bearerToken (bearer (tk_token tok)) = Inr (tk_token tok)" "tk_expiresAt tok = t0 + as_ttl svc"
    "\<And>now. jl_parse (as_jwt svc) (keyFunc pk) now (tk_token tok) =
       (if now < floorSec (t0 + as_ttl svc) then Inr (issuedClaims u0 t0 (t0 + as_ttl svc)) else Inl (ErrMsg ''token is expired''))"
    by blast
  let ?c = "issuedClaims u0 t0 (t0 + as_ttl svc)"
  have ne: "u_id u \<noteq> []" using assms(4) by (auto simp: isUUID_def)
  have c: "cl_userId ?c = u_id u" "cl_issuedAt ?c = Some (floorSec t0)" "cl_staffUserId ?c = []"
    using assms(3) by (simp_all add: issuedClaims_def noClaims_def)
  have r: "resolveUser cfg ?c (se_st s) = (Inr ?c, se_st s)" using c assms(4) by (simp add: resolveUser_def)
  have rev: "fst (checkRevoked ?c s) = (floorSec t0 < tvaOf u)"
    by (rule checkRevoked_agrees [OF assms(6,5) ne c(1,2)])
  show ?thesis
    using rev by (cases "checkRevoked ?c s") (auto simp: jwtMiddleware_def pk r not_less [symmetric] split: bool.splits)
qed

text \<open>C18. The middleware accepts exactly the tokens that are neither expired nor revoked. A token that the service
  issued to a user at time \<open>t0\<close> is accepted, with the identity of that user, exactly while the clock is before
  the second in which it expires and the second in which it was issued is not before the revocation time of
  the user; provided that the cache does not disagree with the database.\<close>

theorem token_check_exact:
  assumes "keyPair (as_keys svc) (as_jwt svc) (as_privateKey svc) (jc_publicKey cfg)" "issueToken svc u0 t0 = Inr tok"
    and "u_id u0 = u_id u" "isUUID (u_id u)" "trimSpace (u_id u) = u_id u" "agrees s u"
  shows "fst (jwtMiddleware (as_keys svc) (as_jwt svc) cfg (bearer (tk_token tok)) s) =
    (if floorSec (tk_expiresAt tok) \<le> clock (se_st s) then Inl (401, ErrMsg ''token has invalid claims'')
     else if floorSec t0 < tvaOf u then Inl (401, ErrTokenRevoked)
     else Inr (issuedClaims u0 t0 (tk_expiresAt tok)))"
  by (rule middleware_issued [OF assms])

text \<open>A library in which a token is the position of its claims in a list, for concrete runs: one user, one token.\<close>

definition demoUuid :: str where "demoUuid = ''0000000a-000a-000a-000a-00000000000a''"

definition accountUser :: user where
  "accountUser = passwordUser demoUuid ''email:a@b.c'' ''a@b.c'' ''Ann'' ''h'' algoArgon2id 1"

definition demoKeys :: keyLib where
  "demoKeys = \<lparr> kl_pem = (\<lambda>s. Some s), kl_certificate = (\<lambda>_. None), kl_pkix = (\<lambda>_. Some (Ed25519Public ''k'')),
     kl_pkcs1Public = (\<lambda>_. None), kl_pkcs8 = (\<lambda>_. Some (Ed25519Private ''k'')), kl_pkcs1 = (\<lambda>_. None), kl_ec = (\<lambda>_. None) \<rparr>"

definition demoTtl :: nat where "demoTtl = 3600000000"

definition demoClaims :: claims where "demoClaims = issuedClaims accountUser 1500000 (1500000 + demoTtl)"

definition demoJwt :: jwtLib where
  "demoJwt = \<lparr> jl_numericDate = floorSec,
     jl_sign = (\<lambda>m k c. if c = demoClaims then Inr ''t'' else Inl (ErrMsg ''sign'')),
     jl_parse = (\<lambda>kf now t. case kf EdDSA of Inl e \<Rightarrow> Inl e
       | Inr k \<Rightarrow> if t \<noteq> ''t'' then Inl (ErrMsg ''malformed'')
           else if now < floorSec (1500000 + demoTtl) then Inr demoClaims else Inl (ErrMsg ''token is expired'')) \<rparr>"

definition demoAuth :: "limitServer authService" where
  "demoAuth = \<lparr> as_argon = demoArgon, as_params = demoParams, as_limiter = Some (redisLimiter demoLimit), as_keys = demoKeys,
     as_jwt = demoJwt, as_privateKey = ''priv'', as_ttl = demoTtl, as_minLen = 4 \<rparr>"

definition demoJwtConfig :: jwtConfig where "demoJwtConfig = \<lparr> jc_publicKey = ''pub'', jc_resolver = None \<rparr>"

lemma demo_keys: "parsePrivateKey demoKeys ''priv'' = Inr (Ed25519Private ''k'')" "parsePublicKey demoKeys ''pub'' = Inr (Ed25519Public ''k'')"
  by code_simp+

lemma demo_keyPair: "keyPair demoKeys demoJwt ''priv'' ''pub''"
proof -
  have t: "trimSpace ''t'' = ''t''" by code_simp
  have e: "cl_expiresAt demoClaims = Some (floorSec (1500000 + demoTtl))" by (simp add: demoClaims_def issuedClaims_def)
  show ?thesis unfolding keyPair_def
    by (simp add: demo_keys demoJwt_def t) (auto simp: e)
qed

lemma demo_issue: "issueToken demoAuth accountUser 1500000 =
    Inr \<lparr> tk_userId = demoUuid, tk_email = ''a@b.c'', tk_name = ''Ann'', tk_token = ''t'', tk_issuedAt = 1500000,
      tk_expiresAt = 1500000 + demoTtl \<rparr>"
proof -
  have "jwtRegisteredClaimsAt demoJwt 1500000 (1500000 + demoTtl) demoUuid (noClaims\<lparr>cl_userId := demoUuid, cl_name := ''Ann''\<rparr>) =
      demoClaims"
    by (simp add: jwtRegisteredClaimsAt_def demoClaims_def issuedClaims_def demoJwt_def noClaims_def accountUser_def passwordUser_def)
  then show ?thesis
    by (simp add: issueToken_def demoAuth_def Let_def signToken_def demo_keys accountUser_def passwordUser_def)
      (simp add: demoJwt_def)
qed

lemma demo_uuid: "isUUID demoUuid" "trimSpace demoUuid = demoUuid" by code_simp+

definition accountSession :: "user \<Rightarrow> nat \<Rightarrow> session" where
  "accountSession u now = \<lparr> se_st = emptyStore\<lparr>usersT := [u], clock := now\<rparr>, se_tokens = Some Map.empty \<rparr>"

lemma account_agrees: "agrees (accountSession u now) u"
  by (simp add: agrees_def accountSession_def findUser_def)

theorem token_check_exact_witness:
  "fst (jwtMiddleware demoKeys demoJwt demoJwtConfig (bearer ''t'') (accountSession accountUser 2000000)) = Inr demoClaims \<and>
   fst (jwtMiddleware demoKeys demoJwt demoJwtConfig (bearer ''t'')
     (accountSession (accountUser\<lparr>u_tva := Some 1200000\<rparr>) 2000000)) = Inl (401, ErrTokenRevoked)"
proof -
  have k: "keyPair (as_keys demoAuth) (as_jwt demoAuth) (as_privateKey demoAuth) (jc_publicKey demoJwtConfig)"
    using demo_keyPair by (simp add: demoAuth_def demoJwtConfig_def)
  have i: "isUUID (u_id accountUser)" "trimSpace (u_id accountUser) = u_id accountUser"
    using demo_uuid by (simp_all add: accountUser_def passwordUser_def)
  have v: "u_id accountUser = u_id (accountUser\<lparr>u_tva := Some 1200000\<rparr>)" by simp
  show ?thesis
    using token_check_exact [OF k demo_issue refl i account_agrees [of accountUser 2000000]]
      token_check_exact [OF k demo_issue v _ _ account_agrees [of "accountUser\<lparr>u_tva := Some 1200000\<rparr>" 2000000]] i
    by (simp add: demoAuth_def demoJwtConfig_def accountSession_def demoTtl_def floorSec_def tvaOf_def demoClaims_def)
      (simp add: accountUser_def passwordUser_def)
qed

section \<open>Logout\<close>

lemma findFirst_map:
  "(\<And>x. x \<in> set xs \<Longrightarrow> p (f x) = p x) \<Longrightarrow> findFirst p (map f xs) = map_option f (findFirst p xs)"
  by (induction xs) auto

lemma logout_effect:
  assumes "logout (u_id u) w = (Inr x, w')" "findUser (u_id u) (aw_st w) = Some u" "trimSpace (u_id u) = u_id u"
    and "aw_tokens w = Some tc"
  shows "findUser (u_id u) (aw_st w') = Some (u\<lparr>u_tva := Some (clock (aw_st w))\<rparr>)"
    and "aw_tokens w' = Some (tc(u_id u \<mapsto> clock (aw_st w)))"
proof -
  let ?st' = "updateUsers (\<lambda>x. u_id x = u_id u) (\<lambda>x. x\<lparr>u_tva := Some (clock (aw_st w))\<rparr>) (aw_st w)"
  have w': "w' = setToken (u_id u) (clock (aw_st w)) (w\<lparr>aw_st := ?st'\<rparr>)" and ne: "u_id u \<noteq> []"
    using assms(1,3) by (auto simp: logout_def bumpTokensValidAfter_def bumpWhere_def Let_def split: if_splits)
  have "findUser (u_id u) ?st' = map_option (\<lambda>x. if u_id x = u_id u then x\<lparr>u_tva := Some (clock (aw_st w))\<rparr> else x)
      (findUser (u_id u) (aw_st w))"
    unfolding findUser_def updateUsers_def by (subst findFirst_map [symmetric]) simp_all
  with assms(2) w' show "findUser (u_id u) (aw_st w') = Some (u\<lparr>u_tva := Some (clock (aw_st w))\<rparr>)"
    by (simp add: setToken_def)
  show "aw_tokens w' = Some (tc(u_id u \<mapsto> clock (aw_st w)))" using w' assms(4) ne by (simp add: setToken_def cacheSet_def)
qed

text \<open>C19. A logout ends the sessions of before. After a logout the process accepts a token of that user, whenever it
  asks, exactly if the token has not expired and the second in which it was issued does not begin before the
  logout. So every token of before the logout is refused; and so is one that the user obtains by logging in again
  within the same second, because the time of issue is rounded down to the second and the time of the logout is
  not.\<close>

theorem logout_revokes:
  assumes "keyPair (as_keys svc) (as_jwt svc) (as_privateKey svc) (jc_publicKey cfg)" "issueToken svc u0 t0 = Inr tok"
    and "u_id u0 = u_id u" "isUUID (u_id u)" "trimSpace (u_id u) = u_id u"
    and "findUser (u_id u) (aw_st w) = Some u" "aw_tokens w \<noteq> None" "logout (u_id u) w = (Inr x, w')"
    and "se_st s = (aw_st w')\<lparr>clock := now\<rparr>" "se_tokens s = aw_tokens w'"
  shows "is_ok (fst (jwtMiddleware (as_keys svc) (as_jwt svc) cfg (bearer (tk_token tok)) s)) \<longleftrightarrow>
    now < floorSec (tk_expiresAt tok) \<and> clock (aw_st w) \<le> floorSec t0"
proof -
  let ?u = "u\<lparr>u_tva := Some (clock (aw_st w))\<rparr>"
  from assms(7) obtain tc where tc: "aw_tokens w = Some tc" by blast
  note e = logout_effect [OF assms(8,6,5) tc]
  have "findUser (u_id ?u) (se_st s) = Some ?u" using e(1) assms(9) by (simp add: findUser_def)
  then have a: "agrees s ?u" using e(2) assms(10) by (simp add: agrees_def tvaOf_def)
  have v: "u_id u0 = u_id ?u" "isUUID (u_id ?u)" "trimSpace (u_id ?u) = u_id ?u" using assms(3-5) by simp_all
  show ?thesis
    using middleware_issued [OF assms(1,2) v a] assms(9) by (simp add: tvaOf_def not_less)
qed

definition accountWorld :: "user \<Rightarrow> nat \<Rightarrow> limitServer authWorld" where
  "accountWorld u now = \<lparr> aw_st = emptyStore\<lparr>usersT := [u], clock := now, ids := [''n1'', ''n2'', ''n3'', ''n4'']\<rparr>, aw_attempts = [],
     aw_tokens = Some Map.empty, aw_lim = freshServer, aw_rand = map (\<lambda>i. i) [1..<65] \<rparr>"

text \<open>The token of second 1.5 after a logout in second 1.2, and after one in second 0.9.\<close>

theorem logout_revokes_witness:
  "\<not> is_ok (fst (jwtMiddleware demoKeys demoJwt demoJwtConfig (bearer ''t'')
      (let w = snd (logout demoUuid (accountWorld accountUser 1200000)) in
       \<lparr> se_st = (aw_st w)\<lparr>clock := 2000000\<rparr>, se_tokens = aw_tokens w \<rparr>))) \<and>
   is_ok (fst (jwtMiddleware demoKeys demoJwt demoJwtConfig (bearer ''t'')
      (let w = snd (logout demoUuid (accountWorld accountUser 900000)) in
       \<lparr> se_st = (aw_st w)\<lparr>clock := 2000000\<rparr>, se_tokens = aw_tokens w \<rparr>)))"
proof -
  have k: "keyPair (as_keys demoAuth) (as_jwt demoAuth) (as_privateKey demoAuth) (jc_publicKey demoJwtConfig)"
    using demo_keyPair by (simp add: demoAuth_def demoJwtConfig_def)
  have i: "u_id accountUser = demoUuid" by (simp add: accountUser_def passwordUser_def)
  have iu: "isUUID (u_id accountUser)" "trimSpace (u_id accountUser) = u_id accountUser" using demo_uuid by (simp_all add: i)
  have f: "findUser (u_id accountUser) (aw_st (accountWorld accountUser t)) = Some accountUser"
    "aw_tokens (accountWorld accountUser t) \<noteq> None" for t by (simp_all add: accountWorld_def findUser_def)
  have ne: "demoUuid \<noteq> []" by (simp add: demoUuid_def)
  have l: "logout (u_id accountUser) (accountWorld accountUser t) = (Inr (), snd (logout demoUuid (accountWorld accountUser t)))" for t
    by (simp add: logout_def bumpTokensValidAfter_def bumpWhere_def i ne demo_uuid accountWorld_def Let_def)
  let ?s = "\<lambda>t. let w = snd (logout demoUuid (accountWorld accountUser t)) in \<lparr> se_st = (aw_st w)\<lparr>clock := 2000000\<rparr>, se_tokens = aw_tokens w \<rparr>"
  have "is_ok (fst (jwtMiddleware (as_keys demoAuth) (as_jwt demoAuth) demoJwtConfig (bearer ''t'') (?s t))) \<longleftrightarrow> t \<le> 1000000" for t
    using logout_revokes [OF k demo_issue refl iu f l, of "?s t" 2000000]
    by (simp add: Let_def accountWorld_def demoTtl_def floorSec_def)
  then show ?thesis by (simp add: demoAuth_def)
qed

section \<open>Personal access tokens\<close>

lemma createPAT_effect:
  assumes "createPAT sha userId name e w = (Inr (tok, plain), w')"
  obtains row where "plain = patPrefix @ drop (length patPrefix) plain" "at_id tok = t_id row" "t_user row = userId"
    "t_hash row = hashPAT sha plain" "t_expires row = e" "t_deletedAt row = None" "userId \<noteq> []"
    "tokensT (aw_st w') = tokensT (aw_st w) @ [row]" "t_id row \<notin> t_id ` set (tokensT (aw_st w))"
    "\<forall>x \<in> set (tokensT (aw_st w)). \<not> (t_hash x = hashPAT sha plain \<and> t_deletedAt x = None)"
proof -
  from assms obtain rest st' where g: "generateToken (aw_rand w) = Inr (plain, rest)" "userId \<noteq> []"
    and c: "createToken userId (trimSpace name) (hashPAT sha plain) (displayPrefix plain) e (aw_st w) = (Inr tok, st')"
    and w': "aw_st w' = st'"
    by (auto simp: createPAT_def Let_def split: if_splits sum.splits prod.splits)
  from g(1) have p: "plain = patPrefix @ drop (length patPrefix) plain" by (auto simp: generateToken_def bindE_Inr_iff)
  from c obtain i st1 where i: "newUUID (aw_st w) = Inr (i, st1)" by (auto simp: createToken_def split: sum.splits)
  then have st1: "tokensT st1 = tokensT (aw_st w)" by (auto simp: newUUID_Inr)
  let ?row = "\<lparr> t_id = i, t_user = userId, t_name = trimSpace name, t_hash = hashPAT sha plain, t_prefix = displayPrefix plain,
           t_expires = e, t_lastUsed = None, t_createdAt = clock st1, t_deletedAt = None \<rparr>"
  from c i have "insertToken ?row st1 = Inr ((), st')" and tok: "tok = accessTokenOf ?row"
    by (auto simp: createToken_def Let_def split: sum.splits prod.splits)
  then have "tokensT st' = tokensT (aw_st w) @ [?row]" "i \<notin> t_id ` set (tokensT (aw_st w))"
    "\<forall>x \<in> set (tokensT (aw_st w)). \<not> (t_hash x = hashPAT sha plain \<and> t_deletedAt x = None)"
    by (auto simp: insertToken_def st1 list_ex_iff split: if_splits)
  with p tok g(2) w' show thesis by (intro that [of ?row]) (simp_all add: accessTokenOf_def)
qed

lemma findFirst_last: "\<forall>x \<in> set xs. \<not> p x \<Longrightarrow> p y \<Longrightarrow> findFirst p (xs @ [y]) = Some y"
  by (induction xs) auto

lemma pat_header:
  assumes "plain = patPrefix @ t"
  shows "isPAT (bearer plain)" "extractPAT (bearer plain) = plain"
  using assms by (simp_all add: isPAT_def extractPAT_def bearer_def hasPrefix_def)

text \<open>C28. A personal access token authenticates its owner until it expires or is deleted. The plaintext that
  \<open>CreatePAT\<close> returns, sent as a bearer token, makes the middleware accept the request as that user at any later
  time up to the expiry of the token, and refuse it with status 401 after that; once the owner has deleted the
  token, it is refused at any time.\<close>

theorem pat_authenticates:
  assumes "createPAT (pc_sha cfg) userId name e w = (Inr (tok, plain), w')" "pc_configured cfg"
    and "se_st s = (aw_st w')\<lparr>clock := now\<rparr>" "se_st sd = (aw_st (snd (deletePAT userId (at_id tok) w')))\<lparr>clock := now\<rparr>"
  shows "map_sum id cl_userId (fst (combinedAuthMiddleware cfg kl jl jcfg (bearer plain) s)) =
      (case e of Some t \<Rightarrow> if t < now then Inl (401, ErrInvalidPAT) else Inr userId | None \<Rightarrow> Inr userId) \<and>
    (at_id tok \<noteq> [] \<longrightarrow> fst (combinedAuthMiddleware cfg kl jl jcfg (bearer plain) sd) = Inl (401, ErrInvalidPAT))"
proof (intro conjI impI)
  let ?h = "hashPAT (pc_sha cfg) plain"
  let ?p = "\<lambda>t. t_hash t = ?h \<and> t_deletedAt t = None"
  obtain row where r: "plain = patPrefix @ drop (length patPrefix) plain" "at_id tok = t_id row" "t_user row = userId"
    "t_hash row = ?h" "t_expires row = e" "t_deletedAt row = None" "userId \<noteq> []"
    "tokensT (aw_st w') = tokensT (aw_st w) @ [row]" "t_id row \<notin> t_id ` set (tokensT (aw_st w))"
    "\<forall>x \<in> set (tokensT (aw_st w)). \<not> ?p x"
    by (rule createPAT_effect [OF assms(1)])
  note pat = pat_header [OF r(1)]
  have f: "findFirst ?p (tokensT (se_st s)) = Some row"
    using r(4,6,8,10) assms(3) findFirst_last [of "tokensT (aw_st w)" ?p row] by simp
  show "map_sum id cl_userId (fst (combinedAuthMiddleware cfg kl jl jcfg (bearer plain) s)) =
      (case e of Some t \<Rightarrow> if t < now then Inl (401, ErrInvalidPAT) else Inr userId | None \<Rightarrow> Inr userId)"
    using pat assms(2,3) r(3,5) f
    by (auto simp: combinedAuthMiddleware_def patMiddleware_def validatePAT_def Let_def noClaims_def split: option.splits)
  assume ne: "at_id tok \<noteq> []"
  let ?q = "\<lambda>t. t_id t = t_id row \<and> t_user t = userId \<and> t_deletedAt t = None"
  have "list_ex ?q (tokensT (aw_st w'))" using r(3,6,8) by simp
  then have tk: "tokensT (se_st sd) =
      map (\<lambda>t. if ?q t then t\<lparr>t_deletedAt := Some (clock (aw_st w'))\<rparr> else t) (tokensT (aw_st w'))"
    using ne r(2,7) assms(4) by (simp add: deletePAT_def softDeleteToken_def updateTokens_def Let_def)
  have "\<not> ?p t" if "t \<in> set (tokensT (se_st sd))" for t
  proof -
    from that obtain t0 where "t0 \<in> set (tokensT (aw_st w'))"
      "t = (if ?q t0 then t0\<lparr>t_deletedAt := Some (clock (aw_st w'))\<rparr> else t0)"
      unfolding tk set_map by blast
    then show ?thesis using r(3,6,8,10) by (auto split: if_splits)
  qed
  then have none: "findFirst ?p (tokensT (se_st sd)) = None" by simp
  show "fst (combinedAuthMiddleware cfg kl jl jcfg (bearer plain) sd) = Inl (401, ErrInvalidPAT)"
    using pat assms(2) by (simp add: combinedAuthMiddleware_def patMiddleware_def validatePAT_def Let_def none)
qed

definition demoPat :: patConfig where
  "demoPat = \<lparr> pc_sha = map of_char, pc_configured = True, pc_names = None \<rparr>"

theorem pat_authenticates_witness:
  "case createPAT (pc_sha demoPat) demoUuid ''ci'' (Some 9) (accountWorld accountUser 5) of
     (Inr (tok, plain), w') \<Rightarrow> map_sum id cl_userId (fst (combinedAuthMiddleware demoPat demoKeys demoJwt demoJwtConfig (bearer plain)
         \<lparr> se_st = (aw_st w')\<lparr>clock := 7\<rparr>, se_tokens = None \<rparr>)) = Inr demoUuid
   | (Inl e, w') \<Rightarrow> False"
proof -
  let ?c = "createPAT (pc_sha demoPat) demoUuid ''ci'' (Some 9) (accountWorld accountUser 5)"
  have "is_ok (fst ?c)" by code_simp
  then obtain tok plain where c: "?c = (Inr (tok, plain), snd ?c)" by (cases ?c) (auto simp: is_ok_iff)
  have p: "pc_configured demoPat" by (simp add: demoPat_def)
  let ?s = "\<lparr> se_st = (aw_st (snd ?c))\<lparr>clock := 7\<rparr>, se_tokens = None \<rparr>"
  let ?sd = "\<lparr> se_st = (aw_st (snd (deletePAT demoUuid (at_id tok) (snd ?c))))\<lparr>clock := 7\<rparr>, se_tokens = None \<rparr>"
  have "map_sum id cl_userId (fst (combinedAuthMiddleware demoPat demoKeys demoJwt demoJwtConfig (bearer plain) ?s)) = Inr demoUuid"
    using pat_authenticates [OF c p, of ?s 7 ?sd demoKeys demoJwt demoJwtConfig] by simp
  then show ?thesis by (subst c) simp
qed

end
