(* ===== verification/LoginProps.thy ===== *)
theory LoginProps
  imports SessionProps
begin

text \<open>
  Login and registration: what a login answers and records, who becomes administrator, and that a lockout of the
  login limiter never ends.
\<close>

section \<open>The outcome of a login\<close>

definition normEmail :: "str \<Rightarrow> str" where "normEmail e = toLower (trimSpace e)"




lemma limitRecord_frame [simp]:
  "aw_st (limitRecord svc ip ok w) = aw_st w" "aw_attempts (limitRecord svc ip ok w) = aw_attempts w"
  "aw_tokens (limitRecord svc ip ok w) = aw_tokens w"
  by (simp_all add: limitRecord_def split: option.splits)


lemma recordAttempt_frame [simp]:
  "aw_tokens (recordAttempt e ip ok uid w) = aw_tokens w" "aw_lim (recordAttempt e ip ok uid w) = aw_lim w"
  "usersT (aw_st (recordAttempt e ip ok uid w)) = usersT (aw_st w)" "clock (aw_st (recordAttempt e ip ok uid w)) = clock (aw_st w)"
  by (auto simp: recordAttempt_def recordLoginAttempt_def newUUID_Inr split: prod.splits sum.splits)


lemma touchLastSeen_clock [simp]: "clock (touchLastSeen i st) = clock st"
  by (simp add: touchLastSeen_def updateUsers_def Let_def)



section \<open>The first user\<close>

lemma roleIdByCodeTx_users: "roleIdByCodeTx c (st\<lparr>usersT := us, ids := i\<rparr>) =
    (case roleIdByCodeTx c st of Inl e \<Rightarrow> Inl e | Inr (r, _) \<Rightarrow> Inr (r, st\<lparr>usersT := us, ids := i\<rparr>))"
  unfolding roleIdByCodeTx_def by (simp del: findFirst_None split: option.splits)

text \<open>C37. Registration makes exactly the first user an administrator. A successful registration creates a binding
  only if there was no user before, namely the global role \<open>platform_admin\<close> for the new user; yet in every case it
  writes an audit record that this role was granted, also where it was not.\<close>

theorem registration_grants:
  assumes "createPasswordUser email name hash algo st = (Inr u, st')"
    and "roleIdByCodeTx ''platform_admin'' st = Inr (rid, st)" "ids st = i # j # k # rest"
    and "j \<notin> b_id ` set (bindingsT st)"
  shows "bindingsT st' = bindingsT st @ (if usersT st = [] then [mkBinding j i rid ''global'' None ''register'' None (clock st)] else []) \<and>
    bindAuditT st' = bindAuditT st @ [\<lparr> ba_actor = ''register'', ba_action = ''grant_role'', ba_target = i, ba_role = rid,
       ba_scopeType = ''global'', ba_scope = None \<rparr>]"
proof -
  let ?e = "trimSpace (toLower email)" and ?n = "trimSpace name"
  let ?u = "passwordUser i (''email:'' @ ?e) ?e ?n hash algo (clock st)"
  let ?st1 = "st\<lparr>usersT := usersT st @ [?u], ids := j # k # rest\<rparr>"
  from assms(1) obtain uid st2 where tx: "createPasswordUserTx ?e ?n hash algo st = Inr (uid, st2)"
    and st': "bindingsT st' = bindingsT st2 \<and> bindAuditT st' = bindAuditT st2"
    by (auto simp: createPasswordUser_def Let_def runTx_def cacheUserLabel_def split: if_splits sum.splits prod.splits)
  have ins: "insertPasswordUserTx (''email:'' @ ?e) ?e ?n hash algo st = Inr (i, ?st1)"
    using tx assms(3) by (auto simp: createPasswordUserTx_def insertPasswordUserTx_def bindT_Inr_iff newUUID_def
        translated_Inr insertUser_def split: if_splits)
  have role: "roleIdByCodeTx ''platform_admin'' ?st1 = Inr (rid, ?st1)" using assms(2) by (simp add: roleIdByCodeTx_users)
  obtain r where "r \<in> set (rolesT st)" "ro_code r = ''platform_admin''"
    using assms(2) by (auto simp: roleIdByCodeTx_def dest!: findFirst_Some split: option.splits)
  then have code: "list_ex (\<lambda>r. ro_code r = ''platform_admin'') (rolesT st)" by (auto simp: list_ex_iff)
  have chk: "bindingCheck (mkBinding j i rid ''global'' None ''register'' None (clock st))"
    by (simp add: bindingCheck_def scopeTypeCheck_def)
  have grant: "firstUserGrant j i rid (?st1\<lparr>ids := k # rest\<rparr>) = Inr ((), ?st1\<lparr>ids := k # rest, bindingsT := bindingsT st @
      (if usersT st = [] then [mkBinding j i rid ''global'' None ''register'' None (clock st)] else [])\<rparr>)"
    using assms(4) code chk by (auto simp: firstUserGrant_def insertBinding_def)
  have tx': "createPasswordUserTx ?e ?n hash algo st = Inr (i, ?st1\<lparr>ids := rest, bindingsT := bindingsT st @
      (if usersT st = [] then [mkBinding j i rid ''global'' None ''register'' None (clock st)] else []),
      bindAuditT := bindAuditT st @ [\<lparr> ba_actor = ''register'', ba_action = ''grant_role'', ba_target = i, ba_role = rid,
       ba_scopeType = ''global'', ba_scope = None \<rparr>]\<rparr>)"
    using ins role grant by (simp add: createPasswordUserTx_def bindT_def newUUID_def ignoreErr_def
        recordRoleBindingAuditTx_def nullif_def)
  from tx [unfolded tx'] have "st2 = ?st1\<lparr>ids := rest, bindingsT := bindingsT st @
      (if usersT st = [] then [mkBinding j i rid ''global'' None ''register'' None (clock st)] else []),
      bindAuditT := bindAuditT st @ [\<lparr> ba_actor = ''register'', ba_action = ''grant_role'', ba_target = i, ba_role = rid,
       ba_scopeType = ''global'', ba_scope = None \<rparr>]\<rparr>" by blast
  with st' show ?thesis by simp
qed

definition roleStore :: store where
  "roleStore = emptyStore\<lparr>rolesT := [\<lparr> ro_id = ''r0'', ro_code = ''platform_admin'', ro_name = [], ro_description = [],
     ro_scopeType = ''global'', ro_org = None, ro_project = None, ro_system = True, ro_deleted = False \<rparr>],
     ids := [''n1'', ''n2'', ''n3'', ''n4'', ''n5'', ''n6'']\<rparr>"

theorem registration_grants_witness:
  "map b_user (bindingsT (snd (createPasswordUser ''a@b.c'' ''Ann'' ''h'' ''x'' roleStore))) = [''n1''] \<and>
   (let st = snd (createPasswordUser ''a@b.c'' ''Ann'' ''h'' ''x'' roleStore) in
    length (bindingsT (snd (createPasswordUser ''d@b.c'' ''Dan'' ''h'' ''x'' st))) = 1 \<and>
    length (bindAuditT (snd (createPasswordUser ''d@b.c'' ''Dan'' ''h'' ''x'' st))) = 2)"
proof -
  let ?c1 = "createPasswordUser ''a@b.c'' ''Ann'' ''h'' ''x'' roleStore"
  let ?c2 = "createPasswordUser ''d@b.c'' ''Dan'' ''h'' ''x'' (snd ?c1)"
  have "is_ok (fst ?c1)" "is_ok (fst ?c2)" by code_simp+
  then obtain u1 u2 where c: "?c1 = (Inr u1, snd ?c1)" "?c2 = (Inr u2, snd ?c2)"
    by (metis is_ok_iff prod.collapse)
  have r1: "roleIdByCodeTx ''platform_admin'' roleStore = Inr (''r0'', roleStore)"
    "ids roleStore = ''n1'' # ''n2'' # ''n3'' # [''n4'', ''n5'', ''n6'']" "''n2'' \<notin> b_id ` set (bindingsT roleStore)"
    by (simp_all add: roleStore_def emptyStore_def roleIdByCodeTx_def)
  have s: "rolesT (snd ?c1) = rolesT roleStore" "ids (snd ?c1) = [''n4'', ''n5'', ''n6'']" "usersT (snd ?c1) \<noteq> []" by code_simp+
  have b: "usersT roleStore = []" "bindingsT roleStore = []" "bindAuditT roleStore = []" by (simp_all add: roleStore_def emptyStore_def)
  note g1 = registration_grants [OF c(1) r1]
  have r2: "roleIdByCodeTx ''platform_admin'' (snd ?c1) = Inr (''r0'', snd ?c1)" "''n5'' \<notin> b_id ` set (bindingsT (snd ?c1))"
    using s(1) g1 b by (simp_all add: roleIdByCodeTx_def roleStore_def)
  note g2 = registration_grants [OF c(2) r2(1) s(2) r2(2)]
  show ?thesis using g1 g2 b s(3) by (simp add: Let_def)
qed

section \<open>A lockout never ends\<close>

datatype authCall =
    Register str str str | Login str str str | Logout str | ChangePassword str str str | Wait nat

fun runCall :: "'l authService \<Rightarrow> authCall \<Rightarrow> 'l authWorld \<Rightarrow> 'l authWorld" where
  "runCall svc (Register email name password) w = snd (register svc email name password w)"
| "runCall svc (Login email password ip) w = snd (login svc email password ip w)"
| "runCall svc (Logout userId) w = snd (logout userId w)"
| "runCall svc (ChangePassword userId old new) w = snd (changePassword svc userId old new w)"
| "runCall svc (Wait d) w = w\<lparr>aw_st := (aw_st w)\<lparr>clock := clock (aw_st w) + d\<rparr>\<rparr>"

lemma lim_frame:
  "aw_lim (snd (register svc email name password w)) = aw_lim w" "aw_lim (snd (logout userId w)) = aw_lim w"
  "aw_lim (snd (changePassword svc userId old new w)) = aw_lim w"
  by (auto simp: register_def logout_def changePassword_def hashS_def setToken_def Let_def split: sum.splits prod.splits option.splits)

context limiter_contract
begin

lemma login_blocked:
  assumes "as_limiter svc = Some \<lparr> li_check = check, li_record = record_outcome \<rparr>" "blocked ip (aw_lim w)"
    and "normEmail email \<noteq> []" "password \<noteq> []"
  shows "fst (login svc email password ip w) = Inl ErrRateLimited"
proof -
  have "fst (limitCheck svc ip w) = Inl ErrRateLimited"
    using blocked_refused [OF assms(2), of "clock (aw_st w)"]
    by (cases "check (clock (aw_st w)) ip (aw_lim w)") (simp add: limitCheck_def assms(1))
  then show ?thesis using assms(3,4) by (cases "limitCheck svc ip w") (simp add: login_def normEmail_def Let_def)
qed

lemma check_keeps:
  assumes "as_limiter svc = Some \<lparr> li_check = check, li_record = record_outcome \<rparr>" "blocked ip (aw_lim w)"
  shows "blocked ip (aw_lim (snd (limitCheck svc ip' w)))"
  using blocked_check [OF assms(2), of "clock (aw_st w)" ip']
  by (cases "check (clock (aw_st w)) ip' (aw_lim w)") (simp add: limitCheck_def assms(1))

lemma record_keeps:
  assumes "as_limiter svc = Some \<lparr> li_check = check, li_record = record_outcome \<rparr>" "blocked ip (aw_lim w)" "ip' \<noteq> ip"
  shows "blocked ip (aw_lim (limitRecord svc ip' ok w))"
  using blocked_record [OF assms(3,2)] by (simp add: limitRecord_def assms(1))

lemma login_keeps_blocked:
  assumes l: "as_limiter svc = Some \<lparr> li_check = check, li_record = record_outcome \<rparr>" and b: "blocked ip (aw_lim w)"
  shows "blocked ip (aw_lim (snd (login svc email password ip' w)))"
proof (cases "limitCheck svc ip' w")
  case (Pair r w1)
  have w1: "blocked ip (aw_lim w1)" using check_keeps [OF l b, of ip'] Pair by simp
  have same: "r = Inl ErrRateLimited" if "ip' = ip"
    using blocked_refused [OF b, of "clock (aw_st w)"] Pair that by (auto simp: limitCheck_def l split: prod.splits)
  have rec: "blocked ip (aw_lim (limitRecord svc ip' ok w2))" if "r = Inr ()" "aw_lim w2 = aw_lim w1" for ok w2
    by (rule record_keeps [OF l]) (use that w1 same in auto)
  show ?thesis
    using w1 b rec by (auto simp: login_def Pair refuse_def Let_def split: sum.splits)
qed

lemma call_keeps_blocked:
  "as_limiter svc = Some \<lparr> li_check = check, li_record = record_outcome \<rparr> \<Longrightarrow> blocked ip (aw_lim w) \<Longrightarrow>
   blocked ip (aw_lim (runCall svc c w))"
  by (cases c) (simp_all add: lim_frame login_keeps_blocked)

lemma calls_keep_blocked:
  "as_limiter svc = Some \<lparr> li_check = check, li_record = record_outcome \<rparr> \<Longrightarrow> blocked ip (aw_lim w) \<Longrightarrow>
   blocked ip (aw_lim (fold (runCall svc) cs w))"
  by (induction cs arbitrary: w) (simp_all add: call_keeps_blocked)

end

text \<open>C34. A lockout never ends. Once the failures recorded for an address have reached the maximum, every later login
  from it is refused as rate limited, with the right password too, however long one waits and whatever anyone
  does in between: \<open>Check\<close> counts members that are older than the window, only \<open>Record\<close> would remove them, and
  \<open>Login\<close> does not come to \<open>Record\<close>. The documented lockout of 15 minutes is set again at its end.\<close>

theorem lockout_never_ends:
  assumes "as_limiter svc = Some (redisLimiter opt)" "exhausted (withDefaults opt) ip (aw_lim w)"
    and "normEmail email \<noteq> []" "password \<noteq> []"
  shows "fst (login svc email password ip (fold (runCall svc) calls w)) = Inl ErrRateLimited"
  by (rule redis_limiter.login_blocked [OF _ redis_limiter.calls_keep_blocked [OF _ assms(2)] assms(3,4)])
    (use assms(1) in \<open>simp_all add: redisLimiter_def\<close>)

text \<open>Two failures in the first milliseconds, then a year, then the right password.\<close>

definition lockedWorld :: "limitServer authWorld" where
  "lockedWorld = (accountWorld accountUser 5)\<lparr>aw_lim := freshServer\<lparr>ls_zsets :=
     (\<lambda>_. [])(failuresKey (withDefaults demoLimit) ''1.2.3.4'' := [(0, ''1000-a''), (0, ''2000-b'')])\<rparr>\<rparr>"

theorem lockout_never_ends_witness:
  "fst (login demoAuth ''a@b.c'' ''secret'' ''1.2.3.4''
     (fold (runCall demoAuth) [Wait 31536000000000, Login ''a@b.c'' ''secret'' ''5.6.7.8'', Wait 1] lockedWorld)) = Inl ErrRateLimited"
proof (rule lockout_never_ends)
  show "as_limiter demoAuth = Some (redisLimiter demoLimit)" by (simp add: demoAuth_def)
  show "exhausted (withDefaults demoLimit) ''1.2.3.4'' (aw_lim lockedWorld)"
    by (simp add: exhausted_def lockedWorld_def freshServer_def withDefaults_def demoLimit_def)
  show "normEmail ''a@b.c'' \<noteq> []" by code_simp
qed simp

end
