(* ===== verification/TokensCacheProps.thy ===== *)
theory TokensCacheProps
  imports Tokens
begin

text \<open>
  The revocation cache under concurrency.  The lock of the cache is held for one read or one write only, so the
  calls of one process interleave between their steps: a miss loads from the database and stores later, a logout
  writes the database and sets the cache later, the refresher takes a snapshot and installs it later.  The steps
  are an inductive relation with the step as its label.
\<close>

record cacheSystem =
  cy_db :: "str \<Rightarrow> nat"
  cy_cache :: tokensCache
  cy_loads :: "(str \<times> nat) list"
  cy_bumps :: "(str \<times> nat) list"
  cy_snapshot :: "tokensCache option"
  cy_now :: nat

datatype cacheEvent = Load str | StoreLoaded str nat | Bump str | SetBumped str nat | Snapshot | Install | Tick nat

text \<open>\<open>Load\<close> and \<open>StoreLoaded\<close> are the two halves of \<open>Get\<close> on a miss, \<open>Bump\<close> and \<open>SetBumped\<close> those of \<open>Logout\<close> and
  \<open>ChangePassword\<close>, \<open>Snapshot\<close> and \<open>Install\<close> those of a round of the refresher; the snapshot has the users that
  the database knows, here all.\<close>

inductive cacheStep :: "cacheSystem \<Rightarrow> cacheEvent \<Rightarrow> cacheSystem \<Rightarrow> bool" where
  load: "cy_cache s u = None \<Longrightarrow> cacheStep s (Load u) (s\<lparr>cy_loads := (u, cy_db s u) # cy_loads s\<rparr>)"
| store: "(u, v) \<in> set (cy_loads s) \<Longrightarrow>
    cacheStep s (StoreLoaded u v) (s\<lparr>cy_cache := (cy_cache s)(u \<mapsto> v), cy_loads := remove1 (u, v) (cy_loads s)\<rparr>)"
| bump: "cacheStep s (Bump u) (s\<lparr>cy_db := (cy_db s)(u := cy_now s), cy_bumps := (u, cy_now s) # cy_bumps s\<rparr>)"
| set: "(u, v) \<in> set (cy_bumps s) \<Longrightarrow>
    cacheStep s (SetBumped u v) (s\<lparr>cy_cache := cacheSet u v (cy_cache s), cy_bumps := remove1 (u, v) (cy_bumps s)\<rparr>)"
| snapshot: "cacheStep s Snapshot (s\<lparr>cy_snapshot := Some (\<lambda>u. Some (cy_db s u))\<rparr>)"
| install: "cy_snapshot s = Some m \<Longrightarrow> cacheStep s Install (s\<lparr>cy_cache := m, cy_snapshot := None\<rparr>)"
| tick: "cacheStep s (Tick d) (s\<lparr>cy_now := cy_now s + d\<rparr>)"

inductive cacheRun :: "cacheSystem \<Rightarrow> cacheEvent list \<Rightarrow> cacheSystem \<Rightarrow> bool" where
  none: "cacheRun s [] s"
| step: "cacheStep s e s' \<Longrightarrow> cacheRun s' es s'' \<Longrightarrow> cacheRun s (e # es) s''"

inductive_cases cacheRunE: "cacheRun s (e # es) s''" "cacheRun s [] s''"
inductive_cases snapshotE: "cacheStep s Snapshot s'"
inductive_cases installE: "cacheStep s Install s'"

definition initial :: "cacheSystem \<Rightarrow> bool" where
  "initial s \<longleftrightarrow> cy_cache s = Map.empty \<and> cy_loads s = [] \<and> cy_bumps s = [] \<and> cy_snapshot s = None \<and>
     (\<forall>u. cy_db s u \<le> cy_now s)"

section \<open>The cache is never ahead of the database\<close>

text \<open>The values that are in the cache or on the way into it.\<close>

definition held :: "cacheSystem \<Rightarrow> str \<Rightarrow> nat \<Rightarrow> bool" where
  "held s u v \<longleftrightarrow> cy_cache s u = Some v \<or> (u, v) \<in> set (cy_loads s) \<or> (u, v) \<in> set (cy_bumps s) \<or>
     (\<exists>m. cy_snapshot s = Some m \<and> m u = Some v)"

definition notAhead :: "cacheSystem \<Rightarrow> bool" where
  "notAhead s \<longleftrightarrow> (\<forall>u. cy_db s u \<le> cy_now s) \<and> (\<forall>u v. held s u v \<longrightarrow> v \<le> cy_db s u)"

lemma set_remove1D: "x \<in> set (remove1 y xs) \<Longrightarrow> x \<in> set xs"
  using set_remove1_subset by fast

lemma held_step: "cacheStep s e s' \<Longrightarrow> held s' u v \<Longrightarrow> held s u v \<or> v = cy_db s' u"
  by (induction rule: cacheStep.induct)
    (auto simp: held_def cacheSet_def dest: set_remove1D split: if_splits)

lemma db_step: "cacheStep s e s' \<Longrightarrow> cy_db s u \<le> cy_now s \<Longrightarrow> cy_db s u \<le> cy_db s' u \<and> cy_db s' u \<le> cy_now s'"
  by (induction rule: cacheStep.induct) auto

lemma notAhead_step:
  assumes "cacheStep s e s'" "notAhead s"
  shows "notAhead s'"
proof -
  have db: "cy_db s u \<le> cy_db s' u \<and> cy_db s' u \<le> cy_now s'" for u
    by (rule db_step [OF assms(1)]) (use assms(2) in \<open>simp add: notAhead_def\<close>)
  have "v \<le> cy_db s' u" if "held s' u v" for u v
    using held_step [OF assms(1) that] assms(2) db [of u] by (auto simp: notAhead_def intro: order.trans)
  with db show ?thesis by (simp add: notAhead_def)
qed

lemma notAhead_run: "cacheRun s es s' \<Longrightarrow> notAhead s \<Longrightarrow> notAhead s'"
  by (induction rule: cacheRun.induct) (auto dest: notAhead_step)

text \<open>C35. The cache never revokes what the database does not. Over every interleaving of look-ups, logouts, password
  changes and refreshes from an empty cache, a cached time is at most the time in the database; so a token that
  the database would accept is never refused because of the cache.\<close>

theorem revocation_never_ahead:
  assumes "initial s" "cacheRun s es s'" "cy_cache s' u = Some tva" "isRevokedBy c (Some tva)"
  shows "isRevokedBy c (Some (cy_db s' u))"
proof -
  have "notAhead s" using assms(1) by (simp add: initial_def notAhead_def held_def)
  then have "notAhead s'" by (rule notAhead_run [OF assms(2)])
  with assms(3) have "tva \<le> cy_db s' u" by (simp add: notAhead_def held_def)
  with assms(4) show ?thesis by (auto simp: isRevokedBy_def split: option.splits)
qed

definition startSystem :: cacheSystem where
  "startSystem = \<lparr> cy_db = (\<lambda>u. 0), cy_cache = Map.empty, cy_loads = [], cy_bumps = [], cy_snapshot = None, cy_now = 5 \<rparr>"

definition oldClaims :: claims where "oldClaims = noClaims\<lparr>cl_issuedAt := Some 3\<rparr>"

lemma start_logout:
  "cacheRun startSystem [Bump ''u'', SetBumped ''u'' 5]
     (startSystem\<lparr>cy_db := (\<lambda>u. 0)(''u'' := 5), cy_cache := [''u'' \<mapsto> 5]\<rparr>)"
  using step [OF bump [of startSystem "''u''"] step [OF set [of "''u''" 5] none]]
  by (simp add: startSystem_def cacheSet_def)

lemma start_initial: "initial startSystem"
  by (simp add: initial_def startSystem_def)

theorem revocation_never_ahead_witness:
  "isRevokedBy oldClaims (Some (cy_db (startSystem\<lparr>cy_db := (\<lambda>u. 0)(''u'' := 5), cy_cache := [''u'' \<mapsto> 5]\<rparr>) ''u''))"
  by (rule revocation_never_ahead [OF start_initial start_logout, where tva = 5])
    (simp_all add: isRevokedBy_def oldClaims_def noClaims_def)

section \<open>A refresh heals the cache\<close>

text \<open>A logout can be lost for a while: a look-up that loaded the old time before it stores it after the cache was
  set, and the old token is accepted again.\<close>

lemma logout_lost_race:
  "cacheRun startSystem [Load ''u'', Bump ''u'', SetBumped ''u'' 5, StoreLoaded ''u'' 0]
     (startSystem\<lparr>cy_db := (\<lambda>u. 0)(''u'' := 5), cy_cache := [''u'' \<mapsto> 0]\<rparr>) \<and>
   \<not> isRevokedBy oldClaims (Some 0) \<and> isRevokedBy oldClaims (Some 5)"
  using step [OF load [of startSystem "''u''"] step [OF bump [of _ "''u''"] step [OF set [of "''u''" 5] step [OF store [of "''u''" 0] none]]]]
  by (simp add: startSystem_def cacheSet_def isRevokedBy_def oldClaims_def noClaims_def)

definition freshPairs :: "cacheSystem \<Rightarrow> str \<Rightarrow> bool" where
  "freshPairs s u \<longleftrightarrow> (\<forall>v. (u, v) \<in> set (cy_loads s) \<union> set (cy_bumps s) \<longrightarrow> v = cy_db s u)"

definition freshSnapshot :: "cacheSystem \<Rightarrow> str \<Rightarrow> bool" where
  "freshSnapshot s u \<longleftrightarrow> (\<forall>m. cy_snapshot s = Some m \<longrightarrow> m u = Some (cy_db s u))"

lemma fresh_step:
  assumes "cacheStep s e s'" "e \<noteq> Bump u" "freshPairs s u"
  shows "freshPairs s' u" "freshSnapshot s u \<or> e = Snapshot \<Longrightarrow> freshSnapshot s' u"
  using assms by (induction rule: cacheStep.induct)
    (auto simp: freshPairs_def freshSnapshot_def dest: set_remove1D)

lemma fresh_run:
  "cacheRun s es s' \<Longrightarrow> Bump u \<notin> set es \<Longrightarrow> freshPairs s u \<Longrightarrow> freshSnapshot s u \<Longrightarrow> freshPairs s' u \<and> freshSnapshot s' u"
proof (induction rule: cacheRun.induct)
  case (step s e s' es s'')
  then have "e \<noteq> Bump u" by auto
  with step fresh_step [OF step.hyps(1)] show ?case by simp
qed simp

lemma cacheRun_append:
  "cacheRun s (es @ fs) s'' \<Longrightarrow> \<exists>s'. cacheRun s es s' \<and> cacheRun s' fs s''"
proof (induction es arbitrary: s)
  case Nil
  then show ?case using none by auto
next
  case (Cons e es)
  from Cons.prems obtain s1 where "cacheStep s e s1" "cacheRun s1 (es @ fs) s''" by (auto elim: cacheRunE)
  with Cons.IH show ?case using step by blast
qed

text \<open>C36. Every logout takes effect. Take a state in which no look-up or logout of \<open>u\<close> from before the last change is
  still under way. Once the refresher has begun and ended a round from there, with anything in between but a
  further change for \<open>u\<close>, the cache has for \<open>u\<close> exactly the time of the database, so every token issued before
  it is refused.\<close>

theorem refresh_heals:
  assumes "\<forall>v. (u, v) \<in> set (cy_loads s) \<union> set (cy_bumps s) \<longrightarrow> v = cy_db s u"
    and "cacheRun s (Snapshot # es @ [Install]) s'" "Bump u \<notin> set es"
  shows "cy_cache s' u = Some (cy_db s' u)"
proof -
  have p: "freshPairs s u" using assms(1) by (simp add: freshPairs_def)
  from assms(2) obtain s1 where s1: "cacheStep s Snapshot s1" "cacheRun s1 (es @ [Install]) s'" by (auto elim: cacheRunE)
  from fresh_step [OF s1(1) _ p] have f1: "freshPairs s1 u" "freshSnapshot s1 u" by simp_all
  from cacheRun_append [OF s1(2)] obtain s2 where s2: "cacheRun s1 es s2" "cacheRun s2 [Install] s'" by blast
  from fresh_run [OF s2(1) assms(3) f1] have f2: "freshSnapshot s2 u" by simp
  from s2(2) have "cacheStep s2 Install s'" by (auto elim: cacheRunE)
  with f2 show ?thesis by (auto elim!: installE simp: freshSnapshot_def)
qed

theorem refresh_heals_witness:
  "cy_cache (startSystem\<lparr>cy_db := (\<lambda>u. 0)(''u'' := 5), cy_cache := (\<lambda>u. Some (((\<lambda>u. 0)(''u'' := 5)) u))\<rparr>) ''u'' = Some 5"
proof -
  let ?s = "startSystem\<lparr>cy_db := (\<lambda>u. 0)(''u'' := 5), cy_cache := [''u'' \<mapsto> 0]\<rparr>"
  let ?s' = "startSystem\<lparr>cy_db := (\<lambda>u. 0)(''u'' := 5), cy_cache := (\<lambda>u. Some (((\<lambda>u. 0)(''u'' := 5)) u))\<rparr>"
  have r: "cacheRun ?s (Snapshot # [] @ [Install]) ?s'"
    using step [OF snapshot [of ?s] step [OF install none]] by (simp add: startSystem_def)
  show ?thesis using refresh_heals [OF _ r, of "''u''"] by (simp add: startSystem_def)
qed

end
