(* ===== verification/Config.thy ===== *)
theory Config
  imports Password
begin

text \<open>
  The configuration, \<open>internal/config/config.go\<close>: its sections, defaults, validation and the connection string of
  the database, and the encryption key in base64 (\<open>internal/crypto/encryptor.go\<close>).  \<open>github.com/spf13/viper\<close> is
  the parameter \<open>viper\<close>; the environment is a function.  A \<open>time.Duration\<close> is an integer of nanoseconds.  The
  escaping of \<open>net/url\<close> is written out; the rounding of \<open>Duration.Seconds\<close>, a floating-point number, is not, which
  makes a difference only above about fifty days.
\<close>

section \<open>The sections\<close>

record httpConfig =
  hc_addr :: str
  hc_requestIdHeader :: str

record authConfig =
  ac_enabled :: bool
  ac_publicKey :: str
  ac_privateKey :: str
  ac_devTokenEnabled :: bool
  ac_devPrivateKey :: str
  ac_devUserId :: str
  ac_devUserName :: str
  ac_registerEnabled :: bool
  ac_passwordMinLength :: int
  ac_loginRateLimit :: int
  ac_loginRateLimitWindow :: int
  ac_lockoutDuration :: int
  ac_tokensCacheRefresh :: int
  ac_tokenTTL :: int

record databaseConfig =
  db_host :: str
  db_port :: int
  db_user :: str
  db_password :: str
  db_name :: str
  db_sslMode :: str
  db_maxOpenConns :: int
  db_maxIdleConns :: int
  db_connMaxLifetime :: int
  db_connectTimeout :: int

record redisConfig =
  rc_enabled :: bool
  rc_mode :: str
  rc_addrs :: "str list"
  rc_password :: str
  rc_db :: int
  rc_keyPrefix :: str
  rc_warmUpOnStart :: bool
  rc_poolSize :: int
  rc_minIdleConns :: int
  rc_maxRetries :: int
  rc_dialTimeout :: int
  rc_readTimeout :: int
  rc_writeTimeout :: int

record config =
  cf_http :: httpConfig
  cf_auth :: authConfig
  cf_encryptionKey :: str
  cf_database :: databaseConfig
  cf_redis :: redisConfig

definition seconds :: "int \<Rightarrow> int" where "seconds n = n * 1000000000"
definition minutes :: "int \<Rightarrow> int" where "minutes n = seconds (60 * n)"

text \<open>\<open>setDefaults\<close>; a key without a default has the zero value.\<close>

definition setDefaults :: config where
  "setDefaults = \<lparr>
     cf_http = \<lparr> hc_addr = '':8080'', hc_requestIdHeader = ''x-request-id'' \<rparr>,
     cf_auth = \<lparr> ac_enabled = True, ac_publicKey = [], ac_privateKey = [], ac_devTokenEnabled = False,
       ac_devPrivateKey = [], ac_devUserId = ''00000000-0000-4000-8000-000000000001'', ac_devUserName = ''Dev User'',
       ac_registerEnabled = True, ac_passwordMinLength = 12, ac_loginRateLimit = 5,
       ac_loginRateLimitWindow = minutes 1, ac_lockoutDuration = minutes 15, ac_tokensCacheRefresh = minutes 1,
       ac_tokenTTL = minutes (24 * 60) \<rparr>,
     cf_encryptionKey = [],
     cf_database = \<lparr> db_host = ''127.0.0.1'', db_port = 5432, db_user = ''admin'', db_password = ''123456'',
       db_name = ''envvault'', db_sslMode = ''disable'', db_maxOpenConns = 25, db_maxIdleConns = 5,
       db_connMaxLifetime = minutes 30, db_connectTimeout = seconds 5 \<rparr>,
     cf_redis = \<lparr> rc_enabled = True, rc_mode = ''single'', rc_addrs = [''127.0.0.1:6379''], rc_password = [], rc_db = 0,
       rc_keyPrefix = ''envvault'', rc_warmUpOnStart = True, rc_poolSize = 10, rc_minIdleConns = 2, rc_maxRetries = 3,
       rc_dialTimeout = seconds 5, rc_readTimeout = seconds 3, rc_writeTimeout = seconds 3 \<rparr> \<rparr>"

section \<open>Loading\<close>

text \<open>\<open>ENVVAULT_REDIS_ADDRS\<close> overrides the addresses, wherever else they are set.\<close>

definition applyComplexEnv :: "(str \<Rightarrow> str) \<Rightarrow> str list option" where
  "applyComplexEnv getenv = (let addrs = getenv ''ENVVAULT_REDIS_ADDRS'' in
     if addrs = [] then None
     else Some (filter (\<lambda>p. p \<noteq> []) (map trimSpace (splitOn CHR '','' addrs))))"

definition validate :: "config \<Rightarrow> goErr + unit" where
  "validate c = (let h = cf_http c; d = cf_database c; r = cf_redis c in
     if hc_addr h = [] then Inl (ErrMsg ''http.addr is required'')
     else if hc_requestIdHeader h = [] then Inl (ErrMsg ''http.request_id_header is required'')
     else if db_host d = [] then Inl (ErrMsg ''database.host is required'')
     else if db_port d \<le> 0 then Inl (ErrMsg ''database.port must be positive'')
     else if db_user d = [] then Inl (ErrMsg ''database.user is required'')
     else if db_name d = [] then Inl (ErrMsg ''database.name is required'')
     else if db_connectTimeout d \<le> 0 then Inl (ErrMsg ''database.connect_timeout must be positive'')
     else if rc_enabled r then
       (if rc_mode r \<noteq> ''single'' \<and> rc_mode r \<noteq> ''cluster'' then Inl (ErrMsg ''redis.mode must be single or cluster'')
        else if length (rc_addrs r) = 0 then Inl (ErrMsg ''redis.addrs is required when redis is enabled'')
        else if rc_keyPrefix r = [] then Inl (ErrMsg ''redis.key_prefix is required when redis is enabled'')
        else Inr ())
     else Inr ())"

text \<open>What \<open>LoadFromPath\<close> needs of viper: reading the configuration file, which may not be there, at a path or in
  the default places, and merging defaults, file, environment and the addresses set before into a \<open>config\<close>.\<close>

datatype readError = ConfigFileNotFound | ReadFailed

record 'f viper =
  vp_readInConfig :: "str option \<Rightarrow> readError + 'f"
  vp_unmarshal :: "config \<Rightarrow> (str \<Rightarrow> str) \<Rightarrow> 'f option \<Rightarrow> str list option \<Rightarrow> goErr + config"

definition loadFromPath :: "'f viper \<Rightarrow> (str \<Rightarrow> str) \<Rightarrow> str \<Rightarrow> goErr + config" where
  "loadFromPath v getenv path = (let addrs = applyComplexEnv getenv in
     bindE (case vp_readInConfig v (if path \<noteq> [] then Some path else None) of
         Inr f \<Rightarrow> Inr (Some f)
       | Inl e \<Rightarrow> if path \<noteq> [] \<or> e \<noteq> ConfigFileNotFound then Inl (ErrMsg ''read config'') else Inr None) (\<lambda>file.
     bindE (case vp_unmarshal v setDefaults getenv file addrs of
         Inl e \<Rightarrow> Inl (ErrMsg ''parse config'') | Inr cfg \<Rightarrow> Inr cfg) (\<lambda>cfg.
     bindE (validate cfg) (\<lambda>_. Inr cfg))))"

definition load :: "'f viper \<Rightarrow> (str \<Rightarrow> str) \<Rightarrow> goErr + config" where
  "load v getenv = loadFromPath v getenv (getenv ''ENVVAULT_CONFIG_PATH'')"

section \<open>The connection string\<close>

text \<open>The escaping of \<open>net/url\<close>: each part of the URL has its characters that stand for themselves.\<close>

datatype urlPart = EncodeUserPassword | EncodeHost | EncodePath | EncodeQueryComponent

definition isAlnum :: "char \<Rightarrow> bool" where
  "isAlnum c = (c \<in> set ''abcdefghijklmnopqrstuvwxyzABCDEFGHIJKLMNOPQRSTUVWXYZ0123456789'')"

definition shouldEscape :: "char \<Rightarrow> urlPart \<Rightarrow> bool" where
  "shouldEscape c part =
     (if isAlnum c then False
      else if part = EncodeHost \<and> (c \<in> set ''!$&()*+,;=:[]<>'' \<or> c = CHR 0x22 \<or> c = CHR 0x27) then False
      else if c \<in> set ''-_.~'' then False
      else if c \<in> set ''$&+,/:;=?@'' then
        (case part of EncodeUserPassword \<Rightarrow> c \<in> set ''@/?:'' | EncodePath \<Rightarrow> c = CHR ''?''
           | EncodeQueryComponent \<Rightarrow> True | EncodeHost \<Rightarrow> True)
      else True)"

definition upperHex :: "nat \<Rightarrow> char" where "upperHex d = ''0123456789ABCDEF'' ! d"

definition escapeChar :: "urlPart \<Rightarrow> char \<Rightarrow> str" where
  "escapeChar part c =
     (if \<not> shouldEscape c part then [c]
      else if c = CHR '' '' \<and> part = EncodeQueryComponent then ''+''
      else [CHR ''%'', upperHex (of_char c div 16), upperHex (of_char c mod 16)])"

definition escape :: "urlPart \<Rightarrow> str \<Rightarrow> str" where "escape part s = concat (map (escapeChar part) s)"

definition itoa :: "int \<Rightarrow> str" where
  "itoa n = (if n < 0 then CHR ''-'' # decimal (nat (- n)) else decimal (nat n))"

definition joinHostPort :: "str \<Rightarrow> str \<Rightarrow> str" where
  "joinHostPort host port = (if CHR '':'' \<in> set host then ''['' @ host @ '']:'' @ port else host @ '':'' @ port)"

text \<open>Seconds, cut towards zero; a path without a leading slash gets one; \<open>Values.Encode\<close> sorts the keys.\<close>

definition wholeSeconds :: "int \<Rightarrow> int" where
  "wholeSeconds d = (if d < 0 then - ((- d) div 1000000000) else d div 1000000000)"

definition userinfo :: "databaseConfig \<Rightarrow> str" where
  "userinfo c = escape EncodeUserPassword (db_user c) @ '':'' @ escape EncodeUserPassword (db_password c)"

definition urlPath :: "str \<Rightarrow> str" where
  "urlPath p = (if p = ''*'' then ''/*'' else if p \<noteq> [] \<and> hd p \<noteq> CHR ''/'' then ''/'' @ escape EncodePath p else escape EncodePath p)"

definition dsn :: "databaseConfig \<Rightarrow> str" where
  "dsn c = ''postgres://'' @ userinfo c @ ''@'' @
     escape EncodeHost (joinHostPort (db_host c) (itoa (db_port c))) @ urlPath (db_name c) @
     ''?connect_timeout='' @ escape EncodeQueryComponent (itoa (wholeSeconds (db_connectTimeout c))) @
     ''&sslmode='' @ escape EncodeQueryComponent (db_sslMode c)"

section \<open>The encryption key\<close>

text \<open>\<open>base64.StdEncoding\<close>: padded to groups of four, line breaks left out.\<close>

definition decodePadded :: "str \<Rightarrow> str option" where
  "decodePadded s0 = (let s = filter (\<lambda>c. c \<notin> {CHR 0x0A, CHR 0x0D}) s0;
       body = takeWhile (\<lambda>c. c \<noteq> CHR ''='') s; pad = dropWhile (\<lambda>c. c \<noteq> CHR ''='') s in
     if pad \<in> {[], ''='', ''==''} \<and> length s mod 4 = 0 then decodeString stdAlphabet body else None)"

definition newAESGCMEncryptorFromBase64 :: "(nat list \<Rightarrow> goErr + aead) \<Rightarrow> str \<Rightarrow> goErr + aead" where
  "newAESGCMEncryptorFromBase64 newCipher masterKey = (case decodePadded masterKey of
       None \<Rightarrow> Inl (ErrMsg ''invalid encryption master key'')
     | Some decoded \<Rightarrow> newAESGCMEncryptor newCipher (map of_char decoded))"

end
