(* ===== verification/Router.thy ===== *)
theory Router
  imports AuthHandlers ApiHandlers Config
begin

text \<open>
  The API as a whole: the route table and the middleware of \<open>internal/http/router.go\<close>, with \<open>health.go\<close> and
  \<open>readiness.go\<close>.  A request meets the first route with its method and path; a protected one goes through the
  authentication first.  All handlers run over one \<open>server\<close>.  The body of a request is what \<open>ShouldBindJSON\<close> makes
  of it at each request type; the answer to a path without a route is gin's and is a parameter.  The middleware
  that writes logs and request identifiers is left out.
\<close>

section \<open>Routes\<close>

datatype httpMethod = GET | POST

text \<open>The methods of the controller that are routed, in four groups.\<close>

datatype (plugins only: code size) accountEndpointName =
    Healthy | Ready | CreateDevJWT | Register | Login | Me | Logout | ChangePassword | CreatePAT | ListPATs
    | DeletePAT

datatype (plugins only: code size) entityEndpointName =
    ListOrganizations | CreateOrganization | GetOrganization | UpdateOrganization | DeleteOrganization
    | ListProjects | CreateProject | GetProject | UpdateProject | DeleteProject | ListEnvironments
    | CreateEnvironment | GetEnvironment | UpdateEnvironment | DeleteEnvironment | ListEnvironmentTemplates
    | GetEnvironmentTemplate | ListFolders | CreateFolder | GetFolder | UpdateFolder | DeleteFolder
    | ListFoldersByProject | BatchUpdateFolders | ListAuditRecords | GetResourceTree

datatype (plugins only: code size) secretEndpointName =
    ListSecrets | SearchSecrets | CreateSecret | GetSecret | RevealSecret | UpdateSecret | DeleteSecret
    | GetSecretByPath | RevealSecretByPath | BatchRevealSecretByPath | BatchRevealSecretByCode
    | BatchCreateSecret | BatchUpdateSecret | ListSecretsAcrossEnvs | GlobalSearch

datatype (plugins only: code size) rbacEndpointName =
    ListPermissions | GetMyPermissions | ListRoles | GetRole | CreateRole | UpdateRole | DeleteRole
    | ListRoleBindings | GrantRole | RevokeRole | GetCurrentRBACUser | ListRBACUsers | ListUserGrants
    | GetUserEffectivePermissions

datatype endpointName =
    AccountE accountEndpointName | EntityE entityEndpointName | SecretE secretEndpointName | RbacE rbacEndpointName

text \<open>A route: method, path, whether it is behind the middleware, handler.\<close>

type_synonym route = "httpMethod \<times> str \<times> bool \<times> endpointName"

definition group :: "str \<Rightarrow> route list \<Rightarrow> route list" where
  "group prefix rs = map (\<lambda>(m, p, prot, e). (m, prefix @ p, prot, e)) rs"

definition public :: "httpMethod \<Rightarrow> str \<Rightarrow> endpointName \<Rightarrow> route" where "public m p e = (m, p, False, e)"

definition posts :: "(str \<times> endpointName) list \<Rightarrow> route list" where
  "posts rs = map (\<lambda>(p, e). (POST, p, True, e)) rs"

definition protectedRoutes :: "route list" where
  "protectedRoutes =
     [(GET, ''/me'', True, AccountE Me)] @
     group ''/auth'' (posts [(''/logout'', AccountE Logout), (''/changePassword'', AccountE ChangePassword)]) @
     group ''/org'' (posts [(''/list'', EntityE ListOrganizations), (''/create'', EntityE CreateOrganization),
       (''/info'', EntityE GetOrganization), (''/update'', EntityE UpdateOrganization), (''/delete'', EntityE DeleteOrganization)]) @
     group ''/project'' (posts [(''/list'', EntityE ListProjects), (''/create'', EntityE CreateProject), (''/info'', EntityE GetProject),
       (''/update'', EntityE UpdateProject), (''/delete'', EntityE DeleteProject)]) @
     group ''/env'' (posts [(''/list'', EntityE ListEnvironments), (''/create'', EntityE CreateEnvironment), (''/info'', EntityE GetEnvironment),
       (''/update'', EntityE UpdateEnvironment), (''/delete'', EntityE DeleteEnvironment)] @
       group ''/template'' (posts [(''/list'', EntityE ListEnvironmentTemplates), (''/info'', EntityE GetEnvironmentTemplate)])) @
     group ''/folder'' (posts [(''/list'', EntityE ListFolders), (''/create'', EntityE CreateFolder), (''/info'', EntityE GetFolder),
       (''/update'', EntityE UpdateFolder), (''/delete'', EntityE DeleteFolder), (''/listByProject'', EntityE ListFoldersByProject),
       (''/batchUpdate'', EntityE BatchUpdateFolders)]) @
     group ''/secret'' (posts [(''/list'', SecretE ListSecrets), (''/search'', SecretE SearchSecrets), (''/create'', SecretE CreateSecret),
       (''/info'', SecretE GetSecret), (''/reveal'', SecretE RevealSecret), (''/update'', SecretE UpdateSecret), (''/delete'', SecretE DeleteSecret),
       (''/path/info'', SecretE GetSecretByPath), (''/path/reveal'', SecretE RevealSecretByPath),
       (''/path/batchReveal'', SecretE BatchRevealSecretByPath), (''/code/batchReveal'', SecretE BatchRevealSecretByCode)]) @
     group ''/secrets'' (posts [(''/batchCreate'', SecretE BatchCreateSecret), (''/batchUpdate'', SecretE BatchUpdateSecret),
       (''/list'', SecretE ListSecretsAcrossEnvs)]) @
     group ''/audit'' (posts [(''/list'', EntityE ListAuditRecords)]) @
     group ''/rbac'' (
       group ''/permission'' (posts [(''/list'', RbacE ListPermissions)]) @
       group ''/me'' (posts [(''/permissions'', RbacE GetMyPermissions)]) @
       group ''/role'' ((GET, ''/list'', True, RbacE ListRoles) # posts [(''/info'', RbacE GetRole), (''/create'', RbacE CreateRole),
         (''/update'', RbacE UpdateRole), (''/delete'', RbacE DeleteRole)]) @
       group ''/binding'' (posts [(''/list'', RbacE ListRoleBindings), (''/grant'', RbacE GrantRole), (''/revoke'', RbacE RevokeRole)]) @
       group ''/user'' (posts [(''/me'', RbacE GetCurrentRBACUser), (''/list'', RbacE ListRBACUsers), (''/grants'', RbacE ListUserGrants),
         (''/permissions'', RbacE GetUserEffectivePermissions)])) @
     group ''/search'' (posts [(''/global'', SecretE GlobalSearch)]) @
     group ''/tree'' (posts [(''/get'', EntityE GetResourceTree)]) @
     group ''/accessToken'' (posts [(''/create'', AccountE CreatePAT), (''/list'', AccountE ListPATs), (''/delete'', AccountE DeletePAT)])"

definition loadApiRoutes :: "bool \<Rightarrow> route list" where
  "loadApiRoutes devTokenEnabled =
     group [] [public GET ''/healthz'' (AccountE Healthy)] @
     group ''/api'' (group ''/v1'' (
       [public GET ''/readyz'' (AccountE Ready)] @
       (if devTokenEnabled then [public POST ''/auth/dev/token'' (AccountE CreateDevJWT)] else []) @
       group ''/auth'' [public POST ''/register'' (AccountE Register), public POST ''/login'' (AccountE Login)] @
       group [] protectedRoutes))"

section \<open>Requests and replies\<close>

text \<open>The body decoded at each request type, \<open>None\<close> where that fails; two options of the token request: an empty
  body, and one that does not decode.\<close>

record requestBody =
  bd_pagination :: "pagination option"
  bd_createEntity :: "createEntityRequest option"
  bd_idOrCode :: "idOrCodeRequest option"
  bd_deleteOrganization :: "(bool \<times> idOrCodeRequest) option"
  bd_update :: "updateByIdOrCodeRequest option"
  bd_list :: "listRequest option"
  bd_createFolder :: "createFolderRequest option"
  bd_projectId :: "str option"
  bd_batchUpdateFolders :: "batchUpdateFolderRequest option"
  bd_createSecret :: "secretRequest option"
  bd_updateSecret :: "secretRequest option"
  bd_id :: "str option"
  bd_path :: "str option"
  bd_pathKeys :: "(str \<times> str list option) option"
  bd_codes :: "(str \<times> str \<times> str \<times> str) option"
  bd_acrossEnvs :: "secretListAcrossEnvsRequest option"
  bd_batchCreate :: "batchCreateSecretSpec list option"
  bd_batchUpdate :: "batchUpdateSecretRequest option"
  bd_search :: "globalSearchRequest option"
  bd_getRole :: "(str \<times> str) option"
  bd_role :: "roleRequest option"
  bd_grant :: "roleGrantRequest option"
  bd_bindings :: "(str \<times> str \<times> pagination) option"
  bd_userGrants :: "(str \<times> str \<times> pagination) option"
  bd_users :: "(str \<times> pagination) option"
  bd_userPermissions :: "(str \<times> str \<times> str \<times> str) option"
  bd_myPermissions :: "(str \<times> str) option"
  bd_tree :: "treeRequest option"
  bd_register :: "(str \<times> str \<times> str) option"
  bd_login :: "(str \<times> str) option"
  bd_changePassword :: "(str \<times> str) option"
  bd_createPAT :: "(str \<times> nat option) option"
  bd_devToken :: "(str \<times> str \<times> int) option option"

record httpRequest =
  hq_method :: httpMethod
  hq_path :: str
  hq_authorization :: str
  hq_clientIP :: str
  hq_body :: requestBody

record readyBody =
  ry_database :: str
  ry_jwtConfigured :: bool
  ry_encryptionConfigured :: bool
  ry_environments :: "str list"

datatype (plugins only: code size) payload =
    PStatus str | PReady readyBody | PUser userInfo | PDone unit
  | PEntity entity | PEntityPage "entity pageResp" | PEntities "entity list"
  | PGroups "folderGroup list" | PFolderPage "(entity \<times> entity list option) pageResp"
  | PAudit "auditRow pageResp" | PTree resourceTree
  | PSecret secret | PSecretPage "secret pageResp" | PSearchPage "searchItem pageResp"
  | PReveal "str \<times> secret list \<times> str list" | PSecrets "secret list" | PAcross "secretAcrossEnvs list"
  | PSearch globalSearchResult
  | PPermissions "permissionRow list" | PRoles "roleView list" | PRole roleView
  | PBinding roleBinding | PBindingPage "roleBinding pageResp" | PUserPage "user pageResp"
  | PEffective "str list \<times> roleBinding list" | PCodes "str list"
  | PToken authToken | PDevToken "str \<times> nat" | PPAT "accessToken \<times> str" | PPATs "accessToken list"

section \<open>The server\<close>

record 'l server =
  sv_world :: world
  sv_attempts :: "loginAttempt list"
  sv_tokens :: "tokensCache option"
  sv_lim :: 'l

text \<open>\<open>Dependencies\<close>: \<open>dp_database\<close> is whether the database, if there is one, answers a ping; the hash function
  of the token store, the key and token libraries, and gin's answer to a path without a route.\<close>

record 'l dependencies =
  dp_config :: config
  dp_database :: "bool option"
  dp_controller :: controller
  dp_auth :: "'l authService option"
  dp_pat :: "(str \<Rightarrow> nat list) option"
  dp_sha :: "str \<Rightarrow> nat list"
  dp_userCache :: bool
  dp_resolver :: "resolver option"
  dp_keys :: keyLib
  dp_jwt :: jwtLib
  dp_noRoute :: "httpMethod \<Rightarrow> str \<Rightarrow> payload reply list"

type_synonym 'l step = "'l server \<Rightarrow> payload reply list \<times> 'l server"

definition onWorld :: "('d \<Rightarrow> payload) \<Rightarrow> 'd endpoint \<Rightarrow> 'l step" where
  "onWorld f h s = (case h (sv_world s) of (rs, w) \<Rightarrow> (map (map_reply f) rs, s\<lparr>sv_world := w\<rparr>))"

definition authWorldOf :: "'l server \<Rightarrow> 'l authWorld" where
  "authWorldOf s = \<lparr> aw_st = w_st (sv_world s), aw_attempts = sv_attempts s, aw_tokens = sv_tokens s, aw_lim = sv_lim s,
     aw_rand = w_rand (sv_world s) \<rparr>"

definition setAuthWorld :: "'l authWorld \<Rightarrow> 'l server \<Rightarrow> 'l server" where
  "setAuthWorld a s = s\<lparr>sv_world := (sv_world s)\<lparr>w_st := aw_st a, w_rand := aw_rand a\<rparr>, sv_attempts := aw_attempts a,
     sv_tokens := aw_tokens a, sv_lim := aw_lim a\<rparr>"

definition onAuth :: "('d \<Rightarrow> payload) \<Rightarrow> ('l, 'd) authEndpoint \<Rightarrow> 'l step" where
  "onAuth f h s = (case h (authWorldOf s) of (r, a) \<Rightarrow> ([map_reply f r], setAuthWorld a s))"

definition pureReply :: "('d \<Rightarrow> payload) \<Rightarrow> 'd reply \<Rightarrow> 'l step" where
  "pureReply f r s = ([map_reply f r], s)"

section \<open>Health and readiness\<close>

definition healthy :: "str reply" where "healthy = okR ''ok''"

definition readyH :: "config \<Rightarrow> bool option \<Rightarrow> readyBody reply" where
  "readyH cfg db = (let databaseStatus = (case db of None \<Rightarrow> ''notConfigured'' | Some True \<Rightarrow> ''ok'' | Some False \<Rightarrow> ''error'');
       status = (if db = Some False then 503 else 200) in
     if status \<noteq> 200 then failR' status codeServiceUnavailable
     else okR \<lparr> ry_database = databaseStatus, ry_jwtConfigured = (ac_publicKey (cf_auth cfg) \<noteq> []),
       ry_encryptionConfigured = (cf_encryptionKey cfg \<noteq> []),
       ry_environments = [''dev'', ''test'', ''sim'', ''prod''] \<rparr>)"

section \<open>Dispatch\<close>

definition devConfigOf :: "config \<Rightarrow> devConfig" where
  "devConfigOf cfg = (let a = cf_auth cfg in \<lparr> dc_enabled = ac_devTokenEnabled a, dc_userId = ac_devUserId a,
     dc_userName = ac_devUserName a, dc_privateKey = ac_devPrivateKey a \<rparr>)"

text \<open>The routes on accounts and tokens; \<open>ctx\<close> is what the middleware has put into the context.\<close>

definition accountEndpoint :: "'l dependencies \<Rightarrow> accountEndpointName \<Rightarrow> claims option \<Rightarrow> httpRequest \<Rightarrow> 'l step" where
  "accountEndpoint d e ctx rq = (let b = hq_body rq; ready = ct_ready (dp_controller d) in
     case e of
       Healthy \<Rightarrow> pureReply PStatus healthy
     | Ready \<Rightarrow> pureReply PReady (readyH (dp_config d) (dp_database d))
     | CreateDevJWT \<Rightarrow> \<lambda>s. pureReply PDevToken (createDevJWT (dp_keys d) (dp_jwt d) (devConfigOf (dp_config d))
         (bd_devToken b) (clock (w_st (sv_world s)))) s
     | Register \<Rightarrow> onAuth PToken (registerH (dp_auth d) ready (bd_register b))
     | Login \<Rightarrow> onAuth PToken (loginH (dp_auth d) ready (hq_clientIP rq) (bd_login b))
     | Me \<Rightarrow> pureReply PUser (me ctx)
     | Logout \<Rightarrow> onAuth PDone (logoutH (dp_auth d) ctx)
     | ChangePassword \<Rightarrow> onAuth PDone (changePasswordH (dp_auth d) ready ctx (bd_changePassword b))
     | CreatePAT \<Rightarrow> onAuth PPAT (createPATH (dp_pat d) ready ctx (bd_createPAT b))
     | ListPATs \<Rightarrow> onAuth PPATs (listPATsH (dp_pat d) ctx)
     | DeletePAT \<Rightarrow> onAuth PDone (deletePATH (dp_pat d) ready ctx (bd_id b)))"

definition entityEndpoint :: "'l dependencies \<Rightarrow> entityEndpointName \<Rightarrow> userInfo \<Rightarrow> requestBody \<Rightarrow> 'l step" where
  "entityEndpoint d e u b = (let c = dp_controller d in
     case e of
       ListOrganizations \<Rightarrow> onWorld PEntityPage (listOrganizationsH c u (bd_pagination b))
     | CreateOrganization \<Rightarrow> onWorld PEntity (createOrganizationH c u (bd_createEntity b))
     | GetOrganization \<Rightarrow> onWorld PEntity (getOrganizationH c u (bd_idOrCode b))
     | UpdateOrganization \<Rightarrow> onWorld PEntity (updateOrganizationH c u (bd_update b))
     | DeleteOrganization \<Rightarrow> onWorld PDone (deleteOrganizationH c u
         (case bd_deleteOrganization b of None \<Rightarrow> False | Some (force, _) \<Rightarrow> force) (map_option snd (bd_deleteOrganization b)))
     | ListProjects \<Rightarrow> onWorld PEntityPage (listProjectsH c u (bd_list b))
     | CreateProject \<Rightarrow> onWorld PEntity (createProjectH c u (bd_createEntity b))
     | GetProject \<Rightarrow> onWorld PEntity (getProjectH c u (bd_idOrCode b))
     | UpdateProject \<Rightarrow> onWorld PEntity (updateProjectH c u (bd_update b))
     | DeleteProject \<Rightarrow> onWorld PDone (deleteProjectH c u (bd_idOrCode b))
     | ListEnvironments \<Rightarrow> onWorld PEntityPage (listEnvironmentsH c u (bd_list b))
     | CreateEnvironment \<Rightarrow> onWorld PEntity (createEnvironmentH c u (bd_createEntity b))
     | GetEnvironment \<Rightarrow> onWorld PEntity (getEnvironmentH c u (bd_idOrCode b))
     | UpdateEnvironment \<Rightarrow> onWorld PEntity (updateEnvironmentH c u (bd_update b))
     | DeleteEnvironment \<Rightarrow> onWorld PDone (deleteEnvironmentH c u (bd_idOrCode b))
     | ListEnvironmentTemplates \<Rightarrow> onWorld PEntityPage (listEnvironmentTemplatesH c u (bd_list b))
     | GetEnvironmentTemplate \<Rightarrow> onWorld PEntity (getEnvironmentTemplateH c u (bd_idOrCode b))
     | ListFolders \<Rightarrow> onWorld PFolderPage (listFoldersH c u (bd_list b))
     | CreateFolder \<Rightarrow> onWorld PEntities (createFolderH c u (bd_createFolder b))
     | GetFolder \<Rightarrow> onWorld PEntity (getFolderH c u (bd_idOrCode b))
     | UpdateFolder \<Rightarrow> onWorld PEntity (updateFolderH c u (bd_update b))
     | DeleteFolder \<Rightarrow> onWorld PDone (deleteFolderH c u (bd_idOrCode b))
     | ListFoldersByProject \<Rightarrow> onWorld PGroups (listFoldersByProjectH c u (bd_projectId b))
     | BatchUpdateFolders \<Rightarrow> onWorld PEntities (batchUpdateFoldersH c u (bd_batchUpdateFolders b))
     | ListAuditRecords \<Rightarrow> onWorld PAudit (listAuditRecordsH c u (bd_list b))
     | GetResourceTree \<Rightarrow> onWorld PTree (getResourceTreeH c u (bd_tree b)))"

definition secretEndpoint :: "'l dependencies \<Rightarrow> secretEndpointName \<Rightarrow> userInfo \<Rightarrow> requestBody \<Rightarrow> 'l step" where
  "secretEndpoint d e u b = (let c = dp_controller d in
     case e of
       ListSecrets \<Rightarrow> onWorld PSecretPage (listSecretsH c u (bd_list b))
     | SearchSecrets \<Rightarrow> onWorld PSearchPage (searchSecretsH c u (bd_list b))
     | CreateSecret \<Rightarrow> onWorld PSecret (createSecretH c u (bd_createSecret b))
     | GetSecret \<Rightarrow> onWorld PSecret (getSecretH c u (bd_id b))
     | RevealSecret \<Rightarrow> onWorld PSecret (revealSecretH c u (bd_id b))
     | UpdateSecret \<Rightarrow> onWorld PSecret (updateSecretH c u (bd_updateSecret b))
     | DeleteSecret \<Rightarrow> onWorld PDone (deleteSecretH c u (bd_id b))
     | GetSecretByPath \<Rightarrow> onWorld PSecret (getSecretByPathH c u (bd_path b))
     | RevealSecretByPath \<Rightarrow> onWorld PSecret (revealSecretByPathH c u (bd_path b))
     | BatchRevealSecretByPath \<Rightarrow> onWorld PReveal (batchRevealSecretByPathH c u (bd_pathKeys b))
     | BatchRevealSecretByCode \<Rightarrow> onWorld PSecrets (batchRevealSecretByCodeH c u (bd_codes b))
     | BatchCreateSecret \<Rightarrow> onWorld PDone (batchCreateSecretH c u (bd_batchCreate b))
     | BatchUpdateSecret \<Rightarrow> onWorld PDone (batchUpdateSecretH c u (bd_batchUpdate b))
     | ListSecretsAcrossEnvs \<Rightarrow> onWorld PAcross (listSecretsAcrossEnvsH c u (bd_acrossEnvs b))
     | GlobalSearch \<Rightarrow> onWorld PSearch (globalSearchH c u (bd_search b)))"

definition rbacEndpoint :: "'l dependencies \<Rightarrow> rbacEndpointName \<Rightarrow> userInfo \<Rightarrow> requestBody \<Rightarrow> 'l step" where
  "rbacEndpoint d e u b = (let c = dp_controller d in
     case e of
       ListPermissions \<Rightarrow> onWorld PPermissions (listPermissionsH c)
     | GetMyPermissions \<Rightarrow> onWorld PCodes (getMyPermissionsH c u (bd_myPermissions b))
     | ListRoles \<Rightarrow> onWorld PRoles (listRolesH c)
     | GetRole \<Rightarrow> onWorld PRole (getRoleH c u (bd_getRole b))
     | CreateRole \<Rightarrow> onWorld PRole (createRoleH c u (bd_role b))
     | UpdateRole \<Rightarrow> onWorld PRole (updateRoleH c u (bd_role b))
     | DeleteRole \<Rightarrow> onWorld PDone (deleteRoleH c u (bd_id b))
     | ListRoleBindings \<Rightarrow> onWorld PBindingPage (listRoleBindingsH c u (bd_bindings b))
     | GrantRole \<Rightarrow> onWorld PBinding (grantRoleH c u (bd_grant b))
     | RevokeRole \<Rightarrow> onWorld PDone (revokeRoleH c u (bd_grant b))
     | GetCurrentRBACUser \<Rightarrow> onWorld PBindingPage (getCurrentRBACUserH c u (bd_pagination b))
     | ListRBACUsers \<Rightarrow> onWorld PUserPage (listRBACUsersH c u (bd_users b))
     | ListUserGrants \<Rightarrow> onWorld PBindingPage (listUserGrantsH c u (bd_userGrants b))
     | GetUserEffectivePermissions \<Rightarrow>
         onWorld PEffective (getUserEffectivePermissionsH c u (bd_userPermissions b)))"

definition handle :: "'l dependencies \<Rightarrow> endpointName \<Rightarrow> claims option \<Rightarrow> httpRequest \<Rightarrow> 'l step" where
  "handle d e ctx rq = (let u = userFromContext ctx; b = hq_body rq in
     case e of AccountE a \<Rightarrow> accountEndpoint d a ctx rq | EntityE a \<Rightarrow> entityEndpoint d a u b
       | SecretE a \<Rightarrow> secretEndpoint d a u b | RbacE a \<Rightarrow> rbacEndpoint d a u b)"

text \<open>The middleware of the protected group, and its abort.\<close>

definition authenticate :: "'l dependencies \<Rightarrow> str \<Rightarrow> session \<Rightarrow> ((nat \<times> goErr) + claims) \<times> session" where
  "authenticate d header s = (let a = cf_auth (dp_config d) in
     if ac_enabled a then combinedAuthMiddleware
       \<lparr> pc_sha = dp_sha d, pc_configured = True, pc_names = (if dp_userCache d then Some labelOf else None) \<rparr>
       (dp_keys d) (dp_jwt d) \<lparr> jc_publicKey = ac_publicKey a, jc_resolver = dp_resolver d \<rparr> header s
     else (staticUserMiddleware \<lparr> ui_id = ac_devUserId a, ui_name = ac_devUserName a, ui_jwt = [], ui_cookie = [] \<rparr>, s))"

definition sessionOf :: "'l server \<Rightarrow> session" where
  "sessionOf s = \<lparr> se_st = w_st (sv_world s), se_tokens = sv_tokens s \<rparr>"

definition setSession :: "session \<Rightarrow> 'l server \<Rightarrow> 'l server" where
  "setSession x s = s\<lparr>sv_world := (sv_world s)\<lparr>w_st := se_st x\<rparr>, sv_tokens := se_tokens x\<rparr>"

definition abort :: "nat \<Rightarrow> payload reply" where "abort status = Reply status (int status) None"

definition findRoute :: "bool \<Rightarrow> httpMethod \<Rightarrow> str \<Rightarrow> (bool \<times> endpointName) option" where
  "findRoute dev m p = map_option (snd \<circ> snd) (findFirst (\<lambda>(m', p', _). m' = m \<and> p' = p) (loadApiRoutes dev))"

definition serve :: "'l dependencies \<Rightarrow> httpRequest \<Rightarrow> 'l step" where
  "serve d rq s = (case findRoute (ac_devTokenEnabled (cf_auth (dp_config d))) (hq_method rq) (hq_path rq) of
       None \<Rightarrow> (dp_noRoute d (hq_method rq) (hq_path rq), s)
     | Some (prot, e) \<Rightarrow>
         if \<not> prot then handle d e None rq s
         else (case authenticate d (hq_authorization rq) (sessionOf s) of
             (Inl (status, err), x) \<Rightarrow> ([abort status], setSession x s)
           | (Inr c, x) \<Rightarrow> handle d e (Some c) rq (setSession x s)))"

end
