(* ===== verification/ConfigProps.thy ===== *)
theory ConfigProps
  imports Config
begin

text \<open>
  What the connection string says: the credentials can be read back from it, whatever their characters, and a
  connect timeout below a second becomes zero.  \<open>unescape\<close> is the decoding that \<open>net/url\<close> does for a reader.
\<close>

definition unhex :: "char \<Rightarrow> nat" where
  "unhex c = (if isDigitC c then of_char c - 48 else of_char c - 55)"

fun unescape :: "str \<Rightarrow> str" where
  "unescape (c # a # b # s) =
     (if c = CHR ''%'' then char_of (unhex a * 16 + unhex b) # unescape s else c # unescape (a # b # s))"
| "unescape [c, a] = [c, a]"
| "unescape [c] = [c]"
| "unescape [] = []"

lemma unescape_plain: "c \<noteq> CHR ''%'' \<Longrightarrow> unescape (c # s) = c # unescape s"
  by (cases s rule: unescape.cases) auto

lemma highNibble: "(of_char c :: nat) div 16 < 16"
  using nat_of_char_less_256 [of c] by (intro less_mult_imp_div_less) simp

lemma unhex_upperHex: "d < 16 \<Longrightarrow> unhex (upperHex d) = d"
proof -
  have "list_all (\<lambda>d. unhex (upperHex d) = d) [0..<16]" by code_simp
  then show "d < 16 \<Longrightarrow> unhex (upperHex d) = d" by (auto simp: list_all_iff)
qed

lemma unescape_escaped:
  "unescape (CHR ''%'' # upperHex (of_char c div 16) # upperHex (of_char c mod 16) # s) = c # unescape s"
proof -
  have "(of_char c :: nat) div 16 < 16" by (rule highNibble)
  then show ?thesis by (simp add: unhex_upperHex)
qed

lemma unescape_char: "unescape (escapeChar EncodeUserPassword c @ s) = c # unescape s"
proof (cases "shouldEscape c EncodeUserPassword")
  case True
  then show ?thesis by (simp add: escapeChar_def unescape_escaped del: unescape.simps)
next
  case False
  have "shouldEscape (CHR ''%'') EncodeUserPassword" by code_simp
  with False have "c \<noteq> CHR ''%''" by blast
  with False show ?thesis by (simp add: escapeChar_def unescape_plain del: unescape.simps)
qed

lemma unescape_escape: "unescape (escape EncodeUserPassword s) = s"
  by (induction s) (simp_all add: escape_def unescape_char del: unescape.simps(1-3))

lemma upperHex_plain: "d < 16 \<Longrightarrow> upperHex d \<notin> set ''@:''"
proof -
  have "list_all (\<lambda>d. upperHex d \<notin> set ''@:'') [0..<16]" by code_simp
  then have "\<forall>d. 0 \<le> d \<and> d < 16 \<longrightarrow> upperHex d \<notin> set ''@:''"
    by (simp only: list_all_iff set_upt atLeastLessThan_iff Ball_def)
  then show "d < 16 \<Longrightarrow> upperHex d \<notin> set ''@:''" by simp
qed

lemma escape_plain:
  assumes "c \<in> set (escape EncodeUserPassword s)"
  shows "c \<noteq> CHR ''@'' \<and> c \<noteq> CHR '':''"
proof -
  from assms obtain d where d: "c \<in> set (escapeChar EncodeUserPassword d)" by (auto simp: escape_def)
  have q: "(of_char d :: nat) div 16 < 16" "(of_char d :: nat) mod 16 < 16" using highNibble by simp_all
  have "shouldEscape (CHR ''@'') EncodeUserPassword" "shouldEscape (CHR '':'') EncodeUserPassword" by code_simp+
  then show ?thesis using d upperHex_plain [OF q(1)] upperHex_plain [OF q(2)]
    by (auto simp: escapeChar_def split: if_splits)
qed

text \<open>C29. The connection string carries the credentials unharmed: up to the first \<open>@\<close> it is the user information,
  and splitting that at the colon and decoding the two parts gives user and password, whatever characters they have.\<close>

theorem dsn_credentials:
  "takeWhile (\<lambda>x. x \<noteq> CHR ''@'') (drop (length ''postgres://'') (dsn c)) = userinfo c \<and>
   map unescape (splitOn CHR '':'' (userinfo c)) = [db_user c, db_password c]"
proof -
  have u: "x \<noteq> CHR ''@''" if "x \<in> set (userinfo c)" for x
    using that escape_plain by (auto simp: userinfo_def)
  have d: "drop (length ''postgres://'') (dsn c) = userinfo c @ CHR ''@'' #
      drop (length ''postgres://'' + length (userinfo c) + 1) (dsn c)"
    by (simp add: dsn_def)
  have "takeWhile (\<lambda>x. x \<noteq> CHR ''@'') (drop (length ''postgres://'') (dsn c)) = userinfo c"
    unfolding d using u by (simp add: takeWhile_append)
  moreover have "splitOn CHR '':'' (userinfo c) =
      [escape EncodeUserPassword (db_user c), escape EncodeUserPassword (db_password c)]"
  proof -
    have "CHR '':'' \<notin> set (escape EncodeUserPassword t)" for t using escape_plain by blast
    then show ?thesis by (simp add: userinfo_def splitOn_append_sep splitOn_single)
  qed
  ultimately show ?thesis by (simp add: unescape_escape)
qed

text \<open>A timeout that \<open>Validate\<close> takes is positive, but the connection string gives it in whole seconds.\<close>

lemma subsecond_timeout:
  assumes "validate c = Inr ()" "db_connectTimeout (cf_database c) < seconds 1"
  shows "wholeSeconds (db_connectTimeout (cf_database c)) = 0"
  using assms by (auto simp: validate_def Let_def seconds_def wholeSeconds_def split: if_splits)

lemma defaults_valid: "validate setDefaults = Inr ()"
  by (simp add: validate_def setDefaults_def Let_def minutes_def seconds_def)

lemma load_valid: "loadFromPath v getenv path = Inr c \<Longrightarrow> validate c = Inr ()"
  by (auto simp: loadFromPath_def Let_def bindE_Inr_iff)

end
