(* ===== verification/RouterProps.thy ===== *)
theory RouterProps
  imports Router ConfigProps SessionProps
begin

text \<open>
  The API end to end: what an anonymous caller reaches, that every method of the controller is routed once, and a
  switch of the configuration that nothing reads.
\<close>

section \<open>The route table\<close>

definition publicPaths :: "str list" where
  "publicPaths = [''/healthz'', ''/api/v1/readyz'', ''/api/v1/auth/register'', ''/api/v1/auth/login'',
     ''/api/v1/auth/dev/token'']"

lemma public_routes_listed:
  "list_all (\<lambda>(m, p, prot, e). \<not> prot \<longrightarrow> p \<in> set publicPaths) (loadApiRoutes True)"
  "list_all (\<lambda>(m, p, prot, e). \<not> prot \<longrightarrow> p \<in> set publicPaths) (loadApiRoutes False)"
  by code_simp+

lemma public_routes:
  assumes "(m, p, False, e) \<in> set (loadApiRoutes dev)"
  shows "p \<in> set publicPaths"
proof -
  have "list_all (\<lambda>(m, p, prot, e). \<not> prot \<longrightarrow> p \<in> set publicPaths) (loadApiRoutes dev)"
    using public_routes_listed by (cases dev) simp_all
  from this [unfolded list_all_iff] assms have "(\<lambda>(m, p, prot, e). \<not> prot \<longrightarrow> p \<in> set publicPaths) (m, p, False, e)"
    by (rule bspec)
  then show ?thesis by simp
qed

lemma findRoute_mem: "findRoute dev m p = Some (prot, e) \<Longrightarrow> (m, p, prot, e) \<in> set (loadApiRoutes dev)"
  by (auto simp: findRoute_def dest!: findFirst_Some)

section \<open>Anonymous callers\<close>

lemma authenticate_anonymous:
  assumes "ac_enabled (cf_auth (dp_config d))"
  obtains status err where "authenticate d [] x = (Inl (status, err), x)" "status = 401 \<or> status = 503"
proof (cases "parsePublicKey (dp_keys d) (ac_publicKey (cf_auth (dp_config d)))")
  case (Inl e)
  with assms that [of 503 e] show thesis
    by (simp add: authenticate_def combinedAuthMiddleware_def isPAT_def hasPrefix_def jwtMiddleware_def)
next
  case (Inr k)
  with assms that [of 401 ErrMissingBearerToken] show thesis
    by (simp add: authenticate_def combinedAuthMiddleware_def isPAT_def hasPrefix_def jwtMiddleware_def bearerToken_def)
qed

lemma setSession_same [simp]: "setSession (sessionOf s) s = s"
  by (simp add: setSession_def sessionOf_def)

text \<open>C14. An anonymous caller is locked out. While authentication is enabled, a request without an Authorization
  header to any path but the health checks, registration, login and the development token changes nothing at all
  on the server, and the only reply is status 401, status 503 where the public key is not usable, or gin's answer
  to a path that has no route.\<close>

theorem anonymous_locked_out:
  assumes "ac_enabled (cf_auth (dp_config d))" "hq_authorization rq = []" "hq_path rq \<notin> set publicPaths"
  shows "snd (serve d rq s) = s \<and> fst (serve d rq s) \<in> {[abort 401], [abort 503], dp_noRoute d (hq_method rq) (hq_path rq)}"
proof (cases "findRoute (ac_devTokenEnabled (cf_auth (dp_config d))) (hq_method rq) (hq_path rq)")
  case None
  then show ?thesis by (simp add: serve_def)
next
  case (Some r)
  obtain prot e where r: "r = (prot, e)" by fastforce
  have prot
  proof (rule ccontr)
    assume "\<not> prot"
    with findRoute_mem [OF Some [unfolded r]] have "hq_path rq \<in> set publicPaths" by (auto intro: public_routes)
    with assms(3) show False by simp
  qed
  moreover obtain status err where "authenticate d [] (sessionOf s) = (Inl (status, err), sessionOf s)"
    "status = 401 \<or> status = 503" by (rule authenticate_anonymous [OF assms(1)])
  ultimately show ?thesis using Some r assms(2) by (auto simp: serve_def)
qed

definition noBody :: requestBody where
  "noBody = \<lparr> bd_pagination = None, bd_createEntity = None, bd_idOrCode = None, bd_deleteOrganization = None, bd_update = None,
     bd_list = None, bd_createFolder = None, bd_projectId = None, bd_batchUpdateFolders = None, bd_createSecret = None,
     bd_updateSecret = None, bd_id = None, bd_path = None, bd_pathKeys = None, bd_codes = None, bd_acrossEnvs = None,
     bd_batchCreate = None, bd_batchUpdate = None, bd_search = None, bd_getRole = None, bd_role = None, bd_grant = None,
     bd_bindings = None, bd_userGrants = None, bd_users = None, bd_userPermissions = None, bd_myPermissions = None,
     bd_tree = None, bd_register = None, bd_login = None, bd_changePassword = None, bd_createPAT = None, bd_devToken = None \<rparr>"

definition request :: "httpMethod \<Rightarrow> str \<Rightarrow> str \<Rightarrow> httpRequest" where
  "request m p header = \<lparr> hq_method = m, hq_path = p, hq_authorization = header, hq_clientIP = ''ip'', hq_body = noBody \<rparr>"

definition demoDeps :: "limitServer dependencies" where
  "demoDeps = \<lparr> dp_config = setDefaults\<lparr>cf_auth := (cf_auth setDefaults)\<lparr>ac_publicKey := ''pub''\<rparr>\<rparr>, dp_database = Some True,
     dp_controller = \<lparr> ct_ready = True, ct_authz = None, ct_prefix = [],
       ct_secret = \<lparr> ss_prefix = [], ss_enc = None, ss_authz = storeAllow \<rparr>, ct_tree = None, ct_rbac = None \<rparr>,
     dp_auth = Some demoAuth, dp_pat = None, dp_sha = map of_char, dp_userCache = True, dp_resolver = None,
     dp_keys = demoKeys, dp_jwt = demoJwt, dp_noRoute = (\<lambda>m p. [Reply 404 0 None]) \<rparr>"

definition demoServer :: "nat \<Rightarrow> limitServer server" where
  "demoServer now = \<lparr> sv_world = \<lparr> w_st = emptyStore\<lparr>usersT := [accountUser], clock := now\<rparr>, w_rd = None, w_rand = [] \<rparr>,
     sv_attempts = [], sv_tokens = Some Map.empty, sv_lim = freshServer \<rparr>"

theorem anonymous_locked_out_witness:
  "snd (serve demoDeps (request POST ''/api/v1/secret/reveal'' []) (demoServer 7)) = demoServer 7 \<and>
   fst (serve demoDeps (request POST ''/api/v1/secret/reveal'' []) (demoServer 7)) \<in>
     {[abort 401], [abort 503], [Reply 404 0 None]}"
proof -
  have "ac_enabled (cf_auth (dp_config demoDeps))" by (simp add: demoDeps_def setDefaults_def)
  moreover have "''/api/v1/secret/reveal'' \<notin> set publicPaths" by code_simp
  ultimately show ?thesis
    using anonymous_locked_out [of demoDeps "request POST ''/api/v1/secret/reveal'' []" "demoServer 7"]
    by (simp add: request_def) (simp add: demoDeps_def)
qed

section \<open>The registration switch\<close>

definition setRegisterEnabled :: "bool \<Rightarrow> 'l dependencies \<Rightarrow> 'l dependencies" where
  "setRegisterEnabled b d = d\<lparr>dp_config := (dp_config d)\<lparr>cf_auth := (cf_auth (dp_config d))\<lparr>ac_registerEnabled := b\<rparr>\<rparr>\<rparr>"

lemma endpoints_register:
  "accountEndpoint (setRegisterEnabled b d) a ctx rq = accountEndpoint d a ctx rq"
  "entityEndpoint (setRegisterEnabled b d) ea u bd = entityEndpoint d ea u bd"
  "secretEndpoint (setRegisterEnabled b d) sa u bd = secretEndpoint d sa u bd"
  "rbacEndpoint (setRegisterEnabled b d) ra u bd = rbacEndpoint d ra u bd"
  by (cases a; simp add: setRegisterEnabled_def accountEndpoint_def readyH_def devConfigOf_def Let_def)
    (simp_all add: setRegisterEnabled_def entityEndpoint_def secretEndpoint_def rbacEndpoint_def)

lemma handle_register: "handle (setRegisterEnabled b d) e ctx rq = handle d e ctx rq"
  by (cases e) (simp_all add: handle_def endpoints_register)

text \<open>The switch that is documented to turn registration off is not read anywhere: a server that is configured
  with \<open>register_enabled\<close> answers every request as it does without it, registrations included.\<close>

theorem register_switch_unread: "serve (setRegisterEnabled b d) rq s = serve d rq s"
proof -
  have "authenticate (setRegisterEnabled b d) = authenticate d"
    by (intro ext) (simp add: authenticate_def setRegisterEnabled_def Let_def)
  moreover have "ac_devTokenEnabled (cf_auth (dp_config (setRegisterEnabled b d))) = ac_devTokenEnabled (cf_auth (dp_config d))"
    "dp_noRoute (setRegisterEnabled b d) = dp_noRoute d" by (simp_all add: setRegisterEnabled_def)
  ultimately show ?thesis by (simp only: serve_def handle_register)
qed

end
