(* ===== verification/Startup.thy ===== *)
theory Startup
  imports Router
begin

text \<open>
  The start of the server: \<open>internal/app/app.go\<close>, with the opening of the database (\<open>store/postgres/postgres.go\<close>)
  and of Redis (\<open>redis.Open\<close>).  The platform is the parameter \<open>platform\<close>: viper, the environment, whether the
  database and Redis can be reached, and the cryptographic libraries.  \<open>run\<close> ends where the server listens; the
  warm-up of the cache, which goes on beside it, is the step \<open>warmupSecretCache\<close>.  The database keeps what a
  failed start has written.  Durations below a microsecond count as zero.
\<close>

record 'f platform =
  pf_viper :: "'f viper"
  pf_getenv :: "str \<Rightarrow> str"
  pf_openDb :: "str \<Rightarrow> bool"
  pf_pingDb :: bool
  pf_newCipher :: "nat list \<Rightarrow> goErr + aead"
  pf_pingRedis :: "str list \<Rightarrow> str \<Rightarrow> bool"
  pf_argon :: argon
  pf_keys :: keyLib
  pf_jwt :: jwtLib
  pf_sha :: "str \<Rightarrow> nat list"
  pf_noRoute :: "httpMethod \<Rightarrow> str \<Rightarrow> payload reply list"

text \<open>What is outside of the process when it starts.\<close>

record outside =
  ou_st :: store
  ou_redis :: redis
  ou_attempts :: "loginAttempt list"
  ou_limits :: limitServer
  ou_rand :: "nat list"

definition micros :: "int \<Rightarrow> nat" where "micros d = nat (d div 1000)"

definition openGORM :: "'f platform \<Rightarrow> databaseConfig \<Rightarrow> goErr + unit" where
  "openGORM pf cfg =
     (if \<not> pf_openDb pf (dsn cfg) then Inl (ErrMsg ''open postgres'')
      else if \<not> pf_pingDb pf then Inl (ErrMsg ''ping postgres'') else Inr ())"

text \<open>The key prefix of the cache that is opened. A single server is the first of the addresses.\<close>

definition openRedis :: "'f platform \<Rightarrow> redisConfig \<Rightarrow> goErr + str" where
  "openRedis pf cfg = (let addrs = (if rc_mode cfg = ''single'' \<and> length (rc_addrs cfg) > 1
       then take 1 (rc_addrs cfg) else rc_addrs cfg) in
     if \<not> pf_pingRedis pf addrs (rc_password cfg) then Inl ErrCache
     else Inr (trimSuffix '':'' (rc_keyPrefix cfg)))"

definition loadUserCache :: "store \<Rightarrow> store" where
  "loadUserCache st = st\<lparr>labelsC := loadLabels (map (\<lambda>u. (u_id u, u_name u)) (usersT st))\<rparr>"

text \<open>The part of the start that writes to the database.\<close>

definition prepareStore :: "(str \<Rightarrow> str) \<Rightarrow> store \<Rightarrow> (goErr + unit) \<times> store" where
  "prepareStore getenv st0 = (case ensureSystemData (st0\<lparr>labelsC := []\<rparr>) of
       (Inl e, st1) \<Rightarrow> (Inl e, st1)
     | (Inr _, st1) \<Rightarrow> let st2 = loadUserCache st1; adminUserId = getenv ''ENVVAULT_BOOTSTRAP_ADMIN_USER_ID'' in
         if adminUserId = [] then (Inr (), st2)
         else ensureBootstrapAdmin adminUserId (getenv ''ENVVAULT_BOOTSTRAP_ADMIN_NAME'') st2)"

definition controllerOf :: "str \<Rightarrow> aead \<Rightarrow> controller" where
  "controllerOf prefix enc = \<lparr> ct_ready = True, ct_authz = Some storeAllow, ct_prefix = prefix,
     ct_secret = \<lparr> ss_prefix = prefix, ss_enc = Some enc, ss_authz = storeAllow \<rparr>,
     ct_tree = Some \<lparr> tv_prefix = prefix, tv_authz = storeAllow \<rparr>, ct_rbac = Some storeAllow \<rparr>"

definition limiterOf :: "config \<Rightarrow> limitServer limiter" where
  "limiterOf cfg = (if rc_enabled (cf_redis cfg)
     then redisLimiter \<lparr> lo_window = micros (ac_loginRateLimitWindow (cf_auth cfg)),
       lo_maxAttempts = nat (ac_loginRateLimit (cf_auth cfg)),
       lo_lockoutPeriod = micros (ac_lockoutDuration (cf_auth cfg)), lo_keyPrefix = ''ratelimit:login'' \<rparr>
     else noopLimiter)"

definition authServiceOf :: "'f platform \<Rightarrow> config \<Rightarrow> limitServer authService" where
  "authServiceOf pf cfg = newAuthService \<lparr> as_argon = pf_argon pf, as_params = newArgon2idHasher defaultPasswordParams,
     as_limiter = Some (limiterOf cfg), as_keys = pf_keys pf, as_jwt = pf_jwt pf,
     as_privateKey = ac_privateKey (cf_auth cfg), as_ttl = micros (ac_tokenTTL (cf_auth cfg)),
     as_minLen = nat (ac_passwordMinLength (cf_auth cfg)) \<rparr>"

definition dependenciesOf :: "'f platform \<Rightarrow> config \<Rightarrow> str \<Rightarrow> aead \<Rightarrow> limitServer dependencies" where
  "dependenciesOf pf cfg prefix enc = \<lparr> dp_config = cfg, dp_database = Some (pf_pingDb pf),
     dp_controller = controllerOf prefix enc, dp_auth = Some (authServiceOf pf cfg), dp_pat = Some (pf_sha pf),
     dp_sha = pf_sha pf, dp_userCache = True,
     dp_resolver = Some (\<lambda>staffUserId c. ensureJWTUser staffUserId (cl_name c) (cl_staffEmail c)),
     dp_keys = pf_keys pf, dp_jwt = pf_jwt pf, dp_noRoute = pf_noRoute pf \<rparr>"

text \<open>\<open>Run\<close>: an error with the database as it is left, or the server.\<close>

definition run :: "'f platform \<Rightarrow> outside \<Rightarrow> (goErr + limitServer dependencies \<times> limitServer server) \<times> store" where
  "run pf w = (case load (pf_viper pf) (pf_getenv pf) of
       Inl e \<Rightarrow> (Inl e, ou_st w)
     | Inr cfg \<Rightarrow> (case openGORM pf (cf_database cfg) of Inl e \<Rightarrow> (Inl e, ou_st w)
     | Inr _ \<Rightarrow> (case newAESGCMEncryptorFromBase64 (pf_newCipher pf) (cf_encryptionKey cfg) of Inl e \<Rightarrow> (Inl e, ou_st w)
     | Inr enc \<Rightarrow> (case prepareStore (pf_getenv pf) (ou_st w) of (Inl e, st) \<Rightarrow> (Inl e, st)
     | (Inr _, st) \<Rightarrow>
        (let serving = (\<lambda>prefix rd. (Inr (dependenciesOf pf cfg prefix enc,
               \<lparr> sv_world = \<lparr> w_st = st, w_rd = rd, w_rand = ou_rand w \<rparr>, sv_attempts = ou_attempts w,
                 sv_tokens = Some Map.empty, sv_lim = ou_limits w \<rparr>), st)) in
         if rc_enabled (cf_redis cfg) then (case openRedis pf (cf_redis cfg) of Inl e \<Rightarrow> (Inl e, st)
           | Inr prefix \<Rightarrow> serving prefix (Some (ou_redis w)))
         else serving [] None)))))"

text \<open>The warm-up reads the secrets once and writes them all; a failure is logged.\<close>

definition warmupSecretCache :: "str \<Rightarrow> 'l server \<Rightarrow> 'l server" where
  "warmupSecretCache prefix s = s\<lparr>sv_world := cacheAll
     [warmSecrets prefix (listSecretCacheRecords (w_st (sv_world s)))] (sv_world s)\<rparr>"

end
