(* ===== verification/StartupProps.thy ===== *)
theory StartupProps
  imports Startup RbacProps ConfigProps
begin

text \<open>
  What the start of the server establishes: every system role is there with all its permissions, the bootstrap
  administrator may do everything, and the stored data is as before.
\<close>

section \<open>Roles and permissions\<close>

definition rolesOk :: "store \<Rightarrow> bool" where
  "rolesOk st \<longleftrightarrow> distinct (map ro_id (rolesT st)) \<and> (\<forall>a \<in> set (rolesT st). \<forall>b \<in> set (rolesT st).
     ro_system a \<and> ro_system b \<and> \<not> ro_deleted a \<and> \<not> ro_deleted b \<and> ro_code a = ro_code b \<longrightarrow> a = b)"

definition liveSys :: "store \<Rightarrow> str \<Rightarrow> str \<Rightarrow> bool" where
  "liveSys st rid code \<longleftrightarrow> (\<exists>r \<in> set (rolesT st). ro_id r = rid \<and> ro_code r = code \<and> ro_system r \<and> \<not> ro_deleted r)"

definition hasPerm :: "store \<Rightarrow> str \<Rightarrow> str \<Rightarrow> bool" where
  "hasPerm st pid code \<longleftrightarrow> (\<exists>p \<in> set (permsT st). p_id p = pid \<and> p_code p = code)"

lemma rolesOk_cong: "rolesT st' = rolesT st \<Longrightarrow> rolesOk st' = rolesOk st" by (simp add: rolesOk_def)
lemma liveSys_cong: "rolesT st' = rolesT st \<Longrightarrow> liveSys st' = liveSys st" by (intro ext) (simp add: liveSys_def)
lemma hasPerm_cong: "permsT st' = permsT st \<Longrightarrow> hasPerm st' = hasPerm st" by (intro ext) (simp add: hasPerm_def)

lemma rolesOk_id: "rolesOk st \<Longrightarrow> a \<in> set (rolesT st) \<Longrightarrow> b \<in> set (rolesT st) \<Longrightarrow> ro_id a = ro_id b \<Longrightarrow> a = b"
  by (auto simp: rolesOk_def distinct_map dest: inj_onD)

lemma liveSys_code: "rolesOk st \<Longrightarrow> liveSys st rid c \<Longrightarrow> liveSys st rid c' \<Longrightarrow> c = c'"
  unfolding liveSys_def using rolesOk_id by blast

lemma upsertPermission_effect:
  assumes "upsertPermissionTx sp st = Inr (i, st')"
  shows "hasPerm st' i (sp_code sp)" "hasPerm st pid c \<Longrightarrow> hasPerm st' pid c" "rolesT st' = rolesT st"
proof -
  from assms obtain j st1 where j: "newUUID st = Inr (j, st1)"
    and rest: "(case findFirst (\<lambda>p. p_code p = sp_code sp) (permsT st1) of
       Some p \<Rightarrow> (\<lambda>st. Inr (p_id p, st\<lparr>permsT := map (\<lambda>x. if p_code x = sp_code sp
           then x\<lparr>p_resourceType := sp_resource sp, p_action := sp_action sp, p_description := sp_description sp\<rparr>
           else x) (permsT st)\<rparr>))
     | None \<Rightarrow> if j \<in> set (map p_id (permsT st1)) then failT pgUnique
         else (\<lambda>st. Inr (j, st\<lparr>permsT := permsT st @ [\<lparr> p_id = j, p_code = sp_code sp,
           p_resourceType = sp_resource sp, p_action = sp_action sp, p_description = sp_description sp \<rparr>]\<rparr>))) st1 = Inr (i, st')"
    by (auto simp: upsertPermissionTx_def bindT_Inr_iff)
  from j have s1: "permsT st1 = permsT st" "rolesT st1 = rolesT st" by (auto simp: newUUID_Inr)
  have "hasPerm st' i (sp_code sp) \<and> (hasPerm st pid c \<longrightarrow> hasPerm st' pid c) \<and> rolesT st' = rolesT st"
  proof (cases "findFirst (\<lambda>p. p_code p = sp_code sp) (permsT st1)")
    case None
    with rest s1 show ?thesis by (auto simp: hasPerm_def simp del: findFirst_None split: if_splits)
  next
    case (Some p)
    then have "p \<in> set (permsT st)" "p_code p = sp_code sp" using s1 by (auto dest: findFirst_Some)
    moreover define g where "g = (\<lambda>x :: permissionRow. if p_code x = sp_code sp
      then x\<lparr>p_resourceType := sp_resource sp, p_action := sp_action sp, p_description := sp_description sp\<rparr> else x)"
    ultimately have i: "i = p_id p" "permsT st' = map g (permsT st)" "rolesT st' = rolesT st" "p \<in> set (permsT st)" "p_code p = sp_code sp"
      using Some rest s1 by auto
    have "p_id (g x) = p_id x" "p_code (g x) = p_code x" for x by (simp_all add: g_def)
    then have "hasPerm st' = hasPerm st" using i(2) by (intro ext) (simp add: hasPerm_def)
    then show ?thesis using i by (auto simp: hasPerm_def)
  qed
  then show "hasPerm st' i (sp_code sp)" "hasPerm st pid c \<Longrightarrow> hasPerm st' pid c" "rolesT st' = rolesT st" by blast+
qed

lemma permission_loop:
  assumes "mapT (\<lambda>p. bindT (upsertPermissionTx p) (\<lambda>i. retT (sp_code p, i))) ps st = Inr (pids, st')"
  shows "map fst pids = map sp_code ps \<and> (\<forall>(c, i) \<in> set pids. hasPerm st' i c) \<and> rolesT st' = rolesT st \<and>
    (\<forall>pid c. hasPerm st pid c \<longrightarrow> hasPerm st' pid c)"
  using assms
proof (induction ps arbitrary: st pids)
  case (Cons p ps)
  from Cons.prems obtain i st1 qs where u: "upsertPermissionTx p st = Inr (i, st1)"
    and m: "mapT (\<lambda>p. bindT (upsertPermissionTx p) (\<lambda>i. retT (sp_code p, i))) ps st1 = Inr (qs, st')"
    and e: "pids = (sp_code p, i) # qs"
    unfolding mapT.simps bindT_Inr_iff tx_simps by blast
  from Cons.IH [OF m] upsertPermission_effect [OF u] e show ?case by simp
qed simp

lemma upsertSystemRole_effect:
  assumes "upsertSystemRoleTx sr st = Inr (rid, st')" "rolesOk st"
  shows "rolesOk st' \<and> liveSys st' rid (sr_code sr) \<and> (\<forall>r c. liveSys st r c \<longrightarrow> liveSys st' r c) \<and>
    permsT st' = permsT st \<and> rolePermsT st' = rolePermsT st"
proof (cases "findFirst (\<lambda>r. ro_code r = sr_code sr \<and> ro_system r \<and> \<not> ro_deleted r) (rolesT st)")
  case None
  let ?new = "\<lambda>i. \<lparr> ro_id = i, ro_code = sr_code sr, ro_name = sr_name sr, ro_description = sr_description sr,
    ro_scopeType = sr_scopeType sr, ro_org = None, ro_project = None, ro_system = True, ro_deleted = False \<rparr>"
  note none = None
  from assms(1) obtain st1 where n: "newUUID st = Inr (rid, st1)" and ins: "insertRole (?new rid) st1 = Inr ((), st')"
    by (auto simp: upsertSystemRoleTx_def bindT_Inr_iff none simp del: findFirst_None)
  from n ins have t: "rolesT st' = rolesT st @ [?new rid]" "rid \<notin> ro_id ` set (rolesT st)"
    "permsT st' = permsT st" "rolePermsT st' = rolePermsT st"
    by (auto simp: newUUID_Inr insertRole_def split: if_splits)
  have "\<forall>r \<in> set (rolesT st). \<not> (ro_code r = sr_code sr \<and> ro_system r \<and> \<not> ro_deleted r)" using None by simp
  with t assms(2) have "rolesOk st'" by (auto simp: rolesOk_def)
  then show ?thesis using t by (auto simp: liveSys_def)
next
  case (Some r)
  then have r: "r \<in> set (rolesT st)" "ro_code r = sr_code sr" "ro_system r" "\<not> ro_deleted r" by (auto dest: findFirst_Some)
  define q where "q = r\<lparr>ro_name := sr_name sr, ro_description := sr_description sr, ro_scopeType := sr_scopeType sr, ro_system := True\<rparr>"
  define f where "f = (\<lambda>x. if ro_id x = ro_id r then q else x)"
  have q: "ro_id q = ro_id r" "ro_code q = ro_code r" "ro_system q" "\<not> ro_deleted q" using r by (simp_all add: q_def)
  from Some assms(1) have "replaceRole q st = Inr ((), st')" and rid: "rid = ro_id r"
    by (auto simp: upsertSystemRoleTx_def bindT_Inr_iff q_def)
  then have t: "rolesT st' = map f (rolesT st)" "permsT st' = permsT st" "rolePermsT st' = rolePermsT st"
    using q(1) by (auto simp: replaceRole_def f_def split: if_splits)
  have k: "ro_id (f x) = ro_id x \<and> ro_code (f x) = ro_code x \<and> ro_system (f x) = ro_system x \<and> ro_deleted (f x) = ro_deleted x"
    if "x \<in> set (rolesT st)" for x
    using that rolesOk_id [OF assms(2) that r(1)] q r by (auto simp: f_def)
  have "map ro_id (map f (rolesT st)) = map ro_id (rolesT st)" using k by simp
  then have "distinct (map ro_id (rolesT st'))" unfolding t(1) using assms(2) by (simp only: rolesOk_def)
  moreover have "f a = f b" if "a \<in> set (rolesT st)" "b \<in> set (rolesT st)" "ro_system (f a)" "ro_system (f b)"
    "\<not> ro_deleted (f a)" "\<not> ro_deleted (f b)" "ro_code (f a) = ro_code (f b)" for a b
    using that k [OF that(1)] k [OF that(2)] assms(2) by (auto simp: rolesOk_def)
  ultimately have "rolesOk st'" unfolding rolesOk_def t(1) by auto
  moreover have live: "liveSys st' x c" if "liveSys st x c" for x c
  proof -
    from that obtain y where "y \<in> set (rolesT st)" "ro_id y = x" "ro_code y = c" "ro_system y" "\<not> ro_deleted y"
      by (auto simp: liveSys_def)
    with k [of y] show ?thesis unfolding liveSys_def t(1) by (intro bexI [of _ "f y"]) auto
  qed
  moreover have "liveSys st rid (sr_code sr)" using r rid by (auto simp: liveSys_def)
  ultimately show ?thesis using t by blast
qed

section \<open>The loop over the roles\<close>

definition ready :: "store \<Rightarrow> (str \<times> str) list \<Rightarrow> systemRole \<Rightarrow> bool" where
  "ready st pids sr \<longleftrightarrow> (\<exists>rid. liveSys st rid (sr_code sr) \<and>
     (\<forall>code \<in> set (sr_permissions sr). \<exists>pid. map_of pids code = Some pid \<and> (rid, pid) \<in> set (rolePermsT st)))"

lemma addPerms_loop:
  assumes "mapT (\<lambda>code. case map_of pids code of None \<Rightarrow> failT (ErrMsg ''unknown permission code'')
       | Some pid \<Rightarrow> addRolePerm rid pid) codes st = Inr (ys, st')"
  shows "rolesT st' = rolesT st \<and> permsT st' = permsT st \<and> set (rolePermsT st) \<subseteq> set (rolePermsT st') \<and>
    (\<forall>code \<in> set codes. \<exists>pid. map_of pids code = Some pid \<and> (rid, pid) \<in> set (rolePermsT st'))"
  using assms
proof (induction codes arbitrary: st ys)
  case (Cons c cs)
  then obtain pid st1 zs where m: "map_of pids c = Some pid" and a: "addRolePerm rid pid st = Inr ((), st1)"
    and r: "mapT (\<lambda>code. case map_of pids code of None \<Rightarrow> failT (ErrMsg ''unknown permission code'')
       | Some pid \<Rightarrow> addRolePerm rid pid) cs st1 = Inr (zs, st')"
    by (auto simp: bindT_Inr_iff split: option.splits)
  from a have "rolesT st1 = rolesT st" "permsT st1 = permsT st" "insert (rid, pid) (set (rolePermsT st)) \<subseteq> set (rolePermsT st1)"
    by (auto simp: addRolePerm_def)
  with Cons.IH [OF r] m show ?case by auto
qed simp

lemma ensureRole_effect:
  assumes "ensureRoleTx pids sr st = Inr (u, st')" "rolesOk st"
  shows "rolesOk st'" "ready st' pids sr" "permsT st' = permsT st"
    "sr_code sr' \<noteq> sr_code sr \<Longrightarrow> ready st pids sr' \<Longrightarrow> ready st' pids sr'"
proof -
  from assms(1) obtain rid st1 ys where up: "upsertSystemRoleTx sr st = Inr (rid, st1)"
    and m: "mapT (\<lambda>code. case map_of pids code of None \<Rightarrow> failT (ErrMsg ''unknown permission code'')
       | Some pid \<Rightarrow> addRolePerm rid pid) (sr_permissions sr)
         (st1\<lparr>rolePermsT := filter (\<lambda>(r, _). r \<noteq> rid) (rolePermsT st1)\<rparr>) = Inr (ys, st')"
    by (auto simp: ensureRoleTx_def bindT_Inr_iff clearRolePerms_def)
  note u = upsertSystemRole_effect [OF up assms(2)]
  note a = addPerms_loop [OF m]
  have ro: "rolesT st' = rolesT st1" using a by simp
  show ok: "rolesOk st'" using u rolesOk_cong [OF ro] by simp
  show "permsT st' = permsT st" using u a by simp
  have l: "liveSys st' = liveSys st1" by (rule liveSys_cong [OF ro])
  show "ready st' pids sr" unfolding ready_def by (rule exI [of _ rid]) (use u a l in simp)
  show "ready st' pids sr'" if ne: "sr_code sr' \<noteq> sr_code sr" and rd: "ready st pids sr'"
  proof -
    from rd obtain rid' where r: "liveSys st rid' (sr_code sr')"
      "\<forall>code \<in> set (sr_permissions sr'). \<exists>pid. map_of pids code = Some pid \<and> (rid', pid) \<in> set (rolePermsT st)"
      by (auto simp: ready_def)
    have lr: "liveSys st' rid' (sr_code sr')" "liveSys st' rid (sr_code sr)" using u l r(1) by auto
    have "rid' \<noteq> rid" using liveSys_code [OF ok lr(1)] lr(2) ne by blast
    then have "(rid', pid) \<in> set (rolePermsT st')" if "(rid', pid) \<in> set (rolePermsT st)" for pid
      using that a u by auto
    then show ?thesis unfolding ready_def using lr(1) r(2) by blast
  qed
qed

lemma role_loop:
  assumes "mapT (ensureRoleTx pids) rs st = Inr (ys, st')" "rolesOk st" "distinct (map sr_code (ds @ rs))" "\<forall>d \<in> set ds. ready st pids d"
  shows "rolesOk st' \<and> permsT st' = permsT st \<and> (\<forall>d \<in> set (ds @ rs). ready st' pids d)"
  using assms
proof (induction rs arbitrary: st ys ds)
  case (Cons r rs)
  then obtain u st1 zs where e: "ensureRoleTx pids r st = Inr (u, st1)" and m: "mapT (ensureRoleTx pids) rs st1 = Inr (zs, st')"
    by (auto simp: bindT_Inr_iff)
  note f = ensureRole_effect [OF e Cons.prems(2)]
  have "\<forall>d \<in> set (ds @ [r]). ready st1 pids d"
  proof
    fix d assume d: "d \<in> set (ds @ [r])"
    show "ready st1 pids d"
    proof (cases "d = r")
      case False
      with d have "d \<in> set ds" by simp
      moreover from this have "sr_code d \<in> sr_code ` set ds" by simp
      moreover have "sr_code r \<notin> sr_code ` set ds" using Cons.prems(3) by simp
      ultimately show ?thesis using f(4) [of d] Cons.prems(4) by metis
    qed (simp add: f(2))
  qed
  with Cons.IH [OF m f(1), of "ds @ [r]"] Cons.prems(3) f(3) show ?case by simp
qed simp

text \<open>Every system role is there, with all its permissions.\<close>

definition systemReady :: "store \<Rightarrow> bool" where
  "systemReady st \<longleftrightarrow> (\<forall>sr \<in> set defaultRoles. \<exists>rid. liveSys st rid (sr_code sr) \<and>
     set (sr_permissions sr) \<subseteq> set (roleCodes st rid))"

lemma roleCodes_mem: "hasPerm st pid c \<Longrightarrow> (rid, pid) \<in> set (rolePermsT st) \<Longrightarrow> c \<in> set (roleCodes st rid)"
  unfolding hasPerm_def roleCodes_def by fastforce

lemma ensureSystemData_ready:
  assumes "ensureSystemData st = (Inr (), st')" "rolesOk st"
  shows "rolesOk st'" "systemReady st'"
proof -
  from assms(1) obtain pids st1 ys
    where p: "mapT (\<lambda>p. bindT (upsertPermissionTx p) (\<lambda>i. retT (sp_code p, i))) defaultPermissions st = Inr (pids, st1)"
      and r: "mapT (ensureRoleTx pids) defaultRoles st1 = Inr (ys, st')"
    by (auto simp: ensureSystemData_def runTx_Inr ensureSystemDataTx_def bindT_Inr_iff)
  note pl = permission_loop [OF p]
  have ok1: "rolesOk st1" using pl rolesOk_cong [of st1 st] assms(2) by simp
  have "distinct (map sr_code ([] @ defaultRoles))" by code_simp
  from role_loop [OF r ok1 this] have rl: "rolesOk st'" "permsT st' = permsT st1" "\<forall>d \<in> set defaultRoles. ready st' pids d"
    by simp_all
  show "rolesOk st'" by (rule rl(1))
  show "systemReady st'" unfolding systemReady_def
  proof
    fix sr assume "sr \<in> set defaultRoles"
    with rl(3) obtain rid where rid: "liveSys st' rid (sr_code sr)"
      "\<forall>code \<in> set (sr_permissions sr). \<exists>pid. map_of pids code = Some pid \<and> (rid, pid) \<in> set (rolePermsT st')"
      by (auto simp: ready_def)
    have "code \<in> set (roleCodes st' rid)" if "code \<in> set (sr_permissions sr)" for code
    proof -
      from that rid(2) obtain pid where pid: "map_of pids code = Some pid" "(rid, pid) \<in> set (rolePermsT st')" by blast
      then have "hasPerm st1 pid code" using pl map_of_SomeD by fastforce
      then have "hasPerm st' pid code" using hasPerm_cong [OF rl(2)] by simp
      then show ?thesis using pid(2) by (rule roleCodes_mem)
    qed
    with rid(1) show "\<exists>rid. liveSys st' rid (sr_code sr) \<and> set (sr_permissions sr) \<subseteq> set (roleCodes st' rid)" by blast
  qed
qed

section \<open>The bootstrap administrator\<close>

lemma roleIdByCode_system:
  assumes "roleIdByCodeTx code st = Inr (rid, st1)" "liveSys st rid0 code" "rolesOk st"
  shows "rid = rid0"
proof -
  let ?k = "\<lambda>r. if ro_system r then 0 else (1::nat)"
  let ?p = "\<lambda>r. ro_code r = code \<and> \<not> ro_deleted r"
  from assms(1) obtain r where f: "findFirst ?p (sort_key ?k (rolesT st)) = Some r" and rid: "rid = ro_id r"
    by (auto simp: roleIdByCodeTx_def split: option.splits)
  from assms(2) obtain q where q: "q \<in> set (rolesT st)" "ro_id q = rid0" "ro_code q = code" "ro_system q" "\<not> ro_deleted q"
    by (auto simp: liveSys_def)
  from f have r: "r \<in> set (rolesT st)" "?p r" by (auto dest: findFirst_Some)
  have "filter ?p (sort_key ?k (rolesT st)) = sort_key ?k (filter ?p (rolesT st))" by (rule filter_sort)
  with f obtain ys where h: "sort_key ?k (filter ?p (rolesT st)) = r # ys" by (auto simp: findFirst_def split: list.splits)
  then have "sorted (map ?k (r # ys))" using sorted_sort_key [of ?k "filter ?p (rolesT st)"] by simp
  moreover have "q \<in> set (r # ys)" unfolding h [symmetric] using q by simp
  ultimately have "?k r \<le> ?k q" unfolding list.map sorted_simps by force
  with q(4) have "ro_system r" by (auto split: if_splits)
  with r q assms(3) have "r = q" by (auto simp: rolesOk_def)
  with q(2) rid show ?thesis by simp
qed

lemma bootstrap_binding:
  assumes "ensureBootstrapAdmin userId name st = (Inr (), st')" "trimSpace userId \<noteq> []"
    and "liveSys st rid ''platform_admin''" "rolesOk st"
  shows "sameRbac st st' \<and> (\<exists>b \<in> set (bindingsT st'). b_user b = trimSpace userId \<and> b_role b = rid \<and> b_scopeType b = ''global'' \<and>
    b_scope b = None \<and> \<not> b_deleted b \<and> (b_expires b = None \<or> b \<in> set (bindingsT st)))"
proof -
  from assms(1,2) obtain uid st1 sa rid' sb where st': "st' = cacheUserLabel uid name st1"
    and up: "upsertUserByIdTx userId name [] st = Inr (uid, sa)" and ro: "roleIdByCodeTx ''platform_admin'' sa = Inr (rid', sb)"
    and rest: "(case activeBindingId sb uid rid' ''global'' [] of Some _ \<Rightarrow> retT uid
             | None \<Rightarrow> bindT newUUID (\<lambda>i.
                 bindT (insertBinding (mkBinding i uid rid' ''global'' None ''bootstrap'' None (clock sb))) (\<lambda>_.
                 retT uid))) sb = Inr (uid, st1)"
    by (auto simp: ensureBootstrapAdmin_def runTx_Inr bindT_Inr_iff split: sum.splits prod.splits option.splits)
  obtain us where us: "uid = trimSpace userId" "sa = st\<lparr>usersT := us\<rparr>" by (rule upsertUser_effect [OF up])
  have sb: "sb = sa" by (rule roleIdByCode_state [OF ro])
  have rid: "rid' = rid"
    using roleIdByCode_system [OF ro, of rid] assms(3,4) us(2) liveSys_cong [of sa st] rolesOk_cong [of sa st] by simp
  have lab: "sameRbac st1 st'" "bindingsT st' = bindingsT st1"
    unfolding st' by (auto simp: cacheUserLabel_def sameRbac_def Let_def)
  show ?thesis
  proof (cases "activeBindingId sb uid rid' ''global'' []")
    case (Some bid)
    then obtain b where "b \<in> set (bindingsT st)" "b_user b = uid" "b_role b = rid" "b_scopeType b = ''global''" "b_scope b = None" "\<not> b_deleted b"
      using us(2) sb rid by (auto simp: activeBindingId_def nullif_def dest!: findFirst_Some)
    moreover have "st1 = sb" using rest Some by simp
    ultimately show ?thesis using lab us sb by (auto simp: sameRbac_def)
  next
    case None
    with rest obtain i is' where "st1 = sb\<lparr>ids := is', bindingsT := bindingsT sb @ [mkBinding i uid rid' ''global'' None ''bootstrap'' None (clock sb)]\<rparr>"
      by (auto simp: bindT_Inr_iff newUUID_Inr insertBinding_Inr)
    then show ?thesis using lab us sb rid by (auto simp: sameRbac_def mkBinding_def)
  qed
qed

section \<open>A started server\<close>

definition sameRows :: "store \<Rightarrow> store \<Rightarrow> bool" where
  "sameRows st st' \<longleftrightarrow> tbl st' = tbl st \<and> secretsT st' = secretsT st \<and> usersT st' = usersT st \<and> clock st' = clock st"

lemma preserves_rows_writes [preserving]:
  "preserves (sameRows st) newUUID"
  "preserves (sameRows st) (insertRole r)"
  "preserves (sameRows st) (replaceRole r)"
  "preserves (sameRows st) (addRolePerm rid pid)"
  "preserves (sameRows st) (clearRolePerms rid)"
  by (auto simp: preserves_def newUUID_Inr insertRole_def replaceRole_def addRolePerm_def
      clearRolePerms_def sameRows_def split: if_splits)

lemma preserves_rows_perm [preserving]: "preserves (sameRows st) (upsertPermissionTx p)"
  unfolding upsertPermissionTx_def by (intro preserving) (auto simp: preserves_def sameRows_def)

lemma ensureSystemData_keeps: "ensureSystemData st = (r, st') \<Longrightarrow> sameRows st st'"
  by (rule preserves_runTx [where P = "sameRows st"])
    (auto simp: ensureSystemData_def ensureSystemDataTx_def ensureRoleTx_def upsertSystemRoleTx_def sameRows_def
      intro!: preserving)

lemma prepareStore_admin:
  assumes "prepareStore getenv st0 = (Inr (), st)" "rolesOk st0"
    and i: "i = trimSpace (getenv ''ENVVAULT_BOOTSTRAP_ADMIN_USER_ID'')" "i \<noteq> []"
    and b: "\<forall>b \<in> set (bindingsT st0). b_user b = i \<longrightarrow> b_expires b = None"
    and u: "userActive st i" "ui_id u = i"
    and r: "resourceScopes st r = Inr scopes" "globalScope \<in> set scopes"
      "permissionCode a (res_type r) \<in> set (permissionCodes defaultPermissions)"
  shows "storeAllow st u a r = Inr ()"
proof -
  let ?id = "getenv ''ENVVAULT_BOOTSTRAP_ADMIN_USER_ID''"
  have ne: "?id \<noteq> []" using i by auto
  obtain st1 where e: "ensureSystemData (st0\<lparr>labelsC := []\<rparr>) = (Inr (), st1)"
    and bs: "ensureBootstrapAdmin ?id (getenv ''ENVVAULT_BOOTSTRAP_ADMIN_NAME'') (loadUserCache st1) = (Inr (), st)"
    using assms(1) ne by (auto simp: prepareStore_def Let_def split: sum.splits prod.splits)
  have "rolesOk (st0\<lparr>labelsC := []\<rparr>)" using assms(2) rolesOk_cong [of "st0\<lparr>labelsC := []\<rparr>" st0] by simp
  note sys = ensureSystemData_ready [OF e this]
  have lu: "rolesT (loadUserCache st1) = rolesT st1" "rolePermsT (loadUserCache st1) = rolePermsT st1"
    "permsT (loadUserCache st1) = permsT st1" "bindingsT (loadUserCache st1) = bindingsT st1"
    by (simp_all add: loadUserCache_def)
  have "list_ex (\<lambda>sr. sr_code sr = ''platform_admin'' \<and> sr_permissions sr = permissionCodes defaultPermissions) defaultRoles"
    by code_simp
  then obtain rid where rid: "liveSys st1 rid ''platform_admin''" "set (permissionCodes defaultPermissions) \<subseteq> set (roleCodes st1 rid)"
    using sys(2) unfolding systemReady_def list_ex_iff by metis
  have l1: "liveSys (loadUserCache st1) rid ''platform_admin''" using rid(1) liveSys_cong [OF lu(1)] by simp
  have o1: "rolesOk (loadUserCache st1)" using sys(1) rolesOk_cong [OF lu(1)] by simp
  have tr: "trimSpace ?id \<noteq> []" using i by simp
  from bootstrap_binding [OF bs tr l1 o1] obtain x where sm: "sameRbac (loadUserCache st1) st"
    and x: "x \<in> set (bindingsT st)" "b_user x = i" "b_role x = rid" "b_scopeType x = ''global''" "b_scope x = None" "\<not> b_deleted x"
      "b_expires x = None \<or> x \<in> set (bindingsT st1)"
    using i(1) lu(4) by auto
  have "bindingsT st1 = bindingsT st0" using ensureSystemData_bindings [OF e] by simp
  with x(2,7) b have ex: "b_expires x = None" by auto
  have rc: "roleCodes st = roleCodes st1" by (rule roleCodes_cong) (use sm lu in \<open>simp_all add: sameRbac_def\<close>)
  have rl: "roleLive st rid" using rid(1) sm lu by (auto simp: roleLive_def liveSys_def sameRbac_def list_ex_iff)
  let ?c = "permissionCode a (res_type r)"
  have "grantsCode st i ?c x" using x(2,3,6) ex rl rc rid(2) r(3) u(1) by (auto simp: grantsCode_def bindingActive_def)
  moreover have "scopeCond globalScope x"
  proof -
    have "normalizeScopeType ''global'' = ''global''" by code_simp
    then show ?thesis using x(4,5) by (simp add: scopeCond_def globalScope_def mkScope_def Let_def)
  qed
  moreover have "?c \<noteq> []"
  proof -
    have "[] \<notin> set (permissionCodes defaultPermissions)" by code_simp
    with r(3) show ?thesis by auto
  qed
  moreover have "trimSpace i \<noteq> []" using i by simp
  ultimately show ?thesis unfolding storeAllow_iff using x(1) r(1,2) u(2) by blast
qed

lemma resourceScopes_global: "resourceScopes st r = Inr scopes \<Longrightarrow> globalScope \<in> set scopes"
  by (auto simp: resourceScopes_def scope_defs envTemplateScopes_def Let_def folderChain_def
      split: if_splits option.splits prod.splits)

lemma run_effect:
  assumes "run pf w = (Inr (d, s), st)"
  shows "prepareStore (pf_getenv pf) (ou_st w) = (Inr (), st)" "w_st (sv_world s) = st"
    "load (pf_viper pf) (pf_getenv pf) = Inr (dp_config d)"
  using assms by (auto simp: run_def Let_def dependenciesOf_def split: sum.splits prod.splits if_splits)

lemma prepareStore_keeps:
  assumes "prepareStore getenv st0 = (Inr (), st)" "rolesOk st0"
  shows "systemReady st \<and> tbl st = tbl st0 \<and> secretsT st = secretsT st0"
proof -
  obtain st1 where e: "ensureSystemData (st0\<lparr>labelsC := []\<rparr>) = (Inr (), st1)"
    using assms(1) by (auto simp: prepareStore_def split: sum.splits prod.splits)
  have "rolesOk (st0\<lparr>labelsC := []\<rparr>)" using assms(2) rolesOk_cong [of "st0\<lparr>labelsC := []\<rparr>" st0] by simp
  note sys = ensureSystemData_ready [OF e this]
  let ?l = "loadUserCache st1" and ?id = "getenv ''ENVVAULT_BOOTSTRAP_ADMIN_USER_ID''"
  have lu: "sameRbac st1 ?l" by (simp add: loadUserCache_def sameRbac_def)
  have "sameRbac ?l st"
  proof (cases "trimSpace ?id = []")
    case True
    then have "st = ?l" using assms(1) e by (auto simp: prepareStore_def ensureBootstrapAdmin_def Let_def split: if_splits)
    then show ?thesis by (simp add: sameRbac_def)
  next
    case False
    then have "?id \<noteq> []" by auto
    then have bs: "ensureBootstrapAdmin ?id (getenv ''ENVVAULT_BOOTSTRAP_ADMIN_NAME'') ?l = (Inr (), st)"
      using assms(1) e by (simp add: prepareStore_def Let_def)
    have ro: "rolesT ?l = rolesT st1" by (simp add: loadUserCache_def)
    have "list_ex (\<lambda>sr. sr_code sr = ''platform_admin'') defaultRoles" by code_simp
    then obtain rid where "liveSys st1 rid ''platform_admin''" using sys(2) unfolding systemReady_def list_ex_iff by metis
    then have "liveSys ?l rid ''platform_admin''" using liveSys_cong [OF ro] by simp
    moreover have "rolesOk ?l" using sys(1) rolesOk_cong [OF ro] by simp
    ultimately show ?thesis using bootstrap_binding [OF bs False] by blast
  qed
  with lu have sm: "rolesT st = rolesT st1" "rolePermsT st = rolePermsT st1" "permsT st = permsT st1"
    "tbl st = tbl st1" "secretsT st = secretsT st1" by (simp_all add: sameRbac_def)
  have "systemReady st = systemReady st1"
    using liveSys_cong [OF sm(1)] roleCodes_cong [OF sm(2,3)] by (simp add: systemReady_def)
  then show ?thesis using sys(2) sm(4,5) ensureSystemData_keeps [OF e] by (simp add: sameRows_def)
qed

text \<open>C23. A server that has started stands on what it needs: its configuration is valid, every system role exists as
  a live system role that has at least the permissions the program gives it, whatever was in the database before,
  and the rows of organizations, projects, environments, folders and secrets are as they were.\<close>

theorem start_up:
  assumes "run pf w = (Inr (d, s), st)" "rolesOk (ou_st w)"
  shows "validate (dp_config d) = Inr () \<and> w_st (sv_world s) = st \<and> systemReady st \<and>
    tbl st = tbl (ou_st w) \<and> secretsT st = secretsT (ou_st w)"
  using run_effect [OF assms(1)] prepareStore_keeps [OF _ assms(2)] by (auto simp: load_def dest: load_valid)

text \<open>C22. The bootstrap administrator may do everything. After a start with the identifier of an administrator in the
  environment, the authorizer allows that user every action whose permission the program knows, on every resource
  that exists, unless the account is disabled; provided that no earlier binding of the user has an expiry, since
  an expired one that is not deleted would be taken for the grant.\<close>

theorem bootstrap_admin:
  assumes "run pf w = (Inr (d, s), st)" "rolesOk (ou_st w)"
    and "i = trimSpace (pf_getenv pf ''ENVVAULT_BOOTSTRAP_ADMIN_USER_ID'')" "i \<noteq> []"
    and "\<forall>b \<in> set (bindingsT (ou_st w)). b_user b = i \<longrightarrow> b_expires b = None" "userActive st i" "ui_id u = i"
    and "resourceScopes st r = Inr scopes"
      "permissionCode a (res_type r) \<in> set (permissionCodes defaultPermissions)"
  shows "storeAllow st u a r = Inr ()"
  using prepareStore_admin [OF run_effect(1) [OF assms(1)] assms(2-8) resourceScopes_global [OF assms(8)] assms(9)] .

section \<open>The start does not fail on its own data\<close>

text \<open>Identifiers of \<open>uuidgen\<close> that no permission and no role has, and system roles without an owner.\<close>

definition fresh :: "nat \<Rightarrow> store \<Rightarrow> bool" where
  "fresh n st \<longleftrightarrow> distinct (ids st) \<and> n \<le> length (ids st) \<and>
     set (ids st) \<inter> (p_id ` set (permsT st) \<union> ro_id ` set (rolesT st)) = {}"

definition unowned :: "store \<Rightarrow> bool" where
  "unowned st \<longleftrightarrow> (\<forall>r \<in> set (rolesT st). ro_system r \<longrightarrow> ro_org r = None \<and> ro_project r = None)"

lemma fresh_Suc: "fresh (Suc n) st \<Longrightarrow> \<exists>i rest. ids st = i # rest \<and> i \<notin> p_id ` set (permsT st) \<and>
    i \<notin> ro_id ` set (rolesT st) \<and> newUUID st = Inr (i, st\<lparr>ids := rest\<rparr>)"
  by (cases "ids st") (auto simp: fresh_def newUUID_def)

lemma upsertPermission_ok:
  assumes "fresh (Suc n) st"
  shows "\<exists>i st'. upsertPermissionTx sp st = Inr (i, st') \<and> fresh n st' \<and> rolesT st' = rolesT st"
proof -
  from fresh_Suc [OF assms] obtain i rest where i: "ids st = i # rest" "i \<notin> p_id ` set (permsT st)" "newUUID st = Inr (i, st\<lparr>ids := rest\<rparr>)"
    by blast
  define g where "g = (\<lambda>x :: permissionRow. if p_code x = sp_code sp
      then x\<lparr>p_resourceType := sp_resource sp, p_action := sp_action sp, p_description := sp_description sp\<rparr> else x)"
  have g: "p_id ` g ` A = p_id ` A" for A unfolding image_image by (rule image_cong) (simp_all add: g_def)
  show ?thesis
  proof (cases "findFirst (\<lambda>p. p_code p = sp_code sp) (permsT st)")
    case None
    with i assms show ?thesis
      by (auto simp: upsertPermissionTx_def bindT_def fresh_def image_iff simp del: findFirst_None)
  next
    case (Some p)
    with i have "upsertPermissionTx sp st = Inr (p_id p, st\<lparr>ids := rest, permsT := map g (permsT st)\<rparr>)"
      by (simp add: upsertPermissionTx_def bindT_def g_def)
    with i assms show ?thesis by (auto simp: fresh_def g)
  qed
qed

lemma permission_loop_ok:
  "fresh (length ps + n) st \<Longrightarrow>
   \<exists>pids st'. mapT (\<lambda>p. bindT (upsertPermissionTx p) (\<lambda>i. retT (sp_code p, i))) ps st = Inr (pids, st') \<and> fresh n st' \<and>
     rolesT st' = rolesT st"
proof (induction ps arbitrary: st)
  case (Cons p ps)
  from Cons.prems have "fresh (Suc (length ps + n)) st" by simp
  from upsertPermission_ok [OF this, of p] obtain i st1 where u: "upsertPermissionTx p st = Inr (i, st1)" "fresh (length ps + n) st1"
    "rolesT st1 = rolesT st" by blast
  from Cons.IH [OF u(2)] obtain pids st' where m: "mapT (\<lambda>p. bindT (upsertPermissionTx p) (\<lambda>i. retT (sp_code p, i))) ps st1 = Inr (pids, st')"
    "fresh n st'" "rolesT st' = rolesT st1" by blast
  have "mapT (\<lambda>p. bindT (upsertPermissionTx p) (\<lambda>i. retT (sp_code p, i))) (p # ps) st = Inr ((sp_code p, i) # pids, st')"
    using u(1) m(1) by (simp add: bindT_def)
  moreover have "rolesT st' = rolesT st" using u(3) m(3) by simp
  ultimately show ?case using m(2) by blast
qed simp

lemma upsertSystemRole_ok:
  assumes "fresh (Suc n) st" "rolesOk st" "unowned st" "scopeTypeCheck (sr_scopeType sr)"
  shows "\<exists>rid st'. upsertSystemRoleTx sr st = Inr (rid, st') \<and> fresh n st' \<and> unowned st'"
proof (cases "findFirst (\<lambda>r. ro_code r = sr_code sr \<and> ro_system r \<and> \<not> ro_deleted r) (rolesT st)")
  case None
  note none = None
  from fresh_Suc [OF assms(1)] obtain i rest where i: "ids st = i # rest" "i \<notin> ro_id ` set (rolesT st)" "newUUID st = Inr (i, st\<lparr>ids := rest\<rparr>)"
    by blast
  let ?new = "\<lparr> ro_id = i, ro_code = sr_code sr, ro_name = sr_name sr, ro_description = sr_description sr,
    ro_scopeType = sr_scopeType sr, ro_org = None, ro_project = None, ro_system = True, ro_deleted = False \<rparr>"
  have "\<not> list_ex (\<lambda>x. \<not> ro_deleted x \<and> roleClash x ?new) (rolesT st)"
    using none by (auto simp: list_ex_iff roleClash_def)
  then have "upsertSystemRoleTx sr st = Inr (i, st\<lparr>ids := rest, rolesT := rolesT st @ [?new]\<rparr>)"
    using i assms(4) by (auto simp: upsertSystemRoleTx_def none bindT_def insertRole_def simp del: findFirst_None)
  with i assms(1,3) show ?thesis by (auto simp: fresh_def unowned_def)
next
  case (Some r)
  then have r: "r \<in> set (rolesT st)" "ro_code r = sr_code sr" "ro_system r" "\<not> ro_deleted r" by (auto dest: findFirst_Some)
  define q where "q = r\<lparr>ro_name := sr_name sr, ro_description := sr_description sr, ro_scopeType := sr_scopeType sr, ro_system := True\<rparr>"
  have q: "ro_id q = ro_id r" "ro_code q = ro_code r" "ro_org q = None" "ro_project q = None" "ro_scopeType q = sr_scopeType sr"
    using r assms(3) by (auto simp: q_def unowned_def)
  have "\<not> list_ex (\<lambda>x. ro_id x \<noteq> ro_id q \<and> \<not> ro_deleted x \<and> roleClash x q) (rolesT st)"
  proof
    assume "list_ex (\<lambda>x. ro_id x \<noteq> ro_id q \<and> \<not> ro_deleted x \<and> roleClash x q) (rolesT st)"
    then obtain x where "x \<in> set (rolesT st)" "ro_id x \<noteq> ro_id r" "\<not> ro_deleted x" "ro_code x = ro_code r" "ro_system x"
      using q by (auto simp: list_ex_iff roleClash_def)
    then show False using assms(2) r unfolding rolesOk_def by blast
  qed
  then have "upsertSystemRoleTx sr st = Inr (ro_id r, st\<lparr>rolesT := map (\<lambda>x. if ro_id x = ro_id q then q else x) (rolesT st)\<rparr>)"
    using assms(4) q(5) by (simp add: upsertSystemRoleTx_def Some bindT_def replaceRole_def q_def [symmetric])
  moreover have "ro_id ` set (map (\<lambda>x. if ro_id x = ro_id q then q else x) (rolesT st)) = ro_id ` set (rolesT st)"
    unfolding set_map image_image by (rule image_cong) simp_all
  ultimately show ?thesis using assms(1,3) q(3,4) by (auto simp: fresh_def unowned_def)
qed

lemma addPerms_ok:
  "\<forall>code \<in> set codes. map_of pids code \<noteq> None \<Longrightarrow>
   \<exists>ys rp. mapT (\<lambda>code. case map_of pids code of None \<Rightarrow> failT (ErrMsg ''unknown permission code'')
       | Some pid \<Rightarrow> addRolePerm rid pid) codes st = Inr (ys, st\<lparr>rolePermsT := rp\<rparr>)"
proof (induction codes arbitrary: st)
  case Nil
  show ?case by (intro exI [of _ "[]"] exI [of _ "rolePermsT st"]) simp
next
  case (Cons c cs)
  then obtain pid where p: "map_of pids c = Some pid" by auto
  obtain rp where a: "addRolePerm rid pid st = Inr ((), st\<lparr>rolePermsT := rp\<rparr>)"
  proof (cases "(rid, pid) \<in> set (rolePermsT st)")
    case True
    with that [of "rolePermsT st"] show thesis by (simp add: addRolePerm_def)
  next
    case False
    with that [of "rolePermsT st @ [(rid, pid)]"] show thesis by (simp add: addRolePerm_def)
  qed
  from Cons.IH [of "st\<lparr>rolePermsT := rp\<rparr>"] Cons.prems obtain ys rp' where
    "mapT (\<lambda>code. case map_of pids code of None \<Rightarrow> failT (ErrMsg ''unknown permission code'')
       | Some pid \<Rightarrow> addRolePerm rid pid) cs (st\<lparr>rolePermsT := rp\<rparr>) = Inr (ys, st\<lparr>rolePermsT := rp'\<rparr>)" by auto
  with p a show ?case by (auto simp: bindT_def)
qed

lemma role_loop_ok:
  assumes "fresh (length rs + n) st" "rolesOk st" "unowned st"
    and "\<forall>r \<in> set rs. scopeTypeCheck (sr_scopeType r) \<and> (\<forall>c \<in> set (sr_permissions r). map_of pids c \<noteq> None)"
  shows "\<exists>ys st'. mapT (ensureRoleTx pids) rs st = Inr (ys, st') \<and> fresh n st'"
  using assms
proof (induction rs arbitrary: st)
  case (Cons r rs)
  have f: "fresh (Suc (length rs + n)) st" using Cons.prems(1) by simp
  have sc: "scopeTypeCheck (sr_scopeType r)" using Cons.prems(4) by simp
  obtain rid st1 where u: "upsertSystemRoleTx r st = Inr (rid, st1)" "fresh (length rs + n) st1" "unowned st1"
    using upsertSystemRole_ok [OF f Cons.prems(2,3) sc] by blast
  obtain ys rp where a: "mapT (\<lambda>code. case map_of pids code of None \<Rightarrow> failT (ErrMsg ''unknown permission code'')
       | Some pid \<Rightarrow> addRolePerm rid pid) (sr_permissions r)
         (st1\<lparr>rolePermsT := filter (\<lambda>(r, _). r \<noteq> rid) (rolePermsT st1)\<rparr>) = Inr (ys, st1\<lparr>rolePermsT := rp\<rparr>)"
    using addPerms_ok [of "sr_permissions r" pids rid "st1\<lparr>rolePermsT := filter (\<lambda>(r, _). r \<noteq> rid) (rolePermsT st1)\<rparr>"]
      Cons.prems(4) by auto
  have e: "ensureRoleTx pids r st = Inr ((), st1\<lparr>rolePermsT := rp\<rparr>)"
    using u(1) a by (simp add: ensureRoleTx_def bindT_def clearRolePerms_def)
  have "fresh (length rs + n) (st1\<lparr>rolePermsT := rp\<rparr>)" "unowned (st1\<lparr>rolePermsT := rp\<rparr>)"
    using u(2,3) by (simp_all add: fresh_def unowned_def)
  with Cons.IH [OF _ ensureRole_effect(1) [OF e Cons.prems(2)]] Cons.prems(4) obtain zs st'
    where "mapT (ensureRoleTx pids) rs (st1\<lparr>rolePermsT := rp\<rparr>) = Inr (zs, st')" "fresh n st'" by auto
  with e show ?case by (auto simp: bindT_def)
qed simp

lemma ensureSystemData_ok:
  assumes "fresh (length defaultPermissions + (length defaultRoles + n)) st" "rolesOk st" "unowned st"
  obtains st' where "ensureSystemData st = (Inr (), st')" "fresh n st'"
proof -
  from permission_loop_ok [OF assms(1)] obtain pids st1
    where p: "mapT (\<lambda>p. bindT (upsertPermissionTx p) (\<lambda>i. retT (sp_code p, i))) defaultPermissions st = Inr (pids, st1)"
      "fresh (length defaultRoles + n) st1" "rolesT st1 = rolesT st" by blast
  have "map fst pids = map sp_code defaultPermissions" using permission_loop [OF p(1)] by blast
  then have codes: "map_of pids c \<noteq> None" if "c \<in> set (map sp_code defaultPermissions)" for c
    using that by (metis list.set_map map_of_eq_None_iff)
  have chk: "list_all (\<lambda>r. scopeTypeCheck (sr_scopeType r) \<and> list_all (\<lambda>c. c \<in> set (map sp_code defaultPermissions)) (sr_permissions r))
      defaultRoles" by code_simp
  have "\<forall>r \<in> set defaultRoles. scopeTypeCheck (sr_scopeType r) \<and> (\<forall>c \<in> set (sr_permissions r). map_of pids c \<noteq> None)"
    using chk codes unfolding list_all_iff by blast
  moreover have "rolesOk st1" "unowned st1" using assms(2,3) p(3) by (simp_all add: rolesOk_def unowned_def)
  ultimately obtain ys st' where r: "mapT (ensureRoleTx pids) defaultRoles st1 = Inr (ys, st')" "fresh n st'"
    using role_loop_ok [OF p(2)] by blast
  have "ensureSystemData st = (Inr (), st')"
    using p(1) r(1) by (simp add: ensureSystemData_def runTx_def ensureSystemDataTx_def bindT_def)
  with r(2) that show thesis by blast
qed

lemma findFirst_ex: "x \<in> set xs \<Longrightarrow> p x \<Longrightarrow> \<exists>y. findFirst p xs = Some y"
  by (cases "findFirst p xs") auto

lemma bootstrap_ok:
  assumes "usersT st = []" "bindingsT st = []" "liveSys st rid ''platform_admin''" "ids st \<noteq> []" "trimSpace userId \<noteq> []"
  obtains st' where "ensureBootstrapAdmin userId name st = (Inr (), st')" "userActive st' (trimSpace userId)"
proof -
  let ?i = "trimSpace userId"
  let ?st1 = "st\<lparr>usersT := [jwtUser ?i name [] (clock st)]\<rparr>"
  have up: "upsertUserByIdTx userId name [] st = Inr (?i, ?st1)"
    using assms(1,5) by (simp add: upsertUserByIdTx_def Let_def translated_Inr findUser_def insertUser_def bindT_Inr_iff jwtUser_def)
  from assms(3) obtain q where q: "q \<in> set (sort_key (\<lambda>r. if ro_system r then 0 else (1::nat)) (rolesT st))"
    "ro_code q = ''platform_admin''" "\<not> ro_deleted q" by (auto simp: liveSys_def)
  have "\<exists>r. findFirst (\<lambda>r. ro_code r = ''platform_admin'' \<and> \<not> ro_deleted r)
      (sort_key (\<lambda>r. if ro_system r then 0 else (1::nat)) (rolesT st)) = Some r"
    by (rule findFirst_ex [OF q(1)]) (simp add: q(2,3))
  then obtain r where "findFirst (\<lambda>r. ro_code r = ''platform_admin'' \<and> \<not> ro_deleted r)
      (sort_key (\<lambda>r. if ro_system r then 0 else (1::nat)) (rolesT st)) = Some r" ..
  then have ro: "roleIdByCodeTx ''platform_admin'' ?st1 = Inr (ro_id r, ?st1)" by (simp add: roleIdByCodeTx_def)
  from assms(4) obtain i rest where ir: "ids st = i # rest" by (cases "ids st") auto
  then have n: "newUUID ?st1 = Inr (i, ?st1\<lparr>ids := rest\<rparr>)" by (simp add: newUUID_def)
  let ?b = "mkBinding i ?i (ro_id r) ''global'' None ''bootstrap'' None (clock st)"
  have ins: "insertBinding ?b (?st1\<lparr>ids := rest\<rparr>) = Inr ((), ?st1\<lparr>ids := rest, bindingsT := [?b]\<rparr>)"
    using assms(2) by (simp add: insertBinding_def bindingCheck_def scopeTypeCheck_def)
  have "ensureBootstrapAdmin userId name st = (Inr (), cacheUserLabel ?i name (?st1\<lparr>ids := rest, bindingsT := [?b]\<rparr>))"
    using assms(2,5) up ro n ins by (simp add: ensureBootstrapAdmin_def runTx_def bindT_def activeBindingId_def)
  moreover have "userActive (cacheUserLabel ?i name (?st1\<lparr>ids := rest, bindingsT := [?b]\<rparr>)) ?i"
    by (simp add: userActive_def cacheUserLabel_def Let_def jwtUser_def)
  ultimately show thesis by (rule that)
qed

text \<open>A first start on an empty database.\<close>

definition bootEnv :: "str \<Rightarrow> str" where
  "bootEnv k = (if k = ''ENVVAULT_BOOTSTRAP_ADMIN_USER_ID'' then ''root'' else [])"

definition bootConfig :: config where
  "bootConfig = setDefaults\<lparr>cf_encryptionKey := ''MDEyMzQ1Njc4OWFiY2RlZjAxMjM0NTY3ODlhYmNkZWY=''\<rparr>"

definition bootPlatform :: "unit platform" where
  "bootPlatform = \<lparr> pf_viper = \<lparr> vp_readInConfig = (\<lambda>_. Inl ConfigFileNotFound), vp_unmarshal = (\<lambda>_ _ _ _. Inr bootConfig) \<rparr>,
     pf_getenv = bootEnv, pf_openDb = (\<lambda>_. True), pf_pingDb = True, pf_newCipher = (\<lambda>_. Inr demoAead),
     pf_pingRedis = (\<lambda>_ _. True), pf_argon = demoArgon,
     pf_keys = \<lparr> kl_pem = Some, kl_certificate = (\<lambda>_. None), kl_pkix = (\<lambda>_. None), kl_pkcs1Public = (\<lambda>_. None),
       kl_pkcs8 = (\<lambda>_. None), kl_pkcs1 = (\<lambda>_. None), kl_ec = (\<lambda>_. None) \<rparr>,
     pf_jwt = \<lparr> jl_numericDate = id, jl_sign = (\<lambda>_ _ _. Inl ErrCrypto), jl_parse = (\<lambda>_ _ _. Inl ErrCrypto) \<rparr>,
     pf_sha = (\<lambda>_. []), pf_noRoute = (\<lambda>_ _. []) \<rparr>"

definition bootOutside :: outside where
  "bootOutside = \<lparr> ou_st = emptyStore\<lparr>ids := map (\<lambda>n. [char_of n]) [0..<60 :: nat]\<rparr>, ou_redis = \<lparr> rd_up = True, rd_keys = [] \<rparr>,
     ou_attempts = [], ou_limits = \<lparr> ls_up = True, ls_zsets = (\<lambda>_. []), ls_strings = (\<lambda>_. None), ls_rand = [] \<rparr>, ou_rand = [] \<rparr>"

lemma boot_prepare: "\<exists>st. prepareStore bootEnv (ou_st bootOutside) = (Inr (), st) \<and> userActive st ''root''"
proof -
  let ?st0 = "(ou_st bootOutside)\<lparr>labelsC := []\<rparr>"
  have "distinct (ids ?st0)" unfolding bootOutside_def by code_simp
  moreover have "length defaultPermissions + (length defaultRoles + 1) \<le> length (ids ?st0)" unfolding bootOutside_def by code_simp
  moreover have "permsT ?st0 = []" "rolesT ?st0 = []" "usersT ?st0 = []" "bindingsT ?st0 = []"
    by (simp_all add: bootOutside_def emptyStore_def)
  ultimately have "fresh (length defaultPermissions + (length defaultRoles + 1)) ?st0" "rolesOk ?st0" "unowned ?st0"
    by (simp_all add: fresh_def rolesOk_def unowned_def)
  note ok = this
  obtain st1 where e: "ensureSystemData ?st0 = (Inr (), st1)" "fresh 1 st1" by (rule ensureSystemData_ok [OF ok])
  have "usersT st1 = []" "bindingsT st1 = []"
    using ensureSystemData_keeps [OF e(1)] ensureSystemData_bindings [OF e(1)] by (simp_all add: sameRows_def bootOutside_def emptyStore_def)
  then have l: "usersT (loadUserCache st1) = []" "bindingsT (loadUserCache st1) = []" "ids (loadUserCache st1) \<noteq> []"
    using e(2) by (auto simp: loadUserCache_def fresh_def)
  have "list_ex (\<lambda>sr. sr_code sr = ''platform_admin'') defaultRoles" by code_simp
  then obtain rid where "liveSys st1 rid ''platform_admin''"
    using ensureSystemData_ready(2) [OF e(1) ok(2)] unfolding systemReady_def list_ex_iff by metis
  then have "liveSys (loadUserCache st1) rid ''platform_admin''" by (simp add: loadUserCache_def liveSys_def)
  from bootstrap_ok [OF l(1,2) this l(3), of "''root''"] obtain st where
    "ensureBootstrapAdmin ''root'' (bootEnv ''ENVVAULT_BOOTSTRAP_ADMIN_NAME'') (loadUserCache st1) = (Inr (), st)" "userActive st ''root''"
    by (auto simp: trimSpace_nospace isSpace_def)
  with e(1) show ?thesis by (auto simp: prepareStore_def Let_def bootEnv_def)
qed

lemma boot_run:
  obtains d s st where "run bootPlatform bootOutside = (Inr (d, s), st)" "userActive st ''root''"
proof -
  obtain st where p: "prepareStore bootEnv (ou_st bootOutside) = (Inr (), st)" "userActive st ''root''" using boot_prepare by blast
  have v: "validate bootConfig = Inr ()" using defaults_valid by (simp add: bootConfig_def validate_def Let_def)
  have "applyComplexEnv bootEnv = None" by code_simp
  then have l: "load (pf_viper bootPlatform) (pf_getenv bootPlatform) = Inr bootConfig"
    by (simp add: load_def loadFromPath_def bootPlatform_def bootEnv_def v Let_def)
  have "is_ok (newAESGCMEncryptorFromBase64 (\<lambda>_. Inr demoAead) ''MDEyMzQ1Njc4OWFiY2RlZjAxMjM0NTY3ODlhYmNkZWY='')" by code_simp
  then obtain enc where k: "newAESGCMEncryptorFromBase64 (pf_newCipher bootPlatform) (cf_encryptionKey bootConfig) = Inr enc"
    by (auto simp: bootPlatform_def bootConfig_def is_ok_iff)
  have g: "openGORM bootPlatform (cf_database bootConfig) = Inr ()" by (simp add: openGORM_def bootPlatform_def)
  obtain pre where "openRedis bootPlatform (cf_redis bootConfig) = Inr pre" by (simp add: openRedis_def bootPlatform_def Let_def)
  then have "\<exists>d s. run bootPlatform bootOutside = (Inr (d, s), st)"
    using l k g p(1) by (simp add: run_def bootPlatform_def Let_def)
  with p(2) that show thesis by blast
qed

theorem start_up_witness: "systemReady (snd (run bootPlatform bootOutside))"
proof -
  obtain d s st where r: "run bootPlatform bootOutside = (Inr (d, s), st)" by (rule boot_run)
  have "rolesOk (ou_st bootOutside)" by (simp add: bootOutside_def emptyStore_def rolesOk_def)
  from start_up [OF r this] r show ?thesis by simp
qed

theorem bootstrap_admin_witness:
  "storeAllow (snd (run bootPlatform bootOutside)) \<lparr> ui_id = ''root'', ui_name = [], ui_jwt = [], ui_cookie = [] \<rparr> ''org:create''
     \<lparr> res_type = ''global'', res_id = [] \<rparr> = Inr ()"
proof -
  obtain d s st where r: "run bootPlatform bootOutside = (Inr (d, s), st)" "userActive st ''root''" by (rule boot_run)
  have ro: "rolesOk (ou_st bootOutside)" by (simp add: bootOutside_def emptyStore_def rolesOk_def)
  have i: "''root'' = trimSpace (pf_getenv bootPlatform ''ENVVAULT_BOOTSTRAP_ADMIN_USER_ID'')"
    by (simp add: bootPlatform_def bootEnv_def trimSpace_nospace isSpace_def)
  have b: "\<forall>b \<in> set (bindingsT (ou_st bootOutside)). b_user b = ''root'' \<longrightarrow> b_expires b = None"
    by (simp add: bootOutside_def emptyStore_def)
  have "normalizeResourceType ''global'' = ''global''" by code_simp
  then have sc: "resourceScopes st \<lparr> res_type = ''global'', res_id = [] \<rparr> = Inr [globalScope]" by (simp add: resourceScopes_def)
  have c: "permissionCode ''org:create'' (res_type \<lparr> res_type = ''global'', res_id = [] \<rparr>) \<in> set (permissionCodes defaultPermissions)"
    by code_simp
  have "storeAllow st \<lparr> ui_id = ''root'', ui_name = [], ui_jwt = [], ui_cookie = [] \<rparr> ''org:create'' \<lparr> res_type = ''global'', res_id = [] \<rparr> = Inr ()"
    by (rule bootstrap_admin [OF r(1) ro i _ b r(2) _ sc c]) simp_all
  with r(1) show ?thesis by simp
qed

end
