(* ===== verification/SeedProps.thy ===== *)
theory SeedProps
  imports Seed
begin

text \<open>
  What the seeding tool sends: the secrets of a folder go out in full batches and in the order of the list of keys.
  The requests and the responses are observed by a server that logs them, \<open>traced\<close>.
\<close>

type_synonym 'j traffic = "(seedRequest \<times> 'j response) list"

definition traced :: "('s, 'j) api \<Rightarrow> ('s \<times> 'j traffic, 'j) api" where
  "traced api rq w = (case api rq (fst w) of (resp, s) \<Rightarrow> (resp, (s, snd w @ [(rq, resp)])))"

text \<open>The requests so far, with their responses.\<close>

definition traffic :: "('s \<times> 'j traffic) seedState \<Rightarrow> 'j traffic" where
  "traffic s = snd (sw_server s)"

definition written :: "'s seedState \<Rightarrow> nat" where "written s = sx_secrets (sw_stats s)"

definition isBatch :: "seedRequest \<Rightarrow> bool" where
  "isBatch rq \<longleftrightarrow> (case rq of SecretsBatchCreate _ \<Rightarrow> True | _ \<Rightarrow> False)"

lemmas op_defs = retO_def failO_def bindO_def ignoreO_def countO_def drawO_def

lemma bindO_ok:
  assumes "bindO m f s = (Inr y, s'')"
  obtains x s' where "m s = (Inr x, s')" "f x s' = (Inr y, s'')"
  using assms by (auto simp: bindO_def split: prod.splits sum.splits)

section \<open>Operations without batches\<close>

definition quiet :: "('s \<times> 'j traffic, 'a) seedOp \<Rightarrow> bool" where
  "quiet m \<longleftrightarrow> (\<forall>s. \<exists>l. traffic (snd (m s)) = traffic s @ l \<and> list_all (\<lambda>(rq, _). \<not> isBatch rq) l \<and> written (snd (m s)) = written s)"

named_theorems quiet_intros

lemma quietI:
  assumes "\<And>s. \<exists>l. traffic (snd (m s)) = traffic s @ l \<and> list_all (\<lambda>(rq, _). \<not> isBatch rq) l \<and> written (snd (m s)) = written s"
  shows "quiet m"
  using assms by (simp add: quiet_def)

lemma quietE:
  assumes "quiet m"
  obtains l where "traffic (snd (m s)) = traffic s @ l" "list_all (\<lambda>(rq, _). \<not> isBatch rq) l" "written (snd (m s)) = written s"
  using assms by (auto simp: quiet_def)

lemma quiet_ret [quiet_intros]: "quiet (retO x)" "quiet (failO e)"
  by (auto simp: quiet_def op_defs)

lemma quiet_count [quiet_intros]:
  assumes "\<And>x. sx_secrets (f x) = sx_secrets x" shows "quiet (countO f)"
  using assms by (auto simp: quiet_def op_defs traffic_def written_def)

lemma quiet_ignore [quiet_intros]: "quiet m \<Longrightarrow> quiet (ignoreO z m)"
  by (auto simp: quiet_def ignoreO_def split: prod.splits sum.splits) (metis snd_conv)+

lemma quiet_call [quiet_intros]: "\<not> isBatch rq \<Longrightarrow> quiet (callO (traced api) rq dec z tol)"
  by (rule quietI) (auto simp: callO_def traced_def traffic_def written_def split: prod.splits)

lemma quiet_bind [quiet_intros]:
  assumes "quiet m" "\<And>x. quiet (f x)"
  shows "quiet (bindO m f)"
proof (rule quietI)
  fix s
  obtain l where l: "traffic (snd (m s)) = traffic s @ l" "list_all (\<lambda>(rq, _). \<not> isBatch rq) l" "written (snd (m s)) = written s"
    using assms(1) by (rule quietE)
  show "\<exists>l. traffic (snd (bindO m f s)) = traffic s @ l \<and> list_all (\<lambda>(rq, _). \<not> isBatch rq) l \<and> written (snd (bindO m f s)) = written s"
  proof (cases "m s")
    case (Pair r s')
    show ?thesis
    proof (cases r)
      case (Inl e)
      thus ?thesis using Pair l by (auto simp: bindO_def)
    next
      case (Inr x)
      obtain l' where "traffic (snd (f x s')) = traffic s' @ l'" "list_all (\<lambda>(rq, _). \<not> isBatch rq) l'"
          "written (snd (f x s')) = written s'"
        using assms(2) by (rule quietE)
      thus ?thesis using Pair Inr l by (intro exI [of _ "l @ l'"]) (simp add: bindO_def)
    qed
  qed
qed

lemma quiet_map [quiet_intros]: "(\<And>x. quiet (f x)) \<Longrightarrow> quiet (mapO f xs)"
  by (induction xs) (auto intro!: quiet_intros)

lemma quiet_listing [quiet_intros]: "\<not> isBatch rq \<Longrightarrow> quiet (listing (traced api) dc rq)"
  by (auto simp: listing_def intro!: quiet_intros)

lemma quiet_if [quiet_intros]: "quiet m \<Longrightarrow> quiet n \<Longrightarrow> quiet (if b then m else n)" by simp

lemma folderIDs_quiet: "quiet (folderIDs (traced api) dc job)"
  unfolding folderIDs_def existingFolders_def lookupFolders_def createFolders_def countFolder_def
  by (auto intro!: quiet_intros simp: isBatch_def split: prod.splits)

section \<open>The loop over the keys\<close>

text \<open>What a run of the loop leaves: the batches it sent, for the keys given.\<close>

definition filled :: "nat \<Rightarrow> 'a list list \<Rightarrow> bool" where
  "filled n bs \<longleftrightarrow> list_all (\<lambda>b. b \<noteq> [] \<and> length b \<le> max 1 n) bs \<and> list_all (\<lambda>b. length b = max 1 n) (butlast bs)"

definition forFolders :: "idMap \<Rightarrow> seedItem \<Rightarrow> bool" where
  "forFolders ids it \<longleftrightarrow> map (\<lambda>x. (fst x, fst (snd x))) (si_envs it) = map (\<lambda>e. (e, idOf ids e)) envOrder"

lemma secretEnvs_folders: "map (\<lambda>x. (fst x, fst (snd x))) (fst (secretEnvs kind tag ids es ds)) = map (\<lambda>e. (e, idOf ids e)) es"
  by (induction es arbitrary: ds) (simp_all add: bindD_def retD_def split_beta)

lemma secretItem_facts:
  assumes "drawO (secretItem tag ids ks) s = (Inr it, s')"
  shows "si_key it = sk_key ks" "forFolders ids it" "sw_server s' = sw_server s" "sw_stats s' = sw_stats s"
  using assms secretEnvs_folders [of "sk_kind ks" tag ids envOrder "sw_draws s"]
  by (auto simp: drawO_def secretItem_def forFolders_def bindD_def retD_def split: prod.splits)

lemma flushSecrets_facts:
  assumes "flushSecrets (traced api) items s = (Inr (), s')" "items \<noteq> []"
  shows "\<exists>resp. traffic s' = traffic s @ [(SecretsBatchCreate items, resp)]" "written s' = written s + 4 * length items"
  using assms
  by (auto simp: flushSecrets_def bindO_def callO_def countO_def traced_def traffic_def written_def split: prod.splits sum.splits)

lemma filled_Cons: "length b = max 1 n \<Longrightarrow> filled n bs \<Longrightarrow> filled n (b # bs)"
  by (cases b) (auto simp: filled_def)

lemma length_none: "length ([] :: 'a list) < max 1 n" by simp

lemma secretLoop_batches:
  assumes "secretLoop (traced api) n tag ids kss pending s = (Inr (), s')" "length pending < max 1 n"
    "list_all (forFolders ids) pending"
  shows "\<exists>bs l. traffic s' = traffic s @ l \<and> map fst l = map SecretsBatchCreate bs
    \<and> map si_key (concat bs) = map si_key pending @ map sk_key kss \<and> filled n bs
    \<and> list_all (forFolders ids) (concat bs) \<and> written s' = written s + 4 * length (concat bs)"
  using assms
proof (induction kss arbitrary: pending s)
  case Nil
  show ?case
  proof (cases "pending = []")
    case True
    thus ?thesis using Nil by (intro exI [of _ "[]"]) (auto simp: flushSecrets_def retO_def filled_def)
  next
    case False
    have f: "flushSecrets (traced api) pending s = (Inr (), s')" using Nil.prems by simp
    from flushSecrets_facts [OF f False] obtain resp where "traffic s' = traffic s @ [(SecretsBatchCreate pending, resp)]"
      "written s' = written s + 4 * length pending" by blast
    then show ?thesis using Nil.prems False
      by (intro exI [of _ "[pending]"] exI [of _ "[(SecretsBatchCreate pending, resp)]"]) (auto simp: filled_def)
  qed
next
  case (Cons ks kss)
  obtain it s1 where it: "drawO (secretItem tag ids ks) s = (Inr it, s1)"
    and rest: "(if length (pending @ [it]) \<ge> n then
       bindO (flushSecrets (traced api) (pending @ [it])) (\<lambda>_. secretLoop (traced api) n tag ids kss [])
     else secretLoop (traced api) n tag ids kss (pending @ [it])) s1 = (Inr (), s')"
    using Cons.prems(1) by (auto elim: bindO_ok)
  note facts = secretItem_facts [OF it]
  have same: "traffic s1 = traffic s" "written s1 = written s" using facts by (auto simp: traffic_def written_def)
  have pend: "list_all (forFolders ids) (pending @ [it])" using facts Cons.prems(3) by simp
  show ?case
  proof (cases "length (pending @ [it]) \<ge> n")
    case True
    then obtain s2 where fl: "flushSecrets (traced api) (pending @ [it]) s1 = (Inr (), s2)"
      and go: "secretLoop (traced api) n tag ids kss [] s2 = (Inr (), s')"
      using rest by (auto elim: bindO_ok)
    have len: "length (pending @ [it]) = max 1 n" using True Cons.prems(2) by simp
    obtain bs l where bs: "traffic s' = traffic s2 @ l" "map fst l = map SecretsBatchCreate bs"
        "map si_key (concat bs) = map sk_key kss" "filled n bs" "list_all (forFolders ids) (concat bs)"
        "written s' = written s2 + 4 * length (concat bs)"
      using Cons.IH [OF go length_none] by auto
    from flushSecrets_facts [OF fl] obtain resp where flushed: "traffic s2 = traffic s1 @ [(SecretsBatchCreate (pending @ [it]), resp)]"
      "written s2 = written s1 + 4 * length (pending @ [it])" by auto
    show ?thesis
      using bs flushed same facts(1) pend filled_Cons [OF len bs(4)]
      by (intro exI [of _ "(pending @ [it]) # bs"] exI [of _ "(SecretsBatchCreate (pending @ [it]), resp) # l"]) simp
  next
    case False
    hence go: "secretLoop (traced api) n tag ids kss (pending @ [it]) s1 = (Inr (), s')" using rest by simp
    have len: "length (pending @ [it]) < max 1 n" using False by simp
    show ?thesis using Cons.IH [OF go len pend] same facts(1) by simp
  qed
qed

section \<open>Where the folders come from\<close>

text \<open>The server named \<open>i\<close> as the folder of the job in the environment with code \<open>e\<close>: in its answer to the look-up by
  code in that environment, or at the place of that environment in its answer to the creation.\<close>

definition folderSource :: "'j decoders \<Rightarrow> folderJob \<Rightarrow> 'j traffic \<Rightarrow> str \<Rightarrow> str \<Rightarrow> bool" where
  "folderSource dc job l e i \<longleftrightarrow> (let code = sd_code (fj_spec job) in
     (\<exists>envId resp es x. (e, envId) \<in> set (fj_envs job) \<and> (FolderListOfEnv envId (Some code) 10, resp) \<in> set l \<and>
        callResult (dc_page dc) [] False resp = Inr es \<and> x \<in> set es \<and> de_code x = code \<and> de_id x = i) \<or>
     (\<exists>resp es k. (FolderCreate (fj_spec job) (map (idOf (fj_envs job)) envOrder), resp) \<in> set l \<and>
        callResult (dc_entities dc) [] True resp = Inr es \<and> length es = 4 \<and> k < 4 \<and> envOrder ! k = e \<and> de_id (es ! k) = i))"

lemma folderSource_mono: "folderSource dc job l e i \<Longrightarrow> set l \<subseteq> set l' \<Longrightarrow> folderSource dc job l' e i"
  unfolding folderSource_def Let_def by blast

lemma folderSource_append:
  "folderSource dc job l e i \<Longrightarrow> folderSource dc job (l @ l') e i" "folderSource dc job l' e i \<Longrightarrow> folderSource dc job (l @ l') e i"
  by (auto elim: folderSource_mono)

lemma callO_ok:
  assumes "callO (traced api) rq dec z tol s = (Inr x, s')"
  obtains resp where "traffic s' = traffic s @ [(rq, resp)]" "callResult dec z tol resp = Inr x"
  using assms by (auto simp: callO_def traced_def traffic_def split: prod.splits)

lemma listing_ok:
  assumes "listing (traced api) dc rq s = (Inr es, s')" "es \<noteq> []"
  obtains resp where "traffic s' = traffic s @ [(rq, resp)]" "callResult (dc_page dc) [] False resp = Inr es"
proof -
  obtain r s1 where c: "callO (traced api) rq (dc_page dc) [] False s = (r, s1)" by fastforce
  with assms have "r = Inr es" "s1 = s'" by (auto simp: listing_def ignoreO_def split: sum.splits)
  with c callO_ok that show thesis by metis
qed

text \<open>The folder that the look-up finds in one environment, if any.\<close>

definition lookupOne :: "('s, 'j) api \<Rightarrow> 'j decoders \<Rightarrow> str \<Rightarrow> str \<times> str \<Rightarrow> ('s, idMap) seedOp" where
  "lookupOne c dc code p = bindO (listing c dc (FolderListOfEnv (snd p) (Some code) 10)) (\<lambda>es.
     retO (case List.find (\<lambda>e. de_code e = code) es of None \<Rightarrow> [] | Some e \<Rightarrow> [(fst p, de_id e)]))"

lemma lookupFolders_one:
  "lookupFolders c dc job = bindO (mapO (lookupOne c dc (sd_code (fj_spec job))) (fj_envs job)) (\<lambda>ms. retO (concat ms))"
  unfolding lookupFolders_def lookupOne_def [abs_def] by (simp add: case_prod_unfold)

lemma lookupOne_ok:
  assumes "lookupOne (traced api) dc (sd_code (fj_spec job)) p s = (Inr m, s')" "p \<in> set (fj_envs job)"
  shows "\<exists>l. traffic s' = traffic s @ l \<and> (m = [] \<or> (\<exists>i. m = [(fst p, i)] \<and> folderSource dc job l (fst p) i))"
proof -
  let ?code = "sd_code (fj_spec job)"
  obtain es where es: "listing (traced api) dc (FolderListOfEnv (snd p) (Some ?code) 10) s = (Inr es, s')"
    and m: "m = (case List.find (\<lambda>e. de_code e = ?code) es of None \<Rightarrow> [] | Some e \<Rightarrow> [(fst p, de_id e)])"
    using assms(1) by (auto simp: lookupOne_def retO_def elim: bindO_ok)
  show ?thesis
  proof (cases "List.find (\<lambda>e. de_code e = ?code) es")
    case None
    have "quiet (listing (traced api) dc (FolderListOfEnv (snd p) (Some ?code) 10))"
      by (rule quiet_listing) (simp add: isBatch_def)
    from quietE [OF this, of s] obtain l where "traffic s' = traffic s @ l" using es by auto
    with None m show ?thesis by auto
  next
    case (Some x)
    then have x: "x \<in> set es" "de_code x = ?code" by (auto simp: find_Some_iff)
    then have "es \<noteq> []" by auto
    from listing_ok [OF es this] obtain resp where l: "traffic s' = traffic s @ [(FolderListOfEnv (snd p) (Some ?code) 10, resp)]"
      "callResult (dc_page dc) [] False resp = Inr es" .
    have "(fst p, snd p) \<in> set (fj_envs job)" using assms(2) by simp
    then have "folderSource dc job [(FolderListOfEnv (snd p) (Some ?code) 10, resp)] (fst p) (de_id x)"
      using l(2) x unfolding folderSource_def Let_def by (intro disjI1 exI conjI) (assumption | simp)+
    with l(1) Some m show ?thesis by auto
  qed
qed

lemma lookupAll_ok:
  assumes "mapO (lookupOne (traced api) dc (sd_code (fj_spec job))) ps s = (Inr ms, s')" "set ps \<subseteq> set (fj_envs job)"
  shows "\<exists>l. traffic s' = traffic s @ l \<and>
    list_all2 (\<lambda>p m. m = [] \<or> (\<exists>i. m = [(fst p, i)] \<and> folderSource dc job l (fst p) i)) ps ms"
  using assms
proof (induction ps arbitrary: s ms)
  case Nil
  then show ?case by (auto simp: retO_def)
next
  case (Cons p ps)
  from Cons.prems(1) obtain m s1 ms' where o1: "lookupOne (traced api) dc (sd_code (fj_spec job)) p s = (Inr m, s1)"
    and o2: "mapO (lookupOne (traced api) dc (sd_code (fj_spec job))) ps s1 = (Inr ms', s')" and ms: "ms = m # ms'"
    by (auto simp: retO_def elim!: bindO_ok)
  obtain l1 where l1: "traffic s1 = traffic s @ l1" "m = [] \<or> (\<exists>i. m = [(fst p, i)] \<and> folderSource dc job l1 (fst p) i)"
    using lookupOne_ok [OF o1] Cons.prems(2) by auto
  obtain l2 where l2: "traffic s' = traffic s1 @ l2"
    "list_all2 (\<lambda>p m. m = [] \<or> (\<exists>i. m = [(fst p, i)] \<and> folderSource dc job l2 (fst p) i)) ps ms'"
    using Cons.IH [OF o2] Cons.prems(2) by auto
  have "list_all2 (\<lambda>p m. m = [] \<or> (\<exists>i. m = [(fst p, i)] \<and> folderSource dc job (l1 @ l2) (fst p) i)) ps ms'"
    by (rule list_all2_mono [OF l2(2)]) (auto intro: folderSource_append)
  moreover have "m = [] \<or> (\<exists>i. m = [(fst p, i)] \<and> folderSource dc job (l1 @ l2) (fst p) i)"
    using l1(2) by (auto intro: folderSource_append)
  ultimately show ?case using l1(1) l2(1) ms by (intro exI [of _ "l1 @ l2"]) simp
qed

text \<open>Four answers for four environments: each has its folder.\<close>

lemma one_each:
  assumes "list_all2 (\<lambda>p m. m = [] \<or> (\<exists>i. m = [(fst p, i)] \<and> Q (fst p) i)) ps ms" "length ps \<le> length (concat ms)"
    and "distinct (map fst ps)" "e \<in> fst ` set ps"
  shows "Q e (idOf (concat ms) e)"
proof -
  have le: "length (concat ms) \<le> length ps \<and> (length (concat ms) = length ps \<longrightarrow>
      map fst (concat ms) = map fst ps \<and> (\<forall>(e, i) \<in> set (concat ms). Q e i))"
    using assms(1) by (induction rule: list_all2_induct) auto
  then have m: "map fst (concat ms) = map fst ps" "\<forall>(e, i) \<in> set (concat ms). Q e i" using assms(2) by auto
  then have "e \<in> fst ` set (concat ms)" using assms(4) by (metis list.set_map)
  then obtain x where x: "x \<in> set (concat ms)" "e = fst x" by blast
  have "map_of (concat ms) (fst x) = Some (snd x)" using x(1) m(1) assms(3) by (intro map_of_is_SomeI) simp_all
  with m(2) x show ?thesis by (auto simp: idOf_def simp del: set_concat)
qed

definition fourEnvs :: "folderJob \<Rightarrow> bool" where
  "fourEnvs job \<longleftrightarrow> distinct (map fst (fj_envs job)) \<and> fst ` set (fj_envs job) = set envOrder"

lemma createFolders_ok:
  assumes "createFolders (traced api) dc job s = (Inr ids, s')" "e \<in> set envOrder"
  shows "\<exists>l. traffic s' = traffic s @ l \<and> folderSource dc job l e (idOf ids e)"
proof -
  let ?rq = "FolderCreate (fj_spec job) (map (idOf (fj_envs job)) envOrder)"
  obtain es s1 where c: "callO (traced api) ?rq (dc_entities dc) [] True s = (Inr es, s1)" and four: "length es = 4"
    and r: "ids = zip envOrder (map de_id es)" "traffic s' = traffic s1"
    using assms(1) by (auto simp: createFolders_def countFolder_def countO_def retO_def failO_def traffic_def elim!: bindO_ok split: if_splits)
  obtain resp where l: "traffic s1 = traffic s @ [(?rq, resp)]" "callResult (dc_entities dc) [] True resp = Inr es"
    by (rule callO_ok [OF c])
  have n: "length envOrder = 4" "distinct envOrder" by (simp_all add: envOrder_def)
  obtain k where k: "k < 4" "envOrder ! k = e" using assms(2) n(1) by (auto simp: in_set_conv_nth)
  have "map_of ids (envOrder ! k) = Some (map de_id es ! k)"
    unfolding r(1) by (rule map_of_zip_nth) (use n k four in simp_all)
  then have "de_id (es ! k) = idOf ids e" using k four by (simp add: idOf_def)
  then have "folderSource dc job [(?rq, resp)] e (idOf ids e)"
    using l(2) four k unfolding folderSource_def Let_def by (intro disjI2 exI [of _ resp] exI [of _ es] exI [of _ k]) simp
  with l(1) r(2) show ?thesis by auto
qed

lemma folderIDs_source:
  assumes "folderIDs (traced api) dc job s = (Inr ids, s')" "length ids = 4" "fourEnvs job" "e \<in> set envOrder"
  shows "\<exists>l. traffic s' = traffic s @ l \<and> folderSource dc job l e (idOf ids e)"
proof -
  obtain ex s1 where x: "existingFolders (traced api) dc job s = (Inr ex, s1)"
    and rest: "(if map_of ex (sd_code (fj_spec job)) \<noteq> None then
       bindO (lookupFolders (traced api) dc job) (\<lambda>ids.
       bindO (if length ids = 4 then countFolder else retO ()) (\<lambda>_. retO ids))
     else createFolders (traced api) dc job) s1 = (Inr ids, s')"
    using assms(1) by (auto simp: folderIDs_def elim: bindO_ok)
  have "quiet (existingFolders (traced api) dc job)"
    unfolding existingFolders_def by (auto intro!: quiet_intros simp: isBatch_def split: prod.splits)
  from quietE [OF this, of s] obtain l0 where l0: "traffic s1 = traffic s @ l0" using x by auto
  have "\<exists>l. traffic s' = traffic s1 @ l \<and> folderSource dc job l e (idOf ids e)"
  proof (cases "map_of ex (sd_code (fj_spec job)) \<noteq> None")
    case True
    with rest obtain ms s2 where ms: "mapO (lookupOne (traced api) dc (sd_code (fj_spec job))) (fj_envs job) s1 = (Inr ms, s2)"
      and i: "ids = concat ms" "traffic s' = traffic s2"
      by (auto simp: lookupFolders_one countFolder_def countO_def retO_def traffic_def elim!: bindO_ok split: if_splits)
    from lookupAll_ok [OF ms subset_refl] obtain l where l: "traffic s2 = traffic s1 @ l"
      "list_all2 (\<lambda>p m. m = [] \<or> (\<exists>i. m = [(fst p, i)] \<and> folderSource dc job l (fst p) i)) (fj_envs job) ms" by blast
    have "length (fj_envs job) = card (set envOrder)"
      using assms(3) distinct_card [of "map fst (fj_envs job)"] by (simp add: fourEnvs_def)
    then have "length (fj_envs job) \<le> length (concat ms)" using assms(2) i(1) by (simp add: envOrder_def)
    with one_each [OF l(2), of e] assms(3,4) i l(1) show ?thesis by (auto simp: fourEnvs_def)
  next
    case False
    with createFolders_ok [OF _ assms(4)] rest show ?thesis by simp
  qed
  with l0 obtain l where "traffic s' = traffic s @ l0 @ l" "folderSource dc job l e (idOf ids e)" by auto
  then show ?thesis using folderSource_append(2) by blast
qed

section \<open>The batches of a folder\<close>

text \<open>The values of a key go to the folders of the job, one for each of the four environments, in their order.\<close>

definition inFolders :: "'j decoders \<Rightarrow> folderJob \<Rightarrow> 'j traffic \<Rightarrow> seedItem \<Rightarrow> bool" where
  "inFolders dc job l it \<longleftrightarrow> map fst (si_envs it) = envOrder \<and>
     list_all (\<lambda>(e, i, v). folderSource dc job l e i) (si_envs it)"

lemma forFolders_in:
  assumes "\<And>e. e \<in> set envOrder \<Longrightarrow> folderSource dc job l e (idOf ids e)" "forFolders ids it"
  shows "inFolders dc job l it"
proof -
  have m: "map (\<lambda>x. (fst x, fst (snd x))) (si_envs it) = map (\<lambda>e. (e, idOf ids e)) envOrder"
    using assms(2) by (simp add: forFolders_def)
  from arg_cong [OF m, of "map fst"] have "map fst (si_envs it) = envOrder" by (simp add: comp_def)
  moreover have "folderSource dc job l e i" if "(e, i, v) \<in> set (si_envs it)" for e i v
  proof -
    from that have "(e, i) \<in> set (map (\<lambda>x. (fst x, fst (snd x))) (si_envs it))" by force
    then show ?thesis unfolding m using assms(1) by auto
  qed
  ultimately show ?thesis by (auto simp: inFolders_def list_all_iff)
qed

text \<open>C32. A job of the seeding tool, for a project with its four environments, that ends without an error has sent,
  after requests that create no secrets, the first secrets-per-folder keys of the list, each once and in order, in
  batches that are full but for the last one. Each key has one value for each environment, in their order, and goes
  to the folder of the job in that environment: the one that the server, in an answer before the first batch of this
  job, has either listed for that environment under the code of the folder or created there. The secrets
  counted are those sent.\<close>

theorem seed_batches:
  assumes "processFolderJob (traced api) dc fl job s = (Inr (), s')" "fourEnvs job"
  shows "\<exists>before rest batches. traffic s' = traffic s @ before @ rest
    \<and> list_all (\<lambda>(rq, _). \<not> isBatch rq) before \<and> map fst rest = map SecretsBatchCreate batches
    \<and> map si_key (concat batches) = map sk_key (take (secretsPerFt fl) secretKeySpecs) \<and> filled (batchSize fl) batches
    \<and> list_all (inFolders dc job before) (concat batches) \<and> written s' = written s + 4 * length (concat batches)"
proof -
  obtain ids s1 where ids: "folderIDs (traced api) dc job s = (Inr ids, s1)"
    and rest: "(if length ids \<noteq> 4 then failO (ErrMsg ''folder: want 4 env ids'')
     else secretLoop (traced api) (batchSize fl) (sd_code (fj_spec job)) ids (take (secretsPerFt fl) secretKeySpecs) []) s1
     = (Inr (), s')"
    using assms(1) by (auto simp: processFolderJob_def elim: bindO_ok)
  obtain l where l: "traffic s1 = traffic s @ l" "list_all (\<lambda>(rq, _). \<not> isBatch rq) l" "written s1 = written s"
    using quietE [OF folderIDs_quiet, of api dc job s] ids by auto
  have four: "length ids = 4" using rest by (auto simp: failO_def split: if_splits)
  hence "secretLoop (traced api) (batchSize fl) (sd_code (fj_spec job)) ids (take (secretsPerFt fl) secretKeySpecs) [] s1 = (Inr (), s')"
    using rest by simp
  from secretLoop_batches [OF this length_none] obtain bs lb where b: "traffic s' = traffic s1 @ lb"
      "map fst lb = map SecretsBatchCreate bs"
      "map si_key (concat bs) = map sk_key (take (secretsPerFt fl) secretKeySpecs)" "filled (batchSize fl) bs"
      "list_all (forFolders ids) (concat bs)" "written s' = written s1 + 4 * length (concat bs)" by auto
  have "folderSource dc job l e (idOf ids e)" if "e \<in> set envOrder" for e
    using folderIDs_source [OF ids four assms(2) that] l(1) by auto
  then have "forFolders ids it \<Longrightarrow> inFolders dc job l it" for it by (rule forFolders_in)
  then have "list_all (inFolders dc job l) (concat bs)" using b(5) by (auto simp: list_all_iff)
  with l b show ?thesis by (intro exI [of _ l] exI [of _ lb] exI [of _ bs]) simp
qed

text \<open>A server that creates folders and takes every batch; no folder exists before.\<close>

definition demoServer :: "(nat, domainEntity list) api" where
  "demoServer rq n = (Response 200 (Some \<lparr> en_code = 0, en_msg = ''ok'',
     en_data = Some (case rq of FolderCreate p envs \<Rightarrow> map (\<lambda>e. \<lparr> de_id = ''folder-of-'' @ e, de_code = sd_code p \<rparr>) envs
       | _ \<Rightarrow> []) \<rparr>), Suc n)"

definition demoDecoders :: "domainEntity list decoders" where
  "demoDecoders = \<lparr> dc_token = (\<lambda>_. None), dc_entity = (\<lambda>_. None), dc_page = Some, dc_entities = Some \<rparr>"

definition demoFlags :: seedFlags where
  "demoFlags = \<lparr> concurrency = 1, secretsPerFt = 3, batchSize = 2, dryRun = False, skipFolder = False \<rparr>"

definition demoJob :: folderJob where
  "demoJob = \<lparr> fj_project = ''p1'', fj_envs = map (\<lambda>e. (e, ''id-'' @ e)) envOrder, fj_spec = spec ''auth-svc'' ''AuthService'' [] \<rparr>"

definition demoStart :: "(nat \<times> domainEntity list traffic) seedState" where
  "demoStart = \<lparr> sw_server = (0, []), sw_draws = [], sw_stats = \<lparr> sx_orgs = 0, sx_projects = 0, sx_envLookups = 0,
     sx_folders = 0, sx_secrets = 0, sx_errors = 0 \<rparr> \<rparr>"

lemma demo_runs:
  "processFolderJob (traced demoServer) demoDecoders demoFlags demoJob demoStart
   = (Inr (), snd (processFolderJob (traced demoServer) demoDecoders demoFlags demoJob demoStart))"
proof -
  have "(case fst (processFolderJob (traced demoServer) demoDecoders demoFlags demoJob demoStart) of Inr _ \<Rightarrow> True | Inl _ \<Rightarrow> False)"
    by code_simp
  thus ?thesis
    by (cases "processFolderJob (traced demoServer) demoDecoders demoFlags demoJob demoStart") (auto split: sum.splits)
qed

theorem seed_batches_witness:
  "\<exists>before rest batches. traffic (snd (processFolderJob (traced demoServer) demoDecoders demoFlags demoJob demoStart)) = before @ rest
    \<and> map fst rest = map SecretsBatchCreate batches \<and> map si_key (concat batches) = map sk_key (take 3 secretKeySpecs)
    \<and> filled 2 batches \<and> list_all (inFolders demoDecoders demoJob before) (concat batches)"
proof -
  have "fourEnvs demoJob" by (simp add: fourEnvs_def demoJob_def envOrder_def)
  from seed_batches [OF demo_runs this] show ?thesis by (simp add: demoFlags_def demoStart_def traffic_def) blast
qed

end
