(* ===== verification/CacheScan.thy ===== *)
theory CacheScan
  imports RedisCache "HOL-Library.Word"
begin

text \<open>
  The loop of \<open>deletePathKeys\<close> in \<open>internal/store/redis/cache.go\<close>, page by page, over the documented behaviour of
  \<open>SCAN\<close>: it ends, and does what \<open>RedisCache.deletePathKeys\<close> says in one step.
\<close>

section \<open>The loop\<close>

text \<open>One call \<open>SCAN cursor MATCH pattern COUNT n\<close> on a key space: a page of keys and the next cursor.\<close>

type_synonym scanner = "64 word \<Rightarrow> str \<Rightarrow> nat \<Rightarrow> (str \<times> rval) list \<Rightarrow> str list \<times> 64 word"

definition cmdScan :: "scanner \<Rightarrow> 64 word \<Rightarrow> str \<Rightarrow> nat \<Rightarrow> (str list \<times> 64 word) rd" where
  "cmdScan scan cursor pat n = command (\<lambda>ks. Inr (scan cursor pat n ks, ks))"

partial_function (option) deletePathLoop :: "scanner \<Rightarrow> str \<Rightarrow> 64 word \<Rightarrow> redis \<Rightarrow> ((goErr + unit) \<times> redis) option" where
  "deletePathLoop scan pre cursor r =
     (case cmdScan scan cursor (pathKey pre ''*'') 100 r of
        (Inl e, r1) \<Rightarrow> Some (Inl e, r1)
      | (Inr (keys, nextCursor), r1) \<Rightarrow>
          (case (if length keys > 0 then cmdDel keys r1 else (Inr (), r1)) of
             (Inl e, r2) \<Rightarrow> Some (Inl e, r2)
           | (Inr u, r2) \<Rightarrow> if nextCursor = 0 then Some (Inr (), r2) else deletePathLoop scan pre nextCursor r2))"

section \<open>What SCAN promises\<close>

text \<open>Characters without a meaning in a glob pattern.\<close>

definition plain :: "str \<Rightarrow> bool" where
  "plain p = list_all (\<lambda>c. c \<notin> set ''*?[]'' \<and> c \<noteq> CHR 0x5C) p"

text \<open>The cursors of an iteration that starts at 0, while the key space goes through the states \<open>S\<close>.\<close>

primrec cursors :: "scanner \<Rightarrow> str \<Rightarrow> nat \<Rightarrow> (nat \<Rightarrow> (str \<times> rval) list) \<Rightarrow> nat \<Rightarrow> 64 word" where
  "cursors scan pat n S 0 = 0"
| "cursors scan pat n S (Suc i) = snd (scan (cursors scan pat n S i) pat n (S i))"

text \<open>The documentation of \<open>SCAN\<close>: the keys returned match the pattern; an iteration over a key space of bounded size
  ends, with the cursor 0; a key that is there from the start to the end of the iteration is returned at least once.\<close>

definition scanMatches :: "scanner \<Rightarrow> bool" where
  "scanMatches scan \<longleftrightarrow> (\<forall>p c n ks. plain p \<longrightarrow> list_all (hasPrefix p) (fst (scan c (p @ ''*'') n ks)))"

definition scanEnds :: "scanner \<Rightarrow> bool" where
  "scanEnds scan \<longleftrightarrow> (\<forall>pat n S B. (\<forall>i. length (S i) \<le> B) \<longrightarrow> (\<exists>m. cursors scan pat n S (Suc m) = 0))"

lemma scanEndsD: "scanEnds scan \<Longrightarrow> \<forall>i. length (S i) \<le> B \<Longrightarrow> \<exists>m. cursors scan pat n S (Suc m) = 0"
  unfolding scanEnds_def by blast

definition scanComplete :: "scanner \<Rightarrow> bool" where
  "scanComplete scan \<longleftrightarrow> (\<forall>p n S m k. plain p \<longrightarrow> cursors scan (p @ ''*'') n S (Suc m) = 0 \<longrightarrow>
     (\<forall>i < m. cursors scan (p @ ''*'') n S (Suc i) \<noteq> 0) \<longrightarrow> hasPrefix p k \<longrightarrow> (\<forall>i \<le> m. k \<in> fst ` set (S i)) \<longrightarrow>
     (\<exists>i \<le> m. k \<in> set (fst (scan (cursors scan (p @ ''*'') n S i) (p @ ''*'') n (S i)))))"

section \<open>The loop ends and sweeps the key space\<close>

text \<open>Cursor and key space after \<open>i\<close> rounds of the loop.\<close>

primrec sweep :: "scanner \<Rightarrow> str \<Rightarrow> (str \<times> rval) list \<Rightarrow> nat \<Rightarrow> 64 word \<times> (str \<times> rval) list" where
  "sweep scan pat ks 0 = (0, ks)"
| "sweep scan pat ks (Suc i) = (let (c, l) = sweep scan pat ks i; (page, c') = scan c pat 100 l in
     (c', filter (\<lambda>(k, _). k \<notin> set page) l))"

definition scanPage :: "scanner \<Rightarrow> str \<Rightarrow> (str \<times> rval) list \<Rightarrow> nat \<Rightarrow> str list" where
  "scanPage scan pat ks i = fst (scan (fst (sweep scan pat ks i)) pat 100 (snd (sweep scan pat ks i)))"

lemma sweep_cursor: "fst (sweep scan pat ks i) = cursors scan pat 100 (\<lambda>j. snd (sweep scan pat ks j)) i"
  by (induction i) (auto simp: Let_def split: prod.splits)

lemma sweep_keys: "snd (sweep scan pat ks i) = filter (\<lambda>(k, _). \<forall>j < i. k \<notin> set (scanPage scan pat ks j)) ks"
proof (induction i)
  case (Suc i)
  have "snd (sweep scan pat ks (Suc i)) = filter (\<lambda>(k, _). k \<notin> set (scanPage scan pat ks i)) (snd (sweep scan pat ks i))"
    by (simp add: scanPage_def Let_def split: prod.splits)
  then show ?case by (auto simp: Suc.IH less_Suc_eq intro!: filter_cong)
qed simp

lemma loop_round:
  assumes "rd_up r"
  shows "deletePathLoop scan pre (fst (sweep scan (pathKey pre ''*'') ks i)) (r\<lparr>rd_keys := snd (sweep scan (pathKey pre ''*'') ks i)\<rparr>) =
    (let (c, l) = sweep scan (pathKey pre ''*'') ks (Suc i) in
     if c = 0 then Some (Inr (), r\<lparr>rd_keys := l\<rparr>) else deletePathLoop scan pre c (r\<lparr>rd_keys := l\<rparr>))"
proof -
  obtain c l page c' where s: "sweep scan (pathKey pre ''*'') ks i = (c, l)" "scan c (pathKey pre ''*'') 100 l = (page, c')"
    by fastforce
  then show ?thesis
    using assms
    by (subst deletePathLoop.simps) (simp add: cmdScan_def cmdDel_def command_def)
qed

lemma loop_rounds:
  assumes "rd_up r" "i \<le> m" "fst (sweep scan (pathKey pre ''*'') ks (Suc m)) = 0"
    and "\<forall>j < m. fst (sweep scan (pathKey pre ''*'') ks (Suc j)) \<noteq> 0"
  shows "deletePathLoop scan pre (fst (sweep scan (pathKey pre ''*'') ks i)) (r\<lparr>rd_keys := snd (sweep scan (pathKey pre ''*'') ks i)\<rparr>)
    = Some (Inr (), r\<lparr>rd_keys := snd (sweep scan (pathKey pre ''*'') ks (Suc m))\<rparr>)"
  using assms(2)
proof (induction i rule: inc_induct)
  case base
  show ?case unfolding loop_round [OF assms(1)] using assms(3) by (simp add: case_prod_unfold Let_def del: sweep.simps)
next
  case (step i)
  show ?case unfolding loop_round [OF assms(1)] using assms(4) step by (simp add: case_prod_unfold Let_def del: sweep.simps)
qed

lemma pathKey_star: "pathKey pre ''*'' = pathKey pre [] @ ''*''" by (simp add: pathKey_def)
lemma pathKey_plain: "plain pre \<Longrightarrow> plain (pathKey pre [])" by (simp add: pathKey_def plain_def)

lemma swept:
  assumes "scanMatches scan" "scanComplete scan" "plain p" "fst (sweep scan (p @ ''*'') ks (Suc m)) = 0"
    and "\<forall>j < m. fst (sweep scan (p @ ''*'') ks (Suc j)) \<noteq> 0"
  shows "snd (sweep scan (p @ ''*'') ks (Suc m)) = filter (\<lambda>(k, _). \<not> hasPrefix p k) ks"
proof -
  let ?S = "\<lambda>i. snd (sweep scan (p @ ''*'') ks i)" and ?page = "scanPage scan (p @ ''*'') ks"
  have page: "?page i = fst (scan (cursors scan (p @ ''*'') 100 ?S i) (p @ ''*'') 100 (?S i))" for i
    by (simp add: scanPage_def sweep_cursor)
  have "(\<forall>j < Suc m. k \<notin> set (?page j)) \<longleftrightarrow> \<not> hasPrefix p k" if k: "k \<in> fst ` set ks" for k
  proof
    assume out: "\<forall>j < Suc m. k \<notin> set (?page j)"
    show "\<not> hasPrefix p k"
    proof
      assume h: "hasPrefix p k"
      have "\<forall>i \<le> m. k \<in> fst ` set (?S i)" using k out by (force simp: sweep_keys image_iff)
      then have "\<exists>i \<le> m. k \<in> set (?page i)"
        using assms(2,3) h assms(4,5) unfolding scanComplete_def page sweep_cursor by blast
      with out show False by auto
    qed
  next
    assume "\<not> hasPrefix p k"
    with assms(1,3) show "\<forall>j < Suc m. k \<notin> set (?page j)" by (auto simp: scanMatches_def scanPage_def list_all_iff)
  qed
  then show ?thesis unfolding sweep_keys by (intro filter_cong refl) (simp add: case_prod_unfold)
qed

text \<open>C8. Removing the cached paths ends, and removes them all. The loop of \<open>deletePathKeys\<close> follows the cursors of
  \<open>SCAN\<close> with no bound of its own, over a key space that it shrinks while it goes; with the documented
  behaviour of \<open>SCAN\<close> and a key prefix free of pattern characters it returns, whatever is cached, with exactly
  the keys of paths gone, or with the error when the server is down.\<close>

theorem delete_path_terminates:
  assumes "scanMatches scan" "scanEnds scan" "scanComplete scan" "plain pre"
  shows "deletePathLoop scan pre 0 r = Some (deletePathKeys pre r)"
proof (cases "rd_up r")
  case False
  then show ?thesis
    by (subst deletePathLoop.simps) (simp add: deletePathKeys_def bindR_def cmdScan_def cmdScanPrefix_def command_def)
next
  case True
  let ?sw = "sweep scan (pathKey pre ''*'') (rd_keys r)"
  have "\<forall>i. length (snd (?sw i)) \<le> length (rd_keys r)" by (simp add: sweep_keys)
  then have "\<exists>m. cursors scan (pathKey pre ''*'') 100 (\<lambda>i. snd (?sw i)) (Suc m) = 0"
    by (rule scanEndsD [OF assms(2)])
  then obtain m0 where m0: "fst (?sw (Suc m0)) = 0" unfolding sweep_cursor [symmetric] ..
  define m where "m = (LEAST m. fst (?sw (Suc m)) = 0)"
  have m: "fst (?sw (Suc m)) = 0" unfolding m_def by (rule LeastI [of "\<lambda>m. fst (?sw (Suc m)) = 0", OF m0])
  have first: "\<forall>j < m. fst (?sw (Suc j)) \<noteq> 0" unfolding m_def by (blast dest: not_less_Least)
  have "snd (?sw (Suc m)) = filter (\<lambda>(k, _). \<not> hasPrefix (pathKey pre []) k) (rd_keys r)"
    using swept [OF assms(1,3) pathKey_plain [OF assms(4)]] m first unfolding pathKey_star by blast
  moreover have "\<dots> = filter (\<lambda>(k, _). k \<notin> set (filter (hasPrefix (pathKey pre [])) (map fst (rd_keys r)))) (rd_keys r)"
    by (intro filter_cong refl) (simp add: case_prod_unfold)
  ultimately have "Some (deletePathKeys pre r) = Some (Inr (), r\<lparr>rd_keys := snd (?sw (Suc m))\<rparr>)"
    using True by (simp add: deletePathKeys_def bindR_def cmdScanPrefix_def cmdDel_def command_def)
  also have "\<dots> = deletePathLoop scan pre 0 r" using loop_rounds [OF True le0 m first] by simp
  finally show ?thesis by simp
qed

text \<open>A server that scans four buckets, by the length of the keys.\<close>

definition bucketScan :: scanner where
  "bucketScan c pat n ks = (filter (\<lambda>k. hasPrefix (butlast pat) k \<and> length k mod 4 = unat c) (map fst ks),
     if 3 \<le> unat c then 0 else c + 1)"

lemma bucket_cursors: "cursors bucketScan pat n S i = word_of_nat (i mod 4)"
proof (induction i)
  case (Suc i)
  have u: "unat (word_of_nat (i mod 4) :: 64 word) = i mod 4" by (simp add: unat_of_nat)
  show ?case
  proof (cases "i mod 4 = 3")
    case True
    with u Suc show ?thesis by (simp add: bucketScan_def mod_Suc)
  next
    case False
    have "i mod 4 < 4" by simp
    with False have "\<not> 3 \<le> i mod 4" by linarith
    with u Suc False show ?thesis by (simp add: bucketScan_def mod_Suc)
  qed
qed simp

lemma bucket_zero: "cursors bucketScan pat n S i = 0 \<longleftrightarrow> i mod 4 = 0"
proof -
  have "unat (word_of_nat (i mod 4) :: 64 word) = i mod 4" by (simp add: unat_of_nat)
  moreover have "unat w = 0 \<longleftrightarrow> w = 0" for w :: "64 word" by (rule unsigned_eq_0_iff)
  ultimately show ?thesis unfolding bucket_cursors by metis
qed

lemma bucket_scan: "scanMatches bucketScan" "scanEnds bucketScan" "scanComplete bucketScan"
proof -
  show "scanMatches bucketScan" by (simp add: scanMatches_def bucketScan_def list_all_iff)
  have "cursors bucketScan pat n S (Suc 3) = 0" for pat n S by (simp add: bucket_zero del: cursors.simps)
  then show "scanEnds bucketScan" unfolding scanEnds_def by blast
  have all: "\<exists>i \<le> m. k \<in> set (fst (bucketScan (cursors bucketScan (p @ ''*'') n S i) (p @ ''*'') n (S i)))"
    if "cursors bucketScan (p @ ''*'') n S (Suc m) = 0" and p: "hasPrefix p k" and k: "\<forall>i \<le> m. k \<in> fst ` set (S i)" for p n S m k
  proof -
    have "3 \<le> m" using that(1) unfolding bucket_zero by presburger
    moreover have "length k mod 4 \<le> 3" by (simp add: less_Suc_eq_le [symmetric])
    ultimately have i: "length k mod 4 \<le> m" by simp
    have "unat (word_of_nat (length k mod 4 mod 4) :: 64 word) = length k mod 4" by (simp add: unat_of_nat)
    with i p k show ?thesis by (intro exI [of _ "length k mod 4"]) (simp add: bucket_cursors bucketScan_def)
  qed
  then show "scanComplete bucketScan" unfolding scanComplete_def by (intro allI impI) (rule all)
qed

theorem delete_path_terminates_witness:
  "deletePathLoop bucketScan ''ev'' 0 \<lparr> rd_up = True,
      rd_keys = [(''ev:secret:path:/a'', RStr ''1''), (''ev:secret:1'', RHash []), (''ev:secret:path:/bc'', RStr ''2'')] \<rparr>
   = Some (Inr (), \<lparr> rd_up = True, rd_keys = [(''ev:secret:1'', RHash [])] \<rparr>)"
proof -
  let ?r = "\<lparr> rd_up = True,
      rd_keys = [(''ev:secret:path:/a'', RStr ''1''), (''ev:secret:1'', RHash []), (''ev:secret:path:/bc'', RStr ''2'')] \<rparr>"
  have "plain ''ev''" by (simp add: plain_def)
  from delete_path_terminates [OF bucket_scan this, of ?r] show ?thesis
    by (simp add: deletePathKeys_def bindR_def cmdScanPrefix_def cmdDel_def command_def pathKey_def hasPrefix_def)
qed

end
