(* ===== verification/CacheTypes.thy ===== *)
theory CacheTypes
  imports CacheProps
begin

text \<open>
  Redis types its keys: a command on a key of another type fails.  The calls of \<open>cache.go\<close> keep every key at the type
  that its name stands for, so none of them ever fails that way.
\<close>

section \<open>Types of keys\<close>

text \<open>The keys of identifiers hold sets of proper identifiers, the keys of resources hashes.\<close>

definition keyOk :: "str \<Rightarrow> str \<Rightarrow> rval \<Rightarrow> bool" where
  "keyOk pre k v \<longleftrightarrow> (\<forall>t. k = typeIdsKey pre t \<longrightarrow> (\<exists>s. v = RSet s \<and> list_all idOkR s)) \<and>
     (\<forall>t i. k = typeKey pre t i \<and> idOkR i \<longrightarrow> (\<exists>h. v = RHash h))"

definition keysTyped :: "str \<Rightarrow> redis \<Rightarrow> bool" where
  "keysTyped pre r \<longleftrightarrow> (\<forall>k v. map_of (rd_keys r) k = Some v \<longrightarrow> keyOk pre k v)"

lemma typeName_secret: "secretKey pre i = typeKey pre ResourceSecret i" "idsKey pre = typeIdsKey pre ResourceSecret"
  by (simp_all add: secretKey_def idsKey_def typeKey_def typeIdsKey_def typeName_def)

lemma typeKey_inj: "typeKey pre t i = typeKey pre t' i' \<longleftrightarrow> t = t' \<and> i = i'"
  by (cases t; cases t') (simp_all add: typeKey_def typeName_def)

lemma typeIds_key: "typeIdsKey pre t = typeKey pre t ''ids''"
  by (simp add: typeKey_def typeIdsKey_def)

lemma pathKey_key: "pathKey pre p = typeKey pre ResourceSecret (''path:'' @ p)"
  by (simp add: pathKey_def typeKey_def typeName_def)

lemma ids_bad: "\<not> idOkR ''ids''" "\<not> idOkR (''path:'' @ p)"
  by (simp_all add: idOkR_def hasPrefix_def)

lemma keyOk_ids: "keyOk pre (typeIdsKey pre t) v \<longleftrightarrow> (\<exists>s. v = RSet s \<and> list_all idOkR s)"
  by (auto simp: keyOk_def typeIds_key typeKey_inj ids_bad)

lemma keyOk_hash: "idOkR i \<Longrightarrow> keyOk pre (typeKey pre t i) v \<longleftrightarrow> (\<exists>h. v = RHash h)"
  by (auto simp: keyOk_def typeIds_key typeKey_inj ids_bad)

lemma keyOk_path: "keyOk pre (pathKey pre p) v"
  using ids_bad(2) [of p] by (auto simp: keyOk_def typeIds_key pathKey_key typeKey_inj)

section \<open>Calls that succeed\<close>

text \<open>On a typed cache that is up, the call succeeds with a result that satisfies \<open>P\<close>, and leaves a typed cache.\<close>

definition succeeds :: "str \<Rightarrow> ('a \<Rightarrow> bool) \<Rightarrow> 'a rd \<Rightarrow> bool" where
  "succeeds pre P m \<longleftrightarrow> (\<forall>r. keysTyped pre r \<longrightarrow> rd_up r \<longrightarrow>
     (\<exists>x r'. m r = (Inr x, r') \<and> P x \<and> keysTyped pre r' \<and> rd_up r'))"

abbreviation fine :: "str \<Rightarrow> 'a rd \<Rightarrow> bool" where "fine pre m \<equiv> succeeds pre (\<lambda>_. True) m"

named_theorems typed \<open>calls of the cache that succeed on typed keys\<close>

lemma succeedsI:
  assumes "\<And>r. keysTyped pre r \<Longrightarrow> rd_up r \<Longrightarrow> \<exists>x r'. m r = (Inr x, r') \<and> P x \<and> keysTyped pre r' \<and> rd_up r'"
  shows "succeeds pre P m"
  using assms unfolding succeeds_def by blast

lemma succeedsE:
  assumes "succeeds pre P m" "keysTyped pre r" "rd_up r"
  obtains x r' where "m r = (Inr x, r')" "P x" "keysTyped pre r'" "rd_up r'"
  using assms unfolding succeeds_def by blast

lemma succeeds_bind:
  assumes "succeeds pre P m" "\<And>x. P x \<Longrightarrow> succeeds pre Q (f x)"
  shows "succeeds pre Q (bindR m f)"
proof (rule succeedsI)
  fix r assume r: "keysTyped pre r" "rd_up r"
  obtain x r1 where m: "m r = (Inr x, r1)" "P x" "keysTyped pre r1" "rd_up r1" by (rule succeedsE [OF assms(1) r])
  obtain y r2 where "f x r1 = (Inr y, r2)" "Q y" "keysTyped pre r2" "rd_up r2" by (rule succeedsE [OF assms(2) [OF m(2)] m(3,4)])
  with m(1) show "\<exists>y r'. bindR m f r = (Inr y, r') \<and> Q y \<and> keysTyped pre r' \<and> rd_up r'" by (simp add: bindR_def)
qed

lemma succeeds_ret: "P x \<Longrightarrow> succeeds pre P (retR x)" by (simp add: succeeds_def retR_def)

lemma fine_ret [typed]: "fine pre (retR x)" by (simp add: succeeds_ret)

lemma fine_bind [typed]: "fine pre m \<Longrightarrow> (\<And>x. fine pre (f x)) \<Longrightarrow> fine pre (bindR m f)"
  by (rule succeeds_bind)

lemma fine_if [typed]: "fine pre a \<Longrightarrow> fine pre b \<Longrightarrow> fine pre (if c then a else b)" by simp

lemma fine_map: "(\<And>x. x \<in> set xs \<Longrightarrow> fine pre (f x)) \<Longrightarrow> fine pre (mapR f xs)"
  by (induction xs) (simp_all add: typed)

lemma fine_pipe [typed]: "fine pre a \<Longrightarrow> fine pre b \<Longrightarrow> fine pre (pipe2 a b)"
proof (rule succeedsI)
  fix r assume a: "fine pre a" and b: "fine pre b" and r: "keysTyped pre r" "rd_up r"
  obtain x r1 where m: "a r = (Inr x, r1)" "keysTyped pre r1" "rd_up r1" by (rule succeedsE [OF a r])
  obtain y r2 where "b r1 = (Inr y, r2)" "keysTyped pre r2" "rd_up r2" by (rule succeedsE [OF b m(2,3)])
  with m(1) show "\<exists>y r'. pipe2 a b r = (Inr y, r') \<and> True \<and> keysTyped pre r' \<and> rd_up r'" by (simp add: pipe2_def)
qed

lemma fine_seq: "(\<And>m. m \<in> set ms \<Longrightarrow> fine pre m) \<Longrightarrow> fine pre (seqR ms)"
  unfolding seqR_def by (intro fine_bind fine_map fine_ret) simp

section \<open>Commands\<close>

lemma hash_at:
  assumes "keysTyped pre r" "idOkR i"
  obtains h where "hashAt (rd_keys r) (typeKey pre t i) = Inr h"
proof (cases "map_of (rd_keys r) (typeKey pre t i)")
  case None
  with that show thesis by (simp add: hashAt_def)
next
  case (Some v)
  with assms have "keyOk pre (typeKey pre t i) v" by (simp add: keysTyped_def)
  with Some that show thesis by (auto simp: keyOk_hash [OF assms(2)] hashAt_def)
qed

lemma set_at:
  assumes "keysTyped pre r"
  obtains s where "setAt (rd_keys r) (typeIdsKey pre t) = Inr s" "list_all idOkR s"
proof (cases "map_of (rd_keys r) (typeIdsKey pre t)")
  case None
  with that [of "[]"] show thesis by (simp add: setAt_def)
next
  case (Some v)
  with assms have "keyOk pre (typeIdsKey pre t) v" by (simp add: keysTyped_def)
  with Some that show thesis by (auto simp: keyOk_ids setAt_def)
qed

lemma typed_upd:
  assumes "keysTyped pre r" "map_of (rd_keys r') = (map_of (rd_keys r))(k := v)" "\<And>x. v = Some x \<Longrightarrow> keyOk pre k x"
  shows "keysTyped pre r'"
  using assms by (auto simp: keysTyped_def)

lemma fine_del [typed]: "fine pre (cmdDel ks)"
proof (rule succeedsI)
  fix r assume r: "keysTyped pre r" "rd_up r"
  obtain r' where "cmdDel ks r = (Inr (), r')" "rd_up r'"
    "map_of (rd_keys r') = (\<lambda>k. if k \<in> set ks then None else map_of (rd_keys r) k)" by (rule cmdDel_up [OF r(2)])
  with r(1) show "\<exists>x r'. cmdDel ks r = (Inr x, r') \<and> True \<and> keysTyped pre r' \<and> rd_up r'" by (auto simp: keysTyped_def)
qed

lemma fine_hget [typed]: "idOkR i \<Longrightarrow> fine pre (cmdHGet (typeKey pre t i) f)"
  by (rule succeedsI, rule hash_at [of pre _ i t], assumption+) (intro exI conjI, rule cmdHGet_up, assumption+, simp, assumption+)

lemma fine_hgetall [typed]: "idOkR i \<Longrightarrow> fine pre (cmdHGetAll (typeKey pre t i))"
  by (rule succeedsI, rule hash_at [of pre _ i t], assumption+) (intro exI conjI, rule cmdHGetAll_up, assumption+, simp, assumption+)

lemma fine_hset [typed]:
  assumes "idOkR i"
  shows "fine pre (cmdHSet (typeKey pre t i) fs)"
proof (rule succeedsI)
  fix r assume r: "keysTyped pre r" "rd_up r"
  obtain h where h: "hashAt (rd_keys r) (typeKey pre t i) = Inr h" by (rule hash_at [OF r(1) assms])
  obtain r' where e: "cmdHSet (typeKey pre t i) fs r = (Inr (), r')" "rd_up r'"
    "map_of (rd_keys r') = (map_of (rd_keys r))(typeKey pre t i \<mapsto> RHash (mergeHash fs h))" by (rule cmdHSet_up [OF r(2) h])
  have "keysTyped pre r'" by (rule typed_upd [OF r(1) e(3)]) (simp add: keyOk_hash assms)
  with e show "\<exists>x r'. cmdHSet (typeKey pre t i) fs r = (Inr x, r') \<and> True \<and> keysTyped pre r' \<and> rd_up r'" by simp
qed

lemma fine_set [typed]: "fine pre (cmdSet (pathKey pre p) v)"
proof (rule succeedsI)
  fix r assume r: "keysTyped pre r" "rd_up r"
  obtain r' where e: "cmdSet (pathKey pre p) v r = (Inr (), r')" "rd_up r'"
    "map_of (rd_keys r') = (map_of (rd_keys r))(pathKey pre p \<mapsto> RStr v)" by (rule cmdSet_up [OF r(2)])
  have "keysTyped pre r'" by (rule typed_upd [OF r(1) e(3)]) (simp add: keyOk_path)
  with e show "\<exists>x r'. cmdSet (pathKey pre p) v r = (Inr x, r') \<and> True \<and> keysTyped pre r' \<and> rd_up r'" by simp
qed

lemma members_ok: "succeeds pre (list_all idOkR) (cmdSMembers (typeIdsKey pre t))"
  by (rule succeedsI, rule set_at [of pre _ t], assumption+) (intro exI conjI, rule cmdSMembers_up, assumption+)

lemma fine_sadd [typed]:
  assumes "idOkR i"
  shows "fine pre (cmdSAdd (typeIdsKey pre t) i)"
proof (rule succeedsI)
  fix r assume r: "keysTyped pre r" "rd_up r"
  obtain s where s: "setAt (rd_keys r) (typeIdsKey pre t) = Inr s" "list_all idOkR s" by (rule set_at [OF r(1)])
  obtain r' where e: "cmdSAdd (typeIdsKey pre t) i r = (Inr (), r')" "rd_up r'"
    "map_of (rd_keys r') = (map_of (rd_keys r))(typeIdsKey pre t \<mapsto> RSet (if i \<in> set s then s else s @ [i]))"
    by (rule cmdSAdd_up [OF r(2) s(1)])
  have "keysTyped pre r'" by (rule typed_upd [OF r(1) e(3)]) (use assms s(2) in \<open>auto simp: keyOk_ids\<close>)
  with e show "\<exists>x r'. cmdSAdd (typeIdsKey pre t) i r = (Inr x, r') \<and> True \<and> keysTyped pre r' \<and> rd_up r'" by simp
qed

lemma fine_srem [typed]: "fine pre (cmdSRem (typeIdsKey pre t) i)"
proof (rule succeedsI)
  fix r assume r: "keysTyped pre r" "rd_up r"
  obtain s where s: "setAt (rd_keys r) (typeIdsKey pre t) = Inr s" "list_all idOkR s" by (rule set_at [OF r(1)])
  let ?s = "filter (\<lambda>x. x \<noteq> i) s"
  obtain r' where e: "cmdSRem (typeIdsKey pre t) i r = (Inr (), r')" "rd_up r'"
    "map_of (rd_keys r') = (map_of (rd_keys r))(typeIdsKey pre t := (case ?s of [] \<Rightarrow> None | _ \<Rightarrow> Some (RSet ?s)))"
    by (rule cmdSRem_up [OF r(2) s(1)])
  have "list_all idOkR ?s" using s(2) by (auto simp: list_all_iff)
  then have "keysTyped pre r'" by (intro typed_upd [OF r(1) e(3)]) (auto simp: keyOk_ids split: list.splits)
  with e show "\<exists>x r'. cmdSRem (typeIdsKey pre t) i r = (Inr x, r') \<and> True \<and> keysTyped pre r' \<and> rd_up r'" by simp
qed

section \<open>Calls of the cache\<close>

lemma fine_resources [typed]:
  "idOkR i \<Longrightarrow> fine pre (upsertResource pre t i fs)" "fine pre (deleteResource pre t i)"
  unfolding upsertResource_def deleteResource_def by (intro typed; assumption)+

lemma fine_secrets [typed]:
  "idOkR (sec_id (scr_secret rec)) \<Longrightarrow> fine pre (upsertSecret pre rec)" "idOkR i \<Longrightarrow> fine pre (deleteSecretC pre i)"
  unfolding upsertSecret_def deleteSecretC_def Let_def typeName_secret by (intro typed; assumption)+

lemma fine_reads:
  assumes "\<And>hs. fine pre (f hs)"
  shows "fine pre (bindR (cmdSMembers (typeIdsKey pre t)) (\<lambda>idl. bindR (mapR (\<lambda>i. cmdHGetAll (typeKey pre t i)) idl) f))"
  by (rule succeeds_bind [OF members_ok]) (auto intro!: fine_bind fine_map fine_hgetall assms simp: list_all_iff)

lemma fine_search [typed]: "fine pre (searchSecrets pre fl)" "fine pre (scanType pre t)"
  unfolding searchSecrets_def scanType_def typeName_secret Let_def by (intro fine_reads typed)+

lemma fine_listAllMeta [typed]: "fine pre (listAllMeta pre)"
  unfolding listAllMeta_def by (intro typed)

lemma fine_paths [typed]: "fine pre (deletePathKeys pre)"
proof -
  have "fine pre (cmdScanPrefix p)" for p by (rule succeedsI) (simp add: cmdScanPrefix_def command_def)
  then show ?thesis unfolding deletePathKeys_def by (intro typed)
qed

text \<open>Every call of \<open>Cache\<close> on secrets and on the metadata of resources.\<close>

datatype (plugins only: code size) cacheCall =
    UpsertSecretC secretCacheRecord | DeleteSecretC str | WarmSecretsC "secretCacheRecord list" | SearchSecretsC listFilter
  | UpsertOrgC entity | DeleteOrgC str | UpsertProjectC entity | DeleteProjectC str
  | UpsertEnvironmentC entity | DeleteEnvironmentC str | UpsertFolderC entity str str str int | DeleteFolderC str
  | WarmTreeC treeMetaSnapshot | ListAllMetaC

definition callCache :: "str \<Rightarrow> cacheCall \<Rightarrow> unit rd" where
  "callCache pre c = (case c of
     UpsertSecretC rec \<Rightarrow> upsertSecret pre rec | DeleteSecretC i \<Rightarrow> deleteSecretC pre i
   | WarmSecretsC recs \<Rightarrow> warmSecrets pre recs | SearchSecretsC fl \<Rightarrow> bindR (searchSecrets pre fl) (\<lambda>_. retR ())
   | UpsertOrgC e \<Rightarrow> upsertOrg pre e | DeleteOrgC i \<Rightarrow> deleteOrg pre i
   | UpsertProjectC e \<Rightarrow> upsertProject pre e | DeleteProjectC i \<Rightarrow> deleteProjectC pre i
   | UpsertEnvironmentC e \<Rightarrow> upsertEnvironment pre e | DeleteEnvironmentC i \<Rightarrow> deleteEnvironmentC pre i
   | UpsertFolderC e env project parent level \<Rightarrow> upsertFolder pre e env project parent level
   | DeleteFolderC i \<Rightarrow> deleteFolderC pre i | WarmTreeC s \<Rightarrow> warmTree pre s
   | ListAllMetaC \<Rightarrow> bindR (listAllMeta pre) (\<lambda>_. retR ()))"

text \<open>The identifiers that a call writes to keys, all of them UUIDs in the program.\<close>

definition callIds :: "cacheCall \<Rightarrow> str list" where
  "callIds c = (case c of
     UpsertSecretC rec \<Rightarrow> [sec_id (scr_secret rec)] | DeleteSecretC i \<Rightarrow> [i]
   | WarmSecretsC recs \<Rightarrow> map (\<lambda>rec. sec_id (scr_secret rec)) recs
   | UpsertOrgC e \<Rightarrow> [e_id e] | UpsertProjectC e \<Rightarrow> [e_id e] | UpsertEnvironmentC e \<Rightarrow> [e_id e]
   | UpsertFolderC e _ _ _ _ \<Rightarrow> [e_id e]
   | WarmTreeC s \<Rightarrow> map e_id (ts_orgs s @ ts_projects s @ ts_envs s @ map fe_entity (ts_folders s))
   | _ \<Rightarrow> [])"

lemma fine_entities [typed]:
  "idOkR (e_id e) \<Longrightarrow> fine pre (upsertOrg pre e)" "idOkR (e_id e) \<Longrightarrow> fine pre (upsertProject pre e)"
  "idOkR (e_id e) \<Longrightarrow> fine pre (upsertEnvironment pre e)"
  "idOkR (e_id e) \<Longrightarrow> fine pre (upsertFolder pre e env project parent level)"
  "fine pre (deleteOrg pre i)" "fine pre (deleteProjectC pre i)" "fine pre (deleteEnvironmentC pre i)" "fine pre (deleteFolderC pre i)"
  unfolding upsertOrg_def upsertProject_def upsertEnvironment_def upsertFolder_def deleteOrg_def deleteProjectC_def
    deleteEnvironmentC_def deleteFolderC_def
  by (intro typed; assumption)+

lemma fine_seqMap: "(\<And>x. x \<in> set xs \<Longrightarrow> fine pre (f x)) \<Longrightarrow> fine pre (seqR (map f xs))"
  by (rule fine_seq) auto

lemma fine_warmTree:
  assumes "list_all idOkR (callIds (WarmTreeC s))"
  shows "fine pre (warmTree pre s)"
  using assms unfolding warmTree_def
  by (intro fine_if fine_ret fine_pipe fine_seqMap fine_entities) (auto simp: callIds_def list_all_iff)

lemma fine_call: "list_all idOkR (callIds c) \<Longrightarrow> fine pre (callCache pre c)"
proof (cases c)
  case (WarmSecretsC recs)
  moreover assume "list_all idOkR (callIds c)"
  ultimately show ?thesis
    by (auto simp: callCache_def callIds_def warmSecrets_def typeName_secret list_all_iff intro!: typed fine_map)
next
  case (WarmTreeC s)
  moreover assume "list_all idOkR (callIds c)"
  ultimately show ?thesis by (simp add: callCache_def fine_warmTree)
qed (simp_all add: callCache_def callIds_def typed)

text \<open>C9. The cache is type safe. Redis refuses a command on a key that holds a value of another type; on a server
  that is up, starting from keys of the types their names stand for (an empty server has them), no sequence of calls
  of \<open>Cache\<close> ever meets that error, and the keys stay typed, as long as no identifier is the word \<open>ids\<close> or starts
  with \<open>path:\<close>, which share their keys with the index and the paths.\<close>

theorem cache_type_safe:
  assumes "keysTyped pre r" "rd_up r" "\<forall>c \<in> set calls. list_all idOkR (callIds c)"
  shows "\<exists>xs r'. mapR (callCache pre) calls r = (Inr xs, r') \<and> keysTyped pre r' \<and> rd_up r'"
proof -
  have "fine pre (mapR (callCache pre) calls)" using assms(3) by (intro fine_map fine_call) simp
  then show ?thesis using assms(1,2) by (rule succeedsE) blast
qed

theorem cache_type_safe_witness:
  "\<exists>xs r'. mapR (callCache ''ev'') [DeleteSecretC ''s1'', UpsertOrgC \<lparr> e_id = ''o1'', e_parent = [], e_code = ''acme'',
      e_name = ''Acme'', e_comment = [], e_sort = 0, e_createdBy = [], e_createdByLabel = [], e_updatedBy = [],
      e_updatedByLabel = [], e_createdAt = 0, e_updatedAt = 0 \<rparr>, ListAllMetaC, DeleteOrgC ''o1'']
      \<lparr> rd_up = True, rd_keys = [] \<rparr> = (Inr xs, r') \<and> keysTyped ''ev'' r' \<and> rd_up r'"
  by (rule cache_type_safe) (simp_all add: keysTyped_def callIds_def idOkR_def hasPrefix_def)

end
