(* ===== verification/Requests.thy ===== *)
theory Requests
  imports SchemaProps Startup
begin

text \<open>
  What a request can do to the database: each handler of the API is a run of the operations of the repository, of
  RBAC and of accounts, over any relation of steps that admits what the handler calls.  The locale \<open>actor_runs\<close> has the
  handlers that read, \<open>data_runs\<close> the ones that write resources and secrets, \<open>account_runs\<close> the ones of roles and
  accounts with the middleware, and \<open>api_runs\<close> the server.
\<close>

section \<open>Steps of the stored data\<close>

text \<open>The operations of the repository, and the entry in the cache of user names.\<close>

inductive data_step :: "store \<Rightarrow> store \<Rightarrow> bool" where
  label: "data_step st (cacheUserLabel i n st)"
| createOrganization: "createOrganization code name comment actor st = (r, st') \<Longrightarrow> data_step st st'"
| updateEntity: "updateEntity t i name comment actor ty st = (r, st') \<Longrightarrow> data_step st st'"
| deleteOrganization: "deleteOrganization i actor force st = (s, st') \<Longrightarrow> data_step st st'"
| createProject: "createProject org code name comment actor envs st = (r, st') \<Longrightarrow> data_step st st'"
| deleteProject: "deleteProject i actor st = (s, st') \<Longrightarrow> data_step st st'"
| createEnvironment: "createEnvironment p code name comment actor st = (r, st') \<Longrightarrow> data_step st st'"
| deleteEnvironment: "deleteEnvironment i actor st = (s, st') \<Longrightarrow> data_step st st'"
| createFolders: "createFoldersAcrossEnvs pc code name comment actor envIds st = (rs, st') \<Longrightarrow> data_step st st'"
| createTopFolders: "createTopLevelFoldersInEnvs code name comment actor envIds st = (rs, st') \<Longrightarrow> data_step st st'"
| deleteFolder: "deleteFolder i actor st = (s, st') \<Longrightarrow> data_step st st'"
| createSecret: "createSecret fid key m actor c st = (x, st') \<Longrightarrow> data_step st st'"
| createSecrets: "batchCreateSecrets items st = (xs, st') \<Longrightarrow> data_step st st'"
| updateSecret: "updateSecret i key m actor c st = (x, st') \<Longrightarrow> data_step st st'"
| updateSecrets: "batchUpdateSecrets uitems st = (xs, st') \<Longrightarrow> data_step st st'"
| commentSecrets: "batchUpdateCommentByIds idl m actor st = (u, st') \<Longrightarrow> data_step st st'"
| deleteSecret: "deleteSecret i actor st = (u, st') \<Longrightarrow> data_step st st'"
| audit: "recordAudit actor ty i act v st = (u, st') \<Longrightarrow> data_step st st'"

inductive store_step :: "store \<Rightarrow> store \<Rightarrow> bool" where
  data: "data_step st st' \<Longrightarrow> store_step st st'"
| rbac: "rbac_step st st' \<Longrightarrow> store_step st st'"
| register: "createPasswordUser email name hash algo st = (r, st') \<Longrightarrow> store_step st st'"
| staff: "ensureJWTUser staff n email st = (r, st') \<Longrightarrow> store_step st st'"
| credentials: "updatePasswordHash i hash algo st = (r, st') \<Longrightarrow> store_step st st'"
| revoke: "bumpTokensValidAfter i st = (r, st') \<Longrightarrow> store_step st st'"
| seen: "store_step st (touchLastSeen i st)"
| newToken: "createToken i n h pre ex st = (r, st') \<Longrightarrow> store_step st st'"
| dropToken: "softDeleteToken ti i st = (r, st') \<Longrightarrow> store_step st st'"
| useToken: "validatePAT h st = (r, st') \<Longrightarrow> store_step st st'"

definition reaches :: "(store \<Rightarrow> store \<Rightarrow> bool) \<Rightarrow> store \<Rightarrow> store \<Rightarrow> bool" where
  "reaches step st st' \<longleftrightarrow> rtranclp step st st'"

lemma reaches_refl [simp]: "reaches step st st" by (simp add: reaches_def)
lemma reaches_trans: "reaches step st st1 \<Longrightarrow> reaches step st1 st2 \<Longrightarrow> reaches step st st2" by (simp add: reaches_def)
lemma reaches_step: "step st st' \<Longrightarrow> reaches step st st'" by (auto simp: reaches_def)

text \<open>An operation on the database is a run of steps.\<close>

named_theorems runs \<open>operations and handlers that only make steps of the stored data\<close>

definition opRuns :: "(store \<Rightarrow> store \<Rightarrow> bool) \<Rightarrow> (store \<Rightarrow> 'a \<times> store) \<Rightarrow> bool" where
  "opRuns step op \<longleftrightarrow> (\<forall>st. reaches step st (snd (op st)))"

lemma opRunsI: "(\<And>st r st'. op st = (r, st') \<Longrightarrow> reaches step st st') \<Longrightarrow> opRuns step op"
  unfolding opRuns_def by (metis prod.collapse)

lemma opRunsD: "opRuns step op \<Longrightarrow> op st = (r, st') \<Longrightarrow> reaches step st st'"
  by (auto simp: opRuns_def dest: spec [of _ st])

lemma opRuns_guarded [runs]: "opRuns step op \<Longrightarrow> opRuns step (guarded check op)"
  by (auto simp: opRuns_def guarded_def split: sum.splits)

lemma opRuns_if [runs]: "opRuns step a \<Longrightarrow> opRuns step b \<Longrightarrow> opRuns step (if c then a else b)" by simp

section \<open>Handlers\<close>

definition runsW :: "(store \<Rightarrow> store \<Rightarrow> bool) \<Rightarrow> (world \<Rightarrow> 'a \<times> world) \<Rightarrow> bool" where
  "runsW step m \<longleftrightarrow> (\<forall>w. reaches step (w_st w) (w_st (snd (m w))))"

lemma runsWI: "(\<And>w r w'. m w = (r, w') \<Longrightarrow> reaches step (w_st w) (w_st w')) \<Longrightarrow> runsW step m"
  unfolding runsW_def by (metis prod.collapse)

lemma runsWD: "runsW step m \<Longrightarrow> m w = (r, w') \<Longrightarrow> reaches step (w_st w) (w_st w')"
  by (auto simp: runsW_def dest: spec [of _ w])

lemma runsW_pure [runs]:
  "runsW step (retS x)" "runsW step (failS e)" "runsW step (readS f)" "runsW step (requireS b e)" "runsW step (allowS svc u a res)"
  "runsW step (encryptS svc v)" "runsW step (cacheS m)" "runsW step (cacheUpsert svc s c)" "runsW step (reply r)" "runsW step (readReply g)"
  by (auto simp: runsW_def requireS_def allowS_def encryptS_def cacheS_def cacheUpsert_def reply_def readReply_def
      split: option.splits sum.splits prod.splits)

lemma runsW_bind [runs]:
  assumes "runsW step m" "\<And>x. runsW step (f x)"
  shows "runsW step (bindS m f)"
proof (rule runsWI)
  fix w r w' assume b: "bindS m f w = (r, w')"
  show "reaches step (w_st w) (w_st w')"
    using b by (rule bindS_cases) (blast intro: reaches_trans runsWD [OF assms(1)] runsWD [OF assms(2)])+
qed

lemma runsW_map [runs]: "(\<And>x. runsW step (f x)) \<Longrightarrow> runsW step (mapS f xs)"
  by (induction xs) (auto intro!: runs)

lemma runsW_store [runs]: "opRuns step op \<Longrightarrow> runsW step (storeS op)"
  by (auto simp: runsW_def storeS_def opRuns_def split: prod.splits) (metis snd_conv)

lemma runsW_if [runs]: "(c \<Longrightarrow> runsW step a) \<Longrightarrow> (\<not> c \<Longrightarrow> runsW step b) \<Longrightarrow> runsW step (if c then a else b)" by simp
lemma runsW_prod [runs]: "(\<And>x y. runsW step (f x y)) \<Longrightarrow> runsW step (case p of (x, y) \<Rightarrow> f x y)" by (cases p) simp
lemma runsW_option [runs]:
  "runsW step a \<Longrightarrow> (\<And>x. runsW step (b x)) \<Longrightarrow> runsW step (case o' of None \<Rightarrow> a | Some x \<Rightarrow> b x)" by (cases o') simp_all
lemma runsW_sum [runs]:
  "(\<And>e. runsW step (a e)) \<Longrightarrow> (\<And>x. runsW step (b x)) \<Longrightarrow> runsW step (case r of Inl e \<Rightarrow> a e | Inr x \<Rightarrow> b x)" by (cases r) simp_all

section \<open>Endpoints\<close>

lemma runsW_guard [runs]: "runsW step k \<Longrightarrow> runsW step (guardH g k)"
  by (auto simp: runsW_def guardH_def split: option.splits)

lemma runsW_check [runs]: "runsW step k \<Longrightarrow> runsW step (checkH b r k)"
  by (auto simp: checkH_def intro: runs)

lemma runsW_bindReq [runs]: "(\<And>r. runsW step (k r)) \<Longrightarrow> runsW step (bindReq ctl req k)"
  by (auto simp: bindReq_def intro!: runs)

lemma runsW_ensureRBAC [runs]: "(\<And>az. runsW step (k az)) \<Longrightarrow> runsW step (ensureRBAC ctl k)"
  by (auto simp: ensureRBAC_def intro!: runs)

lemma cacheAll_store [simp]: "w_st (cacheAll ms w) = w_st w" by (simp add: cacheAll_def)

text \<open>A handler that reads the world first.\<close>

lemma runsW_read [runs]:
  assumes "\<And>x. runsW step (k x)"
  shows "runsW step (\<lambda>w. case f w of Inl e \<Rightarrow> (g e w, w) | Inr x \<Rightarrow> k x w)"
  using assms by (auto simp: runsW_def split: sum.splits)

lemma runsW_service [runs]: "runsW step m \<Longrightarrow> runsW step (serviceCall m)"
  by (auto simp: runsW_def serviceCall_def split: prod.splits) (metis snd_conv)

lemma runsW_pages [runs]: "runsW step m \<Longrightarrow> runsW step (pageCall m q)"
  unfolding pageCall_def by (intro runs)

lemma runsW_guards [runs]: "runsW step k \<Longrightarrow> runsW step (foldr (\<lambda>(p, t). guardH (g p t)) ps k)"
  by (induction ps) (auto intro: runs)

lemma runsW_serviceH [runs]:
  "runsW step m \<Longrightarrow> runsW step (\<lambda>w. case m w of (r, w') \<Rightarrow> ([writeR r], w'))"
  using runsW_service [of step m] by (simp add: serviceCall_def [abs_def])

lemma runsW_optionH [runs]:
  "runsW step a \<Longrightarrow> (\<And>x. runsW step (b x)) \<Longrightarrow> runsW step (\<lambda>w. case o' of None \<Rightarrow> a w | Some x \<Rightarrow> b x w)" by (cases o') simp_all

section \<open>Accounts\<close>

definition runsA :: "(store \<Rightarrow> store \<Rightarrow> bool) \<Rightarrow> ('l authWorld \<Rightarrow> 'a \<times> 'l authWorld) \<Rightarrow> bool" where
  "runsA step m \<longleftrightarrow> (\<forall>w. reaches step (aw_st w) (aw_st (snd (m w))))"

lemma runsAI: "(\<And>w r w'. m w = (r, w') \<Longrightarrow> reaches step (aw_st w) (aw_st w')) \<Longrightarrow> runsA step m"
  unfolding runsA_def by (metis prod.collapse)

lemma runsAD: "runsA step m \<Longrightarrow> m w = (r, w') \<Longrightarrow> reaches step (aw_st w) (aw_st w')"
  by (auto simp: runsA_def dest: spec [of _ w])

lemma aw_frames [simp]:
  "aw_st (limitRecord svc ip ok w) = aw_st w" "aw_st (setToken i t w) = aw_st w"
  by (simp_all add: limitRecord_def setToken_def split: option.splits)

lemma limitCheck_store: "limitCheck svc ip w = (r, w') \<Longrightarrow> aw_st w' = aw_st w"
  by (auto simp: limitCheck_def split: option.splits prod.splits)

lemma hashS_store: "hashS svc p w = (r, w') \<Longrightarrow> aw_st w' = aw_st w"
  by (auto simp: hashS_def split: sum.splits prod.splits)

lemma runsA_calls [runs]:
  "runsA step m \<Longrightarrow> runsA step (authCall m)" "runsA step m \<Longrightarrow> runsA step (patCall m)"
  "(\<And>s r. runsA step (k s r)) \<Longrightarrow> runsA step (authBind svc ready missing req k)" "runsA step (\<lambda>w. (x, w))"
  by (auto simp: runsA_def authCall_def patCall_def authBind_def split: prod.splits option.splits) (metis snd_conv)+

lemma runsA_prod [runs]: "(\<And>x y. runsA step (f x y)) \<Longrightarrow> runsA step (case p of (x, y) \<Rightarrow> f x y)" by (cases p) simp
lemma runsA_if [runs]: "runsA step a \<Longrightarrow> runsA step b \<Longrightarrow> runsA step (if c then a else b)" by simp

section \<open>The server\<close>

definition stored :: "'l server \<Rightarrow> store" where "stored s = w_st (sv_world s)"

definition runsV :: "(store \<Rightarrow> store \<Rightarrow> bool) \<Rightarrow> 'l step \<Rightarrow> bool" where
  "runsV step m \<longleftrightarrow> (\<forall>s. reaches step (stored s) (stored (snd (m s))))"

lemma runsV_calls [runs]:
  "runsW step h \<Longrightarrow> runsV step (onWorld f h)" "runsA step a \<Longrightarrow> runsV step (onAuth g a)" "runsV step (pureReply p r)"
proof -
  show "runsV step (onWorld f h)" if "runsW step h"
    using that by (auto simp: runsV_def runsW_def onWorld_def stored_def split: prod.splits) (metis snd_conv)
  show "runsV step (onAuth g a)" if "runsA step a"
  proof (unfold runsV_def, rule allI)
    fix s
    have "reaches step (aw_st (authWorldOf s)) (aw_st (snd (a (authWorldOf s))))" using that by (simp add: runsA_def)
    then show "reaches step (stored s) (stored (snd (onAuth g a s)))"
      by (auto simp: onAuth_def stored_def setAuthWorld_def authWorldOf_def split: prod.splits)
  qed
qed (simp add: runsV_def pureReply_def)

lemma runsV_clock [runs]: "runsV step (\<lambda>s. pureReply p (g s) s)"
  by (simp add: runsV_def pureReply_def)

section \<open>The handlers that read\<close>

text \<open>What every handler may do: put the name of its caller into the cache, and record what was revealed.\<close>

locale actor_runs =
  fixes step :: "store \<Rightarrow> store \<Rightarrow> bool"
  assumes label: "step st (cacheUserLabel i n st)"
    and audit: "recordAudit actor ty i act v st = (u, st') \<Longrightarrow> step st st'"
begin

lemma opRuns_audit [runs]: "opRuns step (recordAudit actor ty i act v)"
  by (rule opRunsI, rule reaches_step, erule audit)

lemma reaches_actor: "reaches step (w_st w) (w_st (actorH u w))"
  by (simp add: actorH_def reaches_step label)

lemma runsW_actorCall [runs]:
  assumes "\<And>actor. runsW step (m actor)"
  shows "runsW step (actorCall u m)"
proof (rule runsWI)
  fix w r w' assume "actorCall u m w = (r, w')"
  then have "serviceCall (m (ui_id u)) (actorH u w) = (r, w')" by (simp add: actorCall_def)
  from runsWD [OF runsW_service [OF assms] this] show "reaches step (w_st w) (w_st w')"
    by (rule reaches_trans [OF reaches_actor])
qed

lemma runsW_batchCall [runs]:
  assumes "\<And>actor. runsW step (m actor)"
  shows "runsW step (batchCall u m)"
proof (rule runsWI)
  fix w r w' assume c: "batchCall u m w = (r, w')"
  obtain q w1 where m: "m (ui_id u) (actorH u w) = (q, w1)" by fastforce
  from c m have "w' = w1" by (simp add: batchCall_def)
  with runsWD [OF assms m] show "reaches step (w_st w) (w_st w')" by (simp add: reaches_trans [OF reaches_actor])
qed

lemma runsW_reveals [runs]:
  "runsW step (get svc u i)" "runsW step (reveal svc u i actor)"
  unfolding get_def reveal_def by (intro runs)+

lemma runsW_paths [runs]:
  "runsW step (getByPath svc u path)" "runsW step (revealByPath svc u path actor)"
  "runsW step (batchRevealByPath svc u path keys actor)" "runsW step (batchRevealByCode svc u oc pc ec fc actor)"
  unfolding getByPath_def revealByPath_def batchRevealByPath_def batchRevealByCode_def Let_def by (intro runs)+

lemma runsW_listings [runs]:
  "runsW step (listAcrossEnvs svc u pid fc keys envs actor)" "runsW step (listS svc u fl p)" "runsW step (search svc u fl p)"
  unfolding listAcrossEnvs_def listS_def search_def Let_def by (intro runs)+

lemma runsW_tree [runs]: "runsW step (getTree svc u req)" "runsW step (getProjectFolderTree svc u pid)"
proof -
  have "runsW step (loadSnapshot svc u)"
    by (auto simp: runsW_def loadSnapshot_def Let_def bindS_def cacheS_def split: option.splits)
  then show "runsW step (getTree svc u req)" unfolding getTree_def by (intro runs)
  show "runsW step (getProjectFolderTree svc u pid)" unfolding getProjectFolderTree_def by (intro runs)
qed

lemma runsW_getBy [runs]: "runsW step (getBy ctl u p t byId byCode req)"
  unfolding getBy_def by (intro runs)

lemma runsW_reads [runs]:
  "runsW step (listOrganizationsH c u p)" "runsW step (getOrganizationH c u ic)" "runsW step (listProjectsH c u lr)"
  "runsW step (getProjectH c u ic)" "runsW step (listEnvironmentsH c u lr)" "runsW step (getEnvironmentH c u ic)"
  "runsW step (listEnvironmentTemplatesH c u lr)" "runsW step (getEnvironmentTemplateH c u ic)"
  "runsW step (listFoldersH c u lr)" "runsW step (getFolderH c u ic)"
  unfolding listOrganizationsH_def getOrganizationH_def listProjectsH_def getProjectH_def listEnvironmentsH_def
    getEnvironmentH_def listEnvironmentTemplatesH_def getEnvironmentTemplateH_def listFoldersH_def getFolderH_def Let_def
  by (intro runs)+

lemma runsW_lists [runs]:
  "runsW step (listFoldersByProjectH c u pid)" "runsW step (listAuditRecordsH c u lr)" "runsW step (getResourceTreeH c u tq)"
  unfolding listFoldersByProjectH_def listAuditRecordsH_def getResourceTreeH_def Let_def
  by (intro runs)+

lemma runsW_secretReads [runs]:
  "runsW step (listSecretsH c u lr)" "runsW step (searchSecretsH c u lr)" "runsW step (getSecretH c u i)"
  "runsW step (revealSecretH c u i)" "runsW step (getSecretByPathH c u i)" "runsW step (revealSecretByPathH c u i)"
  "runsW step (batchRevealSecretByPathH c u pk)" "runsW step (batchRevealSecretByCodeH c u cs)"
  "runsW step (listSecretsAcrossEnvsH c u la)"
  unfolding listSecretsH_def searchSecretsH_def getSecretH_def revealSecretH_def getSecretByPathH_def revealSecretByPathH_def
    batchRevealSecretByPathH_def batchRevealSecretByCodeH_def listSecretsAcrossEnvsH_def Let_def
  by (intro runs)+

lemma runsW_search [runs]: "runsW step (globalSearchH c u gq)"
  unfolding globalSearchH_def Let_def
  by (intro runs) (simp add: runsW_def)

end

section \<open>The handlers of resources and secrets\<close>

locale data_runs = actor_runs +
  assumes data: "data_step st st' \<Longrightarrow> step st st'"
begin

lemma opRuns_steps [runs]:
  "opRuns step (createOrganization code name comment actor)"
  "opRuns step (updateEntity t i name comment actor ty)"
  "opRuns step (deleteOrganization i actor force)"
  "opRuns step (createProject org code name comment actor envs)"
  "opRuns step (deleteProject i actor)"
  "opRuns step (createEnvironment p code name comment actor)"
  "opRuns step (deleteEnvironment i actor)"
  "opRuns step (createFoldersAcrossEnvs pc code name comment actor envIds)"
  "opRuns step (createTopLevelFoldersInEnvs code name comment actor envIds)"
  "opRuns step (deleteFolder i actor)"
  "opRuns step (createSecret fid key m actor c)"
  "opRuns step (batchCreateSecrets items)"
  "opRuns step (updateSecret i key m actor c)"
  "opRuns step (batchUpdateSecrets uitems)"
  "opRuns step (batchUpdateCommentByIds idl m actor)"
  "opRuns step (deleteSecret i actor)"
  by (rule opRunsI, rule reaches_step, rule data, erule data_step.intros)+

lemma opRuns_updateFolders [runs]: "opRuns step (updateFoldersInTurn name comment actor is)"
proof (induction "is")
  case (Cons i "is")
  show ?case
  proof (rule opRunsI)
    fix st r st' assume u: "updateFoldersInTurn name comment actor (i # is) st = (r, st')"
    obtain q st1 where o: "updateEntity Folders i name comment actor ''folder'' st = (q, st1)" by fastforce
    obtain q' st2 where o': "updateFoldersInTurn name comment actor is st1 = (q', st2)" by fastforce
    have "reaches step st st1" by (rule opRunsD [OF opRuns_steps(2) o])
    moreover have "reaches step st1 st2" by (rule opRunsD [OF Cons.IH o'])
    ultimately show "reaches step st st'"
      using u o o' by (auto split: sum.splits intro: reaches_trans)
  qed
qed (simp add: opRuns_def)

lemma runsW_secrets [runs]:
  "runsW step (create svc u fid key v m actor)" "runsW step (update svc u i key v m actor)" "runsW step (delete svc u i actor)"
  unfolding create_def update_def delete_def by (intro runs)+

lemma runsW_batches [runs]:
  "runsW step (batchCreate svc u specs actor)" "runsW step (batchUpdateByIDs svc u vals key m actor)"
  unfolding batchCreate_def batchUpdateByIDs_def encryptSpecs_def storeAndCache_def Let_def by (intro runs)+

lemma runsW_repoCall [runs]:
  assumes "\<And>actor. opRuns step (op actor)"
  shows "runsW step (repoCall u op cacheOps proj)"
proof (rule runsWI)
  fix w r w' assume c: "repoCall u op cacheOps proj w = (r, w')"
  obtain q st where o: "op (ui_id u) (w_st (actorH u w)) = (q, st)" by fastforce
  have "reaches step (w_st w) st" by (rule reaches_trans [OF reaches_actor opRunsD [OF assms o]])
  moreover have "w_st w' = st" using c o by (cases q) (auto simp: repoCall_def)
  ultimately show "reaches step (w_st w) (w_st w')" by simp
qed

lemma runsW_updateBy [runs]: "runsW step (updateBy ctl u p t byCode' tb cacheOps ureq)"
  unfolding updateBy_def by (intro runs)

lemma runsW_deleteBy [runs]: "(\<And>i actor. opRuns step (del i actor)) \<Longrightarrow> runsW step (deleteBy ctl u ps byCode del req)"
  unfolding deleteBy_def by (intro runs)

lemma runsW_entities [runs]:
  "runsW step (createOrganizationH c u ce)" "runsW step (updateOrganizationH c u ub)" "runsW step (deleteOrganizationH c u force ic)"
  "runsW step (createProjectH c u ce)" "runsW step (updateProjectH c u ub)" "runsW step (deleteProjectH c u ic)"
  "runsW step (createEnvironmentH c u ce)" "runsW step (updateEnvironmentH c u ub)" "runsW step (deleteEnvironmentH c u ic)"
  unfolding createOrganizationH_def updateOrganizationH_def deleteOrganizationH_def createProjectH_def updateProjectH_def
    deleteProjectH_def createEnvironmentH_def updateEnvironmentH_def deleteEnvironmentH_def Let_def
  by (intro runs)+

lemma runsW_folderBatch [runs]:
  assumes "\<And>infos. runsW step (k infos)"
  shows "runsW step (\<lambda>w0. case f (actorH u w0) of Inl e \<Rightarrow> (g e, actorH u w0) | Inr infos \<Rightarrow> k infos (actorH u w0))"
proof (rule runsWI)
  fix w r w'
  assume c: "(case f (actorH u w) of Inl e \<Rightarrow> (g e, actorH u w) | Inr infos \<Rightarrow> k infos (actorH u w)) = (r, w')"
  show "reaches step (w_st w) (w_st w')"
  proof (cases "f (actorH u w)")
    case (Inl e)
    with c reaches_actor show ?thesis by auto
  next
    case (Inr infos)
    with c have "k infos (actorH u w) = (r, w')" by simp
    from runsWD [OF assms this] show ?thesis by (rule reaches_trans [OF reaches_actor])
  qed
qed

lemma runsW_folders [runs]:
  "runsW step (createFolderH c u cf)" "runsW step (updateFolderH c u ub)" "runsW step (deleteFolderH c u ic)"
  "runsW step (batchUpdateFoldersH c u bf)"
  unfolding createFolderH_def createFolderBatch_def updateFolderH_def deleteFolderH_def batchUpdateFoldersH_def Let_def
  by (intro runs)+

lemma runsW_secretEndpoints [runs]:
  "runsW step (createSecretH c u sq)" "runsW step (updateSecretH c u sq)" "runsW step (deleteSecretH c u i)"
  "runsW step (batchCreateSecretH c u bs)" "runsW step (batchUpdateSecretH c u bq)"
  unfolding createSecretH_def updateSecretH_def deleteSecretH_def batchCreateSecretH_def batchUpdateSecretH_def Let_def
  by (intro runs)+

lemma runsV_entity: "runsV step (entityEndpoint d e u b)"
  by (cases e) (simp_all add: entityEndpoint_def Let_def runs)

lemma runsV_secret: "runsV step (secretEndpoint d e u b)"
  by (cases e) (simp_all add: secretEndpoint_def Let_def runs)

end

section \<open>The handlers of roles and accounts\<close>

locale account_runs = actor_runs +
  assumes rbac: "rbac_step st st' \<Longrightarrow> step st st'"
    and register: "createPasswordUser email name hash algo st = (r1, st') \<Longrightarrow> step st st'"
    and staff: "ensureJWTUser s n email st = (r2, st') \<Longrightarrow> step st st'"
    and credentials: "updatePasswordHash i hash algo st = (r3, st') \<Longrightarrow> step st st'"
    and revoke: "bumpTokensValidAfter i st = (r4, st') \<Longrightarrow> step st st'"
    and seen: "step st (touchLastSeen i st)"
    and newToken: "createToken i n h pre ex st = (r5, st') \<Longrightarrow> step st st'"
    and dropToken: "softDeleteToken ti i st = (r6, st') \<Longrightarrow> step st st'"
    and useToken: "validatePAT h st = (r7, st') \<Longrightarrow> step st st'"
begin

lemma draws: "reaches step st (st\<lparr>ids := l\<rparr>)"
  by (intro reaches_step rbac rbac_step.draw)

lemma touched: "reaches step st (touchLastSeen i st)"
  by (rule reaches_step, rule seen)

lemma opRuns_rbac [runs]:
  "opRuns step (grantRole i n e rc stp sid ex actor)"
  "opRuns step (revokeRole i rc stp sid actor)"
  "opRuns step (syncUser i n e)"
  "opRuns step (createRole c n d stp sid ps actor)"
  "opRuns step (updateRole i c n d stp sid ps actor)"
  "opRuns step (deleteRole i actor)"
  by (rule opRunsI, rule reaches_step, rule rbac, erule rbac_step.intros)+

lemma opRuns_accounts [runs]:
  "opRuns step (createPasswordUser email name hash algo)"
  "opRuns step (ensureJWTUser staff n email)"
  "opRuns step (updatePasswordHash i hash algo)"
  "opRuns step (bumpTokensValidAfter i)"
  "opRuns step (createToken i n h pre ex)"
  "opRuns step (softDeleteToken ti i)"
  "opRuns step (validatePAT h)"
  by (rule opRunsI, rule reaches_step, erule register staff credentials revoke newToken dropToken useToken)+

lemma opRuns_services [runs]:
  "opRuns step (grantRoleS az u i n e rc stp sid ex actor)"
  "opRuns step (revokeRoleS az u i rc stp sid actor)"
  "opRuns step (createRoleS az u c n d stp sid ps actor)"
  "opRuns step (updateRoleS az u i c n d stp sid ps actor)"
  "opRuns step (deleteRoleS az u i actor)"
  unfolding grantRoleS_def revokeRoleS_def createRoleS_def updateRoleS_def deleteRoleS_def by (intro runs)+

lemma runsW_rbacCalls [runs]: "runsW step (rbacRead f)" "(\<And>actor. opRuns step (op actor)) \<Longrightarrow> runsW step (rbacWrite u op)"
  unfolding rbacRead_def rbacWrite_def by (intro runs, assumption?)+

lemma runsW_rbac [runs]:
  "runsW step (listPermissionsH c)" "runsW step (getMyPermissionsH c u a)" "runsW step (listRolesH c)" "runsW step (getRoleH c u b)"
  "runsW step (createRoleH c u rq)" "runsW step (updateRoleH c u rq)" "runsW step (deleteRoleH c u i)" "runsW step (listRoleBindingsH c u d)"
  "runsW step (grantRoleH c u rg)" "runsW step (revokeRoleH c u rg)" "runsW step (getCurrentRBACUserH c u p)"
  "runsW step (listRBACUsersH c u e)" "runsW step (listUserGrantsH c u d)" "runsW step (getUserEffectivePermissionsH c u f)"
  unfolding listPermissionsH_def getMyPermissionsH_def listRolesH_def getRoleH_def createRoleH_def updateRoleH_def
    deleteRoleH_def listRoleBindingsH_def grantRoleH_def revokeRoleH_def getCurrentRBACUserH_def listRBACUsersH_def
    listUserGrantsH_def getUserEffectivePermissionsH_def Let_def
  by (intro runs)+

lemma reaches_attempt: "reaches step (aw_st w) (aw_st (recordAttempt email ip ok uid w))"
proof (cases "newUUID (aw_st w)")
  case (Inl e)
  then show ?thesis by (simp add: recordAttempt_def recordLoginAttempt_def)
next
  case (Inr x)
  then obtain i l where "newUUID (aw_st w) = Inr (i, (aw_st w)\<lparr>ids := l\<rparr>)" by (cases x) (auto simp: newUUID_Inr)
  then show ?thesis by (simp add: recordAttempt_def recordLoginAttempt_def draws)
qed

lemma runsA_register [runs]: "runsA step (register svc email name password)"
proof (rule runsAI)
  fix w r w' assume g: "register svc email name password w = (r, w')"
  obtain q w1 where h: "hashS svc password w = (q, w1)" by fastforce
  have op: "\<And>n h a e. reaches step (aw_st w1) (snd (createPasswordUser e n h a (aw_st w1)))"
    using opRuns_accounts(1) by (auto simp: opRuns_def)
  show "reaches step (aw_st w) (aw_st w')"
    using g h hashS_store [OF h] op
    by (auto simp: register_def Let_def split: sum.splits prod.splits)
       (metis op snd_conv reaches_trans reaches_attempt authWorld.select_convs(1) authWorld.update_convs(1) authWorld.surjective)+
qed

lemma runsA_refuse: "runsA step (refuse svc email ip uid)"
  by (simp add: runsA_def refuse_def reaches_attempt)

lemma runsA_login [runs]: "runsA step (login svc email password ip)"
proof (rule runsAI)
  fix w r w' assume g: "login svc email password ip w = (r, w')"
  obtain q w1 where c: "limitCheck svc ip w = (q, w1)" by fastforce
  have st: "aw_st w1 = aw_st w" by (rule limitCheck_store [OF c])
  have no: "reaches step (aw_st w1) (aw_st (snd (refuse svc e ip u w1)))" for e u
    using runsA_refuse [of svc e ip u] by (simp add: runsA_def)
  have yes: "reaches step (aw_st w1) (touchLastSeen u (aw_st (recordAttempt e ip b x (limitRecord svc ip ok w1))))" for u e b x ok
    using reaches_attempt [of "limitRecord svc ip ok w1" e ip b x]
    by (simp add: reaches_trans [OF _ touched])
  show "reaches step (aw_st w) (aw_st w')"
    using g c st no yes reaches_attempt [of w1]
    by (auto simp: login_def Let_def split: sum.splits prod.splits if_splits) (metis no snd_conv)+
qed

lemma runsA_logout [runs]: "runsA step (logout i)"
proof (rule runsAI)
  fix w :: "'a authWorld" and r w' assume g: "logout i w = (r, w')"
  obtain q st where b: "bumpTokensValidAfter i (aw_st w) = (q, st)" by fastforce
  have "reaches step (aw_st w) st" by (rule opRunsD [OF opRuns_accounts(4) b])
  with g b show "reaches step (aw_st w) (aw_st w')" by (auto simp: logout_def split: if_splits sum.splits)
qed

lemma runsA_changePassword [runs]: "runsA step (changePassword svc i old new)"
proof (rule runsAI)
  fix w r w' assume g: "changePassword svc i old new w = (r, w')"
  obtain q w1 where h: "hashS svc new w = (q, w1)" by fastforce
  have up: "reaches step (aw_st w1) (snd (updatePasswordHash i x a (aw_st w1)))" for x a
    using opRuns_accounts(3) by (auto simp: opRuns_def)
  show "reaches step (aw_st w) (aw_st w')"
    using g h hashS_store [OF h] up
    by (auto simp: changePassword_def Let_def split: sum.splits prod.splits if_splits option.splits) (metis up snd_conv)+
qed

lemma runsA_createPAT [runs]: "runsA step (createPAT sha i name ex)"
proof (rule runsAI)
  fix w :: "'a authWorld" and r w' assume g: "createPAT sha i name ex w = (r, w')"
  have up: "reaches step (aw_st w) (snd (createToken a b c d e (aw_st w)))" for a b c d e
    using opRuns_accounts(5) by (auto simp: opRuns_def)
  show "reaches step (aw_st w) (aw_st w')"
    using g up by (auto simp: createPAT_def Let_def split: sum.splits prod.splits if_splits) (metis up snd_conv)+
qed

lemma runsA_deletePAT [runs]: "runsA step (deletePAT i ti)"
proof (rule runsAI)
  fix w :: "'a authWorld" and r w' assume g: "deletePAT i ti w = (r, w')"
  obtain q st where b: "softDeleteToken ti i (aw_st w) = (q, st)" by fastforce
  have "reaches step (aw_st w) st" by (rule opRunsD [OF opRuns_accounts(6) b])
  with g b show "reaches step (aw_st w) (aw_st w')" by (auto simp: deletePAT_def split: if_splits)
qed

lemma runsA_endpoints [runs]:
  "runsA step (registerH svc ready rg)" "runsA step (loginH svc ready ip lg)" "runsA step (changePasswordH svc ready ctx cp)"
  "runsA step (createPATH psvc ready ctx pc)" "runsA step (deletePATH psvc ready ctx pd)"
  unfolding registerH_def loginH_def changePasswordH_def createPATH_def deletePATH_def by (intro runs)+

lemma runsA_logoutH [runs]: "runsA step (logoutH svc ctx)"
proof (rule runsAI)
  fix w :: "'a authWorld" and r w' assume g: "logoutH svc ctx w = (r, w')"
  obtain q w1 where l: "logout (ui_id (userFromContext ctx)) w = (q, w1)" by fastforce
  from g l have "w' = w \<or> w' = w1" by (auto simp: logoutH_def split: option.splits sum.splits)
  with runsAD [OF runsA_logout l] show "reaches step (aw_st w) (aw_st w')" by auto
qed

lemma runsA_listPATs [runs]: "runsA step (listPATsH psvc ctx)"
  by (auto simp: runsA_def listPATsH_def split: option.splits sum.splits)

lemma runsV_account: "runsV step (accountEndpoint d e ctx rq)"
  by (cases e) (simp_all add: accountEndpoint_def Let_def runs)

lemma runsV_rbac: "runsV step (rbacEndpoint d e u b)"
  by (cases e) (simp_all add: rbacEndpoint_def Let_def runs)

text \<open>The middleware: a company token may bring its user along, an access token is marked as used.\<close>

lemma authenticate_reaches:
  assumes "\<And>res staff c st r st'. dp_resolver d = Some res \<Longrightarrow> res staff c st = (r, st') \<Longrightarrow> reaches step st st'"
    and "authenticate d header s = (r, s')"
  shows "reaches step (se_st s) (se_st s')"
proof -
  have pat: "reaches step (se_st s) (se_st s')" if "patMiddleware cfg header s = (r, s')" for cfg
  proof (cases "pc_configured cfg")
    case True
    obtain q st where v: "validatePAT (hashPAT (pc_sha cfg) (extractPAT header)) (se_st s) = (q, st)" by fastforce
    have "se_st s' = st" using that v True by (cases q) (auto simp: patMiddleware_def)
    with reaches_step [of step, OF useToken [OF v]] show ?thesis by simp
  next
    case False
    with that show ?thesis by (simp add: patMiddleware_def)
  qed
  have jwt: "reaches step (se_st s) (se_st s')"
    if j: "jwtMiddleware kl jl \<lparr>jc_publicKey = pk, jc_resolver = dp_resolver d\<rparr> header s = (r, s')" for kl jl pk
  proof -
    let ?cfg = "\<lparr>jc_publicKey = pk, jc_resolver = dp_resolver d\<rparr>"
    have res: "reaches step st (snd (resolveUser ?cfg c st))" for c st
      using assms(1) by (auto simp: resolveUser_def split: option.splits sum.splits prod.splits)
    have "checkRevoked c x = (b, y) \<Longrightarrow> se_st y = se_st x" for c x b y
      by (auto simp: checkRevoked_def split: option.splits prod.splits)
    note this [simp]
    have "se_st s' = se_st s \<or> (\<exists>c. se_st s' = snd (resolveUser ?cfg c (se_st s)))"
      using j by (auto simp: jwtMiddleware_def split: sum.splits prod.splits bool.splits) (metis snd_conv)+
    with res show ?thesis by auto
  qed
  show ?thesis
    using assms(2) pat jwt
    by (auto simp: authenticate_def Let_def combinedAuthMiddleware_def split: if_splits)
qed

end

section \<open>All handlers\<close>

locale api_runs = data_runs + account_runs
begin

lemma runsV_handle: "runsV step (handle d e ctx rq)"
  by (cases e) (simp_all add: handle_def Let_def runsV_account runsV_entity runsV_secret runsV_rbac)

lemma serve_reaches:
  assumes "\<And>res staff c st r st'. dp_resolver d = Some res \<Longrightarrow> res staff c st = (r, st') \<Longrightarrow> reaches step st st'"
  shows "reaches step (stored s) (stored (snd (serve d rq s)))"
proof -
  have h: "reaches step (stored x) (stored (snd (handle d e ctx rq x)))" for e ctx x
    using runsV_handle [of d e ctx rq] by (simp add: runsV_def)
  have a: "reaches step (stored s) (stored (setSession x s))"
    if "authenticate d (hq_authorization rq) (sessionOf s) = (q, x)" for q x
    using authenticate_reaches [OF assms that] by (simp add: stored_def sessionOf_def setSession_def)
  show ?thesis
    using h a reaches_trans [OF a h]
    by (auto simp: serve_def split: option.splits prod.splits sum.splits if_splits)
qed

end

end
