(* ===== verification/RequestProps.thy ===== *)
theory RequestProps
  imports Requests StartupProps RouterProps
begin

text \<open>
  What every history of requests keeps: the invariants of the stored data, and who may do what under requests on
  resources and secrets.  The locale \<open>rbac_invariant\<close> carries an invariant of users and bindings over the operations
  of RBAC.
\<close>

section \<open>Operations on resources leave accounts and roles alone\<close>

definition sameAccess :: "store \<Rightarrow> store \<Rightarrow> bool" where
  "sameAccess st st' \<longleftrightarrow> usersT st' = usersT st \<and> permsT st' = permsT st \<and> rolesT st' = rolesT st \<and>
     rolePermsT st' = rolePermsT st \<and> bindingsT st' = bindingsT st \<and> bindAuditT st' = bindAuditT st \<and>
     tokensT st' = tokensT st \<and> clock st' = clock st"

lemma sameAccess_refl [simp]: "sameAccess st st" by (simp add: sameAccess_def)
lemma sameAccess_trans: "sameAccess a b \<Longrightarrow> sameAccess b c \<Longrightarrow> sameAccess a c" by (simp add: sameAccess_def)

lemma preserves_access_writes [preserving]:
  "preserves (sameAccess s0) newUUID" "preserves (sameAccess s0) (recordAuditTx actor ty i act v)"
  "preserves (sameAccess s0) (insertDeletedRecord ty i sn actor)" "preserves (sameAccess s0) (insertRow t r)"
  "preserves (sameAccess s0) (softDeleteRows t P actor)" "preserves (sameAccess s0) (softDeleteSecrets Q actor)"
  "preserves (sameAccess s0) (insertSecret s)" "preserves (sameAccess s0) (updateSecretRow i f)"
  "preserves (sameAccess s0) (\<lambda>st. Inr ((), setTbl t (g st) st))"
  by (auto simp: preserves_def sameAccess_def newUUID_Inr recordAudit_Inr insertDeletedRecord_def bindT_Inr_iff
      insertRow_def softDeleteRows_Inr softDeleteSecrets_Inr insertSecret_def updateSecretRow_def Let_def setTbl_def
      split: if_splits option.splits)

lemma preserves_access_entities [preserving]:
  "preserves (sameAccess s0) (createEntityTx t parent code name comment actor)"
  "preserves (sameAccess s0) (createEnvironmentTx p code name comment actor srt)"
  "preserves (sameAccess s0) (upsertEnvironmentTemplateTx org code name comment actor)"
  "preserves (sameAccess s0) (insertFolderTx env pf lvl code name comment actor ep)"
  "preserves (sameAccess s0) (snapshotAndSoftDeleteTx t i actor ty)"
  "preserves (sameAccess s0) (snapshotAndSoftDeleteSecretTx i actor)"
  unfolding createEntityTx_def createEnvironmentTx_def upsertEnvironmentTemplateTx_def insertFolderTx_def
    snapshotAndSoftDeleteTx_def snapshotAndSoftDeleteSecretTx_def Let_def
  by (intro preserving)+

lemma preserves_access_secrets [preserving]:
  "preserves (sameAccess s0) (insertSecretTx i fid key c m actor)"
  "preserves (sameAccess s0) (updateOneTx i key m actor c)" "preserves (sameAccess s0) (commentOneTx m actor i)"
  unfolding insertSecretTx_def updateOneTx_def commentOneTx_def by (intro preserving)+

lemma runTx_access:
  assumes "\<And>s0. preserves (sameAccess s0) m" "runTx m st = (r, st')"
  shows "sameAccess st st'"
  by (rule preserves_runTx [OF assms(1) sameAccess_refl assms(2)])

lemma runTx_access_then:
  assumes "\<And>s0. preserves (sameAccess s0) m"
    and "(case runTx m st of (Inl e, s) \<Rightarrow> (Inl e, s) | (Inr y, s) \<Rightarrow> (f y s, s)) = (r, st')"
  shows "sameAccess st st'"
  using assms(2) runTx_access [OF assms(1)] by (auto split: prod.splits sum.splits)

lemma access_cascades:
  "preserves (sameAccess s0) (deleteOrganizationTx i actor)" "preserves (sameAccess s0) (deleteProjectTx i actor)"
  "preserves (sameAccess s0) (deleteEnvironmentTx i actor)" "preserves (sameAccess s0) (deleteFolderTx i actor)"
  unfolding cascade_tx_defs by (intro preserving)+

lemma access_creations:
  "preserves (sameAccess s0) (createProjectTx org code name comment actor envs)"
  "preserves (sameAccess s0) (createSecretTx fid key m actor c)" "preserves (sameAccess s0) (batchCreateTx items)"
  "preserves (sameAccess s0) (batchUpdateTx uitems)"
  unfolding createProjectTx_def createSecretTx_def batchCreateTx_def batchUpdateTx_def insertBatchItemTx_def updateItemTx_def
  by (intro preserving)+

lemma data_step_access: "data_step st st' \<Longrightarrow> sameAccess st st'"
proof (induction rule: data_step.induct)
  case (label st i n)
  then show ?case by (simp add: cacheUserLabel_def Let_def sameAccess_def)
next
  case (createOrganization code name comment actor st r st')
  then have "createEntity Organizations [] code name comment actor ''organization'' st = (r, st')"
    by (auto simp: createOrganization_def split: prod.splits sum.splits goErr.splits if_splits)
  then show ?case unfolding createEntity_def by (rule runTx_access [rotated]) (intro preserving)
next
  case (updateEntity t i name comment actor ty st r st')
  then show ?case unfolding updateEntity_def Let_def by (rule runTx_access [rotated]) (intro preserving)
next
  case (deleteOrganization i actor force st s st')
  then show ?case using runTx_access [OF access_cascades(1)] by (auto simp: deleteOrganization_def split: if_splits)
next
  case (createProject org code name comment actor envs st r st')
  then show ?case unfolding createProject_def by (rule runTx_access [OF access_creations(1)])
next
  case (deleteProject i actor st s st')
  then show ?case unfolding deleteProject_def by (rule runTx_access [OF access_cascades(2)])
next
  case (createEnvironment p code name comment actor st r st')
  then show ?case unfolding createEnvironment_def by (rule runTx_access [rotated]) (intro preserving)
next
  case (deleteEnvironment i actor st s st')
  then show ?case unfolding deleteEnvironment_def by (rule runTx_access [OF access_cascades(3)])
next
  case (createFolders pc code name comment actor envIds st rs st')
  have "\<And>s0 plan. preserves (sameAccess s0) (mapT (\<lambda>(envId, pid).
      insertFolderTx envId (Some pid) 2 code name comment actor pid) plan)" by (intro preserving)
  from createFolders runTx_access [OF this] show ?case
    by (auto simp: createFoldersAcrossEnvs_def split: if_splits sum.splits)
next
  case (createTopFolders code name comment actor envIds st rs st')
  have "\<And>s0 v. preserves (sameAccess s0) (mapT (\<lambda>envId.
      insertFolderTx envId None 1 code name comment actor envId) v)" by (intro preserving)
  from createTopFolders runTx_access [OF this] show ?case
    by (auto simp: createTopLevelFoldersInEnvs_def split: if_splits sum.splits)
next
  case (deleteFolder i actor st s st')
  then show ?case unfolding deleteFolder_def by (rule runTx_access [OF access_cascades(4)])
next
  case (createSecret fid key m actor c st x st')
  then show ?case unfolding createSecret_def by (rule runTx_access_then [OF access_creations(2)])
next
  case (createSecrets items st xs st')
  then show ?case using runTx_access_then [OF access_creations(3)]
    by (auto simp: batchCreateSecrets_def split: if_splits)
next
  case (updateSecret i key m actor c st x st')
  then show ?case unfolding updateSecret_def by (rule runTx_access_then [OF preserves_access_secrets(2)])
next
  case (updateSecrets uitems st xs st')
  then show ?case using runTx_access_then [OF access_creations(4)]
    by (auto simp: batchUpdateSecrets_def split: if_splits)
next
  case (commentSecrets idl m actor st u st')
  have "\<And>s0. preserves (sameAccess s0) (bindT (mapT (commentOneTx m actor) idl) (\<lambda>entries.
      recordAuditTx actor ''secret'' (hd idl) ''update_comment_batch'' (EntriesPayload entries)))" by (intro preserving)
  from commentSecrets runTx_access [OF this] show ?case by (auto simp: batchUpdateCommentByIds_def split: if_splits)
next
  case (deleteSecret i actor st u st')
  then show ?case unfolding deleteSecret_def by (rule runTx_access [OF preserves_access_entities(6)])
next
  case (audit actor ty i act v st u st')
  then show ?case unfolding recordAudit_def by (rule runTx_access [OF preserves_access_writes(2)])
qed

interpretation resources: data_runs data_step
  by unfold_locales (auto intro: data_step.intros)

interpretation api: api_runs store_step
  by unfold_locales (auto intro: store_step.intros data_step.label data_step.audit)

lemma reaches_access: "reaches data_step st st' \<Longrightarrow> sameAccess st st'"
  unfolding reaches_def by (induction rule: rtranclp_induct) (auto intro: data_step_access sameAccess_trans)

section \<open>Accounts stay unique, bindings have their users\<close>

definition usersOk :: "user list \<Rightarrow> bool" where
  "usersOk us \<longleftrightarrow> distinct (map u_id us) \<and> distinct (map u_ext us) \<and>
     (\<forall>a \<in> set us. \<forall>b \<in> set us. u_email a = u_email b \<and> u_email a \<noteq> [] \<longrightarrow> u_id a = u_id b)"

definition accountsOk :: "store \<Rightarrow> bool" where
  "accountsOk st \<longleftrightarrow> usersOk (usersT st) \<and> b_user ` set (bindingsT st) \<subseteq> u_id ` set (usersT st)"

definition accountsWith :: "str \<Rightarrow> store \<Rightarrow> bool" where
  "accountsWith uid st \<longleftrightarrow> accountsOk st \<and> uid \<in> u_id ` set (usersT st)"

lemma accountsOk_cong: "usersT st' = usersT st \<Longrightarrow> bindingsT st' = bindingsT st \<Longrightarrow> accountsOk st' = accountsOk st"
  by (simp add: accountsOk_def)

lemma accountsWith_cong:
  "usersT st' = usersT st \<Longrightarrow> bindingsT st' = bindingsT st \<Longrightarrow> accountsWith uid st' = accountsWith uid st"
  by (simp add: accountsWith_def accountsOk_def)

lemma usersOk_append:
  assumes "usersOk us" "u_id u \<notin> set (map u_id us)" "u_ext u \<notin> set (map u_ext us)"
    and "u_email u \<noteq> [] \<Longrightarrow> u_email u \<notin> set (map u_email us)"
  shows "usersOk (us @ [u])"
proof -
  have "a \<in> set us \<Longrightarrow> u_email a = u_email u \<Longrightarrow> u_email u = []" for a
    using assms(4) image_eqI [of "u_email u" u_email a "set us"] by auto
  with assms(1-3) show ?thesis by (auto simp: usersOk_def)
qed

lemma ids_map: "(\<And>u. u_id (f u) = u_id u) \<Longrightarrow> u_id ` set (map f us) = u_id ` set us"
  by (simp add: image_image)

lemma usersOk_map:
  assumes "usersOk us" "\<And>u. u_id (f u) = u_id u" "\<And>u. u_ext (f u) = u_ext u" "\<And>u. u_email (f u) = u_email u"
  shows "usersOk (map f us)"
  using assms by (auto simp: usersOk_def comp_def)

lemma insertUser_accounts:
  assumes "insertUser u st = Inr (x, st')" "accountsOk st"
  shows "accountsWith (u_id u) st'"
proof -
  from assms(1) have "st' = st\<lparr>usersT := usersT st @ [u]\<rparr>" "u_id u \<notin> set (map u_id (usersT st))"
    "u_ext u \<notin> set (map u_ext (usersT st))" "u_email u \<noteq> [] \<Longrightarrow> u_email u \<notin> set (map u_email (usersT st))"
    by (auto simp: insertUser_def split: if_splits)
  with assms(2) usersOk_append [of "usersT st" u] show ?thesis by (auto simp: accountsWith_def accountsOk_def)
qed

lemma updateUsers_accounts:
  assumes "accountsOk st" "\<And>u. u_id (f u) = u_id u" "\<And>u. u_ext (f u) = u_ext u" "\<And>u. u_email (f u) = u_email u"
  shows "accountsOk (updateUsers p f st)"
proof -
  have "usersOk (map (\<lambda>u. if p u then f u else u) (usersT st))"
    by (rule usersOk_map) (use assms in \<open>simp_all add: accountsOk_def\<close>)
  moreover have "u_id ` set (map (\<lambda>u. if p u then f u else u) (usersT st)) = u_id ` set (usersT st)"
    by (rule ids_map) (simp add: assms(2))
  ultimately show ?thesis using assms(1) by (simp add: accountsOk_def updateUsers_def)
qed

lemma usersOk_same:
  "usersOk us \<Longrightarrow> a \<in> set us \<Longrightarrow> b \<in> set us \<Longrightarrow> u_email a = u_email b \<Longrightarrow> u_email a \<noteq> [] \<Longrightarrow> u_id a = u_id b"
  unfolding usersOk_def by blast

lemma usersOk_email:
  assumes "usersOk us" "\<And>x. x \<in> set us \<Longrightarrow> u_id x \<noteq> i \<Longrightarrow> u_email x \<noteq> e \<or> e = []"
    and "\<And>u. u_id (f u) = u_id u" "\<And>u. u_ext (f u) = u_ext u" "\<And>x. x \<in> set us \<Longrightarrow> u_id x = i \<Longrightarrow> u_email (f x) = e"
  shows "usersOk (map (\<lambda>x. if u_id x = i then f x else x) us)"
proof -
  let ?g = "\<lambda>x. if u_id x = i then f x else x"
  have m: "map u_id (map (\<lambda>x. if u_id x = i then f x else x) us) = map u_id us"
    "map u_ext (map (\<lambda>x. if u_id x = i then f x else x) us) = map u_ext us" using assms(3,4) by auto
  have "u_id (g a) = u_id (g b)"
    if "g = (\<lambda>x. if u_id x = i then f x else x)" "a \<in> set us" "b \<in> set us" "u_email (g a) = u_email (g b)"
      "u_email (g a) \<noteq> []" for a b g
  proof (cases "u_id a = i"; cases "u_id b = i")
    assume i: "u_id a \<noteq> i" "u_id b \<noteq> i"
    from usersOk_same [OF assms(1) that(2,3)] that(4,5) i show ?thesis by (simp add: that(1))
  next
    assume i: "u_id a = i" "u_id b \<noteq> i"
    from assms(5) [of a] assms(2) [of b] i that(2-5) show ?thesis by (simp add: that(1))
  next
    assume i: "u_id a \<noteq> i" "u_id b = i"
    from assms(5) [of b] assms(2) [of a] i that(2-5) show ?thesis by (simp add: that(1))
  next
    assume i: "u_id a = i" "u_id b = i"
    then show ?thesis by (simp add: that(1) assms(3))
  qed
  note em = this [OF refl]
  have d: "distinct (map u_id us)" "distinct (map u_ext us)" using assms(1) by (simp_all add: usersOk_def)
  have "u_id x = u_id y" if xy: "x \<in> ?g ` set us" "y \<in> ?g ` set us" "u_email x = u_email y" "u_email x \<noteq> []" for x y
  proof -
    obtain a b where ab: "x = ?g a" "a \<in> set us" "y = ?g b" "b \<in> set us" using xy(1,2) by blast
    show ?thesis unfolding ab(1,3) by (rule em [OF ab(2,4)]) (use xy(3,4) ab(1,3) in simp_all)
  qed
  then show ?thesis unfolding usersOk_def m set_map using d by blast
qed

lemma upsertUser_accounts:
  assumes "upsertUserByIdTx i n e st = Inr (uid, st')" "accountsOk st"
  shows "accountsWith uid st'"
proof (cases "findUser (trimSpace i) st")
  case None
  with assms(1) have "uid = trimSpace i" "insertUser (jwtUser (trimSpace i) n e (clock st)) st = Inr ((), st')"
    by (auto simp: upsertUserByIdTx_def Let_def translated_Inr bindT_Inr_iff split: if_splits)
  with insertUser_accounts [OF _ assms(2)] show ?thesis by (metis user.select_convs(1) jwtUser_def)
next
  case (Some u)
  let ?f = "\<lambda>x. x\<lparr>u_name := keepNonEmpty n (u_name x), u_email := keepNonEmpty e (u_email x), u_lastSeenAt := Some (clock st)\<rparr>"
  let ?us = "map (\<lambda>x. if u_id x = trimSpace i then ?f x else x) (usersT st)"
  have u: "u \<in> set (usersT st)" "u_id u = trimSpace i" using findFirst_Some [OF Some [unfolded findUser_def]] by auto
  have us: "usersOk (usersT st)" using assms(2) by (simp add: accountsOk_def)
  from assms(1) Some have st': "uid = trimSpace i" "st' = st\<lparr>usersT := ?us\<rparr>"
    and em: "keepNonEmpty e (u_email u) = [] \<or>
      \<not> list_ex (\<lambda>x. u_id x \<noteq> trimSpace i \<and> u_email x = keepNonEmpty e (u_email u)) (usersT st)"
    by (auto simp: upsertUserByIdTx_def Let_def translated_Inr split: if_splits)
  have one: "x = u" if "x \<in> set (usersT st)" "u_id x = trimSpace i" for x
    using us u that by (auto simp: usersOk_def distinct_map inj_on_def)
  have "usersOk ?us"
    by (rule usersOk_email [OF us, where e = "keepNonEmpty e (u_email u)"]) (use em one in \<open>auto simp: list_ex_iff\<close>)
  moreover have "u_id ` set ?us = u_id ` set (usersT st)" by (rule ids_map) simp
  moreover have "trimSpace i \<in> u_id ` set (usersT st)" using u by force
  ultimately show ?thesis using assms(2) by (simp add: accountsWith_def accountsOk_def st')
qed

section \<open>What RBAC operations keep\<close>

text \<open>An invariant \<open>P\<close> of users, bindings and clock; \<open>W uid\<close> is \<open>P\<close> for a store that has the user \<open>uid\<close>.\<close>

definition sameUsers :: "store \<Rightarrow> store \<Rightarrow> bool" where
  "sameUsers st st' \<longleftrightarrow> usersT st' = usersT st \<and> bindingsT st' = bindingsT st \<and> clock st' = clock st"

lemma frames_users:
  "newUUID st = Inr (i, st') \<Longrightarrow> sameUsers st st'"
  "insertRole r st = Inr (u, st') \<Longrightarrow> sameUsers st st'"
  "replaceRole r st = Inr (u, st') \<Longrightarrow> sameUsers st st'"
  "addRolePerm rid pid st = Inr (u, st') \<Longrightarrow> sameUsers st st'"
  "clearRolePerms rid st = Inr (u, st') \<Longrightarrow> sameUsers st st'"
  "roleIdByCodeTx c st = Inr (i, st') \<Longrightarrow> sameUsers st st'"
  "recordRoleBindingAuditTx a act tg rl stp sid st = Inr (u, st') \<Longrightarrow> sameUsers st st'"
proof -
  show "roleIdByCodeTx c st = Inr (i, st') \<Longrightarrow> sameUsers st st'"
    by (drule roleIdByCode_state) (simp add: sameUsers_def)
qed (auto simp: sameUsers_def newUUID_Inr insertRole_def replaceRole_def addRolePerm_def clearRolePerms_def
      recordRoleBindingAuditTx_def bindT_Inr_iff split: if_splits)

lemma frame_perm: "upsertPermissionTx sp st = Inr (i, st') \<Longrightarrow> sameUsers st st'"
proof -
  let ?P = "\<lambda>s. usersT s = usersT st \<and> bindingsT s = bindingsT st \<and> clock s = clock st"
  have u: "preserves ?P newUUID" by (rule preservesI) (auto simp: newUUID_Inr)
  have "preserves ?P (upsertPermissionTx sp)"
    unfolding upsertPermissionTx_def by (intro preserving u) (auto simp: preserves_def)
  from preservesD [OF this] show "upsertPermissionTx sp st = Inr (i, st') \<Longrightarrow> sameUsers st st'"
    unfolding sameUsers_def by blast
qed

locale rbac_invariant =
  fixes P :: "store \<Rightarrow> bool" and W :: "str \<Rightarrow> store \<Rightarrow> bool"
  assumes frame: "sameUsers st st' \<Longrightarrow> P st \<Longrightarrow> P st'"
    and frame_with: "sameUsers st st' \<Longrightarrow> W uid st \<Longrightarrow> W uid st'"
    and with_user: "W uid st \<Longrightarrow> P st"
    and upsert: "upsertUserByIdTx i n e st = Inr (uid, st') \<Longrightarrow> P st \<Longrightarrow> W uid st'"
    and bind: "b_user b = uid \<Longrightarrow> W uid st \<Longrightarrow> W uid (st\<lparr>bindingsT := bindingsT st @ [b]\<rparr>)"
    and unbind: "P st \<Longrightarrow> P (st\<lparr>bindingsT := map (\<lambda>x. if b_id x = i then x\<lparr>b_deleted := True\<rparr> else x) (bindingsT st)\<rparr>)"
    and pass: "P st \<Longrightarrow> P (st\<lparr>clock := clock st + k\<rparr>)"
begin

lemma label: "P st \<Longrightarrow> P (cacheUserLabel i n st)"
  by (rule frame) (simp_all add: sameUsers_def cacheUserLabel_def Let_def)

lemma preserves_frame:
  assumes "\<And>st x st'. m st = Inr (x, st') \<Longrightarrow> sameUsers st st'"
  shows "preserves P m" "preserves (W uid) m"
  using assms by (auto intro!: preservesI intro: frame frame_with)

lemma preserves_roles [preserving]:
  "preserves P newUUID" "preserves (W uid) newUUID"
  "preserves P (insertRole r)" "preserves (W uid) (insertRole r)"
  "preserves P (replaceRole r)" "preserves (W uid) (replaceRole r)"
  "preserves P (addRolePerm rid pid)" "preserves (W uid) (addRolePerm rid pid)"
  "preserves P (clearRolePerms rid)" "preserves (W uid) (clearRolePerms rid)"
  "preserves P (roleIdByCodeTx c)" "preserves (W uid) (roleIdByCodeTx c)"
  "preserves P (recordRoleBindingAuditTx a act tg rl stp sid)" "preserves (W uid) (recordRoleBindingAuditTx a act tg rl stp sid)"
  "preserves P (upsertPermissionTx sp)" "preserves (W uid) (upsertPermissionTx sp)"
  by (rule preserves_frame, (erule frames_users | erule frame_perm))+

lemma preserves_binding [preserving]: "preserves (W uid) (insertBinding (mkBinding i uid rid t s a ex k))"
  by (rule preservesI) (auto simp: insertBinding_def mkBinding_def intro: bind split: if_splits)

lemma preserves_unbind [preserving]:
  "preserves P (\<lambda>st. Inr ((), st\<lparr>bindingsT := map (\<lambda>x. if b_id x = i then x\<lparr>b_deleted := True\<rparr> else x) (bindingsT st)\<rparr>))"
  by (auto simp: preserves_def intro: unbind)

text \<open>A transaction that starts with a user: the rest knows that the user exists.\<close>

lemma preserves_upsert:
  assumes "\<And>uid. preserves (W uid) (f uid)"
  shows "preserves P (bindT (upsertUserByIdTx i n e) f)"
proof (rule preservesI)
  fix st x st' assume a: "P st" "bindT (upsertUserByIdTx i n e) f st = Inr (x, st')"
  then obtain uid s1 where s: "upsertUserByIdTx i n e st = Inr (uid, s1)" "f uid s1 = Inr (x, st')" by (auto simp: bindT_Inr_iff)
  from preservesD [OF assms upsert [OF s(1) a(1)] s(2)] show "P st'" by (rule with_user)
qed

lemma upsert_only: "preserves P (upsertUserByIdTx i n e)"
  by (rule preservesI) (blast dest: upsert with_user)

lemma runTx_keeps: "preserves P m \<Longrightarrow> runTx m st = (r, st') \<Longrightarrow> P st \<Longrightarrow> P st'"
  using preserves_runTx by blast

lemma step: "rbac_step st st' \<Longrightarrow> P st \<Longrightarrow> P st'"
proof (induction rule: rbac_step.induct)
  case (grant userId n e rc stp sid ex actor st r st')
  have "preserves P (grantRoleTx userId n e rc stp sid ex actor)"
    unfolding grantRoleTx_def by (rule preserves_upsert) (intro preserving)
  from runTx_keeps [OF this] grant show ?case
    by (auto simp: grantRole_def Let_def intro: label split: prod.splits sum.splits)
next
  case (revoke uid rc stp sid actor st r' st')
  have "preserves P (revokeRoleTx uid rc stp sid actor)" unfolding revokeRoleTx_def by (intro preserving)
  from runTx_keeps [OF this] revoke show ?case by (simp add: revokeRole_def)
next
  case (bootstrap userId n st r' st')
  define m where "m = bindT (upsertUserByIdTx userId n []) (\<lambda>uid. bindT (roleIdByCodeTx ''platform_admin'') (\<lambda>rid.
             bindT getT (\<lambda>st. case activeBindingId st uid rid ''global'' [] of
               Some _ \<Rightarrow> retT uid
             | None \<Rightarrow> bindT newUUID (\<lambda>i.
                 bindT (insertBinding (mkBinding i uid rid ''global'' None ''bootstrap'' None (clock st))) (\<lambda>_.
                 retT uid)))))"
  have "preserves P m" unfolding m_def by (rule preserves_upsert) (intro preserving)
  from runTx_keeps [OF this] bootstrap show ?case
    by (auto simp: ensureBootstrapAdmin_def m_def [symmetric] intro: label split: if_splits prod.splits sum.splits)
next
  case (system st r' st')
  have "preserves P (upsertSystemRoleTx sr)" for sr unfolding upsertSystemRoleTx_def by (intro preserving)
  note sys = this
  have "preserves P (ensureRoleTx pids sr)" for pids sr unfolding ensureRoleTx_def by (intro preserving sys)
  note this [preserving]
  have "preserves P ensureSystemDataTx" unfolding ensureSystemDataTx_def by (intro preserving)
  from runTx_keeps [OF this] system show ?case by (simp add: ensureSystemData_def)
next
  case (sync i n e st r'' st')
  with runTx_keeps [OF upsert_only] show ?case by (auto simp: syncUser_def intro: label split: prod.splits sum.splits)
next
  case (create c n d stp sid ps actor st rv st')
  show ?case using create(1) unfolding createRole_def
    by (rule runTx_keeps [rotated, OF _ create(2)]) (unfold replaceRolePermissionsTx_def Let_def, intro preserving)
next
  case (update i c n d stp sid ps actor st rv st')
  show ?case using update(1) unfolding updateRole_def
    by (rule runTx_keeps [rotated, OF _ update(2)]) (unfold replaceRolePermissionsTx_def Let_def, intro preserving)
next
  case (delete i actor st r' st')
  then have "sameUsers st st'" by (auto simp: deleteRole_def sameUsers_def split: if_splits)
  from frame [OF this delete(2)] show ?case .
next
  case (tick st k)
  then show ?case by (rule pass)
next
  case (draw st l)
  then show ?case by (rule frame [rotated]) (simp add: sameUsers_def)
qed

end

text \<open>Accounts and bindings.\<close>

interpretation accounts: rbac_invariant accountsOk accountsWith
proof unfold_locales
  fix st st' uid assume "sameUsers st st'"
  then have "usersT st' = usersT st" "bindingsT st' = bindingsT st" by (simp_all add: sameUsers_def)
  then show "accountsOk st \<Longrightarrow> accountsOk st'" "accountsWith uid st \<Longrightarrow> accountsWith uid st'"
    using accountsOk_cong [of st' st] accountsWith_cong [of st' st] by simp_all
next
  fix i n e st uid st' assume "upsertUserByIdTx i n e st = Inr (uid, st')" "accountsOk st"
  then show "accountsWith uid st'" by (rule upsertUser_accounts)
qed (auto simp: accountsWith_def accountsOk_def image_image)

lemmas rbac_step_accounts = accounts.step

section \<open>The operations on accounts\<close>

definition accountStep :: "store \<Rightarrow> store \<Rightarrow> bool" where
  "accountStep st st' \<longleftrightarrow> tbl st' = tbl st \<and> secretsT st' = secretsT st \<and>
     (accountsOk st \<longrightarrow> accountsOk st') \<and> (accountsOk st \<and> bindingsOk st \<longrightarrow> bindingsOk st')"

lemma accountStep_refl [simp]: "accountStep st st" by (simp add: accountStep_def)

lemma accountStep_users:
  assumes "\<And>u. u_id (f u) = u_id u" "\<And>u. u_ext (f u) = u_ext u" "\<And>u. u_email (f u) = u_email u"
  shows "accountStep st (updateUsers p f st)"
  using updateUsers_accounts [OF _ assms] bindingsOk_cong [of "updateUsers p f st" st]
  by (simp add: accountStep_def) (simp add: updateUsers_def)

lemma accountStep_tokens: "accountStep st (st\<lparr>tokensT := ts\<rparr>)" "accountStep st (st\<lparr>ids := l\<rparr>)"
  "accountStep st (st\<lparr>ids := l, tokensT := ts\<rparr>)"
  by (auto simp: accountStep_def accountsOk_def bindingsOk_def)

lemma accountStep_label: "accountStep st (cacheUserLabel i n st') = accountStep st st'"
  by (simp add: accountStep_def cacheUserLabel_def Let_def accountsOk_def bindingsOk_def)

lemma credentials_step: "updatePasswordHash i hash algo st = (r, st') \<Longrightarrow> accountStep st st'"
  by (auto simp: updatePasswordHash_def Let_def newCredentials_def intro!: accountStep_users split: if_splits)

lemma revoke_step: "bumpTokensValidAfter i st = (r, st') \<Longrightarrow> accountStep st st'"
  by (auto simp: bumpTokensValidAfter_def bumpWhere_def Let_def intro!: accountStep_users split: if_splits)

lemma seen_step: "accountStep st (touchLastSeen i st)"
  by (auto simp: touchLastSeen_def Let_def intro!: accountStep_users)

lemma newToken_step: "createToken i n h pre ex st = (r, st') \<Longrightarrow> accountStep st st'"
  by (auto simp: createToken_def Let_def newUUID_def insertToken_def intro: accountStep_tokens
      split: list.splits if_splits sum.splits prod.splits)

lemma dropToken_step: "softDeleteToken ti i st = (r, st') \<Longrightarrow> accountStep st st'"
  by (auto simp: softDeleteToken_def updateTokens_def Let_def intro: accountStep_tokens split: if_splits)

lemma useToken_step: "validatePAT h st = (r, st') \<Longrightarrow> accountStep st st'"
  by (auto simp: validatePAT_def updateTokens_def Let_def intro: accountStep_tokens split: option.splits if_splits)

lemma insertUser_step: "insertUser u st = Inr (x, st') \<Longrightarrow> accountStep st st'"
proof -
  assume i: "insertUser u st = Inr (x, st')"
  then have "tbl st' = tbl st" "secretsT st' = secretsT st" "bindingsT st' = bindingsT st"
    by (auto simp: insertUser_def split: if_splits)
  with insertUser_accounts [OF i] bindingsOk_cong [of st' st] show "accountStep st st'"
    by (simp add: accountStep_def accountsWith_def)
qed

lemma accountStep_trans: "accountStep a b \<Longrightarrow> accountStep b c \<Longrightarrow> accountStep a c"
  by (auto simp: accountStep_def)

lemma staff_step: "ensureJWTUser staff n email st = (r, st') \<Longrightarrow> accountStep st st'"
proof -
  assume e: "ensureJWTUser staff n email st = (r, st')"
  show ?thesis
  proof (cases "trimSpace staff = []")
    case True
    with e show ?thesis by (simp add: ensureJWTUser_def Let_def)
  next
    case False
    show ?thesis
    proof (cases "findFirst (\<lambda>u. u_ext u = trimSpace staff \<and> \<not> u_disabled u) (usersT st)")
      case (Some u)
      with e False show ?thesis by (auto simp: ensureJWTUser_def Let_def intro!: accountStep_users)
    next
      case None
      show ?thesis
      proof (cases "newUUID st")
        case (Inl x)
        with e False None show ?thesis by (simp add: ensureJWTUser_def Let_def del: findFirst_None)
      next
        case (Inr x)
        obtain i l where x: "newUUID st = Inr (i, st\<lparr>ids := l\<rparr>)" using Inr by (cases x) (auto simp: newUUID_Inr)
        let ?n = "if trimSpace n = [] then trimSpace staff else trimSpace n"
        let ?u = "companyUser i (trimSpace staff) ?n (trimSpace (toLower email)) (clock st)"
        show ?thesis
        proof (cases "insertUser ?u (st\<lparr>ids := l\<rparr>)")
          case (Inl y)
          with e False None x have "st\<lparr>ids := l\<rparr> = st'" by (simp add: ensureJWTUser_def Let_def del: findFirst_None)
          with accountStep_tokens(2) [of st l] show ?thesis by simp
        next
          case (Inr y)
          obtain z st2 where y: "insertUser ?u (st\<lparr>ids := l\<rparr>) = Inr (z, st2)" using Inr by (cases y) auto
          with e False None x have "st' = cacheUserLabel i ?n st2"
            by (simp add: ensureJWTUser_def Let_def del: findFirst_None)
          with accountStep_trans [OF accountStep_tokens(2) insertUser_step [OF y]] show ?thesis
            by (simp add: accountStep_label)
        qed
      qed
    qed
  qed
qed

text \<open>The grant of a registration cannot repeat a binding: no binding has the new user yet.\<close>

lemma firstUserGrant_step:
  assumes "firstUserGrant bid uid rid st = Inr (x, st')" "accountsWith uid st" "\<forall>b \<in> set (bindingsT st). b_user b \<noteq> uid"
  shows "accountStep st st'"
proof (cases "st' = st")
  case False
  let ?b = "mkBinding bid uid rid ''global'' None ''register'' None (clock st)"
  from assms(1) False have ins: "insertBinding ?b st = Inr (x, st')"
    by (auto simp: firstUserGrant_def split: if_splits sum.splits)
  then have b: "bindingCheck ?b" "b_id ?b \<notin> set (map b_id (bindingsT st))" "st' = st\<lparr>bindingsT := bindingsT st @ [?b]\<rparr>"
    by (auto simp: insertBinding_def split: if_splits)
  have new: "\<not> list_ex (\<lambda>y. \<not> b_deleted y \<and> sameBinding y ?b) (bindingsT st)"
    using assms(3) by (auto simp: list_ex_iff sameBinding_def mkBinding_def)
  have "bindingsOk st \<Longrightarrow> bindingsOk st'"
    by (rule bindingsOk_append [OF _ b(1,2) new]) (simp_all add: b(3))
  moreover have "accountsOk st'"
    using preservesD [OF accounts.preserves_binding assms(2) ins] by (simp add: accountsWith_def)
  ultimately show ?thesis using b(3) by (simp add: accountStep_def)
qed simp

lemma register_audit_step: "recordRoleBindingAuditTx a act tg rl stp sid st = Inr (x, st') \<Longrightarrow> accountStep st st'"
proof -
  assume r: "recordRoleBindingAuditTx a act tg rl stp sid st = Inr (x, st')"
  then obtain l rows where "st' = st\<lparr>ids := l, bindAuditT := rows\<rparr>"
    by (auto simp: recordRoleBindingAuditTx_def bindT_Inr_iff newUUID_Inr)
  then show ?thesis by (simp add: accountStep_def accountsOk_def bindingsOk_def)
qed

lemma insertPasswordUser_effect:
  assumes "insertPasswordUserTx ext email name hash algo st = Inr (uid, st')" "accountsOk st"
  shows "accountStep st st'" "accountsWith uid st'" "\<forall>b \<in> set (bindingsT st'). b_user b \<noteq> uid"
proof -
  from assms(1) obtain l where i: "insertUser (passwordUser uid ext email name hash algo (clock st)) (st\<lparr>ids := l\<rparr>) = Inr ((), st')"
    by (auto simp: insertPasswordUserTx_def bindT_Inr_iff newUUID_Inr translated_Inr)
  have ok: "accountsOk (st\<lparr>ids := l\<rparr>)" using assms(2) by (simp add: accountsOk_def)
  show "accountStep st st'" by (rule accountStep_trans [OF accountStep_tokens(2) insertUser_step [OF i]])
  show "accountsWith uid st'" using insertUser_accounts [OF i ok] by (simp add: passwordUser_def)
  have "uid \<notin> u_id ` set (usersT st)" "bindingsT st' = bindingsT st"
    using i by (auto simp: insertUser_def passwordUser_def split: if_splits)
  with assms(2) show "\<forall>b \<in> set (bindingsT st'). b_user b \<noteq> uid" by (auto simp: accountsOk_def)
qed

lemma createPasswordUserTx_step:
  assumes "createPasswordUserTx email name hash algo st = Inr (uid', st')" "accountsOk st"
  shows "accountStep st st'"
proof -
  obtain uid s1 where u: "insertPasswordUserTx (''email:'' @ email) email name hash algo st = Inr (uid, s1)"
    and rest: "(case roleIdByCodeTx ''platform_admin'' s1 of
       Inl e \<Rightarrow> if e = ErrNotFound then retT uid else failT e
     | Inr (rid, _) \<Rightarrow> bindT newUUID (\<lambda>bid.
         bindT (firstUserGrant bid uid rid) (\<lambda>_.
         bindT (ignoreErr (recordRoleBindingAuditTx ''register'' ''grant_role'' uid rid ''global'' [])) (\<lambda>_.
         retT uid)))) s1 = Inr (uid', st')"
    using assms(1) by (auto simp: createPasswordUserTx_def bindT_Inr_iff)
  note p = insertPasswordUser_effect [OF u assms(2)]
  show ?thesis
  proof (cases "roleIdByCodeTx ''platform_admin'' s1")
    case (Inl e)
    with rest p(1) show ?thesis by (auto split: if_splits)
  next
    case (Inr x)
    then obtain rid y bid s2 s3 x' where s2: "newUUID s1 = Inr (bid, s2)" and s3: "firstUserGrant bid uid rid s2 = Inr (x', s3)"
      and au: "ignoreErr (recordRoleBindingAuditTx ''register'' ''grant_role'' uid rid ''global'' []) s3 = Inr ((), st')"
      using rest by (cases x) (auto simp: bindT_Inr_iff)
    from s2 obtain l where l: "s2 = s1\<lparr>ids := l\<rparr>" by (auto simp: newUUID_Inr)
    have "accountsWith uid s2" "\<forall>b \<in> set (bindingsT s2). b_user b \<noteq> uid"
      using p(2,3) l by (simp_all add: accountsWith_def accountsOk_def)
    note g = firstUserGrant_step [OF s3 this]
    have "accountStep s3 st'"
      using au register_audit_step by (auto simp: ignoreErr_def split: sum.splits)
    then show ?thesis
      by (rule accountStep_trans [OF accountStep_trans [OF p(1) accountStep_trans [OF accountStep_tokens(2) g [unfolded l]]] ])
  qed
qed

lemma register_step:
  assumes "createPasswordUser email name hash algo st = (r, st')" "accountsOk st"
  shows "accountStep st st'"
proof -
  let ?m = "createPasswordUserTx (trimSpace (toLower email)) (trimSpace name) hash algo"
  obtain q s1 where q: "runTx ?m st = (q, s1)" by fastforce
  have "accountStep st s1"
  proof (cases q)
    case (Inl e)
    with q show ?thesis by (auto dest: runTx_Inl)
  next
    case (Inr x)
    with q createPasswordUserTx_step [OF _ assms(2)] show ?thesis by (simp add: runTx_Inr)
  qed
  moreover have "st' = st \<or> st' = s1 \<or> (\<exists>i n. st' = cacheUserLabel i n s1)"
    using assms(1) q by (auto simp: createPasswordUser_def Let_def split: if_splits sum.splits)
  ultimately show ?thesis by (auto simp: accountStep_label)
qed

section \<open>Invariants of every step\<close>

definition wellFormed :: "store \<Rightarrow> bool" where
  "wellFormed st \<longleftrightarrow> schemaOk st \<and> bindingsOk st \<and> accountsOk st"

lemma accountStep_wellFormed: "accountStep st st' \<Longrightarrow> wellFormed st \<Longrightarrow> wellFormed st'"
  using schemaOk_cong [of st st'] by (simp add: accountStep_def wellFormed_def)

lemma data_step_app: "data_step st st' \<Longrightarrow> app_step st st' \<or> (\<exists>i n. st' = cacheUserLabel i n st)"
  by (induction rule: data_step.induct) (blast intro: app_step.intros)+

lemma data_step_wellFormed:
  assumes "data_step st st'" "wellFormed st"
  shows "wellFormed st'"
proof -
  have "usersT st' = usersT st" "bindingsT st' = bindingsT st"
    using data_step_access [OF assms(1)] by (simp_all add: sameAccess_def)
  moreover have "schemaOk st'"
    using data_step_app [OF assms(1)]
  proof
    assume "app_step st st'"
    with assms(2) show ?thesis using app_step_schemaOk by (simp add: wellFormed_def)
  next
    assume "\<exists>i n. st' = cacheUserLabel i n st"
    then have "tbl st' = tbl st" "secretsT st' = secretsT st" by (auto simp: cacheUserLabel_def Let_def)
    with assms(2) schemaOk_cong [of st st'] show ?thesis by (simp add: wellFormed_def)
  qed
  ultimately show ?thesis
    using assms(2) accountsOk_cong [of st' st] bindingsOk_cong [of st' st] by (simp add: wellFormed_def)
qed

lemma rbac_step_wellFormed: "rbac_step st st' \<Longrightarrow> wellFormed st \<Longrightarrow> wellFormed st'"
  using rbac_step_data [of st st'] schemaOk_cong [of st st'] rbac_step_bindingsOk [of st st'] rbac_step_accounts [of st st']
  by (simp add: wellFormed_def)

lemma store_step_wellFormed: "store_step st st' \<Longrightarrow> wellFormed st \<Longrightarrow> wellFormed st'"
proof (induction rule: store_step.induct)
  case (data st st')
  then show ?case by (rule data_step_wellFormed)
next
  case (rbac st st')
  then show ?case by (rule rbac_step_wellFormed)
next
  case (register email name hash algo st r st')
  have "accountsOk st" using register(2) by (simp add: wellFormed_def)
  then show ?case by (rule accountStep_wellFormed [OF register_step [OF register(1)] register(2)])
next
  case (staff staff n email st r st')
  show ?case by (rule accountStep_wellFormed [OF staff_step [OF staff(1)] staff(2)])
next
  case (credentials i hash algo st r st')
  show ?case by (rule accountStep_wellFormed [OF credentials_step [OF credentials(1)] credentials(2)])
next
  case (revoke i st r st')
  show ?case by (rule accountStep_wellFormed [OF revoke_step [OF revoke(1)] revoke(2)])
next
  case (seen st i)
  then show ?case by (rule accountStep_wellFormed [OF seen_step])
next
  case (newToken i n h pre ex st r st')
  show ?case by (rule accountStep_wellFormed [OF newToken_step [OF newToken(1)] newToken(2)])
next
  case (dropToken ti i st r st')
  show ?case by (rule accountStep_wellFormed [OF dropToken_step [OF dropToken(1)] dropToken(2)])
next
  case (useToken h st r st')
  show ?case by (rule accountStep_wellFormed [OF useToken_step [OF useToken(1)] useToken(2)])
qed

lemma reaches_wellFormed: "reaches store_step st st' \<Longrightarrow> wellFormed st \<Longrightarrow> wellFormed st'"
  unfolding reaches_def by (induction rule: rtranclp_induct) (auto intro: store_step_wellFormed)

section \<open>The running server\<close>

lemma run_resolver:
  assumes "run pf w = (Inr (d, s), st)"
  shows "dp_resolver d = Some (\<lambda>staffUserId c. ensureJWTUser staffUserId (cl_name c) (cl_staffEmail c))"
  using assms by (auto simp: run_def Let_def dependenciesOf_def split: sum.splits prod.splits if_splits)

lemma started_serve_reaches:
  assumes "run pf w = (Inr (d, s0), st)"
  shows "reaches store_step (stored s) (stored (snd (serve d rq s)))"
  by (rule api.serve_reaches) (use run_resolver [OF assms] in \<open>auto intro: reaches_step store_step.staff\<close>)

section \<open>Histories of requests\<close>

text \<open>A history of the server: requests in any order and from anyone; time passes, identifiers come in, and
  the refresher of the revocation cache makes its rounds.\<close>

inductive api_step :: "'l dependencies \<Rightarrow> 'l server \<Rightarrow> 'l server \<Rightarrow> bool" for d where
  served: "api_step d s (snd (serve d rq s))"
| elapsed: "api_step d s (s\<lparr>sv_world := (sv_world s)\<lparr>w_st := (stored s)\<lparr>clock := clock (stored s) + k\<rparr>\<rparr>\<rparr>)"
| drawn: "api_step d s (s\<lparr>sv_world := (sv_world s)\<lparr>w_st := (stored s)\<lparr>ids := l\<rparr>\<rparr>\<rparr>)"
| refreshed: "api_step d s (s\<lparr>sv_tokens := map_option (setBatch (listUsersWithTokensValidAfter (stored s))) (sv_tokens s)\<rparr>)"

lemma wellFormed_labels: "wellFormed (st\<lparr>labelsC := l\<rparr>) = wellFormed st"
proof -
  have "tbl (st\<lparr>labelsC := l\<rparr>) = tbl st" "secretsT (st\<lparr>labelsC := l\<rparr>) = secretsT st" by simp_all
  then have "schemaOk (st\<lparr>labelsC := l\<rparr>) = schemaOk st"
    using schemaOk_cong [of st "st\<lparr>labelsC := l\<rparr>"] schemaOk_cong [of "st\<lparr>labelsC := l\<rparr>" st] by auto
  then show ?thesis by (simp add: wellFormed_def bindingsOk_def accountsOk_def)
qed

lemma prepareStore_wellFormed:
  assumes "prepareStore getenv st0 = (r, st)" "wellFormed st0"
  shows "wellFormed st"
proof -
  obtain q st1 where e: "ensureSystemData (st0\<lparr>labelsC := []\<rparr>) = (q, st1)" by fastforce
  have w1: "wellFormed st1"
    by (rule rbac_step_wellFormed [OF rbac_step.system [OF e]]) (simp add: wellFormed_labels assms(2))
  then have w2: "wellFormed (loadUserCache st1)" by (simp add: loadUserCache_def wellFormed_labels)
  have "st = st1 \<or> st = loadUserCache st1 \<or> (\<exists>i n r'. ensureBootstrapAdmin i n (loadUserCache st1) = (r', st))"
    using assms(1) e by (auto simp: prepareStore_def Let_def split: sum.splits if_splits)
  then show ?thesis using w1 w2 by (auto intro: rbac_step_wellFormed rbac_step.bootstrap)
qed

text \<open>A request of a new user who registers at the server of \<open>bootPlatform\<close>.\<close>

definition registration :: httpRequest where
  "registration = (request POST ''/api/v1/auth/register'' [])
     \<lparr>hq_body := noBody\<lparr>bd_register := Some (''new@example.com'', ''New'', ''long enough 1'')\<rparr>\<rparr>"

lemma bootOutside_wellFormed: "wellFormed (ou_st bootOutside)"
proof -
  have "schemaOk (ou_st bootOutside)"
    by (rule schemaOk_cong [OF schemaOk_empty]) (simp_all add: bootOutside_def)
  then show ?thesis
    by (simp add: wellFormed_def bindingsOk_def accountsOk_def usersOk_def activeBindings_def bootOutside_def emptyStore_def)
qed

text \<open>C2. The stored data stay well formed over every history of the server. Started on a well-formed database, after
  any sequence of requests, from anyone and in any order, the tables satisfy the schema, no two accounts share an
  identifier, an external identifier or an e-mail address, every role binding has its user, and nobody holds
  a role twice at the same scope.\<close>

theorem history_wellFormed:
  assumes "run pf w = (Inr (d, s0), st)" "wellFormed (ou_st w)" "rtranclp (api_step d) s0 s"
  shows "wellFormed (stored s)"
  using assms(3)
proof (induction rule: rtranclp_induct)
  case base
  have "prepareStore (pf_getenv pf) (ou_st w) = (Inr (), stored s0)"
    using run_effect [OF assms(1)] by (simp add: stored_def)
  from prepareStore_wellFormed [OF this assms(2)] show ?case .
next
  case (step x y)
  from step.hyps(2) show ?case
  proof cases
    case (served rq)
    with reaches_wellFormed [OF started_serve_reaches [OF assms(1)] step.IH] show ?thesis by simp
  next
    case (elapsed k)
    with rbac_step_wellFormed [OF rbac_step.tick step.IH] show ?thesis by (simp add: stored_def)
  next
    case (drawn l)
    with rbac_step_wellFormed [OF rbac_step.draw step.IH] show ?thesis by (simp add: stored_def)
  next
    case refreshed
    with step.IH show ?thesis by (simp add: stored_def)
  qed
qed

text \<open>C13. Requests on resources and secrets never change who may do what: no call of their handlers, by any user and
  with any body, changes an account, a role, a permission, a binding, its audit, or an access token.\<close>

theorem resources_keep_access:
  "sameAccess (stored s) (stored (snd (entityEndpoint d e u b s))) \<and>
   sameAccess (stored s) (stored (snd (secretEndpoint d e' u b s)))"
  using resources.runsV_entity [of d e u b] resources.runsV_secret [of d e' u b] reaches_access
  by (simp add: runsV_def)

theorem history_wellFormed_witness:
  "\<exists>d s st. run bootPlatform bootOutside = (Inr (d, s), st) \<and>
     wellFormed (stored (snd (serve d registration (snd (serve d registration s)))))"
proof -
  obtain d s st where r: "run bootPlatform bootOutside = (Inr (d, s), st)" by (rule boot_run)
  let ?s1 = "snd (serve d registration s)"
  have "api_step d s ?s1" "api_step d ?s1 (snd (serve d registration ?s1))" by (rule api_step.served)+
  then have "rtranclp (api_step d) s (snd (serve d registration ?s1))" by (auto intro: rtranclp.intros)
  from history_wellFormed [OF r bootOutside_wellFormed this] r show ?thesis by blast
qed

end
