(* ===== verification/LogoutProps.thy ===== *)
theory LogoutProps
  imports RequestProps
begin

text \<open>
  A logout is final: whatever requests follow, by anyone, the revocation time of the user never falls, in the database or
  in the cache of this instance, so the tokens of earlier seconds stay refused.
\<close>

section \<open>The revocation time in the database\<close>

text \<open>The user exists, and its tokens of before \<open>t\<close>, a time in the past, are revoked.\<close>

definition revoked :: "str \<Rightarrow> nat \<Rightarrow> store \<Rightarrow> bool" where
  "revoked i t st \<longleftrightarrow> t \<le> clock st \<and> i \<in> u_id ` set (usersT st) \<and> (\<forall>u \<in> set (usersT st). u_id u = i \<longrightarrow> t \<le> tvaOf u)"

lemma revoked_frame: "usersT st' = usersT st \<Longrightarrow> clock st \<le> clock st' \<Longrightarrow> revoked i t st \<Longrightarrow> revoked i t st'"
  by (auto simp: revoked_def)

lemma revoked_insert:
  assumes "insertUser u st = Inr (x, st')" "revoked i t st"
  shows "revoked i t st'"
proof -
  from assms(1) have "usersT st' = usersT st @ [u]" "clock st' = clock st" "u_id u \<notin> u_id ` set (usersT st)"
    by (auto simp: insertUser_def split: if_splits)
  with assms(2) show ?thesis by (auto simp: revoked_def)
qed

lemma revoked_map:
  assumes "revoked i t st" "\<And>u. u_id (f u) = u_id u" "\<And>u. t \<le> tvaOf u \<Longrightarrow> t \<le> tvaOf (f u)"
    and "usersT st' = map f (usersT st)" "clock st' = clock st"
  shows "revoked i t st'"
  using assms by (simp add: revoked_def image_image)

lemma revoked_update:
  assumes "revoked i t st" "\<And>u. u_id (f u) = u_id u" "\<And>u. t \<le> tvaOf u \<Longrightarrow> t \<le> tvaOf (f u)"
  shows "revoked i t (updateUsers p f st)"
  by (rule revoked_map [OF assms(1), where f = "\<lambda>u. if p u then f u else u"]) (simp_all add: assms(2,3) updateUsers_def)

lemma revoked_load: "revoked i t st \<Longrightarrow> trimSpace i = i \<Longrightarrow> getTokensValidAfter st i = Inr v \<Longrightarrow> t \<le> v"
  by (auto simp: revoked_def getTokensValidAfter_def Let_def findUser_def bindE_Inr_iff optE_iff dest: findFirst_Some split: if_splits)

lemma revoked_upsert:
  assumes "upsertUserByIdTx n nm e st = Inr (uid, st')" "revoked i t st"
  shows "revoked i t st'"
proof (cases "findUser (trimSpace n) st")
  case None
  with assms(1) have "insertUser (jwtUser (trimSpace n) nm e (clock st)) st = Inr ((), st')"
    by (auto simp: upsertUserByIdTx_def Let_def translated_Inr bindT_Inr_iff split: if_splits)
  from revoked_insert [OF this assms(2)] show ?thesis .
next
  case (Some u)
  let ?f = "\<lambda>x. x\<lparr>u_name := keepNonEmpty nm (u_name x), u_email := keepNonEmpty e (u_email x), u_lastSeenAt := Some (clock st)\<rparr>"
  from assms(1) Some have "usersT st' = map (\<lambda>x. if u_id x = trimSpace n then ?f x else x) (usersT st)" "clock st' = clock st"
    by (auto simp: upsertUserByIdTx_def Let_def translated_Inr split: if_splits)
  then show ?thesis
    by (intro revoked_map [OF assms(2), where f = "\<lambda>x. if u_id x = trimSpace n then ?f x else x"]) (simp_all add: tvaOf_def)
qed

interpretation revocation: rbac_invariant "revoked i t" "\<lambda>_. revoked i t" for i t
proof unfold_locales
  fix n nm e st uid st' assume "upsertUserByIdTx n nm e st = Inr (uid, st')" "revoked i t st"
  then show "revoked i t st'" by (rule revoked_upsert)
qed (auto simp: sameUsers_def intro: revoked_frame)

lemma revoked_register:
  assumes "createPasswordUser email name hash algo st = (r, st')" "revoked i t st"
  shows "revoked i t st'"
proof -
  note [preserving] = revocation.preserves_roles(1,7) revocation.preserves_roles
  have ins: "preserves (revoked i t) (insertUser u)" for u by (rule preservesI) (blast intro: revoked_insert)
  have user: "preserves (revoked i t) (insertPasswordUserTx ext e n h a)" for ext e n h a
    unfolding insertPasswordUserTx_def by (intro preserving preserves_translated ins)
  have first: "preserves (revoked i t) (firstUserGrant bid uid rid)" for bid uid rid
    by (rule preservesI) (auto simp: firstUserGrant_def insertBinding_def intro: revoked_frame split: if_splits sum.splits)
  have audit: "preserves (revoked i t) (ignoreErr (recordRoleBindingAuditTx a b c d e f))" for a b c d e f
    using revocation.preserves_roles(13) [of i t a b c d e f]
    by (auto simp: preserves_def ignoreErr_def split: sum.splits)
  let ?m = "createPasswordUserTx (trimSpace (toLower email)) (trimSpace name) hash algo"
  have sum: "preserves (revoked i t) (case r of Inl e \<Rightarrow> a e | Inr x \<Rightarrow> b x)"
    if "\<And>e. preserves (revoked i t) (a e)" "\<And>x. preserves (revoked i t) (b x)"
    for r :: "goErr + str \<times> store" and a :: "goErr \<Rightarrow> str tx" and b
    using that by (cases r) auto
  have "preserves (revoked i t) ?m"
    unfolding createPasswordUserTx_def by (intro preserving user first audit sum)
  with assms(2) have run: "runTx ?m st = (q, s1) \<Longrightarrow> revoked i t s1" for q s1 using preserves_runTx by blast
  obtain q s1 where q: "runTx ?m st = (q, s1)" by fastforce
  have "st' = st \<or> st' = s1 \<or> (\<exists>i n. st' = cacheUserLabel i n s1)"
    using assms(1) q by (auto simp: createPasswordUser_def Let_def split: if_splits sum.splits)
  with run [OF q] assms(2) revocation.label show ?thesis by blast
qed

lemma revoked_staff:
  assumes "ensureJWTUser staff n email st = (r, st')" "revoked i t st"
  shows "revoked i t st'"
proof (cases "trimSpace staff = []")
  case True
  with assms show ?thesis by (simp add: ensureJWTUser_def Let_def)
next
  case False
  show ?thesis
  proof (cases "findFirst (\<lambda>u. u_ext u = trimSpace staff \<and> \<not> u_disabled u) (usersT st)")
    case (Some u)
    with assms False show ?thesis by (auto simp: ensureJWTUser_def Let_def tvaOf_def intro!: revoked_update)
  next
    case None
    let ?n = "if trimSpace n = [] then trimSpace staff else trimSpace n"
    let ?u = "\<lambda>j st. companyUser j (trimSpace staff) ?n (trimSpace (toLower email)) (clock st)"
    consider "st' = st" | l where "st' = st\<lparr>ids := l\<rparr>"
      | j l y st2 where "insertUser (?u j (st\<lparr>ids := l\<rparr>)) (st\<lparr>ids := l\<rparr>) = Inr (y, st2)" "st' = cacheUserLabel j ?n st2"
      using assms(1) False None
      by (auto simp: ensureJWTUser_def Let_def newUUID_def simp del: findFirst_None split: list.splits sum.splits)
    then show ?thesis
    proof cases
      case 1
      with assms(2) show ?thesis by simp
    next
      case (2 l)
      with assms(2) show ?thesis by (auto intro: revoked_frame)
    next
      case (3 j l y st2)
      have "revoked i t (st\<lparr>ids := l\<rparr>)" using assms(2) by (auto intro: revoked_frame)
      from revocation.label [OF revoked_insert [OF 3(1) this]] 3(2) show ?thesis by simp
    qed
  qed
qed

lemma store_step_revoked: "store_step st st' \<Longrightarrow> revoked i t st \<Longrightarrow> revoked i t st'"
proof (induction rule: store_step.induct)
  case (data st st')
  then have "sameAccess st st'" by (rule_tac data_step_access)
  with data(2) show ?case by (auto simp: sameAccess_def intro: revoked_frame)
next
  case (rbac st st')
  then show ?case by (rule revocation.step)
next
  case (register email name hash algo st r st')
  then show ?case by (rule revoked_register)
next
  case (staff staff n email st r st')
  then show ?case by (rule revoked_staff)
next
  case (credentials j hash algo st r st')
  moreover have "t \<le> clock st" using credentials(2) by (simp add: revoked_def)
  ultimately show ?case
    by (auto simp: updatePasswordHash_def Let_def newCredentials_def tvaOf_def intro!: revoked_update split: if_splits)
next
  case (revoke j st r st')
  moreover have "t \<le> clock st" using revoke(2) by (simp add: revoked_def)
  ultimately show ?case
    by (auto simp: bumpTokensValidAfter_def bumpWhere_def Let_def tvaOf_def intro!: revoked_update split: if_splits)
next
  case (seen st j)
  then show ?case by (auto simp: touchLastSeen_def Let_def tvaOf_def intro!: revoked_update)
next
  case (newToken j n h pre ex st r st')
  then show ?case
    by (auto simp: createToken_def Let_def newUUID_def insertToken_def intro: revoked_frame split: list.splits if_splits sum.splits prod.splits)
next
  case (dropToken ti j st r st')
  then show ?case by (auto simp: softDeleteToken_def updateTokens_def Let_def intro: revoked_frame split: if_splits)
next
  case (useToken h st r st')
  then show ?case by (auto simp: validatePAT_def updateTokens_def Let_def intro: revoked_frame split: option.splits if_splits)
qed

lemma reaches_revoked: "reaches store_step st st' \<Longrightarrow> revoked i t st \<Longrightarrow> revoked i t st'"
  unfolding reaches_def by (induction rule: rtranclp_induct) (auto intro: store_step_revoked)

section \<open>The revocation time in the cache\<close>

text \<open>The instance has a cache, which holds no earlier time for the user.\<close>

definition cacheRevoked :: "str \<Rightarrow> nat \<Rightarrow> tokensCache option \<Rightarrow> bool" where
  "cacheRevoked i t tc \<longleftrightarrow> (\<exists>c. tc = Some c \<and> (\<forall>v. c i = Some v \<longrightarrow> t \<le> v))"

lemma cacheRevoked_set: "cacheRevoked i t tc \<Longrightarrow> (k = i \<Longrightarrow> t \<le> v) \<Longrightarrow> cacheRevoked i t (map_option (cacheSet k v) tc)"
  by (cases tc) (auto simp: cacheRevoked_def cacheSet_def)

definition outdated :: "str \<Rightarrow> nat \<Rightarrow> session \<Rightarrow> bool" where
  "outdated i t x \<longleftrightarrow> revoked i t (se_st x) \<and> cacheRevoked i t (se_tokens x)"

lemma checkRevoked_outdated:
  assumes "checkRevoked c x = (b, y)" "outdated i t x" "trimSpace i = i"
  shows "outdated i t y"
proof -
  from assms(2) obtain tc where tc: "se_tokens x = Some tc" "\<And>v. tc i = Some v \<Longrightarrow> t \<le> v" and r: "revoked i t (se_st x)"
    by (auto simp: outdated_def cacheRevoked_def)
  have "se_st y = se_st x" "se_tokens y = Some (snd (cacheGet (Some (getTokensValidAfter (se_st x))) (cl_userId c) tc))"
    using assms(1) tc(1) by (auto simp: checkRevoked_def split: prod.splits)
  with tc(2) r revoked_load [OF r assms(3)] show ?thesis
    by (auto simp: outdated_def cacheRevoked_def cacheGet_def split: option.splits sum.splits if_splits)
qed

text \<open>The resolver of company tokens that \<open>run\<close> installs, or none.\<close>

definition standardResolver :: "'l dependencies \<Rightarrow> bool" where
  "standardResolver d \<longleftrightarrow> (\<forall>res. dp_resolver d = Some res \<longrightarrow>
     res = (\<lambda>staffUserId c. ensureJWTUser staffUserId (cl_name c) (cl_staffEmail c)))"

lemma run_standardResolver: "run pf w = (Inr (d, s), st) \<Longrightarrow> standardResolver d"
  by (simp add: run_resolver standardResolver_def)

lemma resolver_reaches:
  assumes "standardResolver d" "dp_resolver d = Some res" "res staff c st = (r, st')"
  shows "reaches store_step st st'"
  using assms by (auto simp: standardResolver_def intro: reaches_step store_step.staff)

lemma authenticate_outdated:
  assumes "standardResolver d" "trimSpace i = i" "outdated i t x" "authenticate d header x = (r, y)"
  shows "outdated i t y"
proof -
  have "revoked i t (se_st y)"
    using assms(3) reaches_revoked [OF api.authenticate_reaches [OF resolver_reaches [OF assms(1)] assms(4)]] by (simp add: outdated_def)
  moreover have "cacheRevoked i t (se_tokens y)"
  proof -
    have jwt: "cacheRevoked i t (se_tokens y)"
      if j: "jwtMiddleware kl jl \<lparr>jc_publicKey = pk, jc_resolver = dp_resolver d\<rparr> header x = (r, y)" for kl jl pk
    proof -
      let ?cfg = "\<lparr>jc_publicKey = pk, jc_resolver = dp_resolver d\<rparr>"
      consider "se_tokens y = se_tokens x" | c0 q st' c b where "resolveUser ?cfg c0 (se_st x) = (q, st')"
          "checkRevoked c (x\<lparr>se_st := st'\<rparr>) = (b, y)"
        using j by (auto simp: jwtMiddleware_def split: sum.splits prod.splits bool.splits)
      then show ?thesis
      proof cases
        case 1
        with assms(3) show ?thesis by (simp add: outdated_def)
      next
        case (2 c0 q st' c b)
        have "reaches store_step (se_st x) st'"
          using 2(1) resolver_reaches [OF assms(1)] by (auto simp: resolveUser_def split: option.splits sum.splits prod.splits if_splits)
        from reaches_revoked [OF this] assms(3) have "outdated i t (x\<lparr>se_st := st'\<rparr>)" by (simp add: outdated_def)
        from checkRevoked_outdated [OF 2(2) this assms(2)] show ?thesis by (simp add: outdated_def)
      qed
    qed
    have pat: "se_tokens y = se_tokens x" if "patMiddleware cfg header x = (r, y)" for cfg
      using that by (auto simp: patMiddleware_def split: if_splits sum.splits prod.splits)
    show ?thesis
      using assms(3,4) jwt pat
      by (auto simp: authenticate_def Let_def combinedAuthMiddleware_def outdated_def split: if_splits)
  qed
  ultimately show ?thesis by (simp add: outdated_def)
qed

section \<open>The endpoints of accounts\<close>

definition keepsCache :: "str \<Rightarrow> nat \<Rightarrow> ('l authWorld \<Rightarrow> 'a \<times> 'l authWorld) \<Rightarrow> bool" where
  "keepsCache i t m \<longleftrightarrow> (\<forall>w. revoked i t (aw_st w) \<longrightarrow> cacheRevoked i t (aw_tokens w) \<longrightarrow> cacheRevoked i t (aw_tokens (snd (m w))))"

lemma keepsCacheD:
  "keepsCache i t m \<Longrightarrow> revoked i t (aw_st w) \<Longrightarrow> cacheRevoked i t (aw_tokens w) \<Longrightarrow> cacheRevoked i t (aw_tokens (snd (m w)))"
  by (simp add: keepsCache_def)

lemma keepsCache_same: "(\<And>w r w'. m w = (r, w') \<Longrightarrow> aw_tokens w' = aw_tokens w) \<Longrightarrow> keepsCache i t m"
  unfolding keepsCache_def by (metis prod.collapse)

named_theorems caching \<open>operations that leave no earlier revocation time in the cache\<close>

lemma keepsCache_calls [caching]:
  "keepsCache i t m \<Longrightarrow> keepsCache i t (authCall m)" "keepsCache i t m \<Longrightarrow> keepsCache i t (patCall m)"
  "(\<And>s r. keepsCache i t (k s r)) \<Longrightarrow> keepsCache i t (authBind svc rdy missing req k)" "keepsCache i t (\<lambda>w. (x, w))"
  by (auto simp: keepsCache_def authCall_def patCall_def authBind_def split: prod.splits option.splits)

lemma keepsCache_prod [caching]: "(\<And>x y. keepsCache i t (f x y)) \<Longrightarrow> keepsCache i t (case p of (x, y) \<Rightarrow> f x y)" by (cases p) simp
lemma keepsCache_if [caching]: "keepsCache i t a \<Longrightarrow> keepsCache i t b \<Longrightarrow> keepsCache i t (if c then a else b)" by simp

lemma hashS_frame: "hashS svc p w = (r, w') \<Longrightarrow> aw_tokens w' = aw_tokens w"
  by (auto simp: hashS_def split: sum.splits prod.splits)

lemma record_tokens: "aw_tokens (recordAttempt e ip ok uid w) = aw_tokens w"
  by (simp add: recordAttempt_def split: prod.splits)

lemma limit_tokens: "aw_tokens (limitRecord svc ip ok w) = aw_tokens w"
  by (simp add: limitRecord_def split: option.splits)

lemma limitCheck_tokens: "limitCheck svc ip w = (r, w') \<Longrightarrow> aw_tokens w' = aw_tokens w"
  by (auto simp: limitCheck_def split: option.splits prod.splits)

lemma keepsCache_register [caching]: "keepsCache i t (register svc email name password)"
  by (rule keepsCache_same)
    (auto simp: register_def Let_def record_tokens dest: hashS_frame split: sum.splits prod.splits)

lemma keepsCache_login [caching]: "keepsCache i t (login svc email password ip)"
  by (rule keepsCache_same)
    (auto simp: login_def refuse_def Let_def record_tokens limit_tokens dest: limitCheck_tokens split: sum.splits prod.splits if_splits)

lemma keepsCache_pats [caching]: "keepsCache i t (createPAT sha j name ex)" "keepsCache i t (deletePAT j ti)"
  by (rule keepsCache_same; auto simp: createPAT_def deletePAT_def Let_def split: sum.splits prod.splits if_splits)+

lemma keepsCache_logout [caching]: "keepsCache i t (logout j)"
proof (unfold keepsCache_def, intro allI impI)
  fix w :: "'a authWorld" assume r: "revoked i t (aw_st w)" "cacheRevoked i t (aw_tokens w)"
  obtain q st where b: "bumpTokensValidAfter j (aw_st w) = (q, st)" by fastforce
  have "q = Inr v \<Longrightarrow> t \<le> v" for v
    using b r(1) by (auto simp: bumpTokensValidAfter_def bumpWhere_def Let_def revoked_def split: if_splits)
  with b r(2) show "cacheRevoked i t (aw_tokens (snd (logout j w)))"
    by (auto simp: logout_def setToken_def intro: cacheRevoked_set split: sum.splits)
qed

lemma changePassword_tokens:
  "aw_tokens (snd (changePassword svc j old new w)) = aw_tokens w \<or>
   (\<exists>h u st' v. updatePasswordHash j h algoArgon2id (aw_st w) = (Inr u, st') \<and> u_tva u = Some v \<and>
      aw_tokens (snd (changePassword svc j old new w)) = map_option (cacheSet j v) (aw_tokens w))"
proof -
  obtain q w1 where h: "hashS svc new w = (q, w1)" by fastforce
  have s: "aw_st w1 = aw_st w" "aw_tokens w1 = aw_tokens w" using hashS_store [OF h] hashS_frame [OF h] by simp_all
  show ?thesis
  proof (cases q)
    case (Inl e)
    with h s show ?thesis by (auto simp: changePassword_def split: sum.splits if_splits)
  next
    case (Inr hash)
    obtain q2 st2 where u: "updatePasswordHash j hash algoArgon2id (aw_st w) = (q2, st2)" by fastforce
    show ?thesis
    proof (cases q2)
      case (Inl e)
      with h s u \<open>q = Inr hash\<close> show ?thesis by (auto simp: changePassword_def split: sum.splits if_splits)
    next
      case (Inr up)
      with h s u \<open>q = Inr hash\<close> have "snd (changePassword svc j old new w) = w \<or> snd (changePassword svc j old new w) =
          (case u_tva up of None \<Rightarrow> w1\<lparr>aw_st := st2\<rparr> | Some t \<Rightarrow> setToken j t (w1\<lparr>aw_st := st2\<rparr>))"
        by (auto simp: changePassword_def Let_def split: sum.splits if_splits)
      then show ?thesis
      proof (cases "u_tva up")
        case None
        with \<open>snd (changePassword svc j old new w) = w \<or> _\<close> s(2) show ?thesis by auto
      next
        case (Some v)
        with \<open>snd (changePassword svc j old new w) = w \<or> _\<close> s(2)
        have "aw_tokens (snd (changePassword svc j old new w)) = aw_tokens w \<or>
            aw_tokens (snd (changePassword svc j old new w)) = map_option (cacheSet j v) (aw_tokens w)"
          by (auto simp: setToken_def)
        with Some u Inr show ?thesis by blast
      qed
    qed
  qed
qed

lemma keepsCache_changePassword [caching]: "keepsCache i t (changePassword svc j old new)"
proof (unfold keepsCache_def, intro allI impI)
  fix w :: "'a authWorld" assume r: "revoked i t (aw_st w)" "cacheRevoked i t (aw_tokens w)"
  have v: "t \<le> v" if "updatePasswordHash j h a (aw_st w) = (Inr u, st')" "u_tva u = Some v" for h a u st' v
  proof -
    let ?k = "trimSpace j"
    from that(1) have "getUserByIdA (updateUsers (\<lambda>u. u_id u = ?k) (newCredentials h a (clock (aw_st w))) (aw_st w)) ?k = Inr u"
      by (auto simp: updatePasswordHash_def Let_def split: if_splits)
    then have "u \<in> set (usersT (updateUsers (\<lambda>u. u_id u = ?k) (newCredentials h a (clock (aw_st w))) (aw_st w)))" "u_id u = ?k"
      by (auto simp: getUserByIdA_def findUser_def bindE_Inr_iff optE_iff Let_def dest!: findFirst_Some split: if_splits)
    then have "u_tva u = Some (clock (aw_st w))" by (auto simp: updateUsers_def newCredentials_def split: if_splits)
    with that(2) r(1) show ?thesis by (simp add: revoked_def)
  qed
  from changePassword_tokens [of svc j old new w] show "cacheRevoked i t (aw_tokens (snd (changePassword svc j old new w)))"
    using r(2) v by (elim disjE exE conjE) (auto intro!: cacheRevoked_set simp del: option.map_sel)
qed

lemma keepsCache_endpoints [caching]:
  "keepsCache i t (registerH svc rdy rg)" "keepsCache i t (loginH svc rdy ip lg)"
  "keepsCache i t (changePasswordH svc rdy ctx cp)" "keepsCache i t (createPATH psvc rdy ctx pc)"
  "keepsCache i t (deletePATH psvc rdy ctx pd)"
  unfolding registerH_def loginH_def changePasswordH_def createPATH_def deletePATH_def by (intro caching)+

lemma keepsCache_listPATs [caching]: "keepsCache i t (listPATsH psvc ctx)"
  by (rule keepsCache_same) (auto simp: listPATsH_def split: option.splits sum.splits)

lemma keepsCache_logoutH [caching]: "keepsCache i t (logoutH svc ctx)"
proof (unfold keepsCache_def, intro allI impI)
  fix w :: "'a authWorld" assume r: "revoked i t (aw_st w)" "cacheRevoked i t (aw_tokens w)"
  have "cacheRevoked i t (aw_tokens (snd (logout (ui_id (userFromContext ctx)) w)))"
    by (rule keepsCacheD [OF keepsCache_logout r])
  moreover have "snd (logoutH svc ctx w) = w \<or> snd (logoutH svc ctx w) = snd (logout (ui_id (userFromContext ctx)) w)"
    by (auto simp: logoutH_def split: option.splits sum.splits prod.splits)
  ultimately show "cacheRevoked i t (aw_tokens (snd (logoutH svc ctx w)))" using r(2) by auto
qed

section \<open>The running server\<close>

lemma onAuth_tokens:
  assumes "keepsCache i t h" "outdated i t (sessionOf s)"
  shows "cacheRevoked i t (sv_tokens (snd (onAuth f h s)))"
proof -
  have "revoked i t (aw_st (authWorldOf s))" "cacheRevoked i t (aw_tokens (authWorldOf s))"
    using assms(2) by (simp_all add: outdated_def sessionOf_def authWorldOf_def)
  from keepsCacheD [OF assms(1) this] show ?thesis
    by (cases "h (authWorldOf s)") (simp add: onAuth_def setAuthWorld_def)
qed

lemma onWorld_tokens: "sv_tokens (snd (onWorld f h s)) = sv_tokens s"
  by (simp add: onWorld_def split: prod.splits)

lemma pureReply_same: "snd (pureReply f r s) = s" by (simp add: pureReply_def)

lemma accountEndpoint_tokens:
  assumes "outdated i t (sessionOf s)"
  shows "cacheRevoked i t (sv_tokens (snd (accountEndpoint d e ctx rq s)))"
proof -
  have "cacheRevoked i t (sv_tokens s)" using assms by (simp add: outdated_def sessionOf_def)
  then show ?thesis
    by (cases e) (simp_all add: accountEndpoint_def Let_def pureReply_same onAuth_tokens [OF _ assms] caching)
qed

lemma entity_tokens: "sv_tokens (snd (entityEndpoint d e u b s)) = sv_tokens s"
  by (cases e) (simp_all add: entityEndpoint_def Let_def onWorld_tokens)

lemma secret_tokens: "sv_tokens (snd (secretEndpoint d e u b s)) = sv_tokens s"
  by (cases e) (simp_all add: secretEndpoint_def Let_def onWorld_tokens)

lemma rbac_tokens: "sv_tokens (snd (rbacEndpoint d e u b s)) = sv_tokens s"
  by (cases e) (simp_all add: rbacEndpoint_def Let_def onWorld_tokens)

lemma handle_outdated:
  assumes "outdated i t (sessionOf s)"
  shows "outdated i t (sessionOf (snd (handle d e ctx rq s)))"
proof -
  have "reaches store_step (stored s) (stored (snd (handle d e ctx rq s)))"
    using api.runsV_handle [of d e ctx rq] by (simp add: runsV_def)
  from reaches_revoked [OF this] assms have "revoked i t (stored (snd (handle d e ctx rq s)))"
    by (simp add: outdated_def sessionOf_def stored_def)
  moreover have "cacheRevoked i t (sv_tokens (snd (handle d e ctx rq s)))"
    using accountEndpoint_tokens [OF assms] assms
    by (cases e) (simp_all add: handle_def Let_def entity_tokens secret_tokens rbac_tokens outdated_def sessionOf_def)
  ultimately show ?thesis by (simp add: outdated_def sessionOf_def stored_def)
qed

lemma sessionOf_setSession [simp]: "sessionOf (setSession x s) = x"
  by (simp add: sessionOf_def setSession_def)

lemma serve_outdated:
  assumes "standardResolver d" "trimSpace i = i" "outdated i t (sessionOf s)"
  shows "outdated i t (sessionOf (snd (serve d rq s)))"
proof (cases "findRoute (ac_devTokenEnabled (cf_auth (dp_config d))) (hq_method rq) (hq_path rq)")
  case None
  with assms(3) show ?thesis by (simp add: serve_def)
next
  case (Some pe)
  obtain prot e where pe: "pe = (prot, e)" by fastforce
  obtain r x where a: "authenticate d (hq_authorization rq) (sessionOf s) = (r, x)" by fastforce
  have x: "outdated i t (sessionOf (setSession x s))" using authenticate_outdated [OF assms a] by simp
  show ?thesis
  proof (cases prot)
    case True
    with Some pe a x handle_outdated [OF x] show ?thesis by (cases r) (auto simp: serve_def)
  next
    case False
    with Some pe handle_outdated [OF assms(3)] show ?thesis by (simp add: serve_def)
  qed
qed

lemma refreshed_outdated:
  assumes "revoked i t st" "cacheRevoked i t tc"
  shows "cacheRevoked i t (map_option (setBatch (listUsersWithTokensValidAfter st)) tc)"
proof -
  have "t \<le> v" if "map_of (rev (listUsersWithTokensValidAfter st)) i = Some v" for v
    using map_of_SomeD [OF that] assms(1) by (auto simp: listUsersWithTokensValidAfter_def revoked_def)
  with assms(2) show ?thesis by (auto simp: cacheRevoked_def setBatch_def)
qed

lemma api_step_outdated:
  assumes "api_step d s s'" "standardResolver d" "trimSpace i = i" "outdated i t (sessionOf s)"
  shows "outdated i t (sessionOf s')"
  using assms(1)
proof cases
  case (served rq)
  with serve_outdated [OF assms(2-4)] show ?thesis by simp
next
  case (elapsed k)
  with assms(4) show ?thesis by (auto simp: outdated_def sessionOf_def stored_def intro: revoked_frame)
next
  case (drawn l)
  with assms(4) show ?thesis by (auto simp: outdated_def sessionOf_def stored_def intro: revoked_frame)
next
  case refreshed
  with assms(4) refreshed_outdated [of i t] show ?thesis by (simp add: outdated_def sessionOf_def stored_def)
qed

lemma history_outdated:
  assumes "rtranclp (api_step d) s s'" "standardResolver d" "trimSpace i = i" "outdated i t (sessionOf s)"
  shows "outdated i t (sessionOf s')"
  using assms(1,4) by (induction rule: rtranclp_induct) (auto intro: api_step_outdated [OF _ assms(2,3)])

section \<open>Issued tokens in the middleware\<close>

definition authConfigured :: "'l dependencies \<Rightarrow> 'l authService \<Rightarrow> bool" where
  "authConfigured d svc \<longleftrightarrow> ac_enabled (cf_auth (dp_config d)) \<and> dp_auth d = Some svc \<and> dp_keys d = as_keys svc \<and>
     dp_jwt d = as_jwt svc \<and> keyPair (as_keys svc) (as_jwt svc) (as_privateKey svc) (ac_publicKey (cf_auth (dp_config d)))"

lemma checkRevoked_frame:
  "checkRevoked c x = (b, y) \<Longrightarrow> se_st y = se_st x \<and> (se_tokens y = None \<longleftrightarrow> se_tokens x = None)"
  by (auto simp: checkRevoked_def split: option.splits prod.splits)

lemma authenticate_issued:
  assumes "authConfigured d svc" "issueToken svc u0 t0 = Inr tok" "\<not> isPAT (bearer (tk_token tok))"
  shows "authenticate d (bearer (tk_token tok)) x =
    (if floorSec (t0 + as_ttl svc) \<le> clock (se_st x) then (Inl (401, ErrMsg ''token has invalid claims''), x)
     else if \<not> isUUID (u_id u0) then (Inl (401, ErrInvalidUserID), x)
     else case checkRevoked (issuedClaims u0 t0 (t0 + as_ttl svc)) x of
         (True, y) \<Rightarrow> (Inl (401, ErrTokenRevoked), y) | (False, y) \<Rightarrow> (Inr (issuedClaims u0 t0 (t0 + as_ttl svc)), y))"
proof -
  let ?cfg = "\<lparr> jc_publicKey = ac_publicKey (cf_auth (dp_config d)), jc_resolver = dp_resolver d \<rparr>"
  have k: "keyPair (as_keys svc) (as_jwt svc) (as_privateKey svc) (ac_publicKey (cf_auth (dp_config d)))"
    using assms(1) by (simp add: authConfigured_def)
  obtain pk where pk: "parsePublicKey (as_keys svc) (ac_publicKey (cf_auth (dp_config d))) = Inr pk"
    "bearerToken (bearer (tk_token tok)) = Inr (tk_token tok)" "tk_expiresAt tok = t0 + as_ttl svc"
    "\<And>now. jl_parse (as_jwt svc) (keyFunc pk) now (tk_token tok) =
       (if now < floorSec (t0 + as_ttl svc) then Inr (issuedClaims u0 t0 (t0 + as_ttl svc)) else Inl (ErrMsg ''token is expired''))"
    by (rule issueToken_parse [OF k assms(2)]) blast
  have a: "authenticate d (bearer (tk_token tok)) x = jwtMiddleware (as_keys svc) (as_jwt svc) ?cfg (bearer (tk_token tok)) x"
    using assms(1,3) by (simp add: authenticate_def authConfigured_def combinedAuthMiddleware_def Let_def)
  have "cl_staffUserId (issuedClaims u0 t0 e) = []" "cl_userId (issuedClaims u0 t0 e) = u_id u0" for e
    by (simp_all add: issuedClaims_def noClaims_def)
  then have "resolveUser ?cfg (issuedClaims u0 t0 e) st = (if isUUID (u_id u0) then Inr (issuedClaims u0 t0 e) else Inl ErrInvalidUserID, st)"
    for e st by (simp add: resolveUser_def)
  then show ?thesis
    unfolding a by (simp add: jwtMiddleware_def pk)
qed

lemma authenticate_accepts:
  assumes "authConfigured d svc" "issueToken svc u0 t0 = Inr tok" "\<not> isPAT (bearer (tk_token tok))"
    and "authenticate d (bearer (tk_token tok)) x = (Inr c, y)"
  shows "cl_userId c = u_id u0 \<and> isUUID (u_id u0) \<and> se_st y = se_st x \<and> (se_tokens y = None \<longleftrightarrow> se_tokens x = None)"
  using authenticate_issued [OF assms(1-3), of x] assms(4)
  by (auto simp: issuedClaims_def noClaims_def dest: checkRevoked_frame split: if_splits prod.splits bool.splits)

lemma checkRevoked_refuses:
  assumes "outdated (cl_userId c) t x" "trimSpace (cl_userId c) = cl_userId c" "cl_userId c \<noteq> []"
    and "cl_issuedAt c = Some iat" "iat < t"
  shows "fst (checkRevoked c x)"
proof -
  let ?i = "cl_userId c"
  from assms(1) obtain tc where tc: "se_tokens x = Some tc" "\<And>v. tc ?i = Some v \<Longrightarrow> t \<le> v" and r: "revoked ?i t (se_st x)"
    by (auto simp: outdated_def cacheRevoked_def)
  from r obtain u where u: "findUser ?i (se_st x) = Some u"
    by (cases "findUser ?i (se_st x)") (auto simp: revoked_def findUser_def)
  then have g: "getTokensValidAfter (se_st x) ?i = Inr (tvaOf u)"
    using assms(2,3) by (simp add: getTokensValidAfter_def Let_def)
  have "\<exists>v. fst (cacheGet (Some (getTokensValidAfter (se_st x))) ?i tc) = Some v \<and> t \<le> v"
    using g tc(2) revoked_load [OF r assms(2) g] assms(3) by (auto simp: cacheGet_def split: option.splits)
  then show ?thesis using tc(1) assms(4,5)
    by (auto simp: checkRevoked_def isRevokedBy_def split: prod.splits)
qed

lemma authenticate_refused:
  assumes "authConfigured d svc" "issueToken svc u1 t1 = Inr tok" "\<not> isPAT (bearer (tk_token tok))"
    and "outdated (u_id u1) t x" "trimSpace (u_id u1) = u_id u1" "floorSec t1 < t"
  shows "\<exists>err. fst (authenticate d (bearer (tk_token tok)) x) = Inl (401, err)"
proof -
  have "fst (checkRevoked (issuedClaims u1 t1 e) x)" if "isUUID (u_id u1)" for e
  proof (rule checkRevoked_refuses [where t = t])
    show "cl_userId (issuedClaims u1 t1 e) \<noteq> []" using that by (auto simp: isUUID_def issuedClaims_def noClaims_def)
  qed (use assms(4-6) in \<open>simp_all add: issuedClaims_def noClaims_def\<close>)
  note rev = this
  note e = authenticate_issued [OF assms(1-3), of x]
  obtain b y where c: "checkRevoked (issuedClaims u1 t1 (t1 + as_ttl svc)) x = (b, y)" by fastforce
  show ?thesis
  proof (cases "isUUID (u_id u1)")
    case True
    with rev [of "t1 + as_ttl svc"] c have "b" by simp
    with e c show ?thesis by simp
  next
    case False
    with e show ?thesis by simp
  qed
qed

section \<open>Logout through the API\<close>

lemma serve_refused:
  assumes "findRoute (ac_devTokenEnabled (cf_auth (dp_config d))) (hq_method rq) (hq_path rq) = Some (True, e)"
    and "fst (authenticate d (hq_authorization rq) (sessionOf s)) = Inl (status, err)"
  shows "fst (serve d rq s) = [abort status]"
  using assms by (cases "authenticate d (hq_authorization rq) (sessionOf s)") (simp add: serve_def)

lemma logout_route:
  "findRoute True POST ''/api/v1/auth/logout'' = Some (True, AccountE Logout)"
  "findRoute False POST ''/api/v1/auth/logout'' = Some (True, AccountE Logout)"
  by code_simp+

lemma serve_logout:
  assumes "hq_method rq = POST" "hq_path rq = ''/api/v1/auth/logout''"
  shows "serve d rq s = (case authenticate d (hq_authorization rq) (sessionOf s) of
      (Inl (status, err), x) \<Rightarrow> ([abort status], setSession x s)
    | (Inr c, x) \<Rightarrow> onAuth PDone (logoutH (dp_auth d) (Some c)) (setSession x s))"
proof -
  have "findRoute dev POST ''/api/v1/auth/logout'' = Some (True, AccountE Logout)" for dev
    using logout_route by (cases dev) simp_all
  then show ?thesis using assms
    by (simp add: serve_def handle_def accountEndpoint_def Let_def split: prod.splits sum.splits)
qed

lemma logout_outdated:
  assumes "logout i w = (Inr (), w')" "trimSpace i = i" "aw_tokens w \<noteq> None"
  shows "revoked i (clock (aw_st w)) (aw_st w') \<and> cacheRevoked i (clock (aw_st w)) (aw_tokens w')"
proof -
  let ?now = "clock (aw_st w)" and ?st = "updateUsers (\<lambda>u. u_id u = i) (\<lambda>u. u\<lparr>u_tva := Some (clock (aw_st w))\<rparr>) (aw_st w)"
  from assms(1,2) have e: "i \<noteq> []" "\<exists>u \<in> set (usersT (aw_st w)). u_id u = i" "w' = setToken i ?now (w\<lparr>aw_st := ?st\<rparr>)"
    by (auto simp: logout_def bumpTokensValidAfter_def bumpWhere_def Let_def list_ex_iff split: if_splits)
  let ?f = "\<lambda>u. if u_id u = i then u\<lparr>u_tva := Some ?now\<rparr> else u"
  have m: "usersT ?st = map ?f (usersT (aw_st w))" "clock ?st = ?now" by (simp_all add: updateUsers_def)
  have "u_id ` set (usersT ?st) = u_id ` set (usersT (aw_st w))" unfolding m(1) by (rule ids_map) simp
  moreover have "\<forall>u \<in> set (usersT ?st). u_id u = i \<longrightarrow> ?now \<le> tvaOf u"
    unfolding m(1) set_map ball_simps by (simp only: if_split tvaOf_def) simp
  moreover have "i \<in> u_id ` set (usersT (aw_st w))" using e(2) by blast
  ultimately have "revoked i ?now ?st" using m(2) by (simp add: revoked_def)
  with e(1,3) assms(3) show ?thesis by (auto simp: setToken_def cacheRevoked_def cacheSet_def)
qed

lemma writeAuthError_status: "map_reply f (writeAuthError e) \<noteq> Reply 204 codeSuccess None"
  by (auto simp: writeAuthError_def failR'_def badRequest_def failWithMsg_def split: if_splits)

lemma served_logout:
  assumes "authConfigured d svc" "issueToken svc u0 t0 = Inr tok" "\<not> isPAT (bearer (tk_token tok))"
    and "trimSpace (u_id u0) = u_id u0" "sv_tokens s \<noteq> None"
    and "hq_method rq = POST" "hq_path rq = ''/api/v1/auth/logout''" "hq_authorization rq = bearer (tk_token tok)"
    and "serve d rq s = ([Reply 204 codeSuccess None], s')"
  shows "outdated (u_id u0) (clock (stored s)) (sessionOf s')"
proof -
  obtain r x where a: "authenticate d (bearer (tk_token tok)) (sessionOf s) = (r, x)" by fastforce
  have "\<exists>c. r = Inr c"
    using assms(9) a assms(8) authenticate_issued [OF assms(1-3), of "sessionOf s"]
    by (cases r) (auto simp: serve_logout [OF assms(6,7)] abort_def split: if_splits prod.splits bool.splits)
  then obtain c where r: "r = Inr c" by blast
  note ac = authenticate_accepts [OF assms(1-3) a [unfolded r]]
  let ?w = "authWorldOf (setSession x s)"
  have uid: "ui_id (userFromContext (Some c)) = u_id u0" using ac by (simp add: userFromContext_def)
  have h: "onAuth PDone (logoutH (Some svc) (Some c)) (setSession x s) = ([Reply 204 codeSuccess None], s')"
    using assms(1,8,9) a r by (simp add: serve_logout [OF assms(6,7)] authConfigured_def)
  obtain q w' where l: "logout (u_id u0) ?w = (q, w')" by fastforce
  have q: "q = Inr ()"
    using h l uid writeAuthError_status by (cases q) (auto simp: onAuth_def logoutH_def)
  have s': "s' = setAuthWorld w' (setSession x s)" using h l q uid by (auto simp: onAuth_def logoutH_def)
  have "aw_tokens ?w \<noteq> None" "clock (aw_st ?w) = clock (stored s)"
    using ac assms(5) by (simp_all add: authWorldOf_def setSession_def sessionOf_def stored_def)
  with logout_outdated [OF l [unfolded q] assms(4)] s' show ?thesis
    by (simp add: outdated_def sessionOf_def setAuthWorld_def)
qed

text \<open>C20. A logout through the API ends every session of the user on this instance, for good. When a token that the
  server issued to a user is sent to the logout route and the answer is status 204, then after any later history of
  this instance (requests of anyone, among them logins and password changes of the same user, rounds of the cache
  refresher, time) a request to a protected route with any token that was issued to the user in an earlier second
  than the logout is answered with status 401. Requests are served one after the other: a look-up of the cache that
  overlaps with the logout may put the old time back until the next refresh (\<open>logout_lost_race\<close>). Other
  instances take the logout over with their next refresh.\<close>

theorem api_logout_final:
  assumes server: "authConfigured d svc" "standardResolver d" "sv_tokens s \<noteq> None"
    and tok: "issueToken svc u0 t0 = Inr tok" "\<not> isPAT (bearer (tk_token tok))" "trimSpace (u_id u0) = u_id u0"
    and old: "issueToken svc u1 t1 = Inr tok1" "\<not> isPAT (bearer (tk_token tok1))" "u_id u1 = u_id u0"
      "floorSec t1 < clock (stored s)"
    and out: "hq_method rq = POST" "hq_path rq = ''/api/v1/auth/logout''" "hq_authorization rq = bearer (tk_token tok)"
      "serve d rq s = ([Reply 204 codeSuccess None], s')"
    and later: "rtranclp (api_step d) s' s2"
    and rq2: "findRoute (ac_devTokenEnabled (cf_auth (dp_config d))) (hq_method rq2) (hq_path rq2) = Some (True, e)"
      "hq_authorization rq2 = bearer (tk_token tok1)"
  shows "fst (serve d rq2 s2) = [abort 401]"
proof -
  from served_logout [OF server(1) tok(1-3) server(3) out]
  have "outdated (u_id u1) (clock (stored s)) (sessionOf s')" by (simp add: old(3))
  from history_outdated [OF later server(2) _ this] tok(3) old(3)
  have o: "outdated (u_id u1) (clock (stored s)) (sessionOf s2)" by simp
  have "trimSpace (u_id u1) = u_id u1" using tok(3) old(3) by simp
  from authenticate_refused [OF server(1) old(1,2) o this old(4)] obtain err where
    "fst (authenticate d (bearer (tk_token tok1)) (sessionOf s2)) = Inl (401, err)" by blast
  then show ?thesis using serve_refused [OF rq2(1)] rq2(2) by simp
qed

lemma demo_configured: "authConfigured demoDeps demoAuth"
  using demo_keyPair by (simp add: authConfigured_def demoDeps_def demoAuth_def setDefaults_def)

lemma logout_ok: "list_ex (\<lambda>u. u_id u = i) (usersT (aw_st w)) \<Longrightarrow> i \<noteq> [] \<Longrightarrow> trimSpace i = i \<Longrightarrow> fst (logout i w) = Inr ()"
  by (simp add: logout_def bumpTokensValidAfter_def bumpWhere_def Let_def)

lemma logoutH_ok:
  assumes "ui_id (userFromContext ctx) = i" "fst (logout i (authWorldOf s)) = Inr ()"
  shows "fst (onAuth PDone (logoutH (Some svc) ctx) s) = [Reply 204 codeSuccess None]"
  using assms by (cases "logout i (authWorldOf s)") (simp add: onAuth_def logoutH_def)

definition demoToken :: authToken where
  "demoToken = \<lparr> tk_userId = demoUuid, tk_email = ''a@b.c'', tk_name = ''Ann'', tk_token = ''t'', tk_issuedAt = 1500000,
     tk_expiresAt = 1500000 + demoTtl \<rparr>"

lemma demo_token: "issueToken demoAuth accountUser 1500000 = Inr demoToken" "\<not> isPAT (bearer (tk_token demoToken))"
proof -
  show "issueToken demoAuth accountUser 1500000 = Inr demoToken" by (simp add: demo_issue demoToken_def)
  have "\<not> isPAT (bearer ''t'')" by code_simp
  then show "\<not> isPAT (bearer (tk_token demoToken))" by (simp add: demoToken_def)
qed

text \<open>The history after the logout: the user tries to log in, a second passes, and the refresher makes a round.\<close>

definition demoLogin :: httpRequest where
  "demoLogin = (request POST ''/api/v1/auth/login'' [])\<lparr>hq_body := noBody\<lparr>bd_login := Some (''a@b.c'', ''secret'')\<rparr>\<rparr>"

definition demoLater :: "limitServer server \<Rightarrow> limitServer server" where
  "demoLater s = (let s1 = snd (serve demoDeps demoLogin s);
       s2 = s1\<lparr>sv_world := (sv_world s1)\<lparr>w_st := (stored s1)\<lparr>clock := clock (stored s1) + 1000000\<rparr>\<rparr>\<rparr>
     in s2\<lparr>sv_tokens := map_option (setBatch (listUsersWithTokensValidAfter (stored s2))) (sv_tokens s2)\<rparr>)"

lemma demoLater_steps: "rtranclp (api_step demoDeps) s (demoLater s)"
proof -
  let ?s1 = "snd (serve demoDeps demoLogin s)"
  let ?s2 = "?s1\<lparr>sv_world := (sv_world ?s1)\<lparr>w_st := (stored ?s1)\<lparr>clock := clock (stored ?s1) + 1000000\<rparr>\<rparr>\<rparr>"
  have "api_step demoDeps s ?s1" by (rule api_step.served)
  moreover have "api_step demoDeps ?s1 ?s2" by (rule api_step.elapsed)
  moreover have "api_step demoDeps ?s2 (demoLater s)" unfolding demoLater_def Let_def by (rule api_step.refreshed)
  ultimately show ?thesis by (auto intro: rtranclp.intros)
qed

lemma demo_logout:
  "serve demoDeps (request POST ''/api/v1/auth/logout'' (bearer ''t'')) (demoServer 2000000) =
     ([Reply 204 codeSuccess None], snd (serve demoDeps (request POST ''/api/v1/auth/logout'' (bearer ''t'')) (demoServer 2000000)))"
proof -
  let ?rq = "request POST ''/api/v1/auth/logout'' (bearer ''t'')" and ?s = "demoServer 2000000"
  have u: "u_id accountUser = demoUuid" "isUUID demoUuid" "trimSpace demoUuid = demoUuid" "demoUuid \<noteq> []"
    using demo_uuid by (simp_all add: accountUser_def passwordUser_def demoUuid_def)
  have dp: "dp_auth demoDeps = Some demoAuth" by (simp add: demoDeps_def)
  have ne: "\<not> floorSec (1500000 + as_ttl demoAuth) \<le> clock (se_st (sessionOf ?s))"
    by (simp add: demoAuth_def demoTtl_def floorSec_def sessionOf_def demoServer_def)
  obtain y where y: "checkRevoked (issuedClaims accountUser 1500000 (1500000 + as_ttl demoAuth)) (sessionOf ?s) = (False, y)"
    using u by (simp add: checkRevoked_def sessionOf_def demoServer_def cacheGet_def issuedClaims_def noClaims_def
        getTokensValidAfter_def findUser_def isRevokedBy_def tvaOf_def passwordUser_def accountUser_def)
  have a: "authenticate demoDeps (bearer ''t'') (sessionOf ?s) = (Inr (issuedClaims accountUser 1500000 (1500000 + as_ttl demoAuth)), y)"
    using authenticate_issued [OF demo_configured demo_token, of "sessionOf ?s"] ne y u by (simp add: demoToken_def)
  note ac = authenticate_accepts [OF demo_configured demo_token, of "sessionOf ?s"]
  have "se_st y = w_st (sv_world ?s)" using ac a by (simp add: demoToken_def sessionOf_def)
  then have "usersT (aw_st (authWorldOf (setSession y ?s))) = [accountUser]"
    by (simp add: authWorldOf_def setSession_def demoServer_def)
  then have l: "fst (logout demoUuid (authWorldOf (setSession y ?s))) = Inr ()" by (intro logout_ok) (simp_all add: u)
  have i: "ui_id (userFromContext (Some (issuedClaims accountUser 1500000 (1500000 + as_ttl demoAuth)))) = demoUuid"
    by (simp add: userFromContext_def issuedClaims_def noClaims_def u)
  have "fst (serve demoDeps ?rq ?s) = fst (onAuth PDone (logoutH (Some demoAuth)
      (Some (issuedClaims accountUser 1500000 (1500000 + as_ttl demoAuth)))) (setSession y ?s))"
    by (subst serve_logout) (simp_all add: request_def a dp)
  also have "\<dots> = [Reply 204 codeSuccess None]" by (rule logoutH_ok [OF i l])
  finally show ?thesis by (cases "serve demoDeps ?rq ?s") simp
qed

text \<open>The token of second 1.5: a logout with it in second 2, the history, then a request for the own identity with it.\<close>

theorem api_logout_final_witness:
  "fst (serve demoDeps (request GET ''/api/v1/me'' (bearer ''t''))
     (demoLater (snd (serve demoDeps (request POST ''/api/v1/auth/logout'' (bearer ''t'')) (demoServer 2000000))))) = [abort 401]"
proof -
  have u: "trimSpace (u_id accountUser) = u_id accountUser"
    using demo_uuid by (simp add: accountUser_def passwordUser_def)
  have r: "findRoute (ac_devTokenEnabled (cf_auth (dp_config demoDeps))) GET ''/api/v1/me'' = Some (True, AccountE Me)"
  proof -
    have "ac_devTokenEnabled (cf_auth (dp_config demoDeps)) = False" by (simp add: demoDeps_def setDefaults_def)
    moreover have "findRoute False GET ''/api/v1/me'' = Some (True, AccountE Me)" by code_simp
    ultimately show ?thesis by simp
  qed
  have d: "standardResolver demoDeps" "sv_tokens (demoServer 2000000) \<noteq> None"
    by (simp_all add: standardResolver_def demoDeps_def demoServer_def)
  show ?thesis
  proof (rule api_logout_final [OF demo_configured d demo_token u demo_token refl _ _ _ _ demo_logout demoLater_steps])
    show "floorSec 1500000 < clock (stored (demoServer 2000000))" by (simp add: floorSec_def demoServer_def stored_def)
  qed (simp_all add: request_def demoToken_def r)
qed

end
