(* ===== verification/AccessProps.thy ===== *)
theory AccessProps
  imports LogoutProps HandlerProps BatchProps
begin

text \<open>
  Every route of the API in one statement: a request that changes the hierarchy or the secrets has been authenticated, and
  the authorizer allows its user what the route needs.  The interpretation \<open>tables\<close> covers the routes that change
  nothing, the rest of the theory the ones that do.
\<close>

section \<open>Routes that change no data\<close>

definition sameTables :: "store \<Rightarrow> store \<Rightarrow> bool" where
  "sameTables st st' \<longleftrightarrow> tbl st' = tbl st \<and> secretsT st' = secretsT st"

lemma accountStep_tables: "accountStep st st' \<Longrightarrow> sameTables st st'"
  by (simp add: accountStep_def sameTables_def)

lemma dataIs_tables: "dataIs (tbl st) (secretsT st) st' \<longleftrightarrow> sameTables st st'"
  by (simp add: dataIs_def sameTables_def)

lemma register_tables:
  assumes "createPasswordUser email name hash algo st = (r, st')"
  shows "sameTables st st'"
proof -
  have ins: "preserves (dataIs T S) (insertUser u)" for T S u
    by (auto simp: preserves_def insertUser_def dataIs_def split: if_splits)
  have user: "preserves (dataIs T S) (insertPasswordUserTx ext e n h a)" for T S ext e n h a
    unfolding insertPasswordUserTx_def by (intro preserving preserves_translated ins)
  have first: "preserves (dataIs T S) (firstUserGrant bid uid rid)" for T S bid uid rid
    by (rule preservesI) (auto simp: firstUserGrant_def insertBinding_def dataIs_def split: if_splits sum.splits)
  have audit: "preserves (dataIs T S) (ignoreErr (recordRoleBindingAuditTx a b c d e f))" for T S a b c d e f
    using preserves_data_bindAudit [of T S a b c d e f] by (auto simp: preserves_def ignoreErr_def split: sum.splits)
  let ?m = "createPasswordUserTx (trimSpace (toLower email)) (trimSpace name) hash algo"
  have sum: "preserves Q (case r of Inl e \<Rightarrow> a e | Inr x \<Rightarrow> b x)"
    if "\<And>e. preserves Q (a e)" "\<And>x. preserves Q (b x)"
    for r :: "goErr + str \<times> store" and a :: "goErr \<Rightarrow> str tx" and b Q
    using that by (cases r) auto
  have m: "preserves (dataIs T S) ?m" for T S
    unfolding createPasswordUserTx_def by (intro preserving user first audit sum)
  obtain q s1 where q: "runTx ?m st = (q, s1)" by fastforce
  have "sameTables st s1" using runTx_data [OF m q] by (simp add: sameTables_def)
  moreover have "st' = st \<or> st' = s1 \<or> (\<exists>i n. st' = cacheUserLabel i n s1)"
    using assms q by (auto simp: createPasswordUser_def Let_def split: if_splits sum.splits)
  ultimately show ?thesis by (auto simp: sameTables_def)
qed

interpretation tables: account_runs sameTables
proof unfold_locales
  fix st st' show "rbac_step st st' \<Longrightarrow> sameTables st st'" by (simp add: sameTables_def rbac_step_data)
next
  fix actor ty i act v st u st' assume "recordAudit actor ty i act v st = (u, st')"
  then have "runTx (recordAuditTx actor ty i act v) st = (u, st')" by (simp add: recordAudit_def)
  moreover have "preserves (dataIs T S) (recordAuditTx actor ty i act v)" for T S
    by (rule preservesI) (auto simp: recordAudit_Inr dataIs_def)
  ultimately show "sameTables st st'" unfolding sameTables_def by (intro runTx_data)
next
  fix email name hash algo st r1 st' assume "createPasswordUser email name hash algo st = (r1, st')"
  then show "sameTables st st'" by (rule register_tables)
next
  fix st i show "sameTables st (touchLastSeen i st)" by (rule accountStep_tables [OF seen_step])
next
  fix st i n show "sameTables st (cacheUserLabel i n st)" by (simp add: sameTables_def)
qed (rule accountStep_tables, erule staff_step credentials_step revoke_step newToken_step dropToken_step useToken_step)+

lemma reaches_tables: "reaches sameTables st st' \<Longrightarrow> sameTables st st'"
  unfolding reaches_def by (induction rule: rtranclp_induct) (auto simp: sameTables_def)

lemma runsW_quiet: "runsW sameTables h \<Longrightarrow> sameData w (snd (h w))"
  using reaches_tables [of "w_st w" "w_st (snd (h w))"] by (simp add: runsW_def sameTables_def sameData_def)

lemma runsV_quiet: "runsV sameTables m \<Longrightarrow> sameTables (stored s) (stored (snd (m s)))"
  using reaches_tables [of "stored s" "stored (snd (m s))"] by (simp add: runsV_def)

section \<open>Routes on secrets\<close>

lemma bindS_passed:
  assumes "\<not> sameData w (snd (bindS m f w))" "\<And>w. sameData w (snd (m w))"
  obtains x w1 where "m w = (Inr x, w1)" "sameData w w1" "\<not> sameData w1 (snd (f x w1))"
proof -
  obtain r w1 where m: "m w = (r, w1)" by fastforce
  with assms(2) [of w] have s: "sameData w w1" by simp
  show thesis
  proof (cases r)
    case (Inl e)
    with assms(1) m s show ?thesis by (simp add: bindS_def)
  next
    case (Inr x)
    with assms(1) m s have "\<not> sameData w1 (snd (f x w1))" by (auto simp: bindS_def sameData_def)
    with m Inr s that show ?thesis by blast
  qed
qed

lemma allow_passed:
  assumes "\<not> sameData w (snd (bindS (allowS svc u p res) f w))"
  shows "ss_authz svc (w_st w) u p res = Inr ()"
  using assms by (cases "ss_authz svc (w_st w) u p res") (auto simp: bindS_def allowS_def)

lemma actorCall_passed:
  assumes "\<not> sameData w (snd (actorCall u m w))"
  shows "\<not> sameData (actorH u w) (snd (m (ui_id u) (actorH u w)))"
  using assms actorH_data [of w u] by (auto simp: actorCall_def serviceCall_def sameData_def split: prod.splits)

lemma batchCall_passed:
  assumes "\<not> sameData w (snd (batchCall u m w))"
  shows "\<not> sameData (actorH u w) (snd (m (ui_id u) (actorH u w)))"
  using assms actorH_data [of w u] by (auto simp: batchCall_def sameData_def split: prod.splits)

lemma createSecret_passed:
  assumes "\<not> sameData w (snd (createSecretH c u (Some r) w))" "ss_authz (ct_secret c) = storeAllow"
  shows "storeAllow (w_st w) u ''secret:create'' \<lparr> res_type = ''folder'', res_id = sq_folderId r \<rparr> = Inr ()"
proof -
  note a = actorCall_passed [OF checkH_passed [OF bindReq_passed [OF assms(1) [unfolded createSecretH_def]]]]
  from allow_passed [OF a [unfolded create_def]] assms(2) show ?thesis by (simp add: storeAllow_labels folderScope_def)
qed

lemma updateSecret_passed:
  assumes "\<not> sameData w (snd (updateSecretH c u (Some r) w))" "ss_authz (ct_secret c) = storeAllow"
  shows "storeAllow (w_st w) u ''secret:update'' \<lparr> res_type = ''secret'', res_id = sq_id r \<rparr> = Inr ()"
proof -
  note a = actorCall_passed [OF checkH_passed [OF bindReq_passed [OF assms(1) [unfolded updateSecretH_def]]]]
  from allow_passed [OF a [unfolded update_def]] assms(2) show ?thesis by (simp add: storeAllow_labels secretScope_def)
qed

lemma deleteSecret_passed:
  assumes "\<not> sameData w (snd (deleteSecretH c u (Some i) w))" "ss_authz (ct_secret c) = storeAllow"
  shows "storeAllow (w_st w) u ''secret:delete'' \<lparr> res_type = ''secret'', res_id = i \<rparr> = Inr ()"
proof -
  note a = actorCall_passed [OF bindReq_passed [OF assms(1) [unfolded deleteSecretH_def]]]
  from allow_passed [OF a [unfolded delete_def]] assms(2) show ?thesis by (simp add: storeAllow_labels secretScope_def)
qed

text \<open>A batch: the folders of the targets are the ones of the request.\<close>

lemma extractEnvs_folders: "extractEnvs es = Inr es' \<Longrightarrow> map bt_folder es' = map bt_folder es"
proof -
  assume "extractEnvs es = Inr es'"
  then have "mapE (\<lambda>e. let envCode = trimSpace (bt_envCode e) in
          if envCode = [] then Inl (ErrMsg ''envCode'')
          else if trimSpace (bt_folder e) = [] then Inl (ErrMsg ''folderId'')
          else Inr (e\<lparr>bt_envCode := envCode\<rparr>)) es = Inr es'"
    by (auto simp: extractEnvs_def bindE_Inr_iff split: if_splits)
  then have "list_all2 (\<lambda>e e'. bt_folder e' = bt_folder e) es es'"
    unfolding mapE_Inr_iff by (rule list_all2_mono) (auto simp: Let_def split: if_splits)
  then show ?thesis by (induction rule: list_all2_induct) simp_all
qed

definition batchFolders :: "batchCreateSecretSpec list \<Rightarrow> str list" where
  "batchFolders specs = concat (map (\<lambda>s. map bt_folder (bs_envs s)) specs)"

lemma expandTargets_folders: "map (\<lambda>(s, e). bt_folder e) (expandTargets specs) = batchFolders specs"
  by (simp add: expandTargets_def batchFolders_def map_concat comp_def)

lemma toDomain_folders: "secretBatchCreateRequestToDomain r = Inr specs \<Longrightarrow> batchFolders specs = batchFolders r"
proof -
  assume "secretBatchCreateRequestToDomain r = Inr specs"
  then have "mapE (\<lambda>item. if \<not> keyPattern (bs_key item) then Inl (ErrMsg ''key'')
        else bindE (extractEnvs (bs_envs item)) (\<lambda>envs. Inr (item\<lparr>bs_envs := envs\<rparr>))) r = Inr specs"
    by (auto simp: secretBatchCreateRequestToDomain_def split: if_splits)
  then have "list_all2 (\<lambda>s s'. map bt_folder (bs_envs s') = map bt_folder (bs_envs s)) r specs"
    unfolding mapE_Inr_iff by (rule list_all2_mono) (auto simp: bindE_Inr_iff extractEnvs_folders split: if_splits)
  then show ?thesis by (induction rule: list_all2_induct) (simp_all add: batchFolders_def)
qed

lemma mapS_kept:
  assumes "\<And>x w r w'. f x w = (r, w') \<Longrightarrow> w_st w' = w_st w" "mapS f xs w = (r, w')"
  shows "w_st w' = w_st w"
  using assms(2)
proof (induction xs arbitrary: w r w')
  case (Cons x xs)
  from Cons.prems show ?case unfolding mapS.simps
  proof (rule bindS_cases)
    fix y w1 assume "f x w = (Inr y, w1)" "bindS (mapS f xs) (\<lambda>ys. retS (y # ys)) w1 = (r, w')"
    then show ?thesis using assms(1) Cons.IH by (auto elim!: bindS_cases)
  qed (auto dest: assms(1))
qed simp

lemma mapS_inverse:
  assumes "\<And>x w y w'. f x w = (Inr y, w') \<Longrightarrow> g y = x"
  shows "mapS f xs w = (Inr ys, w') \<Longrightarrow> map g ys = xs"
proof (induction xs arbitrary: w ys)
  case (Cons x xs)
  then show ?case using assms by (auto simp: bindS_Inr_iff)
qed simp

lemma batchCreate_passed:
  assumes "\<not> sameData w (snd (batchCreate svc u specs actor w))" "ss_authz svc = storeAllow" "i \<in> set (batchFolders specs)"
  shows "storeAllow (w_st w) u ''secret:create'' \<lparr> res_type = ''folder'', res_id = i \<rparr> = Inr ()"
proof -
  let ?f = "\<lambda>(item, e). bindS (encryptS svc (bt_value e)) (\<lambda>c. retS (item, e, c))"
  let ?al = "\<lambda>ts. mapS (\<lambda>x. allowS svc u ''secret:create'' (folderScope (bt_folder (fst (snd x))))) ts"
  have f: "w_st w' = w_st w" if "?f x w = (r, w')" for x w r w'
    using that by (auto elim!: bindS_cases dest: encryptS_frame split: prod.splits)
  obtain r w' where b: "batchCreate svc u specs actor w = (r, w')" by fastforce
  with assms(1) batchCreate_start [OF b] have s: "bindS (mapS ?f (expandTargets specs)) (\<lambda>ts.
      bindS (?al ts) (\<lambda>_. storeTargets svc actor ts)) w = (r, w')" "\<not> sameData w w'" by auto
  have k: "mapS ?f xs w = (r, w') \<Longrightarrow> w_st w' = w_st w" for xs w r w' by (rule mapS_kept [OF f])
  have q: "sameData w (snd (mapS ?f xs w))" for xs w using k [of xs w] by (cases "mapS ?f xs w") (simp add: sameData_def)
  obtain ts w1 where t: "mapS ?f (expandTargets specs) w = (Inr ts, w1)"
    and c: "\<not> sameData w1 (snd (bindS (?al ts) (\<lambda>_. storeTargets svc actor ts) w1))"
    by (rule bindS_passed [of w "mapS ?f (expandTargets specs)" "\<lambda>ts. bindS (?al ts) (\<lambda>_. storeTargets svc actor ts)"])
      (use s q in auto)
  have ex: "map (\<lambda>(s, e, c). (s, e)) ts = expandTargets specs"
    by (rule mapS_inverse [OF _ t]) (auto simp: bindS_Inr_iff split: prod.splits)
  have "map (\<lambda>x. bt_folder (fst (snd x))) ts = batchFolders specs"
    unfolding expandTargets_folders [symmetric] ex [symmetric] by (simp add: split_def)
  with assms(3) obtain x where x: "x \<in> set ts" "bt_folder (fst (snd x)) = i"
    by (metis (no_types, lifting) in_set_conv_nth length_map nth_map)
  obtain ra w2 where al: "?al ts w1 = (ra, w2)" by fastforce
  note a = allowAll_effect [OF al]
  have "is_ok ra" using c al a by (cases ra) (auto simp: bindS_def)
  with a x k [OF t] assms(2) show ?thesis by (auto simp: is_ok_iff folderScope_def)
qed

lemma batchCreateSecret_passed:
  assumes "\<not> sameData w (snd (batchCreateSecretH c u (Some r) w))" "ss_authz (ct_secret c) = storeAllow" "i \<in> set (batchFolders r)"
  shows "storeAllow (w_st w) u ''secret:create'' \<lparr> res_type = ''folder'', res_id = i \<rparr> = Inr ()"
proof -
  note b = bindReq_passed [OF assms(1) [unfolded batchCreateSecretH_def]]
  then obtain specs where d: "secretBatchCreateRequestToDomain r = Inr specs" by (cases "secretBatchCreateRequestToDomain r") auto
  from batchCall_passed [of w u "batchCreate (ct_secret c) u specs"] b d
  have "\<not> sameData (actorH u w) (snd (batchCreate (ct_secret c) u specs (ui_id u) (actorH u w)))" by simp
  from batchCreate_passed [OF this assms(2)] assms(3) toDomain_folders [OF d] show ?thesis by (simp add: storeAllow_labels)
qed

lemma batchCreateSecret_nonempty:
  assumes "\<not> sameData w (snd (batchCreateSecretH c u (Some r) w))"
  shows "batchFolders r \<noteq> []"
proof -
  note b = bindReq_passed [OF assms [unfolded batchCreateSecretH_def]]
  then obtain specs where d: "secretBatchCreateRequestToDomain r = Inr specs" by (cases "secretBatchCreateRequestToDomain r") auto
  obtain q w' where g: "batchCreate (ct_secret c) u specs (ui_id u) (actorH u w) = (q, w')" by fastforce
  from batchCall_passed [of w u "batchCreate (ct_secret c) u specs"] b d g have "\<not> sameData (actorH u w) w'" by simp
  with batchCreate_start [OF g] have "expandTargets specs \<noteq> []" by auto
  then show ?thesis using toDomain_folders [OF d] expandTargets_folders [of specs] by auto
qed

section \<open>What each route needs\<close>

text \<open>The call of the hierarchy that a request makes.\<close>

fun entityCallOf :: "entityEndpointName \<Rightarrow> requestBody \<Rightarrow> entityCall option" where
  "entityCallOf entityEndpointName.CreateOrganization b = map_option CreateOrg (bd_createEntity b)"
| "entityCallOf entityEndpointName.UpdateOrganization b = map_option UpdateOrg (bd_update b)"
| "entityCallOf entityEndpointName.DeleteOrganization b = map_option (\<lambda>(force, r). DeleteOrg force r) (bd_deleteOrganization b)"
| "entityCallOf entityEndpointName.CreateProject b = map_option entityCall.CreateProject (bd_createEntity b)"
| "entityCallOf entityEndpointName.UpdateProject b = map_option entityCall.UpdateProject (bd_update b)"
| "entityCallOf entityEndpointName.DeleteProject b = map_option entityCall.DeleteProject (bd_idOrCode b)"
| "entityCallOf entityEndpointName.CreateEnvironment b = map_option CreateEnv (bd_createEntity b)"
| "entityCallOf entityEndpointName.UpdateEnvironment b = map_option UpdateEnv (bd_update b)"
| "entityCallOf entityEndpointName.DeleteEnvironment b = map_option DeleteEnv (bd_idOrCode b)"
| "entityCallOf entityEndpointName.CreateFolder b = map_option entityCall.CreateFolder (bd_createFolder b)"
| "entityCallOf entityEndpointName.UpdateFolder b = map_option entityCall.UpdateFolder (bd_update b)"
| "entityCallOf entityEndpointName.DeleteFolder b = map_option entityCall.DeleteFolder (bd_idOrCode b)"
| "entityCallOf entityEndpointName.BatchUpdateFolders b = map_option entityCall.BatchUpdateFolders (bd_batchUpdateFolders b)"
| "entityCallOf e b = None"

text \<open>The permissions that a request has to have: code, resource type and resource id. A route that changes no data
  needs none here.\<close>

fun needs :: "store \<Rightarrow> endpointName \<Rightarrow> requestBody \<Rightarrow> (str \<times> str \<times> str) list" where
  "needs st (EntityE e) b = (case entityCallOf e b of None \<Rightarrow> [] | Some call \<Rightarrow> required st call)"
| "needs st (SecretE secretEndpointName.CreateSecret) b = (case bd_createSecret b of None \<Rightarrow> []
     | Some r \<Rightarrow> [(''secret:create'', ''folder'', sq_folderId r)])"
| "needs st (SecretE secretEndpointName.UpdateSecret) b = (case bd_updateSecret b of None \<Rightarrow> []
     | Some r \<Rightarrow> [(''secret:update'', ''secret'', sq_id r)])"
| "needs st (SecretE secretEndpointName.DeleteSecret) b = (case bd_id b of None \<Rightarrow> []
     | Some i \<Rightarrow> [(''secret:delete'', ''secret'', i)])"
| "needs st (SecretE secretEndpointName.BatchCreateSecret) b = (case bd_batchCreate b of None \<Rightarrow> []
     | Some specs \<Rightarrow> map (\<lambda>i. (''secret:create'', ''folder'', i)) (batchFolders specs))"
| "needs st e b = []"

definition allowed :: "store \<Rightarrow> userInfo \<Rightarrow> (str \<times> str \<times> str) list \<Rightarrow> bool" where
  "allowed st u ps \<longleftrightarrow> ps \<noteq> [] \<and> (\<forall>(p, t, i) \<in> set ps. storeAllow st u p \<lparr> res_type = t, res_id = i \<rparr> = Inr ())"

definition unguarded :: "endpointName list" where
  "unguarded = [EntityE entityEndpointName.CreateFolder, SecretE secretEndpointName.BatchUpdateSecret]"

lemma onWorld_passed: "\<not> sameTables (stored s) (stored (snd (onWorld f h s))) \<Longrightarrow> \<not> sameData (sv_world s) (snd (h (sv_world s)))"
  by (auto simp: onWorld_def stored_def sameTables_def sameData_def split: prod.splits)

lemma call_allowed:
  assumes "ct_authz c = Some storeAllow" "\<not> sameData w (perform c u call w)" "\<forall>r. call \<noteq> entityCall.CreateFolder r"
  shows "allowed (w_st w) u (required (w_st w) call)"
proof -
  have "permitted c u call w" using assms(3) by (cases call) (simp_all add: calls_permitted [OF assms(1)])
  moreover have "required (w_st w) call \<noteq> []"
    using assms(2,3) by (cases call) (auto simp: batchUpdateFoldersH_def bindReq_def checkH_def Let_def split: if_splits)
  ultimately show ?thesis using assms(2) by (auto simp: allowed_def permitted_def)
qed

lemma entity_perform:
  assumes "entityCallOf e b = Some call"
  shows "sv_world (snd (entityEndpoint d e u b s)) = perform (dp_controller d) u call (sv_world s)"
proof -
  have w: "sv_world (snd (onWorld f h s)) = snd (h (sv_world s))" for f h and s :: "'a server"
    by (simp add: onWorld_def split: prod.splits)
  show ?thesis using assms by (cases e) (auto simp: entityEndpoint_def Let_def w)
qed

lemma no_body: "bindReq c None k w = (fst (bindReq c None k w), w)"
  by (simp add: bindReq_def reply_def)

lemma undecoded:
  "runsW sameTables (createOrganizationH c u None)" "runsW sameTables (updateOrganizationH c u None)"
  "runsW sameTables (deleteOrganizationH c u force None)" "runsW sameTables (createProjectH c u None)"
  "runsW sameTables (updateProjectH c u None)" "runsW sameTables (deleteProjectH c u None)"
  "runsW sameTables (createEnvironmentH c u None)" "runsW sameTables (updateEnvironmentH c u None)"
  "runsW sameTables (deleteEnvironmentH c u None)" "runsW sameTables (createFolderH c u None)"
  "runsW sameTables (updateFolderH c u None)" "runsW sameTables (deleteFolderH c u None)"
  "runsW sameTables (batchUpdateFoldersH c u None)" "runsW sameTables (createSecretH c u None)"
  "runsW sameTables (updateSecretH c u None)" "runsW sameTables (deleteSecretH c u None)"
  "runsW sameTables (batchCreateSecretH c u None)"
  by (simp_all add: runsW_def createOrganizationH_def updateOrganizationH_def deleteOrganizationH_def createProjectH_def
      updateProjectH_def deleteProjectH_def createEnvironmentH_def updateEnvironmentH_def deleteEnvironmentH_def
      createFolderH_def updateFolderH_def deleteFolderH_def batchUpdateFoldersH_def createSecretH_def updateSecretH_def
      deleteSecretH_def batchCreateSecretH_def updateBy_def deleteBy_def bindReq_def)

lemma entity_quiet: "entityCallOf e b = None \<Longrightarrow> runsV sameTables (entityEndpoint d e u b)"
  by (cases e) (simp_all add: entityEndpoint_def Let_def runs undecoded)

lemma decoded:
  "\<not> runsV sameTables (onWorld f (createSecretH c u r1)) \<Longrightarrow> \<exists>r. r1 = Some r"
  "\<not> runsV sameTables (onWorld f (updateSecretH c u r2)) \<Longrightarrow> \<exists>r. r2 = Some r"
  "\<not> runsV sameTables (onWorld g (deleteSecretH c u r3)) \<Longrightarrow> \<exists>r. r3 = Some r"
  "\<not> runsV sameTables (onWorld g (batchCreateSecretH c u r4)) \<Longrightarrow> \<exists>r. r4 = Some r"
proof -
  show "\<not> runsV sameTables (onWorld f (createSecretH c u r1)) \<Longrightarrow> \<exists>r. r1 = Some r" by (cases r1) (simp_all add: runs undecoded)
  show "\<not> runsV sameTables (onWorld f (updateSecretH c u r2)) \<Longrightarrow> \<exists>r. r2 = Some r" by (cases r2) (simp_all add: runs undecoded)
  show "\<not> runsV sameTables (onWorld g (deleteSecretH c u r3)) \<Longrightarrow> \<exists>r. r3 = Some r" by (cases r3) (simp_all add: runs undecoded)
  show "\<not> runsV sameTables (onWorld g (batchCreateSecretH c u r4)) \<Longrightarrow> \<exists>r. r4 = Some r" by (cases r4) (simp_all add: runs undecoded)
qed

lemma entity_allowed:
  assumes "ct_authz (dp_controller d) = Some storeAllow" "e \<noteq> entityEndpointName.CreateFolder"
    and "\<not> sameTables (stored s) (stored (snd (entityEndpoint d e u b s)))"
  shows "allowed (stored s) u (needs (stored s) (EntityE e) b)"
proof (cases "entityCallOf e b")
  case None
  with assms(3) runsV_quiet [OF entity_quiet] show ?thesis by blast
next
  case (Some call)
  have "\<not> sameData (sv_world s) (perform (dp_controller d) u call (sv_world s))"
    using assms(3) entity_perform [OF Some, of d u s] by (simp add: sameTables_def sameData_def stored_def)
  moreover have "\<forall>r. call \<noteq> entityCall.CreateFolder r" using Some assms(2) by (cases e) auto
  ultimately show ?thesis using call_allowed [OF assms(1)] Some by (simp add: stored_def)
qed

lemma secret_allowed:
  assumes "ss_authz (ct_secret (dp_controller d)) = storeAllow" "e \<noteq> secretEndpointName.BatchUpdateSecret"
    and "\<not> sameTables (stored s) (stored (snd (secretEndpoint d e u b s)))"
  shows "allowed (stored s) u (needs (stored s) (SecretE e) b)"
proof -
  let ?c = "dp_controller d" and ?w = "sv_world s"
  have q: "\<not> runsV sameTables (secretEndpoint d e u b)" using assms(3) runsV_quiet by blast
  consider r where "e = secretEndpointName.CreateSecret" "bd_createSecret b = Some r"
    | r where "e = secretEndpointName.UpdateSecret" "bd_updateSecret b = Some r"
    | i where "e = secretEndpointName.DeleteSecret" "bd_id b = Some i"
    | r where "e = secretEndpointName.BatchCreateSecret" "bd_batchCreate b = Some r"
    using q assms(2) by (cases e) (auto simp: secretEndpoint_def Let_def runs dest: decoded)
  then show ?thesis
  proof cases
    case (1 r)
    have "\<not> sameData ?w (snd (createSecretH ?c u (Some r) ?w))"
      by (rule onWorld_passed) (use assms(3) 1 in \<open>simp add: secretEndpoint_def Let_def\<close>)
    from createSecret_passed [OF this assms(1)] 1 show ?thesis by (simp add: allowed_def stored_def)
  next
    case (2 r)
    have "\<not> sameData ?w (snd (updateSecretH ?c u (Some r) ?w))"
      by (rule onWorld_passed) (use assms(3) 2 in \<open>simp add: secretEndpoint_def Let_def\<close>)
    from updateSecret_passed [OF this assms(1)] 2 show ?thesis by (simp add: allowed_def stored_def)
  next
    case (3 i)
    have "\<not> sameData ?w (snd (deleteSecretH ?c u (Some i) ?w))"
      by (rule onWorld_passed) (use assms(3) 3 in \<open>simp add: secretEndpoint_def Let_def\<close>)
    from deleteSecret_passed [OF this assms(1)] 3 show ?thesis by (simp add: allowed_def stored_def)
  next
    case (4 r)
    have c: "\<not> sameData ?w (snd (batchCreateSecretH ?c u (Some r) ?w))"
      by (rule onWorld_passed) (use assms(3) 4 in \<open>simp add: secretEndpoint_def Let_def\<close>)
    from batchCreateSecret_passed [OF c assms(1)] batchCreateSecret_nonempty [OF c] 4 show ?thesis
      by (simp add: allowed_def stored_def)
  qed
qed

lemma public_accounts: "(m, p, False, e) \<in> set (loadApiRoutes dev) \<Longrightarrow> \<exists>a. e = AccountE a"
proof -
  assume m: "(m, p, False, e) \<in> set (loadApiRoutes dev)"
  have "list_all (\<lambda>(m, p, prot, e). \<not> prot \<longrightarrow> (case e of AccountE a \<Rightarrow> True | _ \<Rightarrow> False)) (loadApiRoutes dev)"
    by (cases dev) (simp only:, code_simp)+
  from this [unfolded list_all_iff] m
  have "(\<lambda>(m, p, prot, e). \<not> prot \<longrightarrow> (case e of AccountE a \<Rightarrow> True | _ \<Rightarrow> False)) (m, p, False, e)" by (rule bspec)
  then show ?thesis by (simp split: endpointName.splits)
qed

lemma run_authorizer:
  assumes "run pf w = (Inr (d, s), st)"
  shows "ct_authz (dp_controller d) = Some storeAllow \<and> ss_authz (ct_secret (dp_controller d)) = storeAllow \<and> standardResolver d"
  using assms run_standardResolver [OF assms]
  by (auto simp: run_def Let_def dependenciesOf_def controllerOf_def split: sum.splits prod.splits if_splits)

text \<open>C15. No request changes data without permission, over all routes. Take a server with the dependencies that \<open>run\<close>
  gives it (\<open>run_authorizer\<close>). If a request of anyone, to any route and with any body, changes the hierarchy or the
  secrets, then its route is a protected one, the middleware has authenticated it, and the authorizer allows its user
  every permission that the route needs for that body, at least one: on the resource named by id or by code, on every
  folder of a batch. The two routes \<open>unguarded\<close>, the creation of folders and the batch update of secrets, ask for an
  authenticated user only.\<close>

theorem request_authorized:
  assumes "ct_authz (dp_controller d) = Some storeAllow" "ss_authz (ct_secret (dp_controller d)) = storeAllow" "standardResolver d"
    and "serve d rq s = (rs, s')" "\<not> sameTables (stored s) (stored s')"
  shows "\<exists>e c x. findRoute (ac_devTokenEnabled (cf_auth (dp_config d))) (hq_method rq) (hq_path rq) = Some (True, e) \<and>
    authenticate d (hq_authorization rq) (sessionOf s) = (Inr c, x) \<and>
    (e \<in> set unguarded \<or> allowed (se_st x) (userFromContext (Some c)) (needs (se_st x) e (hq_body rq)))"
proof -
  have trans: "sameTables a b \<Longrightarrow> sameTables b z \<Longrightarrow> sameTables a z" for a b z by (simp add: sameTables_def)
  have same: "runsV sameTables m \<Longrightarrow> m z = (q, z') \<Longrightarrow> sameTables (stored z) (stored z')" for m z q z'
    using runsV_quiet [of m z] by simp
  obtain prot e where f: "findRoute (ac_devTokenEnabled (cf_auth (dp_config d))) (hq_method rq) (hq_path rq) = Some (prot, e)"
    using assms(4,5) by (auto simp: serve_def sameTables_def split: option.splits)
  have prot
  proof (rule ccontr)
    assume n: "\<not> prot"
    then obtain a where "e = AccountE a" using public_accounts findRoute_mem [OF f] by fastforce
    with f n assms(4) have "accountEndpoint d a None rq s = (rs, s')" by (simp add: serve_def handle_def Let_def)
    from same [OF tables.runsV_account this] assms(5) show False by simp
  qed
  obtain r x where au: "authenticate d (hq_authorization rq) (sessionOf s) = (r, x)" by fastforce
  have res: "reaches sameTables st st'" if "dp_resolver d = Some res" "res staff c st = (r', st')" for res staff c st r' st'
    using that assms(3) by (auto simp: standardResolver_def intro: reaches_step tables.staff)
  have st: "sameTables (stored s) (se_st x)"
    using reaches_tables [OF tables.authenticate_reaches [OF res au]] by (simp add: sessionOf_def stored_def)
  have sx: "stored (setSession x s) = se_st x" by (simp add: stored_def setSession_def)
  obtain c where r: "r = Inr c"
    using assms(4,5) f \<open>prot\<close> au st sx by (cases r) (auto simp: serve_def)
  let ?u = "userFromContext (Some c)" and ?s = "setSession x s"
  have h: "handle d e (Some c) rq ?s = (rs, s')" using assms(4) f \<open>prot\<close> au r by (simp add: serve_def)
  have ch: "\<not> sameTables (stored ?s) (stored s')" using assms(5) trans [OF st] sx by auto
  have "e \<in> set unguarded \<or> allowed (stored ?s) ?u (needs (stored ?s) e (hq_body rq))"
  proof (cases e)
    case (AccountE a)
    with h have "accountEndpoint d a (Some c) rq ?s = (rs, s')" by (simp add: handle_def Let_def)
    from same [OF tables.runsV_account this] ch show ?thesis by simp
  next
    case (EntityE a)
    with h ch entity_allowed [OF assms(1), of a ?s ?u "hq_body rq"] show ?thesis by (auto simp: handle_def Let_def unguarded_def)
  next
    case (SecretE a)
    with h ch secret_allowed [OF assms(2), of a ?s ?u "hq_body rq"] show ?thesis by (auto simp: handle_def Let_def unguarded_def)
  next
    case (RbacE a)
    with h have "rbacEndpoint d a ?u (hq_body rq) ?s = (rs, s')" by (simp add: handle_def Let_def)
    from same [OF tables.runsV_rbac this] ch show ?thesis by simp
  qed
  with f \<open>prot\<close> au r sx show ?thesis by auto
qed

text \<open>\<open>Ann\<close> deletes a project on which she has the role for it, with a token of the service.\<close>

definition accessDeps :: "limitServer dependencies" where
  "accessDeps = demoDeps\<lparr>dp_controller := demoCtl\<rparr>"

definition accessStore :: store where
  "accessStore = handlerStore\<lparr>usersT := [accountUser],
     bindingsT := [mkBinding ''b1'' demoUuid ''r1'' ''project'' (Some ''p'') ''x'' None 1]\<rparr>"

definition accessWorld :: world where
  "accessWorld = \<lparr> w_st = accessStore, w_rd = None, w_rand = [] \<rparr>"

definition accessServer :: "limitServer server" where
  "accessServer = (demoServer 10)\<lparr>sv_world := accessWorld\<rparr>"

definition deletion :: httpRequest where
  "deletion = (request POST ''/api/v1/project/delete'' (bearer ''t''))
     \<lparr>hq_body := noBody\<lparr>bd_idOrCode := Some (byCodeReq ''o'' ''prj'')\<rparr>\<rparr>"

definition annInfo :: userInfo where "annInfo = \<lparr> ui_id = demoUuid, ui_name = ''Ann'', ui_jwt = [], ui_cookie = [] \<rparr>"

lemma access_route: "findRoute (ac_devTokenEnabled (cf_auth (dp_config accessDeps))) (hq_method deletion) (hq_path deletion) =
    Some (True, EntityE entityEndpointName.DeleteProject)"
proof -
  have "ac_devTokenEnabled (cf_auth (dp_config accessDeps)) = False" by (simp add: accessDeps_def demoDeps_def setDefaults_def)
  moreover have "findRoute False POST ''/api/v1/project/delete'' = Some (True, EntityE entityEndpointName.DeleteProject)" by code_simp
  ultimately show ?thesis by (simp add: deletion_def request_def)
qed

lemma access_authenticated:
  obtains c x where "authenticate accessDeps (bearer ''t'') (sessionOf accessServer) = (Inr c, x)"
    "userFromContext (Some c) = annInfo" "se_st x = accessStore"
proof -
  let ?c = "issuedClaims accountUser 1500000 (1500000 + as_ttl demoAuth)"
  have cfg: "authConfigured accessDeps demoAuth" using demo_configured by (simp add: authConfigured_def accessDeps_def)
  have u: "u_id accountUser = demoUuid" "u_name accountUser = ''Ann''" "isUUID demoUuid" "trimSpace demoUuid = demoUuid" "demoUuid \<noteq> []"
    using demo_uuid by (simp_all add: accountUser_def passwordUser_def demoUuid_def)
  have s: "se_st (sessionOf accessServer) = accessStore" "se_tokens (sessionOf accessServer) = Some Map.empty"
    by (simp_all add: sessionOf_def accessServer_def accessWorld_def demoServer_def)
  have ne: "\<not> floorSec (1500000 + as_ttl demoAuth) \<le> clock accessStore"
    by (simp add: demoAuth_def demoTtl_def floorSec_def accessStore_def handlerStore_def demoStore_def)
  obtain y where y: "checkRevoked ?c (sessionOf accessServer) = (False, y)"
    using u s by (simp add: checkRevoked_def cacheGet_def issuedClaims_def noClaims_def accessStore_def
        getTokensValidAfter_def findUser_def isRevokedBy_def tvaOf_def passwordUser_def accountUser_def)
  have "authenticate accessDeps (bearer ''t'') (sessionOf accessServer) = (Inr ?c, y)"
    using authenticate_issued [OF cfg demo_token, of "sessionOf accessServer"] ne y u s by (simp add: demoToken_def)
  moreover have "userFromContext (Some ?c) = annInfo"
    by (simp add: userFromContext_def issuedClaims_def noClaims_def u annInfo_def)
  moreover have "se_st y = accessStore" using checkRevoked_frame [OF y] s by simp
  ultimately show thesis by (rule that)
qed

lemma access_deletes:
  "findRow Projects ''p'' accessStore \<noteq> None"
  "findRow Projects ''p'' (w_st (perform demoCtl annInfo (entityCall.DeleteProject (byCodeReq ''o'' ''prj'')) accessWorld)) = None"
  by code_simp+

theorem request_authorized_witness:
  "storeAllow accessStore annInfo ''project:delete'' \<lparr> res_type = ''project'', res_id = ''p'' \<rparr> = Inr ()"
proof -
  obtain c x where a: "authenticate accessDeps (bearer ''t'') (sessionOf accessServer) = (Inr c, x)"
    "userFromContext (Some c) = annInfo" "se_st x = accessStore" by (rule access_authenticated)
  have hd: "hq_authorization deletion = bearer ''t''" "hq_body deletion = noBody\<lparr>bd_idOrCode := Some (byCodeReq ''o'' ''prj'')\<rparr>"
    by (simp_all add: deletion_def request_def)
  let ?call = "entityCall.DeleteProject (byCodeReq ''o'' ''prj'')"
  have call: "entityCallOf entityEndpointName.DeleteProject (hq_body deletion) = Some ?call" by (simp add: hd)
  have w: "sv_world (setSession x accessServer) = accessWorld" "dp_controller accessDeps = demoCtl"
    using a(3) by (simp_all add: setSession_def accessServer_def accessWorld_def accessDeps_def)
  obtain rs s' where s: "serve accessDeps deletion accessServer = (rs, s')" by fastforce
  then have "sv_world s' = perform demoCtl annInfo ?call accessWorld"
    using entity_perform [OF call, of accessDeps annInfo "setSession x accessServer"] w a(1,2) access_route
    by (simp add: serve_def handle_def Let_def hd)
  then have ch: "\<not> sameTables (stored accessServer) (stored s')"
    using access_deletes by (auto simp: stored_def accessServer_def accessWorld_def sameTables_def findRow_def)
  have d: "ct_authz (dp_controller accessDeps) = Some storeAllow" "ss_authz (ct_secret (dp_controller accessDeps)) = storeAllow"
    "standardResolver accessDeps"
    by (simp_all add: accessDeps_def demoCtl_def standardResolver_def demoDeps_def)
  have "needs accessStore (EntityE entityEndpointName.DeleteProject) (hq_body deletion) = [(''project:delete'', ''project'', ''p'')]"
    unfolding hd by code_simp
  with request_authorized [OF d s ch] a access_route show ?thesis by (auto simp: allowed_def unguarded_def hd)
qed

end
