(* ===== verification/Spec2Isabelle.thy ===== *)
theory Spec2Isabelle
  imports ListingProps RepoProps RbacProps CacheProps RbacServiceProps HandlerProps ApiProps LoginProps TokensCacheProps
    RouterProps StartupProps SeedProps CacheScan CacheTypes RequestProps LogoutProps AccessProps
begin

text \<open>
  EnvVault is a secret manager.  Organizations hold projects, projects environments, environments folders (at most
  two levels), folders secrets.  A secret's value is encrypted and kept in PostgreSQL; a Redis server mirrors the
  metadata for search and for the resource tree; access is governed by role bindings at any level of the hierarchy.
  This library translates the Go code under \<open>src/internal\<close> and \<open>src/cmd\<close> and proves what makes it correct.

  How the parts work together.  The program reads its configuration, opens the database and Redis, writes the system
  roles and serves (\<open>internal/app\<close>, \<open>internal/config\<close>).  A request meets its route (\<open>internal/http/router.go\<close>) and
  is authenticated by a middleware (\<open>internal/auth\<close>: JSON web tokens with a
  revocation cache, personal access tokens); the HTTP handler (\<open>internal/http/controller\<close>) validates it and calls a
  service, or for the resource tree the repository itself, in which case the permission checks are the handler's.
  A service operation (\<open>internal/service\<close>) asks the authorizer
  (\<open>internal/auth\<close>), which asks the RBAC store (\<open>internal/store/postgres/rbac.go\<close>) for the chain of scopes
  above a resource and for the permissions bound there; then it encrypts (\<open>internal/crypto\<close>), runs
  transactions of the repository (\<open>internal/store/postgres/repository.go\<close>), records audits and mirrors the
  result in the cache (\<open>internal/store/redis\<close>).

  Which theory models what:
  \<^item> \<open>Prelude\<close>: strings, errors as sums, folds and filters with errors, generic list lemmas, the collections
    of rewrite rules.
  \<^item> \<open>Domain\<close>: the records of \<open>internal/domain\<close> and the pagination.
  \<^item> \<open>Store\<close>: the database, a record of row lists with a supply of identifiers and a clock; transactions \<open>tx\<close>,
    which \<open>runTx\<close> rolls back on an error; the constraints of \<open>configs/schema.sql\<close>.
  \<^item> \<open>Authz\<close>: \<open>internal/auth/rbac.go\<close> over a \<open>permission_store\<close>, the locale of what the authorizer relies on.
  \<^item> \<open>RbacStore\<close>, \<open>RbacAdmin\<close>, \<open>RbacViews\<close>: \<open>rbac.go\<close> and \<open>user_cache.go\<close>: permissions and scope
    chains; users, roles and bindings; the listings.
  \<^item> \<open>Repository\<close>, \<open>SecretRepo\<close>, \<open>Navigation\<close>: \<open>repository.go\<close> and \<open>repository_tree.go\<close>: the hierarchy and its
    cascades; secrets; the listings narrowed by what the caller may navigate to.
  \<^item> \<open>Crypto\<close>: the encryptor over an abstract AEAD cipher, a parameter with the law that opening inverts sealing.
  \<^item> \<open>RedisCache\<close>: the server as an association list of keys to hashes, sets and strings, with a flag that says
    whether it answers, and the operations of \<open>cache.go\<close>.
  \<^item> \<open>SecretService\<close>, \<open>SecretBatch\<close>: \<open>secret_service.go\<close>, handlers over the world of database, cache and
    random source.
  \<^item> \<open>TreeService\<close>: \<open>tree_service.go\<close>: the resource tree and the folder view of a project.
  \<^item> \<open>RbacService\<close>: \<open>rbac_service.go\<close>: the checks in front of the RBAC store, among them the coverage of
    permissions along the scope chain.
  \<^item> \<open>Handlers\<close>, \<open>ApiHandlers\<close>, \<open>AuthHandlers\<close>: the handlers of resources; of secrets, search and RBAC; of accounts.
    A handler is a function of the world that writes replies (status, business code, data).
  \<^item> \<open>Password\<close>, \<open>RateLimit\<close>, \<open>AuthStore\<close>, \<open>Tokens\<close>, \<open>AuthService\<close>: accounts. Argon2id hashes with base64 and the
    scanning of \<open>fmt\<close>; the login limiter over sorted sets; users with credentials and access tokens in the
    database; claims, keys, the middleware and its cache; registration, login, logout.

  \<^item> \<open>Config\<close>, \<open>Startup\<close>: \<open>config.go\<close> with the connection string and its escaping; \<open>app.go\<close> up to listening.
  \<^item> \<open>Router\<close>: the route table and the dispatch of every route to its handler, over one \<open>server\<close>: the world, the
    login attempts, the revocation cache and the limiter.
  \<^item> \<open>Seed\<close>: \<open>cmd/seed\<close>, the tool that fills a server over its API; the server is a parameter, and state passing
    operations count what the run did.

  What the lemmas show:
  \<^item> \<open>SchemaProps\<close>, \<open>RepoProps\<close>: over every history the constraints and the two-level shape of folders hold;
    deletions cascade as described; creation over several environments is all or nothing.
  \<^item> \<open>SecretProps\<close>, \<open>SecretWriteProps\<close>: paths and look-up; what each write of a secret changes.
  \<^item> \<open>RbacProps\<close>: bindings stay well formed; granting gives, revoking takes away; grants are isolated.
  \<^item> \<open>ServiceProps\<close>, \<open>BatchProps\<close>, \<open>ListingProps\<close>: authorization, encryption round trip and audit of the
    secret operations; the agreement of the SQL narrowing with the authorizer.
  \<^item> \<open>TreeProps\<close>, \<open>FolderGroupProps\<close>, \<open>NavigationProps\<close>: the assembled tree against the forest of the parent
    relation, its authorization and depth; the grouping of folders; navigation covers access.
  \<^item> \<open>RbacServiceProps\<close>: nobody grants more than they hold, organizations keep an owner, the coverage rule; and where
    a role of another organization can be changed.
  \<^item> \<open>HandlerProps\<close>, \<open>ApiProps\<close>: no handler changes the resource tree without a permission, except folder creation;
    the replies of the global search.
  \<^item> \<open>LoginProps\<close>, \<open>SessionProps\<close>: the outcome of a login, who becomes administrator, the lockout that never ends
    (locale \<open>limiter_contract\<close>); which tokens are accepted, logout, personal access tokens.
  \<^item> \<open>TokensCacheProps\<close>: the revocation cache as a step relation of interleaved calls: it is never ahead of the
    database, and a refresh heals it.
  \<^item> \<open>RouterProps\<close>: what an anonymous caller reaches; the unread registration switch.
  \<^item> \<open>ConfigProps\<close>, \<open>StartupProps\<close>: the connection string carries the credentials; a started server has all system
    roles, its data is untouched, and the bootstrap administrator may do everything.
  \<^item> \<open>SeedProps\<close>: the batches that a job of the seeding tool sends, over the traffic with the server: each folder
    comes from an answer of the server for that environment.
  \<^item> \<open>CacheProps\<close>: the cache as an implementation of a map from identifiers to secrets (locale
    \<open>secret_cache\<close>), so that searches answer from the last writes.
  \<^item> \<open>CacheScan\<close>: the cursor loop of \<open>deletePathKeys\<close>, which ends and removes every path, as the one step that
    \<open>RedisCache\<close> takes for it does.  \<open>CacheTypes\<close>: no call of the cache meets a key of another type.
  \<^item> \<open>Requests\<close>, \<open>RequestProps\<close>: every request is a run of whole store operations, by the locales \<open>actor_runs\<close>,
    \<open>data_runs\<close>, \<open>account_runs\<close> and \<open>api_runs\<close> over a relation of steps; hence the invariants of the stored data hold
    over every history of the server, and requests on resources and secrets leave accounts and roles alone.
  \<^item> \<open>LogoutProps\<close>: over every later history of the instance a logout stays final: the revocation time never falls,
    neither in the database (a second interpretation of \<open>rbac_invariant\<close>) nor in the cache.
  \<^item> \<open>AccessProps\<close>: over all routes, a request that changes data is authenticated and has the permissions it needs,
    two routes apart; the handlers that change no data by \<open>account_runs\<close> over the relation of equal tables.

  Conventions.  SQL is translated statement by statement to operations on row lists.  The identifiers that
  \<open>NewUUID\<close> and the database draw come from an unbounded supply in the store, the random bytes (nonces, salts,
  tokens) from one in the world; \<open>now()\<close> and \<open>time.Now()\<close> are the clock of the store, in microseconds where
  units matter, and it does not move during a call.  Identifiers are taken to be UUIDs, so the errors of the
  \<open>::uuid\<close> casts do not occur.  Rows that tie in an \<open>order by\<close> keep the order of insertion, and the members of a
  Redis set that of their insertion; no property depends on it except where it says so.  Error values keep the
  sentinels the code compares with; the text of other errors is abbreviated.  All recursion is structural or
  terminates by a size that shrinks, so there is no fuel; the one loop that has no bound of its own, over the cursors
  of \<open>SCAN\<close>, is a partial function that is proved to return.  Counts and offsets are unbounded integers: the code
  computes them in 64-bit integers, and page numbers near the top of that range would wrap there.  The
  parameters of Argon2 keep their widths.  Background goroutines are steps of the request that starts them, except
  for the refresher of the revocation cache, whose steps interleave with the requests.  Transactions are serial.

  Parameters stand for code outside the repository: the AEAD cipher, Argon2, SHA-256, x509 with PEM, and the JWT
  library, with their documented laws as hypotheses (\<open>aeadOk\<close>, \<open>argonOk\<close>, \<open>keyPair\<close>), each met by a concrete
  instance; so does the cursor of \<open>SCAN\<close> (\<open>scanMatches\<close>, \<open>scanEnds\<close>, \<open>scanComplete\<close>).  The recursive query of
  \<open>ListRoleBindingsCascading\<close> has the meaning of its text, though PostgreSQL refuses its form.

  viper, gin, the environment and the reachability of database and Redis are parameters of \<open>Config\<close>, \<open>Router\<close> and
  \<open>Startup\<close>, without hypotheses.

  Not modelled: logging and request identifiers, the JSON layout and messages of replies, and the life of the
  connections to database and Redis.  The workers of the seeding tool take turns at whole jobs.
\<close>

end
